(* ===== verification/Prelude.thy ===== *)
theory Prelude
  imports Main "HOL-Library.Multiset"
begin

text \<open>
  Shared vocabulary of the development.

  \<^item> \<open>AccessError\<close>, \<open>ValueError\<close> and their kin: the exceptions the modelled code
    raises, as the values of one datatype; a fallible operation returns
    \<open>py_error + 'a\<close>, with \<open>Inl\<close> the exception.
  \<^item> SQL tables as lists of rows: \<open>sel\<close> (SELECT ... WHERE), \<open>upd\<close> (UPDATE ... WHERE),
    \<open>rowcount\<close> and \<open>del\<close> (DELETE ... WHERE).  The locale \<open>keyed_table\<close> is the
    contract of a table with a primary key, proved once and interpreted by the
    theories that own the tables.
  \<^item> \<open>max_by_key\<close>: the first row of an \<open>ORDER BY k DESC LIMIT 1\<close> query.
\<close>

named_theorems table_simps \<open>how the table operations act on rows and keys\<close>
named_theorems guard_defs \<open>definitions of the guards and small accessors of the models\<close>

section \<open>Exceptions\<close>

datatype py_error =
    AccessError "int option" string
  | ValueError string
  | RuntimeError string
  | FailedError string
  | OSError string
  | KeyError
  | IndexError
  | TypeError
  | IntegrityError
  | PhaseMismatchError
  | RevisionMismatchError
  | ContentInvalidError
  | UnavailableError
  | PermissionDenied string
  | SshFingerprintError string
  | RsyncArgsError string
  | InteractionError string

type_synonym 'a py = "py_error + 'a"

definition bindE :: "'a py \<Rightarrow> ('a \<Rightarrow> 'b py) \<Rightarrow> 'b py" where
  "bindE m f = (case m of Inl e \<Rightarrow> Inl e | Inr a \<Rightarrow> f a)"

lemma bindE_simps [simp]:
  "bindE (Inl e) f = Inl e"
  "bindE (Inr a) f = f a"
  by (simp_all add: bindE_def)

lemma bindE_Inr_iff: "bindE m f = Inr b \<longleftrightarrow> (\<exists>a. m = Inr a \<and> f a = Inr b)"
  by (cases m) auto

lemma bindE_InrE [elim!]:
  assumes "bindE m f = Inr b"
  obtains a where "m = Inr a" and "f a = Inr b"
  using assms by (auto simp: bindE_Inr_iff)

text \<open>
  \<open>access st msg\<close> is \<open>AccessError(msg, status=st)\<close>; \<open>guardE P e\<close> raises \<open>e\<close> unless \<open>P\<close> holds and
  \<open>demandE e x\<close> is \<open>.demand(e)\<close> on the result \<open>x\<close> of a query.
\<close>

definition access :: "int \<Rightarrow> string \<Rightarrow> py_error" where
  "access st msg = AccessError (Some st) msg"

definition guardE :: "bool \<Rightarrow> py_error \<Rightarrow> unit py" where
  "guardE P e = (if P then Inr () else Inl e)"

definition demandE :: "py_error \<Rightarrow> 'a option \<Rightarrow> 'a py" where
  "demandE e x = (case x of None \<Rightarrow> Inl e | Some a \<Rightarrow> Inr a)"

lemma guardE_Inr [simp]: "guardE P e = Inr u \<longleftrightarrow> P"
  by (simp add: guardE_def)

lemma guardE_bind [simp]: "bindE (guardE P e) f = Inr b \<longleftrightarrow> P \<and> f () = Inr b"
  by (simp add: guardE_def)

lemma guardE_True [simp]: "guardE True e = Inr ()"
  by (simp add: guardE_def)

lemma guardE_False [simp]: "guardE False e = Inl e"
  by (simp add: guardE_def)

lemma demandE_Inr [simp]: "demandE e x = Inr a \<longleftrightarrow> x = Some a"
  by (cases x) (simp_all add: demandE_def)

lemma demandE_Some [simp]: "demandE e (Some a) = Inr a"
  by (simp add: demandE_def)

lemma demandE_None [simp]: "demandE e None = Inl e"
  by (simp add: demandE_def)

fun mapE :: "('a \<Rightarrow> 'b py) \<Rightarrow> 'a list \<Rightarrow> 'b list py" where
  "mapE f [] = Inr []"
| "mapE f (x # xs) = bindE (f x) (\<lambda>y. bindE (mapE f xs) (\<lambda>ys. Inr (y # ys)))"

lemma mapE_Inr_length: "mapE f xs = Inr ys \<Longrightarrow> length ys = length xs"
  by (induction xs arbitrary: ys) auto

lemma mapE_total: "(\<And>x. x \<in> set xs \<Longrightarrow> f x = Inr (g x)) \<Longrightarrow> mapE f xs = Inr (map g xs)"
  by (induction xs) auto

section \<open>SQL tables\<close>

text \<open>
  A table is the list of its rows in insertion order.  A query reads the rows that satisfy
  its WHERE clause, an UPDATE rewrites them in place and reports how many there were.
\<close>

definition sel :: "('r \<Rightarrow> bool) \<Rightarrow> 'r list \<Rightarrow> 'r list" where
  "sel P t = filter P t"

definition sel_one :: "('r \<Rightarrow> bool) \<Rightarrow> 'r list \<Rightarrow> 'r option" where
  "sel_one P t = (case sel P t of [] \<Rightarrow> None | r # _ \<Rightarrow> Some r)"

definition upd :: "('r \<Rightarrow> bool) \<Rightarrow> ('r \<Rightarrow> 'r) \<Rightarrow> 'r list \<Rightarrow> 'r list" where
  "upd P f t = map (\<lambda>r. if P r then f r else r) t"

definition rowcount :: "('r \<Rightarrow> bool) \<Rightarrow> 'r list \<Rightarrow> nat" where
  "rowcount P t = length (filter P t)"

definition del :: "('r \<Rightarrow> bool) \<Rightarrow> 'r list \<Rightarrow> 'r list" where
  "del P t = filter (\<lambda>r. \<not> P r) t"

lemma sel_set [table_simps]: "r \<in> set (sel P t) \<longleftrightarrow> r \<in> set t \<and> P r"
  by (auto simp: sel_def)

lemma sel_one_Some_in:
  "sel_one P t = Some r \<Longrightarrow> r \<in> set t \<and> P r"
  by (auto simp: sel_one_def sel_def split: list.splits dest: filter_eq_ConsD)

lemma sel_one_None [table_simps]: "sel_one P t = None \<longleftrightarrow> (\<forall>r \<in> set t. \<not> P r)"
  by (auto simp: sel_one_def sel_def filter_empty_conv split: list.splits dest: filter_eq_ConsD)

lemma upd_set [table_simps]:
  "r \<in> set (upd P f t) \<longleftrightarrow> (\<exists>r0 \<in> set t. r = (if P r0 then f r0 else r0))"
  by (auto simp: upd_def)

lemma upd_length [table_simps]: "length (upd P f t) = length t"
  by (simp add: upd_def)

lemma upd_none [table_simps]: "rowcount P t = 0 \<Longrightarrow> upd P f t = t"
  by (induction t) (auto simp: upd_def rowcount_def split: if_splits)

lemma map_upd [table_simps]: "(\<And>r. k (f r) = k r) \<Longrightarrow> map k (upd P f t) = map k t"
  by (simp add: upd_def)

lemma upd_all:
  assumes "r' \<in> set (upd P f t)"
    and "\<And>r. r \<in> set t \<Longrightarrow> P r \<Longrightarrow> Q (f r)"
    and "\<And>r. r \<in> set t \<Longrightarrow> \<not> P r \<Longrightarrow> Q r"
  shows "Q r'"
proof -
  obtain r0 where r0: "r0 \<in> set t" "r' = (if P r0 then f r0 else r0)"
    using assms(1) by (auto simp: upd_set)
  show ?thesis using assms(2,3) [OF r0(1)] r0(2) by (cases "P r0") simp_all
qed

lemma del_set [table_simps]: "r \<in> set (del P t) \<longleftrightarrow> r \<in> set t \<and> \<not> P r"
  by (auto simp: del_def)

lemma rowcount_pos [table_simps]: "0 < rowcount P t \<longleftrightarrow> (\<exists>r \<in> set t. P r)"
  by (auto simp: rowcount_def filter_empty_conv)

lemma rowcount_zero [table_simps]: "rowcount P t = 0 \<longleftrightarrow> (\<forall>r \<in> set t. \<not> P r)"
  by (auto simp: rowcount_def filter_empty_conv)

lemma distinct_map_filter_key: "distinct (map k t) \<Longrightarrow> distinct (map k (filter P t))"
  by (induction t) auto

lemma distinct_map_eq:
  "distinct (map k t) \<Longrightarrow> a \<in> set t \<Longrightarrow> b \<in> set t \<Longrightarrow> k a = k b \<Longrightarrow> a = b"
  by (induction t) (auto simp: image_iff)

subsection \<open>Tables with a primary key\<close>

locale keyed_table =
  fixes pkey :: "'r \<Rightarrow> 'k"
    and ok :: "'r list \<Rightarrow> bool"
  assumes ok_iff: "ok t \<longleftrightarrow> distinct (map pkey t)"
begin

lemma ok_Nil: "ok []"
  by (simp add: ok_iff)

lemma ok_insert: "ok t \<Longrightarrow> pkey r \<notin> pkey ` set t \<Longrightarrow> ok (t @ [r])"
  by (auto simp: ok_iff)

lemma ok_upd: "ok t \<Longrightarrow> (\<And>r. pkey (f r) = pkey r) \<Longrightarrow> ok (upd P f t)"
  by (simp add: ok_iff map_upd)

lemma ok_del: "ok t \<Longrightarrow> ok (del P t)"
  by (simp add: ok_iff del_def distinct_map_filter_key)

lemma unique: "ok t \<Longrightarrow> a \<in> set t \<Longrightarrow> b \<in> set t \<Longrightarrow> pkey a = pkey b \<Longrightarrow> a = b"
  by (auto simp: ok_iff dest: distinct_map_eq)

lemma rowcount_key_le_one: "ok t \<Longrightarrow> rowcount (\<lambda>r. pkey r = k \<and> P r) t \<le> 1"
proof (induction t)
  case Nil
  show ?case by (simp add: rowcount_def)
next
  case (Cons r t)
  have t: "ok t" using Cons.prems by (simp add: ok_iff)
  show ?case
  proof (cases "pkey r = k \<and> P r")
    case True
    then have "rowcount (\<lambda>r. pkey r = k \<and> P r) t = 0"
      using Cons.prems by (auto simp: ok_iff rowcount_zero image_iff)
    then show ?thesis by (simp add: rowcount_def)
  next
    case False
    then show ?thesis using Cons.IH [OF t] by (auto simp: rowcount_def)
  qed
qed

lemma sel_one_key:
  assumes "ok t" and "r \<in> set t" and "P r"
  shows "sel_one (\<lambda>x. pkey x = pkey r \<and> P x) t = Some r"
proof (cases "sel_one (\<lambda>x. pkey x = pkey r \<and> P x) t")
  case None
  then show ?thesis using assms by (auto simp: sel_one_None)
next
  case (Some x)
  then show ?thesis using unique [OF assms(1) _ assms(2)] by (auto dest!: sel_one_Some_in)
qed

end

section \<open>ORDER BY ... DESC LIMIT 1\<close>

text \<open>The row with the greatest key; of two rows with the same key the earlier one.\<close>

fun max_by_key :: "('r \<Rightarrow> 'k::linorder) \<Rightarrow> 'r list \<Rightarrow> 'r option" where
  "max_by_key k [] = None"
| "max_by_key k (r # rs) =
     (case max_by_key k rs of None \<Rightarrow> Some r | Some m \<Rightarrow> if k m \<le> k r then Some r else Some m)"

lemma max_by_key_None [simp]: "max_by_key k rs = None \<longleftrightarrow> rs = []"
  by (cases rs) (auto split: option.splits)

lemma max_by_key_in: "max_by_key k rs = Some m \<Longrightarrow> m \<in> set rs"
  by (induction rs arbitrary: m) (auto split: option.splits if_splits)

lemma max_by_key_ge: "max_by_key k rs = Some m \<Longrightarrow> r \<in> set rs \<Longrightarrow> k r \<le> k m"
  by (induction rs arbitrary: m) (auto split: option.splits if_splits)

lemma max_by_key_unique:
  assumes "m \<in> set rs" and "\<And>r. r \<in> set rs \<Longrightarrow> r \<noteq> m \<Longrightarrow> k r < k m"
  shows "max_by_key k rs = Some m"
proof (cases "max_by_key k rs")
  case None
  then show ?thesis using assms(1) by auto
next
  case (Some x)
  have "x \<in> set rs" using Some by (rule max_by_key_in)
  moreover have "k m \<le> k x" using Some assms(1) by (rule max_by_key_ge)
  ultimately have "x = m" using assms(2) [of x] by (cases "x = m") auto
  then show ?thesis using Some by simp
qed

lemma max_by_key_map:
  "(\<And>r. k (f r) = k r) \<Longrightarrow> max_by_key k (map f rs) = map_option f (max_by_key k rs)"
  by (induction rs) (auto split: option.splits)

lemma sel_upd: "(\<And>r. Q (f r) = Q r) \<Longrightarrow> sel Q (upd P f t) = upd P f (sel Q t)"
  by (induction t) (auto simp: sel_def upd_def)

end
