(* ===== verification/Noisy.thy ===== *)
theory Noisy
  imports PyStr
begin

text \<open>
  Noisy secrets: \<open>atr/noisy.py\<close>.

  A secret is \<open>secret_NAMESPACE_PAYLOADCHECKSUM\<close>: the namespace encodes an optional domain
  name, the payload is 32 random symbols, and the checksum is two interleaved four-symbol
  remainders over the field with 37 elements.  The definitions follow the module's functions one
  for one, on bytes; the random choices of \<open>construct_payload\<close> are its argument.  The lemmas
  show that every constructed secret verifies, that \<open>verify\<close> never raises and accepts exactly
  the constructed strings, that the namespace encoding is invertible, and that the checksum
  detects every change confined to four consecutive symbols.
\<close>

section \<open>Alphabets\<close>

definition BASE37_ALPHABET :: string where
  "BASE37_ALPHABET = ''0123456789_abcdefghijklmnopqrstuvwxyz''"

definition BASE36_ALPHABET :: string where
  "BASE36_ALPHABET = ''0123456789abcdefghijklmnopqrstuvwxyz''"

definition BASE32_ALPHABET :: string where
  "BASE32_ALPHABET = ''23456789abcdefghijkmnpqrstuvwxyz''"

definition COMPONENT_ALPHABET :: string where
  "COMPONENT_ALPHABET = ''-0123456789abcdefghijklmnopqrstuvwxyz''"

lemmas alphabet_defs =
  BASE37_ALPHABET_def BASE36_ALPHABET_def BASE32_ALPHABET_def COMPONENT_ALPHABET_def

fun index_of :: "'a list \<Rightarrow> 'a \<Rightarrow> nat option" where
  "index_of [] x = None"
| "index_of (y # ys) x = (if y = x then Some 0 else map_option Suc (index_of ys x))"

definition FIELD_MAP :: "char \<Rightarrow> int option" where
  "FIELD_MAP b = map_option int (index_of BASE37_ALPHABET b)"

definition Q :: int where "Q = 37"

lemma Q_pos [simp]: "0 < Q"
  by (simp add: Q_def)

section \<open>The checksum\<close>

type_synonym reg = "int \<times> int \<times> int \<times> int"

text \<open>One iteration of the loop of \<open>checksum_compute\<close>, on the field value of the byte.\<close>

fun checksum_step :: "reg \<Rightarrow> int \<Rightarrow> reg" where
  "checksum_step (r0, r1, r2, r3) v =
     (let feedback = (v + r0) mod Q
      in ((r1 - feedback * 6) mod Q, (r2 - feedback * 26) mod Q, (r3 - feedback * 21) mod Q,
          (- feedback * 3) mod Q))"

fun checksum_loop :: "reg \<Rightarrow> string \<Rightarrow> reg py" where
  "checksum_loop r [] = Inr r"
| "checksum_loop r (b # bs) =
     (case FIELD_MAP b of None \<Rightarrow> Inl KeyError | Some v \<Rightarrow> checksum_loop (checksum_step r v) bs)"

fun checksum_digits :: "reg \<Rightarrow> string" where
  "checksum_digits (r0, r1, r2, r3) =
     map (\<lambda>r. BASE37_ALPHABET ! nat ((- r) mod Q)) [r0, r1, r2, r3]"

definition checksum_compute :: "string \<Rightarrow> string py" where
  "checksum_compute message =
     bindE (checksum_loop (0, 0, 0, 0) message) (\<lambda>r. Inr (checksum_digits r))"

section \<open>Validation predicates\<close>

definition subset_of :: "string \<Rightarrow> string \<Rightarrow> bool" where
  "subset_of value alphabet = list_all (\<lambda>c. c \<in> set alphabet) value"

definition is_component_string :: "string \<Rightarrow> bool" where
  "is_component_string value = subset_of value COMPONENT_ALPHABET"

definition is_payload_string :: "string \<Rightarrow> bool" where
  "is_payload_string value = subset_of value BASE32_ALPHABET"

definition is_namespace_string_suffix :: "string \<Rightarrow> bool py" where
  "is_namespace_string_suffix suffix =
     (if suffix = [] then Inl IndexError
      else if hd suffix \<notin> set BASE36_ALPHABET then Inr False
      else if length suffix = 1 then Inr True
      else if last suffix \<notin> set BASE36_ALPHABET then Inr False
      else if length suffix = 2 then Inr True
      else Inr (subset_of (butlast (tl suffix)) BASE37_ALPHABET))"

definition is_namespace_string :: "string \<Rightarrow> bool py" where
  "is_namespace_string value =
     (if length value = 0 then Inr False
      else (case index_of BASE32_ALPHABET (hd value) of
              None \<Rightarrow> Inr False
            | Some i \<Rightarrow>
                if i = 1 then Inr False
                else if length value = 1 then Inr (take 1 value = ''2'' \<and> i = 0)
                else if length value \<noteq> i + 1 then Inr False
                else if take 1 (drop 1 value) \<noteq> ''_'' then Inr False
                else is_namespace_string_suffix (drop 2 value)))"

section \<open>Construction\<close>

fun check_components :: "string list \<Rightarrow> unit py" where
  "check_components [] = Inr ()"
| "check_components (component # rest) =
     (if \<not> is_component_string component then Inl (ValueError ''Invalid component'')
      else if startswith component ''-'' \<or> endswith component ''-''
        then Inl (ValueError ''Component cannot start or end with a hyphen'')
      else if component = [] then Inl (ValueError ''Component cannot be empty'')
      else check_components rest)"

definition construct_namespace :: "string option \<Rightarrow> string py" where
  "construct_namespace fqdn =
     (case fqdn of
        None \<Rightarrow> Inr ''2''
      | Some name \<Rightarrow>
          let components = split_on CHR ''.'' name
          in bindE (check_components components) (\<lambda>_.
             let joined = join ''_'' (map (replace_str ''-'' ''__'') (rev components));
                 joined_length = length joined
             in if joined_length > 30 then Inl (ValueError ''Namespace is too long'')
                else Inr ([BASE32_ALPHABET ! (joined_length + 1)] @ ''_'' @ joined)))"

definition construct_namespace_domain :: "string \<Rightarrow> string option" where
  "construct_namespace_domain namespace =
     (if namespace = ''2'' then None
      else Some (join ''.'' (rev (split_on CHR ''_'' (replace_str ''__'' ''-'' (drop 2 namespace))))))"

definition construct_padded_namespace_tag :: "string \<Rightarrow> string" where
  "construct_padded_namespace_tag namespace_string =
     namespace_string @ replicate (32 - length namespace_string) CHR ''_''"

definition construct_payload :: "(nat \<Rightarrow> char) \<Rightarrow> string" where
  "construct_payload choice = map choice [0..<32]"

text \<open>The slices \<open>[::2]\<close> and \<open>[1::2]\<close>.\<close>

fun evens :: "'a list \<Rightarrow> 'a list" where
  "evens [] = []"
| "evens [x] = [x]"
| "evens (x # y # zs) = x # evens zs"

definition odds :: "'a list \<Rightarrow> 'a list" where
  "odds xs = evens (drop 1 xs)"

definition construct_message_tags :: "string \<Rightarrow> string \<Rightarrow> string \<times> string" where
  "construct_message_tags namespace_string payload_string =
     (let padded = construct_padded_namespace_tag namespace_string
      in (evens padded @ evens payload_string, odds padded @ odds payload_string))"

definition construct_interleaved_checksum_tag :: "string \<Rightarrow> string \<Rightarrow> string" where
  "construct_interleaved_checksum_tag even_checksum odd_checksum =
     concat (map (\<lambda>(a, b). [a, b]) (zip even_checksum odd_checksum))"

definition construct_noisy_secret_tag :: "string \<Rightarrow> string \<Rightarrow> string py" where
  "construct_noisy_secret_tag namespace_string payload_string =
     (let (even_tag, odd_tag) = construct_message_tags namespace_string payload_string
      in bindE (checksum_compute even_tag) (\<lambda>even_checksum.
         bindE (checksum_compute odd_tag) (\<lambda>odd_checksum.
         Inr (''secret'' @ ''_'' @ namespace_string @ ''_'' @ payload_string @
              construct_interleaved_checksum_tag even_checksum odd_checksum))))"

definition construct_noisy_secret :: "(nat \<Rightarrow> char) \<Rightarrow> string option \<Rightarrow> string py" where
  "construct_noisy_secret choice fqdn =
     bindE (construct_namespace fqdn) (\<lambda>namespace.
     construct_noisy_secret_tag namespace (construct_payload choice))"

section \<open>Verification\<close>

definition slice :: "nat \<Rightarrow> nat \<Rightarrow> 'a list \<Rightarrow> 'a list" where
  "slice i j xs = take (j - i) (drop i xs)"

definition is_candidate :: "string \<Rightarrow> bool" where
  "is_candidate value = (length value = 49 \<or> (51 \<le> length value \<and> length value \<le> 80))"

definition construct_candidate_namespace :: "string \<Rightarrow> string option py" where
  "construct_candidate_namespace candidate =
     (let namespace_range = slice 7 (length candidate - 41) candidate
      in bindE (is_namespace_string namespace_range) (\<lambda>ok.
         Inr (if ok then Some namespace_range else None)))"

definition construct_candidate_payload :: "string \<Rightarrow> string option" where
  "construct_candidate_payload candidate =
     (let payload_range = slice (length candidate - 40) (length candidate - 8) candidate
      in if is_payload_string payload_range then Some payload_range else None)"

definition construct_expected_candidate :: "string \<Rightarrow> string option py" where
  "construct_expected_candidate candidate =
     bindE (construct_candidate_namespace candidate) (\<lambda>ns.
       case ns of
         None \<Rightarrow> Inr None
       | Some candidate_namespace \<Rightarrow>
           (case construct_candidate_payload candidate of
              None \<Rightarrow> Inr None
            | Some candidate_payload \<Rightarrow>
                bindE (construct_noisy_secret_tag candidate_namespace candidate_payload)
                  (\<lambda>expected. Inr (Some expected))))"

definition is_noisy_secret_tag :: "string \<Rightarrow> bool py" where
  "is_noisy_secret_tag candidate =
     bindE (construct_expected_candidate candidate) (\<lambda>expected.
       case expected of None \<Rightarrow> Inr False | Some e \<Rightarrow> Inr (candidate = e))"

definition create :: "(nat \<Rightarrow> char) \<Rightarrow> string option \<Rightarrow> string py" where
  "create choice fqdn = construct_noisy_secret choice fqdn"

definition verify :: "string \<Rightarrow> bool py" where
  "verify bytes_value =
     (if \<not> is_candidate bytes_value then Inr False else is_noisy_secret_tag bytes_value)"

section \<open>Lemmas on the alphabets\<close>

lemma index_of_Some: "index_of xs x = Some i \<Longrightarrow> i < length xs \<and> xs ! i = x"
  by (induction xs arbitrary: i) (auto split: if_splits)

lemma index_of_None [simp]: "index_of xs x = None \<longleftrightarrow> x \<notin> set xs"
  by (induction xs) auto

lemma index_of_nth: "distinct xs \<Longrightarrow> i < length xs \<Longrightarrow> index_of xs (xs ! i) = Some i"
  by (induction xs arbitrary: i) (auto simp: nth_Cons split: nat.splits)

lemma length_BASE37 [simp]: "length BASE37_ALPHABET = 37"
  by (simp add: BASE37_ALPHABET_def)

lemma length_BASE32 [simp]: "length BASE32_ALPHABET = 32"
  by (simp add: BASE32_ALPHABET_def)

lemma distinct_BASE37: "distinct BASE37_ALPHABET"
  by (simp add: BASE37_ALPHABET_def)

lemma distinct_BASE32: "distinct BASE32_ALPHABET"
  by (simp add: BASE32_ALPHABET_def)

lemma BASE32_in_BASE37: "c \<in> set BASE32_ALPHABET \<Longrightarrow> c \<in> set BASE37_ALPHABET"
  by (auto simp: alphabet_defs)

lemma BASE36_in_BASE37: "c \<in> set BASE36_ALPHABET \<Longrightarrow> c \<in> set BASE37_ALPHABET"
  by (auto simp: alphabet_defs)

lemma underscore_in_BASE37: "CHR ''_'' \<in> set BASE37_ALPHABET"
  by (simp add: alphabet_defs)

lemma COMPONENT_cases: "c \<in> set COMPONENT_ALPHABET \<longleftrightarrow> c = CHR ''-'' \<or> c \<in> set BASE36_ALPHABET"
  by (auto simp: alphabet_defs)

lemma BASE36_not_underscore: "c \<in> set BASE36_ALPHABET \<Longrightarrow> c \<noteq> CHR ''_''"
  by (auto simp: alphabet_defs)

lemma BASE36_not_hyphen: "c \<in> set BASE36_ALPHABET \<Longrightarrow> c \<noteq> CHR ''-''"
  by (auto simp: alphabet_defs)

lemma subset_of_iff: "subset_of value alphabet \<longleftrightarrow> set value \<subseteq> set alphabet"
  by (auto simp: subset_of_def list_all_iff)

lemma FIELD_MAP_range: "FIELD_MAP b = Some v \<Longrightarrow> 0 \<le> v \<and> v < Q"
  by (auto simp: FIELD_MAP_def Q_def dest: index_of_Some)

lemma FIELD_MAP_inj: "FIELD_MAP a = Some v \<Longrightarrow> FIELD_MAP b = Some v \<Longrightarrow> a = b"
  by (auto simp: FIELD_MAP_def dest!: index_of_Some)

lemma FIELD_MAP_defined: "(\<exists>v. FIELD_MAP b = Some v) \<longleftrightarrow> b \<in> set BASE37_ALPHABET"
proof -
  have "FIELD_MAP b = None \<longleftrightarrow> b \<notin> set BASE37_ALPHABET"
    by (simp add: FIELD_MAP_def)
  then show ?thesis by (cases "FIELD_MAP b") auto
qed

lemma in_BASE37E:
  assumes "b \<in> set BASE37_ALPHABET"
  obtains v where "FIELD_MAP b = Some v" and "0 \<le> v" and "v < Q"
  using assms FIELD_MAP_defined FIELD_MAP_range by blast

section \<open>The checksum detects bursts\<close>

fun reg_ok :: "reg \<Rightarrow> bool" where
  "reg_ok (r0, r1, r2, r3) \<longleftrightarrow>
     (0 \<le> r0 \<and> r0 < Q) \<and> (0 \<le> r1 \<and> r1 < Q) \<and> (0 \<le> r2 \<and> r2 < Q) \<and> (0 \<le> r3 \<and> r3 < Q)"

text \<open>The last \<open>k\<close> cells of the register.\<close>

fun reg_top :: "nat \<Rightarrow> reg \<Rightarrow> int list" where
  "reg_top k (r0, r1, r2, r3) = drop (4 - k) [r0, r1, r2, r3]"

fun feedback :: "reg \<Rightarrow> int \<Rightarrow> int" where
  "feedback (r0, r1, r2, r3) v = (v + r0) mod Q"

lemma checksum_step_ok [simp]: "reg_ok (checksum_step r v)"
  by (cases r) (simp add: Let_def Q_def del: mult_minus_left)

lemma sub_mod_cancel:
  assumes "(a - c) mod Q = (b - c) mod Q" and "0 \<le> a" "a < Q" "0 \<le> b" "b < Q"
  shows "a = b"
proof -
  have "a mod Q = b mod Q"
    using assms(1) by (metis diff_add_cancel mod_add_left_eq)
  then show ?thesis using assms(2-5) by simp
qed

lemma add_mod_cancel:
  assumes "(a + c) mod Q = (b + c) mod Q" and "0 \<le> a" "a < Q" "0 \<le> b" "b < Q"
  shows "a = b"
  using sub_mod_cancel [of a "- c" b] assms by simp

lemma feedback_inj:
  assumes "(- f * 3) mod Q = (- g * 3) mod Q" and "0 \<le> f" "f < Q" "0 \<le> g" "g < Q"
  shows "f = g"
proof -
  have "Q dvd (- f * 3) - (- g * 3)" using assms(1) by (simp add: mod_eq_dvd_iff)
  then have "Q dvd ((- f * 3) - (- g * 3)) * 25" by (rule dvd_mult2)
  moreover have "Q dvd 37 * (2 * (g - f))" unfolding Q_def by (rule dvd_triv_left)
  ultimately have "Q dvd ((- f * 3) - (- g * 3)) * 25 - 37 * (2 * (g - f))" by (rule dvd_diff)
  then have "Q dvd g - f" by (simp add: algebra_simps)
  then have "g mod Q = f mod Q" by (simp add: mod_eq_dvd_iff)
  then show ?thesis using assms(2-5) by simp
qed

lemma feedback_range: "0 \<le> feedback r v \<and> feedback r v < Q"
  by (cases r) (simp add: Q_def)

text \<open>A register's last cell determines the feedback, and with it one cell less of its predecessor.\<close>

lemma less_4_cases: "(k::nat) < 4 \<longleftrightarrow> k = 0 \<or> k = 1 \<or> k = 2 \<or> k = 3"
  by auto

lemma reg_top_Suc:
  assumes "k < 4"
  shows "reg_top (Suc k) (r0, r1, r2, r3) = reg_top (Suc k) (t0, t1, t2, t3) \<longleftrightarrow>
    r3 = t3 \<and> (1 \<le> k \<longrightarrow> r2 = t2) \<and> (2 \<le> k \<longrightarrow> r1 = t1) \<and> (3 \<le> k \<longrightarrow> r0 = t0)"
  using assms unfolding less_4_cases by (elim disjE) auto

lemma reg_top_less:
  assumes "k < 4"
  shows "reg_top k (r0, r1, r2, r3) = reg_top k (t0, t1, t2, t3) \<longleftrightarrow>
    (1 \<le> k \<longrightarrow> r3 = t3) \<and> (2 \<le> k \<longrightarrow> r2 = t2) \<and> (3 \<le> k \<longrightarrow> r1 = t1)"
  using assms unfolding less_4_cases by (elim disjE) auto

lemma checksum_step_eq:
  "checksum_step (r0, r1, r2, r3) v =
     ((r1 - feedback (r0, r1, r2, r3) v * 6) mod Q, (r2 - feedback (r0, r1, r2, r3) v * 26) mod Q,
      (r3 - feedback (r0, r1, r2, r3) v * 21) mod Q, (- feedback (r0, r1, r2, r3) v * 3) mod Q)"
  by (simp add: Let_def)

lemma checksum_step_top:
  assumes "reg_top (Suc k) (checksum_step s a) = reg_top (Suc k) (checksum_step t b)"
    and "reg_ok s" and "reg_ok t" and "k < 4"
  shows "feedback s a = feedback t b \<and> reg_top k s = reg_top k t"
proof -
  obtain s0 s1 s2 s3 where s: "s = (s0, s1, s2, s3)" by (cases s)
  obtain t0 t1 t2 t3 where t: "t = (t0, t1, t2, t3)" by (cases t)
  define f g where "f = feedback s a" and "g = feedback t b"
  have eqs: "(- f * 3) mod Q = (- g * 3) mod Q"
      "1 \<le> k \<longrightarrow> (s3 - f * 21) mod Q = (t3 - g * 21) mod Q"
      "2 \<le> k \<longrightarrow> (s2 - f * 26) mod Q = (t2 - g * 26) mod Q"
      "3 \<le> k \<longrightarrow> (s1 - f * 6) mod Q = (t1 - g * 6) mod Q"
    using assms(1) unfolding s t checksum_step_eq reg_top_Suc [OF assms(4)] f_def g_def by simp_all
  have fg: "f = g"
    using eqs(1) feedback_range [of s a] feedback_range [of t b]
    unfolding f_def g_def by (metis feedback_inj)
  have ok: "0 \<le> s1" "s1 < Q" "0 \<le> s2" "s2 < Q" "0 \<le> s3" "s3 < Q"
      "0 \<le> t1" "t1 < Q" "0 \<le> t2" "t2 < Q" "0 \<le> t3" "t3 < Q"
    using assms(2,3) by (simp_all add: s t)
  have "1 \<le> k \<longrightarrow> s3 = t3" using eqs(2) ok sub_mod_cancel [of s3 "g * 21" t3] unfolding fg by blast
  moreover have "2 \<le> k \<longrightarrow> s2 = t2" using eqs(3) ok sub_mod_cancel [of s2 "g * 26" t2] unfolding fg by blast
  moreover have "3 \<le> k \<longrightarrow> s1 = t1" using eqs(4) ok sub_mod_cancel [of s1 "g * 6" t1] unfolding fg by blast
  ultimately have "reg_top k s = reg_top k t"
    unfolding s t reg_top_less [OF assms(4)] by blast
  then show ?thesis using fg f_def g_def by blast
qed

declare checksum_step.simps [simp del]

lemma reg_top_4 [simp]: "reg_top 4 s = reg_top 4 t \<longleftrightarrow> s = t"
  by (cases s; cases t) simp

lemma feedback_symbol:
  assumes "feedback r a = feedback r b" and "0 \<le> a" "a < Q" "0 \<le> b" "b < Q"
  shows "a = b"
proof -
  obtain r0 r1 r2 r3 where r: "r = (r0, r1, r2, r3)" by (cases r)
  have "(a + r0) mod Q = (b + r0) mod Q" using assms(1) by (simp add: r)
  then show ?thesis using assms(2-5) by (rule add_mod_cancel)
qed

lemma checksum_step_inj:
  assumes "checksum_step s v = checksum_step t v" and "reg_ok s" and "reg_ok t"
  shows "s = t"
proof -
  obtain s0 s1 s2 s3 where s: "s = (s0, s1, s2, s3)" by (cases s)
  obtain t0 t1 t2 t3 where t: "t = (t0, t1, t2, t3)" by (cases t)
  have "feedback s v = feedback t v \<and> reg_top 3 s = reg_top 3 t"
    using checksum_step_top [of 3 s v t v] assms by simp
  then have "(s0 + v) mod Q = (t0 + v) mod Q" and "s1 = t1 \<and> s2 = t2 \<and> s3 = t3"
    by (simp_all add: s t add.commute)
  moreover have "0 \<le> s0" "s0 < Q" "0 \<le> t0" "t0 < Q" using assms(2,3) by (simp_all add: s t)
  ultimately show ?thesis using add_mod_cancel [of s0 v t0] by (simp add: s t)
qed

text \<open>The same on field values, \<open>feed\<close> being the loop without the table lookup.\<close>

fun feed :: "reg \<Rightarrow> int list \<Rightarrow> reg" where
  "feed r [] = r"
| "feed r (v # vs) = feed (checksum_step r v) vs"

lemma feed_append: "feed r (vs @ ws) = feed (feed r vs) ws"
  by (induction vs arbitrary: r) auto

lemma feed_ok: "reg_ok r \<Longrightarrow> reg_ok (feed r vs)"
proof (induction vs arbitrary: r)
  case (Cons v vs)
  then show ?case using checksum_step_ok by simp
qed simp

lemma feed_inj: "feed s vs = feed t vs \<Longrightarrow> reg_ok s \<Longrightarrow> reg_ok t \<Longrightarrow> s = t"
proof (induction vs arbitrary: s t)
  case Nil
  then show ?case by simp
next
  case (Cons v vs)
  have "checksum_step s v = checksum_step t v"
    using Cons.prems(1) Cons.IH [of "checksum_step s v" "checksum_step t v"] by simp
  then show ?case using Cons.prems(2,3) by (rule checksum_step_inj)
qed

lemma feed_burst:
  assumes "reg_top k (feed r vs) = reg_top k (feed r ws)" and "length vs = length ws"
    and "length vs \<le> k" and "k \<le> 4" and "reg_ok r"
    and "set vs \<subseteq> {0..<Q}" and "set ws \<subseteq> {0..<Q}"
  shows "vs = ws"
  using assms
proof (induction vs arbitrary: ws k rule: rev_induct)
  case Nil
  then show ?case by simp
next
  case (snoc v vs)
  obtain ws' w where ws: "ws = ws' @ [w]"
    using snoc.prems(2) by (cases ws rule: rev_cases) auto
  obtain k' where k: "k = Suc k'" "k' < 4" using snoc.prems(3,4) by (cases k) auto
  have step: "feedback (feed r vs) v = feedback (feed r ws') w \<and> reg_top k' (feed r vs) = reg_top k' (feed r ws')"
    using snoc.prems(1,5) k by (intro checksum_step_top) (simp_all add: ws feed_append feed_ok)
  then have same: "vs = ws'"
    using snoc.prems k snoc.IH [of k' ws'] by (simp add: ws)
  have "v = w"
    using step snoc.prems(6,7) feedback_symbol [of "feed r ws'" v w] by (simp add: ws same)
  then show ?case by (simp add: ws same)
qed

lemma checksum_loop_feed:
  "checksum_loop r bs = Inr r' \<longleftrightarrow>
     (\<exists>vs. list_all2 (\<lambda>b v. FIELD_MAP b = Some v) bs vs \<and> r' = feed r vs)"
proof (induction bs arbitrary: r)
  case Nil
  show ?case by auto
next
  case (Cons b bs)
  show ?case
  proof (cases "FIELD_MAP b")
    case None
    then show ?thesis by (auto simp: list_all2_Cons1)
  next
    case (Some v)
    then show ?thesis using Cons.IH by (auto simp: list_all2_Cons1)
  qed
qed

lemma field_values_range:
  "list_all2 (\<lambda>b v. FIELD_MAP b = Some v) bs vs \<Longrightarrow> set vs \<subseteq> {0..<Q}"
  by (induction bs vs rule: list_all2_induct) (auto dest: FIELD_MAP_range)

lemma field_values_inj:
  "list_all2 (\<lambda>b v. FIELD_MAP b = Some v) bs vs \<Longrightarrow>
   list_all2 (\<lambda>b v. FIELD_MAP b = Some v) cs vs \<Longrightarrow> bs = cs"
proof (induction bs vs arbitrary: cs rule: list_all2_induct)
  case Nil
  then show ?case by simp
next
  case (Cons b bs v vs)
  obtain c cs' where c: "cs = c # cs'" "FIELD_MAP c = Some v"
      "list_all2 (\<lambda>b v. FIELD_MAP b = Some v) cs' vs"
    using Cons.prems by (auto simp: list_all2_Cons2)
  then show ?case using Cons.IH FIELD_MAP_inj [OF Cons.hyps(1) c(2)] by simp
qed

lemma neg_mod_inj:
  assumes "BASE37_ALPHABET ! nat ((- a) mod Q) = BASE37_ALPHABET ! nat ((- b) mod Q)"
    and "0 \<le> a" "a < Q" "0 \<le> b" "b < Q"
  shows "a = b"
proof -
  have rng: "0 \<le> (- a) mod Q" "(- a) mod Q < 37" "0 \<le> (- b) mod Q" "(- b) mod Q < 37"
    by (simp_all add: Q_def)
  then have "nat ((- a) mod Q) < 37" "nat ((- b) mod Q) < 37" by linarith+
  then have "nat ((- a) mod Q) = nat ((- b) mod Q)"
    using assms(1) nth_eq_iff_index_eq [OF distinct_BASE37] by simp
  then have "(- a) mod Q = (- b) mod Q"
    using rng by (simp add: eq_nat_nat_iff)
  then have "a mod Q = b mod Q" by (metis mod_minus_eq minus_minus)
  then show ?thesis using assms(2-5) by simp
qed

lemma checksum_digits_inj:
  assumes "checksum_digits r = checksum_digits s" and "reg_ok r" and "reg_ok s"
  shows "r = s"
proof -
  obtain r0 r1 r2 r3 where r: "r = (r0, r1, r2, r3)" by (cases r)
  obtain s0 s1 s2 s3 where s: "s = (s0, s1, s2, s3)" by (cases s)
  have "r0 = s0" "r1 = s1" "r2 = s2" "r3 = s3"
    using assms by (simp_all add: r s neg_mod_inj)
  then show ?thesis by (simp add: r s)
qed

lemma length_checksum_digits [simp]: "length (checksum_digits r) = 4"
  by (cases r) simp

lemma checksum_compute_length: "checksum_compute m = Inr c \<Longrightarrow> length c = 4"
  by (auto simp: checksum_compute_def)

lemma field_values_exist:
  "set m \<subseteq> set BASE37_ALPHABET \<Longrightarrow> \<exists>vs. list_all2 (\<lambda>b v. FIELD_MAP b = Some v) m vs"
proof (induction m)
  case Nil
  show ?case by auto
next
  case (Cons b m)
  then obtain vs where "list_all2 (\<lambda>b v. FIELD_MAP b = Some v) m vs" by auto
  moreover obtain v where "FIELD_MAP b = Some v"
    using Cons.prems by (auto elim: in_BASE37E)
  ultimately have "list_all2 (\<lambda>b v. FIELD_MAP b = Some v) (b # m) (v # vs)" by simp
  then show ?case by blast
qed

lemma checksum_compute_eq:
  "checksum_compute m = Inr c \<longleftrightarrow>
     (\<exists>vs. list_all2 (\<lambda>b v. FIELD_MAP b = Some v) m vs \<and> c = checksum_digits (feed (0, 0, 0, 0) vs))"
  unfolding checksum_compute_def bindE_Inr_iff checksum_loop_feed by blast

lemma checksum_compute_total:
  "set m \<subseteq> set BASE37_ALPHABET \<Longrightarrow> \<exists>c. checksum_compute m = Inr c"
  using field_values_exist [of m] by (auto simp: checksum_compute_eq)

lemma zero_ok: "reg_ok (0, 0, 0, 0)"
  by (simp add: Q_def)

lemma same_checksum_window:
  assumes "checksum_compute (u @ x @ w) = Inr c" and "checksum_compute (u @ y @ w) = Inr c"
    and "length x = length y" and "length x \<le> 4"
  shows "x = y"
proof -
  let ?F = "list_all2 (\<lambda>b v. FIELD_MAP b = Some v)"
  obtain us xs ws where 1: "?F u us" "?F x xs" "?F w ws"
      "c = checksum_digits (feed (feed (feed (0, 0, 0, 0) us) xs) ws)"
    using assms(1) by (auto simp: checksum_compute_eq list_all2_append1 feed_append)
  obtain us' ys ws' where 2: "?F u us'" "?F y ys" "?F w ws'"
      "c = checksum_digits (feed (feed (feed (0, 0, 0, 0) us') ys) ws')"
    using assms(2) by (auto simp: checksum_compute_eq list_all2_append1 feed_append)
  have fun_F: "vs = vs'" if "?F b vs" "?F b vs'" for b vs vs'
    using that by (auto simp: list_all2_conv_all_nth intro: nth_equalityI)
  define r where "r = feed (0, 0, 0, 0) us"
  have "feed (feed r xs) ws = feed (feed r ys) ws"
    using 1(4) 2(4) fun_F [OF 1(1) 2(1)] fun_F [OF 1(3) 2(3)]
    by (auto simp: r_def intro!: checksum_digits_inj feed_ok zero_ok)
  then have "feed r xs = feed r ys"
    by (rule feed_inj) (simp_all add: r_def feed_ok zero_ok)
  then have "xs = ys"
    using assms(3,4) list_all2_lengthD [OF 1(2)] list_all2_lengthD [OF 2(2)]
      field_values_range [OF 1(2)] field_values_range [OF 2(2)]
      \<open>feed r xs = feed r ys\<close> feed_burst [of 4 r xs ys] by (simp add: r_def feed_ok zero_ok)
  then show ?thesis using 1(2) 2(2) field_values_inj by blast
qed

section \<open>Slices and Hamming distance\<close>

lemma odds_Cons [simp]: "odds (x # xs) = evens xs"
  by (simp add: odds_def)

lemma odds_Nil [simp]: "odds [] = []"
  by (simp add: odds_def)

lemma evens_Cons [simp]: "evens (x # xs) = x # odds xs"
  by (cases xs) auto

lemma evens_odds_append:
  "evens (xs @ ys) = evens xs @ (if even (length xs) then evens ys else odds ys) \<and>
   odds (xs @ ys) = odds xs @ (if even (length xs) then odds ys else evens ys)"
  by (induction xs) auto

lemma evens_append: "even (length xs) \<Longrightarrow> evens (xs @ ys) = evens xs @ evens ys"
  and odds_append: "even (length xs) \<Longrightarrow> odds (xs @ ys) = odds xs @ odds ys"
  by (simp_all add: evens_odds_append)

lemma set_evens: "set (evens xs) \<subseteq> set xs"
  by (induction xs rule: evens.induct) auto

lemma set_odds: "set (odds xs) \<subseteq> set xs"
  using set_evens [of "drop 1 xs"] set_drop_subset [of 1 xs] unfolding odds_def by blast

text \<open>The number of positions at which two lists of the same length differ.\<close>

fun ham :: "'a list \<Rightarrow> 'a list \<Rightarrow> nat" where
  "ham (x # xs) (y # ys) = (if x = y then 0 else 1) + ham xs ys"
| "ham _ _ = 0"

lemma ham_append [simp]: "length xs = length ys \<Longrightarrow> ham (xs @ us) (ys @ vs) = ham xs ys + ham us vs"
  by (induction xs ys rule: list_induct2) auto

lemma ham_zero: "length xs = length ys \<Longrightarrow> ham xs ys = 0 \<longleftrightarrow> xs = ys"
  by (induction xs ys rule: list_induct2) auto

lemma ham_same [simp]: "ham xs xs = 0"
  by (induction xs) auto

lemma ham_list_update: "ham xs (xs[i := c]) \<le> 1"
  by (induction xs arbitrary: i) (auto split: nat.splits)

lemma ham_one:
  "length xs = length ys \<Longrightarrow> ham xs ys = 1 \<Longrightarrow>
     \<exists>u x y w. xs = u @ [x] @ w \<and> ys = u @ [y] @ w \<and> x \<noteq> y"
proof (induction xs ys rule: list_induct2)
  case (Cons a xs b ys)
  show ?case
  proof (cases "a = b")
    case True
    then obtain u x y w where "xs = u @ [x] @ w" "ys = u @ [y] @ w" "x \<noteq> y"
      using Cons by auto
    then have "a # xs = (a # u) @ [x] @ w \<and> b # ys = (a # u) @ [y] @ w \<and> x \<noteq> y"
      using True by simp
    then show ?thesis by blast
  next
    case False
    then have "xs = ys" using Cons by (simp add: ham_zero)
    then have "a # xs = [] @ [a] @ xs \<and> b # ys = [] @ [b] @ xs \<and> a \<noteq> b" using False by simp
    then show ?thesis by blast
  qed
qed simp

lemma ham_evens_odds:
  "length xs = length ys \<Longrightarrow> ham (evens xs) (evens ys) + ham (odds xs) (odds ys) = ham xs ys"
  by (induction xs ys rule: list_induct2) auto

lemma length_evens_odds:
  "length xs = length ys \<Longrightarrow>
     length (evens xs) = length (evens ys) \<and> length (odds xs) = length (odds ys)"
  by (induction xs ys rule: list_induct2) auto

section \<open>The tag and its parts\<close>

lemma index_BASE32_less: "index_of BASE32_ALPHABET c = Some i \<Longrightarrow> i < 32"
  using index_of_Some [of BASE32_ALPHABET c i] by simp

lemma is_namespace_string_total: "\<exists>b. is_namespace_string value = Inr b"
proof (cases "index_of BASE32_ALPHABET (hd value)")
  case None
  then show ?thesis by (cases "value = []") (auto simp: is_namespace_string_def simp del: index_of_None)
next
  case (Some i)
  have "\<exists>b. is_namespace_string_suffix (drop 2 value) = Inr b"
    if "length value = i + 1" and "i \<noteq> 1" and "length value \<noteq> 1"
  proof -
    have "drop 2 value \<noteq> []" using that by auto
    then show ?thesis unfolding is_namespace_string_suffix_def by (auto simp del: drop_eq_Nil)
  qed
  then show ?thesis using Some by (auto simp: is_namespace_string_def)
qed

lemma hd_butlast_last: "length xs \<ge> 2 \<Longrightarrow> xs = [hd xs] @ butlast (tl xs) @ [last xs]"
  by (cases xs) (auto simp: Suc_le_length_iff)

lemma suffix_ok_set:
  assumes "is_namespace_string_suffix xs = Inr True"
  shows "set xs \<subseteq> set BASE37_ALPHABET"
proof -
  have ne: "xs \<noteq> []" and hd: "hd xs \<in> set BASE36_ALPHABET"
    using assms by (auto simp: is_namespace_string_suffix_def split: if_splits)
  show ?thesis
  proof (cases "length xs \<ge> 2")
    case True
    then have last: "last xs \<in> set BASE36_ALPHABET"
      using assms ne by (auto simp: is_namespace_string_suffix_def split: if_splits)
    have mid: "set (butlast (tl xs)) \<subseteq> set BASE37_ALPHABET"
      using assms True ne
      by (cases "length xs = 2") (auto simp: is_namespace_string_suffix_def subset_of_iff
          length_Suc_conv numeral_2_eq_2 split: if_splits)
    have "set xs = set ([hd xs] @ butlast (tl xs) @ [last xs])"
      using hd_butlast_last [OF True] by simp
    then show ?thesis using hd last mid BASE36_in_BASE37 by auto
  next
    case False
    then have "xs = [hd xs]" using ne by (cases xs) (auto simp: Suc_le_eq)
    then have "set xs = {hd xs}" by (metis empty_set list.simps(15))
    then show ?thesis using hd BASE36_in_BASE37 by auto
  qed
qed

lemma is_namespace_string_shape:
  assumes "is_namespace_string ns = Inr True"
  shows "(length ns = 1 \<or> (3 \<le> length ns \<and> length ns \<le> 32)) \<and> set ns \<subseteq> set BASE37_ALPHABET"
proof -
  obtain c cs where ns: "ns = c # cs"
    using assms by (cases ns) (auto simp: is_namespace_string_def)
  obtain i where i: "index_of BASE32_ALPHABET c = Some i" "i \<noteq> 1"
    using assms by (auto simp: is_namespace_string_def ns split: option.splits if_splits)
  have c: "c \<in> set BASE37_ALPHABET" "i < 32"
    using i(1) BASE32_in_BASE37 index_BASE32_less index_of_Some [of BASE32_ALPHABET c i]
    by (auto intro: nth_mem)
  show ?thesis
  proof (cases "cs = []")
    case True
    then show ?thesis using c ns by simp
  next
    case False
    then have suf: "length cs = i" "take 1 cs = ''_''" "is_namespace_string_suffix (drop 1 cs) = Inr True"
      using assms i by (auto simp: is_namespace_string_def ns numeral_2_eq_2 split: if_splits)
    have "set cs \<subseteq> insert CHR ''_'' (set (drop 1 cs))"
      using suf(2) by (cases cs) auto
    then have "set cs \<subseteq> set BASE37_ALPHABET"
      using suffix_ok_set [OF suf(3)] underscore_in_BASE37 by auto
    moreover have "2 \<le> i" using i(2) suf(1) False by (cases i) auto
    ultimately show ?thesis using c suf(1) ns by auto
  qed
qed

lemma length_padded: "length ns \<le> 32 \<Longrightarrow> length (construct_padded_namespace_tag ns) = 32"
  by (simp add: construct_padded_namespace_tag_def)

lemma message_tags_full:
  assumes "length ns \<le> 32"
  shows "construct_message_tags ns p =
    (evens (construct_padded_namespace_tag ns @ p), odds (construct_padded_namespace_tag ns @ p))"
  using assms by (simp add: construct_message_tags_def Let_def evens_append odds_append length_padded)

lemma full_set:
  assumes "set ns \<subseteq> set BASE37_ALPHABET" and "is_payload_string p"
  shows "set (construct_padded_namespace_tag ns @ p) \<subseteq> set BASE37_ALPHABET"
  using assms underscore_in_BASE37 BASE32_in_BASE37
  by (auto simp: construct_padded_namespace_tag_def is_payload_string_def subset_of_iff)

lemma tag_total:
  assumes "is_namespace_string ns = Inr True" and "is_payload_string p"
  shows "\<exists>s. construct_noisy_secret_tag ns p = Inr s"
proof -
  let ?full = "construct_padded_namespace_tag ns @ p"
  have len: "length ns \<le> 32" and full: "set ?full \<subseteq> set BASE37_ALPHABET"
    using is_namespace_string_shape [OF assms(1)] full_set [OF _ assms(2)] by auto
  obtain a b where "checksum_compute (evens ?full) = Inr a" "checksum_compute (odds ?full) = Inr b"
    using checksum_compute_total [of "evens ?full"] checksum_compute_total [of "odds ?full"]
      full set_evens [of ?full] set_odds [of ?full] by blast
  then show ?thesis
    by (simp add: construct_noisy_secret_tag_def message_tags_full [OF len])
qed

lemma length_interleaved:
  "length a = 4 \<Longrightarrow> length b = 4 \<Longrightarrow> length (construct_interleaved_checksum_tag a b) = 8"
  by (simp add: construct_interleaved_checksum_tag_def length_concat comp_def split_def
      sum_list_triv)

lemma interleaved_inj:
  "length a = 4 \<Longrightarrow> length b = 4 \<Longrightarrow> length c = 4 \<Longrightarrow> length d = 4 \<Longrightarrow>
   construct_interleaved_checksum_tag a b = construct_interleaved_checksum_tag c d \<Longrightarrow> a = c \<and> b = d"
  by (auto simp: construct_interleaved_checksum_tag_def length_Suc_conv numeral_eq_Suc)

lemma tag_shape:
  assumes "construct_noisy_secret_tag ns p = Inr s" and "length ns \<le> 32"
  obtains a b where
    "checksum_compute (evens (construct_padded_namespace_tag ns @ p)) = Inr a"
    "checksum_compute (odds (construct_padded_namespace_tag ns @ p)) = Inr b"
    "s = ''secret_'' @ ns @ ''_'' @ p @ construct_interleaved_checksum_tag a b"
    "length (construct_interleaved_checksum_tag a b) = 8"
  using assms checksum_compute_length length_interleaved
  by (fastforce simp: construct_noisy_secret_tag_def message_tags_full)

lemma slice_middle: "i = length u \<Longrightarrow> j = i + length v \<Longrightarrow> slice i j (u @ v @ w) = v"
  by (simp add: slice_def)

lemma candidate_parts:
  assumes "s = ''secret_'' @ ns @ ''_'' @ p @ c" and "length p = 32" and "length c = 8"
  shows "slice 7 (length s - 41) s = ns" and "slice (length s - 40) (length s - 8) s = p"
proof -
  show "slice 7 (length s - 41) s = ns"
    unfolding assms(1) by (rule slice_middle) (simp_all add: assms(2,3))
  have "slice (length s - 40) (length s - 8) ((''secret_'' @ ns @ ''_'') @ p @ c) = p"
    by (rule slice_middle) (simp_all add: assms)
  then show "slice (length s - 40) (length s - 8) s = p"
    by (simp add: assms(1))
qed

section \<open>Correctness of verify\<close>

lemma verify_tag:
  assumes "is_namespace_string ns = Inr True" and "is_payload_string p" and "length p = 32"
    and "construct_noisy_secret_tag ns p = Inr s"
  shows "verify s = Inr True"
proof -
  have ns: "length ns = 1 \<or> (3 \<le> length ns \<and> length ns \<le> 32)"
    using is_namespace_string_shape [OF assms(1)] by blast
  then have "length ns \<le> 32" by auto
  from assms(4) this obtain a b where
      s: "s = ''secret_'' @ ns @ ''_'' @ p @ construct_interleaved_checksum_tag a b"
      "length (construct_interleaved_checksum_tag a b) = 8"
    by (rule tag_shape)
  have parts: "slice 7 (length s - 41) s = ns" "slice (length s - 40) (length s - 8) s = p"
    using candidate_parts [OF s(1) assms(3) s(2)] by simp_all
  have "is_candidate s"
    using ns s(2) assms(3) by (auto simp: s(1) is_candidate_def)
  then show ?thesis
    using assms parts
    by (simp add: verify_def is_noisy_secret_tag_def construct_expected_candidate_def
        construct_candidate_namespace_def construct_candidate_payload_def)
qed

lemma candidate_payload_length:
  "is_candidate s \<Longrightarrow> length (slice (length s - 40) (length s - 8) s) = 32"
  by (auto simp: is_candidate_def slice_def)

lemma verify_True_iff:
  "verify s = Inr True \<longleftrightarrow>
     (\<exists>ns p. is_namespace_string ns = Inr True \<and> is_payload_string p \<and> length p = 32 \<and>
        construct_noisy_secret_tag ns p = Inr s)"
proof
  assume v: "verify s = Inr True"
  then have "is_candidate s" and t: "is_noisy_secret_tag s = Inr True"
    by (auto simp: verify_def split: if_splits)
  then show "\<exists>ns p. is_namespace_string ns = Inr True \<and> is_payload_string p \<and> length p = 32 \<and>
        construct_noisy_secret_tag ns p = Inr s"
    using candidate_payload_length
    by (fastforce simp: is_noisy_secret_tag_def construct_expected_candidate_def
        construct_candidate_namespace_def construct_candidate_payload_def Let_def
        split: option.splits if_splits)
next
  assume "\<exists>ns p. is_namespace_string ns = Inr True \<and> is_payload_string p \<and> length p = 32 \<and>
        construct_noisy_secret_tag ns p = Inr s"
  then show "verify s = Inr True" using verify_tag by blast
qed

lemma verify_returns: "\<exists>b. verify s = Inr b"
proof (cases "is_candidate s")
  case False
  then have "verify s = Inr False" by (simp add: verify_def)
  then show ?thesis ..
next
  case True
  let ?ns = "slice 7 (length s - 41) s" and ?p = "slice (length s - 40) (length s - 8) s"
  obtain b where b: "is_namespace_string ?ns = Inr b" using is_namespace_string_total by blast
  show ?thesis
  proof (cases "b \<and> is_payload_string ?p")
    case False
    then show ?thesis using b True
      by (auto simp: verify_def is_noisy_secret_tag_def construct_expected_candidate_def
          construct_candidate_namespace_def construct_candidate_payload_def)
  next
    case b_ok: True
    then obtain e where "construct_noisy_secret_tag ?ns ?p = Inr e"
      using tag_total [of ?ns ?p] b by auto
    then show ?thesis using b b_ok True
      by (auto simp: verify_def is_noisy_secret_tag_def construct_expected_candidate_def
          construct_candidate_namespace_def construct_candidate_payload_def)
  qed
qed

section \<open>The namespace of a domain name\<close>

lemma replace_single: "replace_str [a] new s = concat (map (\<lambda>x. if x = a then new else [x]) s)"
  by (induction s) auto

definition component_ok :: "string \<Rightarrow> bool" where
  "component_ok c \<longleftrightarrow> c \<noteq> [] \<and> set c \<subseteq> set COMPONENT_ALPHABET \<and> hd c \<noteq> CHR ''-'' \<and> last c \<noteq> CHR ''-''"

lemma startswith_single: "startswith s [c] \<longleftrightarrow> s \<noteq> [] \<and> hd s = c"
  by (cases s) auto

lemma endswith_single: "endswith s [c] \<longleftrightarrow> s \<noteq> [] \<and> last s = c"
  by (auto simp: endswith_def startswith_single hd_rev)

lemma check_components_ok: "check_components cs = Inr () \<longleftrightarrow> (\<forall>c \<in> set cs. component_ok c)"
  by (induction cs)
    (auto simp: component_ok_def is_component_string_def subset_of_iff startswith_single endswith_single)

lemma component_ok_hd: "component_ok c \<Longrightarrow> hd c \<in> set BASE36_ALPHABET"
  unfolding component_ok_def by (metis COMPONENT_cases hd_in_set subsetD)

lemma component_ok_last: "component_ok c \<Longrightarrow> last c \<in> set BASE36_ALPHABET"
  unfolding component_ok_def by (metis COMPONENT_cases last_in_set subsetD)

lemma component_ok_no_underscore: "component_ok c \<Longrightarrow> CHR ''_'' \<notin> set c"
proof -
  have "CHR ''_'' \<notin> set COMPONENT_ALPHABET" by (simp add: COMPONENT_ALPHABET_def)
  then show "component_ok c \<Longrightarrow> CHR ''_'' \<notin> set c" by (auto simp: component_ok_def)
qed

abbreviation encode_component :: "string \<Rightarrow> string" where
  "encode_component \<equiv> replace_str ''-'' ''__''"

abbreviation decode_suffix :: "string \<Rightarrow> string" where
  "decode_suffix \<equiv> replace_str ''__'' ''-''"

lemma encode_Nil_iff [simp]: "encode_component c = [] \<longleftrightarrow> c = []"
  by (cases c) (auto simp: replace_single)

lemma encode_hd: "c \<noteq> [] \<Longrightarrow> hd c \<noteq> CHR ''-'' \<Longrightarrow> hd (encode_component c) = hd c"
  by (cases c) (auto simp: replace_single)

lemma encode_last: "c \<noteq> [] \<Longrightarrow> last c \<noteq> CHR ''-'' \<Longrightarrow> last (encode_component c) = last c"
  by (induction c rule: rev_induct) (auto simp: replace_single)

lemma encode_set:
  "set c \<subseteq> set COMPONENT_ALPHABET \<Longrightarrow> set (encode_component c) \<subseteq> set BASE37_ALPHABET"
proof
  fix x assume c: "set c \<subseteq> set COMPONENT_ALPHABET" and "x \<in> set (encode_component c)"
  then have "x = CHR ''_'' \<or> x \<in> set c \<and> x \<noteq> CHR ''-''"
    by (auto simp: replace_single split: if_splits)
  then show "x \<in> set BASE37_ALPHABET"
    using c BASE36_in_BASE37 underscore_in_BASE37 COMPONENT_cases by blast
qed

text \<open>Decoding undoes the encoding of a component, whatever follows it.\<close>

lemma decode_encode:
  "set c \<subseteq> set COMPONENT_ALPHABET \<Longrightarrow> decode_suffix (encode_component c @ rest) = c @ decode_suffix rest"
proof (induction c)
  case Nil
  then show ?case by (simp add: replace_single)
next
  case (Cons x c)
  then have IH: "decode_suffix (encode_component c @ rest) = c @ decode_suffix rest" by simp
  show ?case
  proof (cases "x = CHR ''-''")
    case True
    then show ?thesis using IH by (simp add: replace_single)
  next
    case False
    then have "x \<noteq> CHR ''_''" using Cons.prems COMPONENT_cases BASE36_not_underscore by auto
    then show ?thesis using IH False by (simp add: replace_single)
  qed
qed

lemma decode_join:
  "ws \<noteq> [] \<Longrightarrow> (\<And>w. w \<in> set ws \<Longrightarrow> component_ok w) \<Longrightarrow>
     decode_suffix (join ''_'' (map encode_component ws)) = join ''_'' ws"
proof (induction ws)
  case Nil
  then show ?case by simp
next
  case (Cons w ws)
  have w: "set w \<subseteq> set COMPONENT_ALPHABET" using Cons.prems by (simp add: component_ok_def)
  show ?case
  proof (cases ws)
    case Nil
    then show ?thesis using decode_encode [OF w, of "[]"] by simp
  next
    case (Cons v vs)
    have v: "component_ok v" using Cons.prems Cons by simp
    let ?tail = "join ''_'' (map encode_component ws)"
    have "?tail \<noteq> [] \<and> hd ?tail = hd (encode_component v)"
      using v Cons by (cases vs) (auto simp: component_ok_def hd_append)
    moreover have "hd (encode_component v) \<noteq> CHR ''_''"
      using v component_ok_hd [OF v] BASE36_not_underscore encode_hd by (auto simp: component_ok_def)
    ultimately have "decode_suffix (''_'' @ ?tail) = ''_'' @ decode_suffix ?tail"
      by (auto simp: startswith_single)
    moreover have "decode_suffix ?tail = join ''_'' ws"
      using Cons.IH Cons.prems Cons by simp
    ultimately show ?thesis
      using decode_encode [OF w, of "''_'' @ ?tail"] Cons by (simp add: join_Cons)
  qed
qed

text \<open>the namespace of a domain name decodes to the same domain name: no two accepted domain
  names share a namespace.\<close>

theorem namespace_domain_roundtrip:
  assumes "construct_namespace fqdn = Inr ns"
  shows "construct_namespace_domain ns = fqdn"
proof (cases fqdn)
  case None
  then show ?thesis using assms by (simp add: construct_namespace_def construct_namespace_domain_def)
next
  case (Some name)
  let ?cs = "split_on CHR ''.'' name"
  let ?joined = "join ''_'' (map encode_component (rev ?cs))"
  have "check_components ?cs = Inr ()"
    using assms by (auto simp: Some construct_namespace_def Let_def)
  then have ok: "component_ok c" if "c \<in> set ?cs" for c
    using that by (simp add: check_components_ok)
  have ns: "ns = [BASE32_ALPHABET ! (length ?joined + 1)] @ ''_'' @ ?joined"
    using assms by (auto simp: Some construct_namespace_def bindE_Inr_iff Let_def split: if_splits)
  have "CHR ''_'' \<notin> set c" if "c \<in> set ?cs" for c
    using component_ok_no_underscore [OF ok [OF that]] .
  then have "split_on CHR ''_'' (join ''_'' (rev ?cs)) = rev ?cs"
    by (intro split_on_join) auto
  moreover have "decode_suffix ?joined = join ''_'' (rev ?cs)"
    using ok by (intro decode_join) auto
  moreover have "drop 2 ns = ?joined" and "ns \<noteq> ''2''" by (simp_all add: ns)
  ultimately show ?thesis
    unfolding construct_namespace_domain_def Some by simp
qed

lemma join_encode_shape:
  assumes "ws \<noteq> []" and "\<And>w. w \<in> set ws \<Longrightarrow> component_ok w"
  shows "join ''_'' (map encode_component ws) \<noteq> [] \<and>
    hd (join ''_'' (map encode_component ws)) \<in> set BASE36_ALPHABET \<and>
    last (join ''_'' (map encode_component ws)) \<in> set BASE36_ALPHABET \<and>
    set (join ''_'' (map encode_component ws)) \<subseteq> set BASE37_ALPHABET"
  using assms
proof (induction ws)
  case Nil
  then show ?case by simp
next
  case (Cons w ws)
  have w: "component_ok w" using Cons.prems by simp
  then have w': "w \<noteq> []" "hd w \<noteq> CHR ''-''" "last w \<noteq> CHR ''-''" "set w \<subseteq> set COMPONENT_ALPHABET"
    by (simp_all add: component_ok_def)
  have enc: "hd (encode_component w) \<in> set BASE36_ALPHABET" "last (encode_component w) \<in> set BASE36_ALPHABET"
      "encode_component w \<noteq> []" "set (encode_component w) \<subseteq> set BASE37_ALPHABET"
    using w' component_ok_hd [OF w] component_ok_last [OF w] encode_set [OF w'(4)]
    by (simp_all add: encode_hd encode_last)
  show ?case
  proof (cases "ws = []")
    case True
    then show ?thesis using enc by simp
  next
    case False
    then have IH: "join ''_'' (map encode_component ws) \<noteq> []"
        "last (join ''_'' (map encode_component ws)) \<in> set BASE36_ALPHABET"
        "set (join ''_'' (map encode_component ws)) \<subseteq> set BASE37_ALPHABET"
      using Cons by simp_all
    have "join ''_'' (map encode_component (w # ws)) =
        encode_component w @ ''_'' @ join ''_'' (map encode_component ws)"
      using False by (simp add: join_Cons)
    then show ?thesis using enc IH underscore_in_BASE37 by (simp add: hd_append)
  qed
qed

lemma middle_subset: "set xs \<subseteq> A \<Longrightarrow> set (butlast (tl xs)) \<subseteq> A"
  by (cases xs) (auto dest: in_set_butlastD)

lemma construct_namespace_valid:
  assumes "construct_namespace fqdn = Inr ns"
  shows "is_namespace_string ns = Inr True"
proof (cases fqdn)
  case None
  then have "ns = ''2''" using assms by (simp add: construct_namespace_def)
  then show ?thesis by (simp add: is_namespace_string_def BASE32_ALPHABET_def)
next
  case (Some name)
  let ?cs = "split_on CHR ''.'' name"
  let ?joined = "join ''_'' (map encode_component (rev ?cs))"
  have "check_components ?cs = Inr ()"
    using assms by (auto simp: Some construct_namespace_def Let_def)
  then have j: "?joined \<noteq> []" "hd ?joined \<in> set BASE36_ALPHABET" "last ?joined \<in> set BASE36_ALPHABET"
      "set ?joined \<subseteq> set BASE37_ALPHABET"
    using join_encode_shape [of "rev ?cs"] by (simp_all add: check_components_ok)
  have ns: "ns = (BASE32_ALPHABET ! (length ?joined + 1)) # CHR ''_'' # ?joined"
      and len: "length ?joined \<le> 30"
    using assms by (auto simp: Some construct_namespace_def bindE_Inr_iff Let_def split: if_splits)
  have idx: "index_of BASE32_ALPHABET (BASE32_ALPHABET ! (length ?joined + 1)) = Some (length ?joined + 1)"
    using len by (intro index_of_nth distinct_BASE32) simp
  have "is_namespace_string_suffix ?joined = Inr True"
    using j middle_subset [OF j(4)] by (simp add: is_namespace_string_suffix_def subset_of_iff)
  moreover have "length ?joined \<noteq> 0" using j(1) by simp
  ultimately show ?thesis
    unfolding ns is_namespace_string_def using idx by (simp add: numeral_2_eq_2)
qed

text \<open>a secret created for any accepted domain name verifies, whatever symbols of the
  32-symbol alphabet the random source picks.\<close>

theorem create_verifies:
  assumes "construct_namespace fqdn = Inr ns" and "\<And>i. i < 32 \<Longrightarrow> choice i \<in> set BASE32_ALPHABET"
  shows "\<exists>s. create choice fqdn = Inr s \<and> verify s = Inr True"
proof -
  have ns: "is_namespace_string ns = Inr True" using assms(1) by (rule construct_namespace_valid)
  have p: "is_payload_string (construct_payload choice)" "length (construct_payload choice) = 32"
    using assms(2) by (auto simp: construct_payload_def is_payload_string_def subset_of_iff)
  obtain s where "construct_noisy_secret_tag ns (construct_payload choice) = Inr s"
    using tag_total [OF ns p(1)] by blast
  then show ?thesis
    using verify_tag [OF ns p] assms(1) by (simp add: create_def construct_noisy_secret_def)
qed

section \<open>Single-symbol errors\<close>

lemma same_checksum_ham_ge_two:
  assumes "checksum_compute xs = Inr c" and "checksum_compute ys = Inr c"
    and "length xs = length ys" and "ham xs ys \<le> 1"
  shows "xs = ys"
proof (rule ccontr)
  assume "xs \<noteq> ys"
  then have "ham xs ys = 1" using ham_zero [OF assms(3)] assms(4) by linarith
  then obtain u x y w where d: "xs = u @ [x] @ w" "ys = u @ [y] @ w" "x \<noteq> y"
    using ham_one [OF assms(3)] by blast
  then have "[x] = [y]"
    using same_checksum_window [of u "[x]" w c "[y]"] assms(1,2) by simp
  then show False using d(3) by simp
qed

lemma tags_ham_ge_two:
  assumes "is_namespace_string ns = Inr True" "is_namespace_string ns' = Inr True"
    and "length p = 32" "length p' = 32"
    and "construct_noisy_secret_tag ns p = Inr s" "construct_noisy_secret_tag ns' p' = Inr t"
    and "length s = length t" and "ham s t \<le> 1"
  shows "s = t"
proof -
  let ?f = "construct_padded_namespace_tag ns @ p" and ?g = "construct_padded_namespace_tag ns' @ p'"
  have len: "length ns \<le> 32" "length ns' \<le> 32"
    using is_namespace_string_shape [OF assms(1)] is_namespace_string_shape [OF assms(2)] by auto
  obtain a b where s: "checksum_compute (evens ?f) = Inr a" "checksum_compute (odds ?f) = Inr b"
      "s = ''secret_'' @ ns @ ''_'' @ p @ construct_interleaved_checksum_tag a b"
      "length (construct_interleaved_checksum_tag a b) = 8"
    using tag_shape [OF assms(5) len(1)] by blast
  obtain c d where t: "checksum_compute (evens ?g) = Inr c" "checksum_compute (odds ?g) = Inr d"
      "t = ''secret_'' @ ns' @ ''_'' @ p' @ construct_interleaved_checksum_tag c d"
      "length (construct_interleaved_checksum_tag c d) = 8"
    using tag_shape [OF assms(6) len(2)] by blast
  let ?x = "construct_interleaved_checksum_tag a b" and ?y = "construct_interleaved_checksum_tag c d"
  have nn: "length ns = length ns'" using assms(3,4,7) s(3,4) t(3,4) by simp
  have st: "ham s t = ham ns ns' + ham p p' + ham ?x ?y"
    using nn assms(3,4) s(4) t(4) by (simp add: s(3) t(3))
  have fl: "length ?f = length ?g" using len assms(3,4) by (simp add: length_padded)
  have fg: "ham ?f ?g = ham ns ns' + ham p p'"
    using nn assms(3,4) by (simp add: construct_padded_namespace_tag_def)
  show ?thesis
  proof (cases "ham ?x ?y = 0")
    case False
    then have "ham ns ns' = 0" "ham p p' = 0" using st assms(8) by auto
    then have "ns = ns'" "p = p'" using nn assms(3,4) by (auto simp: ham_zero)
    then show ?thesis using assms(5,6) by simp
  next
    case True
    then have "?x = ?y" using s(4) t(4) by (simp add: ham_zero)
    then have abcd: "a = c" "b = d"
      using interleaved_inj s(1,2) t(1,2) checksum_compute_length by blast+
    have "ham (evens ?f) (evens ?g) + ham (odds ?f) (odds ?g) \<le> 1"
      using ham_evens_odds [OF fl] fg st assms(8) True by linarith
    then have "evens ?f = evens ?g" "odds ?f = odds ?g"
      using same_checksum_ham_ge_two s(1,2) t(1,2) abcd length_evens_odds [OF fl]
      by (meson add_leE)+
    then have "ham ?f ?g = 0" using ham_evens_odds [OF fl] by simp
    then show ?thesis using fg st True assms(7) by (simp add: ham_zero)
  qed
qed

text \<open>C40: changing any single byte of a valid secret yields a string that verify rejects.\<close>

theorem verify_rejects_single_change:
  assumes "verify s = Inr True" and "i < length s" and "c \<noteq> s ! i"
  shows "verify (s[i := c]) = Inr False"
proof (rule ccontr)
  assume "verify (s[i := c]) \<noteq> Inr False"
  then have t: "verify (s[i := c]) = Inr True" using verify_returns [of "s[i := c]"] by auto
  obtain ns p where s: "is_namespace_string ns = Inr True" "length p = 32"
      "construct_noisy_secret_tag ns p = Inr s"
    using assms(1) unfolding verify_True_iff by blast
  obtain ns' p' where t: "is_namespace_string ns' = Inr True" "length p' = 32"
      "construct_noisy_secret_tag ns' p' = Inr (s[i := c])"
    using t unfolding verify_True_iff by blast
  have "s = s[i := c]"
    using tags_ham_ge_two [OF s(1) t(1) s(2) t(2) s(3) t(3)] ham_list_update [of s i c] by simp
  then show False using assms(2,3) by (metis nth_list_update_eq)
qed

section \<open>Properties and witnesses\<close>

theorem namespace_domain_roundtrip_witness:
  "construct_namespace_domain ''h_org_foo__bar_a'' = Some ''a.foo-bar.org''"
  by (rule namespace_domain_roundtrip) code_simp

theorem create_verifies_witness:
  "\<exists>s. create (\<lambda>i. if i = 3 then CHR ''z'' else CHR ''2'') (Some ''apache.org'') = Inr s \<and> verify s = Inr True"
proof (rule create_verifies)
  show "construct_namespace (Some ''apache.org'') = Inr ''d_org_apache''" by code_simp
  show "(if i = 3 then CHR ''z'' else CHR ''2'') \<in> set BASE32_ALPHABET" for i :: nat
    by (simp add: BASE32_ALPHABET_def)
qed

theorem verify_rejects_single_change_witness:
  "\<exists>s. construct_noisy_secret_tag ''2'' (replicate 32 CHR ''7'') = Inr s \<and>
     verify s = Inr True \<and> verify (s[20 := CHR ''k'']) = Inr False"
proof -
  have ns: "is_namespace_string ''2'' = Inr True" by (simp add: is_namespace_string_def BASE32_ALPHABET_def)
  have p: "is_payload_string (replicate 32 CHR ''7'')"
    by (simp add: is_payload_string_def subset_of_iff BASE32_ALPHABET_def)
  obtain s where s: "construct_noisy_secret_tag ''2'' (replicate 32 CHR ''7'') = Inr s"
    using tag_total [OF ns p] by blast
  then have v: "verify s = Inr True" using verify_tag [OF ns p] by simp
  obtain a b where "s = ''secret_'' @ ''2'' @ ''_'' @ replicate 32 CHR ''7'' @ construct_interleaved_checksum_tag a b"
    using tag_shape [OF s] by (metis One_nat_def length_Cons list.size(3) one_le_numeral)
  then have "20 < length s" "CHR ''k'' \<noteq> s ! 20" by (simp_all add: nth_append)
  then have "verify (s[20 := CHR ''k'']) = Inr False" using v by (intro verify_rejects_single_change)
  then show ?thesis using s v by blast
qed

text \<open>
  the checksum detects every change confined to four consecutive symbols: two messages over
  the alphabet that differ only inside such a window both have a checksum, and the two checksums
  differ.
\<close>

theorem checksum_detects_burst:
  assumes "set (u @ x @ w) \<subseteq> set BASE37_ALPHABET" and "set (u @ y @ w) \<subseteq> set BASE37_ALPHABET"
    and "length x = length y" and "length x \<le> 4" and "x \<noteq> y"
  shows "\<exists>a b. checksum_compute (u @ x @ w) = Inr a \<and> checksum_compute (u @ y @ w) = Inr b \<and> a \<noteq> b"
proof -
  obtain a b where "checksum_compute (u @ x @ w) = Inr a" "checksum_compute (u @ y @ w) = Inr b"
    using checksum_compute_total [OF assms(1)] checksum_compute_total [OF assms(2)] by blast
  then show ?thesis using same_checksum_window [of u x w a y] assms(3-5) by blast
qed

theorem checksum_detects_burst_witness:
  "\<exists>a b. checksum_compute (''ab'' @ ''cd3_'' @ ''z'') = Inr a \<and>
     checksum_compute (''ab'' @ ''dc_3'' @ ''z'') = Inr b \<and> a \<noteq> b"
  by (rule checksum_detects_burst) (simp_all add: BASE37_ALPHABET_def)

text \<open>verify accepts exactly the strings that the construction produces from a valid
  namespace string and a 32-symbol payload.\<close>

theorem verify_accepts_exactly:
  "verify s = Inr True \<longleftrightarrow>
     (\<exists>ns p. is_namespace_string ns = Inr True \<and> is_payload_string p \<and> length p = 32 \<and>
        construct_noisy_secret_tag ns p = Inr s)"
  by (rule verify_True_iff)

text \<open>verify returns a boolean on every byte string; no lookup, index or slice of it raises.\<close>

theorem verify_total: "\<exists>b. verify s = Inr b"
  by (rule verify_returns)

end
