(* ===== verification/Sql.thy ===== *)
theory Sql
  imports PyStr
begin

text \<open>
  The data model of src/atr/models/sql.py that the rest of the development uses: its
  enumerations, the rows of its tables as records (one field per column the modelled code
  reads or writes), and the computed properties of the model classes.

  A relationship attribute (\<open>release.project\<close>, \<open>project.committee\<close>) is a foreign key here: the
  row holds the key, and the functions below that follow the relation take the related row as
  an argument.  Times are whole seconds of UTC, an \<open>int\<close>.
\<close>

section \<open>Enumerations\<close>

datatype ReleasePhase = RELEASE_CANDIDATE_DRAFT | RELEASE_CANDIDATE | RELEASE_PREVIEW | RELEASE

datatype TaskStatus = QUEUED | ACTIVE | COMPLETED | FAILED | BROKEN

datatype ProjectStatus = PS_ACTIVE | PS_DORMANT | PS_RETIRED | PS_STANDING

datatype VoteMode = EMAIL | TRUSTED

datatype VoteChoice = CH_YES | CH_ABSTAIN | CH_NO

datatype QuarantineStatus = Q_STAGING | Q_PENDING | Q_FAILED | Q_ACKNOWLEDGED

datatype ArchiveSource = AS_MANUAL | AS_CAP | AS_AUTO_PRIOR | AS_DIST_WATCHER | AS_CATALOG_ADMIN

datatype LifecycleEventType = EV_RELEASE | EV_ARCHIVE | EV_WITHDRAW | EV_EOD | EV_EOS | EV_EOL

text \<open>The values of the string enumerations that the modelled code prints.\<close>

fun phase_value :: "ReleasePhase \<Rightarrow> string" where
  "phase_value RELEASE_CANDIDATE_DRAFT = ''release_candidate_draft''"
| "phase_value RELEASE_CANDIDATE = ''release_candidate''"
| "phase_value RELEASE_PREVIEW = ''release_preview''"
| "phase_value RELEASE = ''release''"

fun vote_choice_value :: "VoteChoice \<Rightarrow> string" where
  "vote_choice_value CH_YES = ''+1''"
| "vote_choice_value CH_ABSTAIN = ''0''"
| "vote_choice_value CH_NO = ''-1''"

section \<open>Committees and projects\<close>

record committee =
  c_key :: string
  c_name :: "string option"
  c_is_podling :: bool
  c_is_archived :: bool
  c_committee_members :: "string list"
  c_committers :: "string list"
  c_release_managers :: "string list"

record release_policy =
  rp_vote_mode :: VoteMode
  rp_min_hours :: "int option"
  rp_auto_archive_prior_release :: bool
  rp_download_path_suffix :: string

record project =
  p_key :: string
  p_name :: "string option"
  p_status :: ProjectStatus
  p_committee_key :: "string option"
  p_release_policy :: "release_policy option"

text \<open>\<open>str.title()\<close>: the first letter of every run of letters in upper case, the others in lower case.\<close>

definition upper_char :: "char \<Rightarrow> char" where
  "upper_char c = (if is_lower c then char_of ((of_char c :: nat) - 32) else c)"

fun title_from :: "bool \<Rightarrow> string \<Rightarrow> string" where
  "title_from in_word [] = []"
| "title_from in_word (c # s) =
     (if in_word then lower_char c else upper_char c) # title_from (is_alpha c) s"

definition committee_display_name :: "committee \<Rightarrow> string" where
  "committee_display_name c =
     (let name = (case c_name c of Some n \<Rightarrow> if n \<noteq> [] then n else title_from False (c_key c)
                                 | None \<Rightarrow> title_from False (c_key c))
      in if c_is_podling c then name @ '' (Incubating)'' else name)"

definition committee_in_attic :: "committee \<Rightarrow> bool" where
  "committee_in_attic c = ((c_is_archived c \<and> \<not> c_is_podling c) \<or> c_key c = ''attic'')"

text \<open>\<open>project.committee\<close> is the second argument of the functions that read it.\<close>

definition project_display_name :: "project \<Rightarrow> committee option \<Rightarrow> string" where
  "project_display_name p c =
     (let base = (case p_name p of Some n \<Rightarrow> if n \<noteq> [] then n else p_key p | None \<Rightarrow> p_key p)
      in case c of Some c' \<Rightarrow> if c_is_podling c' then base @ '' (Incubating)'' else base
                 | None \<Rightarrow> base)"

definition short_display_name :: "project \<Rightarrow> committee option \<Rightarrow> string" where
  "short_display_name p c =
     (let name = project_display_name p c in
      if startswith name ''Apache Software Foundation ''
      then removeprefix name ''Apache Software Foundation ''
      else removeprefix name ''Apache '')"

definition project_is_active :: "project \<Rightarrow> bool" where
  [guard_defs]: "project_is_active p = (p_status p = PS_ACTIVE)"

definition project_is_archived :: "project \<Rightarrow> bool" where
  [guard_defs]: "project_is_archived p = (p_status p = PS_DORMANT \<or> p_status p = PS_RETIRED)"

definition policy_vote_mode :: "project \<Rightarrow> VoteMode" where
  "policy_vote_mode p = (case p_release_policy p of None \<Rightarrow> TRUSTED | Some rp \<Rightarrow> rp_vote_mode rp)"

definition policy_default_min_hours :: int where
  "policy_default_min_hours = 72"

definition policy_min_hours :: "project \<Rightarrow> int" where
  "policy_min_hours p =
     (case p_release_policy p of
        None \<Rightarrow> policy_default_min_hours
      | Some rp \<Rightarrow> (case rp_min_hours rp of None \<Rightarrow> policy_default_min_hours | Some h \<Rightarrow> h))"

definition policy_auto_archive_prior_release :: "project \<Rightarrow> bool" where
  "policy_auto_archive_prior_release p =
     (case p_release_policy p of None \<Rightarrow> False | Some rp \<Rightarrow> rp_auto_archive_prior_release rp)"

definition policy_download_path_suffix :: "project \<Rightarrow> string" where
  "policy_download_path_suffix p =
     (case p_release_policy p of None \<Rightarrow> [] | Some rp \<Rightarrow> rp_download_path_suffix rp)"

section \<open>Tasks\<close>

text \<open>
  The task queue.  \<open>task_args\<close> is a JSON document in the table; the constructors of \<open>task_args\<close> here
  are the argument models of src/atr/models/args.py that the modelled writers create and read back,
  and those of \<open>task_result\<close> the result models of src/atr/models/results.py.
\<close>

text \<open>
  The task types that the modelled code names; every other member of the enumeration (the checks,
  the SBOM and maintenance tasks) is \<open>TT_OTHER\<close> with its value.
\<close>

datatype TaskType =
    VOTE_INITIATE | VOTE_END_NOTIFY | VOTE_AUTO_RESOLVE | MESSAGE_SEND | SVN_PUBLISH | SVN_UNPUBLISH
  | RELEASE_FINALISE | QUARANTINE_VALIDATE | CATALOG_SITE_GENERATE | TT_OTHER string

record initiate_args =
  ia_release_key :: string
  ia_email_to :: string
  ia_vote_duration :: int
  ia_initiator_id :: string
  ia_initiator_fullname :: string
  ia_subject :: string
  ia_body :: string
  ia_vote_seq :: "nat option"
  ia_email_cc :: "string list"
  ia_email_bcc :: "string list"
  ia_second_round_email_to :: "string option"
  ia_notify_when_finished :: bool
  ia_automatic_resolve_when_finished :: bool
  ia_automatic_publish_when_resolved :: bool
  ia_automatic_publish_asf_uid :: "string option"
  ia_download_path_suffix :: "string option"

record send_args =
  sa_email_sender :: string
  sa_email_to :: string
  sa_subject :: string
  sa_body :: string
  sa_in_reply_to :: "string option"
  sa_email_cc :: "string list"
  sa_email_bcc :: "string list"
  sa_message_id :: "string option"

record svn_publish_args =
  pa_asf_uid :: string
  pa_revision_number :: string
  pa_download_path_suffix :: "string option"
  pa_vote_thread_url :: "string option"

record finalise_args =
  fa_asf_uid :: string
  fa_revision_number :: string
  fa_svn_revision :: int
  fa_download_path_suffix :: "string option"
  fa_email_to :: string
  fa_email_cc :: "string list"
  fa_email_bcc :: "string list"

datatype task_args =
    A_INITIATE initiate_args
  | A_SEND send_args
  | A_SVN_PUBLISH svn_publish_args
  | A_SVN_UNPUBLISH string
  | A_RELEASE_FINALISE finalise_args
  | A_QUARANTINE_VALIDATE nat
  | A_OTHER

record vote_initiate_result =
  vi_subject :: string
  vi_mid :: "string option"
  vi_email_to :: string
  vi_vote_end :: "int option"

datatype task_result = RS_VOTE_INITIATE vote_initiate_result | RS_SVN_PUBLISH int | RS_OTHER

record task =
  t_id :: nat
  t_status :: TaskStatus
  t_task_type :: TaskType
  t_task_args :: task_args
  t_asf_uid :: string
  t_added :: int
  t_completed :: "int option"
  t_result :: "task_result option"
  t_error :: "string option"
  t_project_key :: "string option"
  t_version_key :: "string option"
  t_revision_number :: "string option"

section \<open>Releases and what belongs to them\<close>

record release =
  r_key :: string
  r_phase :: ReleasePhase
  r_created :: int
  r_released :: "int option"
  r_archived :: "int option"
  r_is_archived :: bool
  r_archive_source :: "ArchiveSource option"
  r_activity_at :: int
  r_inactivity_notice_key :: "string option"
  r_archive_prior_release :: bool
  r_expedited :: bool
  r_check_cache_key :: "string option"
  r_download_path_suffix :: "string option"
  r_commit_hash :: "string option"
  r_project_key :: string
  r_cycle_key :: string
  r_version :: string
  r_vote_mode :: "VoteMode option"
  r_voted_revision_number :: "string option"
  r_current_vote_seq :: "nat option"
  r_vote_started :: "int option"
  r_vote_resolved :: "int option"
  r_podling_thread_id :: "string option"
  r_vote_thread_url :: "string option"

record revision =
  rev_key :: string
  rev_release_key :: string
  rev_seq :: nat
  rev_number :: string
  rev_asfuid :: string
  rev_created :: int
  rev_phase :: ReleasePhase
  rev_parent_key :: "string option"
  rev_description :: "string option"
  rev_merge_base_revision_key :: "string option"
  rev_tag :: "string option"
  rev_was_quarantined :: bool

record ballot =
  b_id :: nat
  b_release_key :: string
  b_vote_seq :: nat
  b_vote_round :: "nat option"
  b_voter_asf_uid :: string
  b_voter_fullname :: string
  b_choice :: VoteChoice
  b_comment :: string
  b_is_binding_at_cast :: bool
  b_revision_number_at_cast :: string
  b_receipt_message_id :: string
  b_created :: int

record lifecycle_event =
  e_id :: nat
  e_project_key :: string
  e_cycle_key :: "string option"
  e_version_key :: "string option"
  e_event :: LifecycleEventType
  e_effective :: int
  e_published :: int
  e_target_event_id :: "nat option"
  e_reference_urls :: "string list"

record quarantined =
  q_id :: nat
  q_release_key :: string
  q_asf_uid :: string
  q_prior_revision_key :: "string option"
  q_status :: QuarantineStatus
  q_token :: string
  q_created :: int
  q_completed :: "int option"
  q_description :: "string option"

record project_cycle =
  cy_cycle_key :: string
  cy_cycle :: string
  cy_project_key :: string
  cy_lts :: bool

record artifact =
  a_project_key :: string
  a_version :: string
  a_artifact_path :: string
  a_release_key :: "string option"
  a_signature_path :: "string option"
  a_checksum_path :: "string option"
  a_sbom_path :: "string option"
  a_classification :: "string option"
  a_svn_revision :: "int option"
  a_managed :: bool
  a_dated :: "int option"
  a_download_path_suffix :: "string option"

section \<open>The database\<close>

text \<open>The two counter tables have one row per release key; a missing row is \<open>None\<close>.\<close>

record db =
  db_committees :: "committee list"
  db_projects :: "project list"
  db_cycles :: "project_cycle list"
  db_releases :: "release list"
  db_revisions :: "revision list"
  db_ballots :: "ballot list"
  db_tasks :: "task list"
  db_events :: "lifecycle_event list"
  db_quarantined :: "quarantined list"
  db_artifacts :: "artifact list"
  db_revision_counter :: "string \<Rightarrow> nat option"
  db_vote_counter :: "string \<Rightarrow> nat option"

end
