(* ===== verification/User.thy ===== *)
theory User
  imports Sql
begin

text \<open>
  src/atr/user.py: who may vote with a binding vote, who is a member, committer, release manager
  or administrator, who may see an embargoed release, and the labels of the vote tallies.
\<close>

definition binding_label_inline :: "string \<Rightarrow> string" where
  "binding_label_inline label =
     (if startswith label ''IPMC'' \<or> startswith label ''PPMC'' then label else lower label)"

definition binding_terminology :: "nat option \<Rightarrow> string \<times> string" where
  "binding_terminology vote_round =
     (if vote_round = Some 1 then (''PPMC-binding'', ''Non-binding'') else (''Binding'', ''Non-binding''))"

definition is_committee_member :: "committee option \<Rightarrow> string \<Rightarrow> bool" where
  "is_committee_member c uid =
     (case c of None \<Rightarrow> False | Some c' \<Rightarrow> list_ex (\<lambda>m. m = uid) (c_committee_members c'))"

definition is_committer :: "committee option \<Rightarrow> string \<Rightarrow> bool" where
  "is_committer c uid =
     (case c of None \<Rightarrow> False | Some c' \<Rightarrow> list_ex (\<lambda>m. m = uid) (c_committers c'))"

definition is_release_manager :: "committee option \<Rightarrow> string \<Rightarrow> bool" where
  "is_release_manager c uid =
     (case c of None \<Rightarrow> False
              | Some c' \<Rightarrow> uid \<in> set (c_release_managers c') \<and> uid \<in> set (c_committers c'))"

definition round_one_binding_label :: "bool \<Rightarrow> bool \<Rightarrow> string" where
  "round_one_binding_label is_ppmc_member is_ipmc_member =
     (let s = join '', '' ((if is_ipmc_member then [''IPMC-binding''] else []) @
                           (if is_ppmc_member then [''PPMC-binding''] else []))
      in if s \<noteq> [] then s else ''Non-binding'')"

text \<open>
  The committee table is the list of committees; \<open>data.committee(key="incubator").get()\<close> is
  \<open>committee_get\<close> at that key.
\<close>

definition committee_get :: "committee list \<Rightarrow> string \<Rightarrow> committee option" where
  "committee_get cs k = sel_one (\<lambda>c. c_key c = k) cs"

definition is_binding_for_release ::
  "committee list \<Rightarrow> committee \<Rightarrow> string \<Rightarrow> nat option \<Rightarrow> (bool \<times> string) py" where
  "is_binding_for_release cs c asf_uid vote_round =
     (if \<not> c_is_podling c then
        (if vote_round \<noteq> None
         then Inl (ValueError ''Non-podling votes require vote_round to be None'')
         else Inr (is_committee_member (Some c) asf_uid, committee_display_name c))
      else (case vote_round of
          None \<Rightarrow> Inl (ValueError ''Podling votes require vote_round 1 or 2'')
        | Some n \<Rightarrow>
            if n \<noteq> 1 \<and> n \<noteq> 2 then Inl (ValueError ''Unexpected podling vote_round'')
            else if n = 1 then Inr (is_committee_member (Some c) asf_uid, committee_display_name c)
            else Inr (is_committee_member (committee_get cs ''incubator'') asf_uid, ''Incubator'')))"

text \<open>
  The administrators: the test user in test mode, nobody in a downgraded session, the additional
  users of the configuration, and the cached LDAP administrators.
\<close>

record admin_env =
  is_test_mode :: bool
  session_downgraded :: bool
  admin_users_additional :: "string option"
  admins_cached :: "string list"

definition additional_admin_users :: "admin_env \<Rightarrow> string list" where
  "additional_admin_users e =
     (case admin_users_additional e of
        None \<Rightarrow> []
      | Some a \<Rightarrow> if a = [] then [] else split_on (CHR '','') a)"

definition is_admin :: "admin_env \<Rightarrow> string option \<Rightarrow> bool" where
  "is_admin e user_id =
     (case user_id of
        None \<Rightarrow> False
      | Some u \<Rightarrow>
          if is_test_mode e \<and> u = ''test'' then True
          else if session_downgraded e then False
          else if u \<in> set (additional_admin_users e) then True
          else u \<in> set (admins_cached e))"

definition can_view_embargoed_release :: "admin_env \<Rightarrow> committee option \<Rightarrow> string option \<Rightarrow> bool \<Rightarrow> bool" where
  "can_view_embargoed_release e c uid is_member =
     (case uid of
        None \<Rightarrow> False
      | Some u \<Rightarrow>
          if is_admin e uid then True
          else if is_committee_member c u then True
          else is_member)"

text \<open>\<open>embargo_hides_release\<close> with \<open>release.is_embargoed\<close> and \<open>release.committee\<close> as arguments.\<close>

definition embargo_hides_release ::
  "admin_env \<Rightarrow> bool \<Rightarrow> committee option \<Rightarrow> string option \<Rightarrow> bool \<Rightarrow> bool" where
  "embargo_hides_release e embargoed c uid is_member =
     (embargoed \<and> \<not> can_view_embargoed_release e c uid is_member)"

definition is_participant_for_committee :: "admin_env \<Rightarrow> committee option \<Rightarrow> string list \<Rightarrow> bool" where
  "is_participant_for_committee e c project_keys =
     (case c of
        None \<Rightarrow> False
      | Some c' \<Rightarrow> if is_test_mode e \<and> c_key c' = ''test'' then True else c_key c' \<in> set project_keys)"

text \<open>\<open>projects\<close>: the active projects of the committees the user belongs to.\<close>

fun projects_committee_keys :: "admin_env \<Rightarrow> string \<Rightarrow> bool \<Rightarrow> committee list \<Rightarrow> string list" where
  "projects_committee_keys e uid committee_only [] = []"
| "projects_committee_keys e uid committee_only (c # cs) =
     (if (is_test_mode e \<and> c_key c = ''test'')
         \<or> uid \<in> set (c_committee_members c)
         \<or> (\<not> committee_only \<and> uid \<in> set (c_committers c))
      then c_key c # projects_committee_keys e uid committee_only cs
      else projects_committee_keys e uid committee_only cs)"

definition user_projects :: "admin_env \<Rightarrow> committee list \<Rightarrow> project list \<Rightarrow> string \<Rightarrow> bool \<Rightarrow> project list" where
  "user_projects e cs ps uid committee_only =
     (let keys = projects_committee_keys e uid committee_only cs in
      sel (\<lambda>p. p_status p = PS_ACTIVE \<and>
               (case p_committee_key p of None \<Rightarrow> False | Some k \<Rightarrow> k \<in> set keys)) ps)"

lemma is_committee_member_iff [simp]:
  "is_committee_member (Some c) uid \<longleftrightarrow> uid \<in> set (c_committee_members c)"
  "\<not> is_committee_member None uid"
  by (auto simp: is_committee_member_def list_ex_iff)

lemma is_committer_iff [simp]:
  "is_committer (Some c) uid \<longleftrightarrow> uid \<in> set (c_committers c)"
  "\<not> is_committer None uid"
  by (auto simp: is_committer_def list_ex_iff)

text \<open>The rounds for which the binding question has an answer, and the answer.\<close>

lemma is_binding_for_release_ok:
  "is_binding_for_release cs c uid r = Inr (b, n) \<longleftrightarrow>
     (\<not> c_is_podling c \<and> r = None \<and> n = committee_display_name c
        \<and> b = (uid \<in> set (c_committee_members c))) \<or>
     (c_is_podling c \<and> r = Some 1 \<and> n = committee_display_name c
        \<and> b = (uid \<in> set (c_committee_members c))) \<or>
     (c_is_podling c \<and> r = Some 2 \<and> n = ''Incubator''
        \<and> b = is_committee_member (committee_get cs ''incubator'') uid)"
  by (auto simp: is_binding_for_release_def split: option.splits if_splits)

lemma embargo_visible:
  "\<not> embargo_hides_release e True (Some c) (Some u) False \<longleftrightarrow>
     is_admin e (Some u) \<or> u \<in> set (c_committee_members c)"
  by (auto simp: embargo_hides_release_def can_view_embargoed_release_def)

end
