(* ===== verification/Tabulate.thy ===== *)
theory Tabulate
  imports User "HOL-Library.AList" Complex_Main
begin

text \<open>
  The tabulation of an email vote: src/atr/tabulate.py with the enumerations and the VoteEmail
  model of src/atr/models/tabulate.py and \<open>email_from_uid\<close> of src/atr/util.py.

  The thread that \<open>util.thread_messages\<close> downloads and the email-to-user cache are arguments.
  A Python dict is an association list in insertion order (\<open>AList.update\<close> keeps the place of a
  key it finds).  The durations, which the code computes in floating point from whole seconds,
  are exact rationals here.
\<close>

section \<open>Votes and messages\<close>

datatype Vote = V_YES | V_NO | V_ABSTAIN | V_UNKNOWN

datatype VoteStatus = BINDING | COMMITTER | CONTRIBUTOR | UNKNOWN

fun vote_value :: "Vote \<Rightarrow> string" where
  "vote_value V_YES = ''Yes''"
| "vote_value V_NO = ''No''"
| "vote_value V_ABSTAIN = ''-''"
| "vote_value V_UNKNOWN = ''?''"

fun status_value :: "VoteStatus \<Rightarrow> string" where
  "status_value BINDING = ''Binding''"
| "status_value COMMITTER = ''Committer''"
| "status_value CONTRIBUTOR = ''Contributor''"
| "status_value UNKNOWN = ''Unknown''"

record VoteEmail =
  ve_name :: string
  ve_asf_uid_or_email :: string
  ve_from_email :: string
  ve_status :: VoteStatus
  ve_asf_eid :: string
  ve_iso_datetime :: string
  ve_vote :: Vote
  ve_quotation :: string
  ve_updated :: bool

text \<open>
  A downloaded message: the fields \<open>votes\<close> reads, \<open>None\<close> for a header that is not a string.
\<close>

record message =
  m_message_id :: "string option"
  m_from_raw :: string
  m_list_raw :: string
  m_cc :: string
  m_received_spf :: "string option list"
  m_epoch :: "int option"
  m_subject :: string
  m_body :: string
  m_mid :: string
  m_date :: string

text \<open>
  What surrounds the tabulation: the development flag of the configuration, the committees in
  the database, and the email-to-uid cache (\<open>None\<close> when the lookup is unavailable).
\<close>

record tab_env =
  is_dev_environment :: bool
  env_committees :: "committee list"
  email_uid_view :: "(string \<Rightarrow> string option) option"

definition MAX_THREAD_MESSAGES :: nat where
  "MAX_THREAD_MESSAGES = 10000"

section \<open>Who sent a message\<close>

text \<open>
  \<open>re.search(r"<([^>]+)>", uid)\<close>, and \<open>re.search(r"^([^@ ]+)@apache.org$", uid)\<close>, whose dot is any
  character but a newline and whose dollar also matches before a final newline.
\<close>

fun angle_addr :: "string \<Rightarrow> string option" where
  "angle_addr [] = None"
| "angle_addr (c # s) =
     (if c = CHR ''<'' \<and> takeWhile (\<lambda>d. d \<noteq> CHR ''>'') s \<noteq> [] \<and> dropWhile (\<lambda>d. d \<noteq> CHR ''>'') s \<noteq> []
      then Some (takeWhile (\<lambda>d. d \<noteq> CHR ''>'') s) else angle_addr s)"

definition matches_apache_addr :: "string \<Rightarrow> bool" where
  "matches_apache_addr uid =
     (let w = takeWhile (\<lambda>c. c \<noteq> CHR ''@'' \<and> c \<noteq> CHR '' '') uid;
          r = drop (length w) uid;
          tl10 = drop 11 r
      in w \<noteq> [] \<and> take 7 r = ''@apache'' \<and> length r \<ge> 11 \<and> r ! 7 \<noteq> CHR 0x0A
         \<and> take 3 (drop 8 r) = ''org'' \<and> (tl10 = [] \<or> tl10 = [CHR 0x0A]))"

definition email_from_uid :: "string \<Rightarrow> string option" where
  "email_from_uid uid =
     (case angle_addr uid of
        Some a \<Rightarrow> Some (lower a)
      | None \<Rightarrow> if matches_apache_addr uid then Some uid else None)"

definition message_id_normalize :: "string \<Rightarrow> string" where
  "message_id_normalize message_id = removesuffix (removeprefix (strip message_id) ''<'') ''>''"

definition name_from_raw :: "string \<Rightarrow> string" where
  "name_from_raw from_raw =
     (case find_sub ''<'' from_raw of
        None \<Rightarrow> []
      | Some angle \<Rightarrow>
          if angle = 0 then []
          else (let name = strip_chars [CHR 0x22] (strip (take angle from_raw));
                    name = (case find_sub '' via '' name of None \<Rightarrow> name | Some i \<Rightarrow> take i name)
                in strip name))"

text \<open>
  \<open>SPF_ENVELOPE_FROM_RE.search(value)\<close>: \<open>spf_group\<close> matches the pattern from the equals sign on and
  returns its group, \<open>spf_here\<close> matches it after the boundary, \<open>spf_search\<close> tries every position
  (at the start of the value without and with a boundary character, later only with one).
\<close>

definition spf_group :: "string \<Rightarrow> string option" where
  "spf_group s =
     (let s = lstrip s in
      case s of
        [] \<Rightarrow> None
      | c # t \<Rightarrow>
          if c = CHR 0x22 \<and> CHR 0x22 \<in> set t
          then Some (c # takeWhile (\<lambda>d. d \<noteq> CHR 0x22) t @ [CHR 0x22])
          else if c = CHR ''<'' \<and> CHR ''>'' \<in> set t
          then Some (c # takeWhile (\<lambda>d. d \<noteq> CHR ''>'') t @ [CHR ''>''])
          else (let w = takeWhile (\<lambda>d. d \<noteq> CHR '';'' \<and> \<not> is_space d) s
                in if w = [] then None else Some w))"

definition spf_here :: "string \<Rightarrow> string option" where
  "spf_here s =
     (if startswith (lower s) ''envelope-from''
      then (case lstrip (drop 13 s) of
              c # t \<Rightarrow> if c = CHR ''='' then spf_group t else None
            | [] \<Rightarrow> None)
      else None)"

fun spf_search_from :: "string \<Rightarrow> string option" where
  "spf_search_from [] = None"
| "spf_search_from (c # s) =
     (if c = CHR '';'' \<or> is_space c
      then (case spf_here s of Some g \<Rightarrow> Some g | None \<Rightarrow> spf_search_from s)
      else spf_search_from s)"

definition spf_search :: "string \<Rightarrow> string option" where
  "spf_search s = (case spf_here s of Some g \<Rightarrow> Some g | None \<Rightarrow> spf_search_from s)"

definition spf_candidate :: "string \<Rightarrow> string" where
  "spf_candidate g =
     (let c = strip g;
          c = (if 2 \<le> length c \<and> hd c = CHR 0x22 \<and> last c = CHR 0x22 then butlast (tl c) else c);
          c = (if 2 \<le> length c \<and> hd c = CHR ''<'' \<and> last c = CHR ''>'' then butlast (tl c) else c)
      in lower (strip (rstrip_chars [CHR '';''] c)))"

fun received_spf_envelope_from :: "string option list \<Rightarrow> string option" where
  "received_spf_envelope_from [] = None"
| "received_spf_envelope_from (v # vs) =
     (case v of
        None \<Rightarrow> received_spf_envelope_from vs
      | Some value \<Rightarrow>
          (case spf_search value of
             None \<Rightarrow> received_spf_envelope_from vs
           | Some g \<Rightarrow>
               (let c = spf_candidate g in
                if c = [] \<or> c = ''<>'' \<or> CHR ''@'' \<notin> set c \<or> list_ex is_space c
                then received_spf_envelope_from vs
                else Some c)))"

text \<open>
  \<open>_vote_identity\<close>: whether the sender could be read, the name, the address and the ASF uid.
\<close>

definition vote_identity ::
  "string \<Rightarrow> (string \<Rightarrow> string option) \<Rightarrow> string \<Rightarrow> string list \<Rightarrow> string option list
    \<Rightarrow> bool \<times> string \<times> string \<times> string option" where
  "vote_identity from_raw email_to_uid list_email cc received_spf =
     (case email_from_uid from_raw of
        None \<Rightarrow> (False, [], [], None)
      | Some [] \<Rightarrow> (False, [], [], None)
      | Some a \<Rightarrow>
          (let name = name_from_raw from_raw;
               email = removesuffix a ''.invalid''
           in if endswith email ''@apache.org''
              then (True, name, email, Some (takeWhile (\<lambda>c. c \<noteq> CHR ''@'') email))
              else
                (let email' =
                   (if occurs ''via'' from_raw \<and> occurs (replace_str ''@'' ''.'' email) list_email
                    then (case received_spf_envelope_from received_spf of
                            Some e \<Rightarrow> e
                          | None \<Rightarrow>
                              if cc \<noteq> []
                              then (case email_from_uid (last cc) of
                                      Some e \<Rightarrow> if e \<noteq> [] then e else email
                                    | None \<Rightarrow> email)
                              else email)
                    else email)
                 in (True, name, email', email_to_uid email'))))"

definition vote_status :: "tab_env \<Rightarrow> string \<Rightarrow> string \<Rightarrow> committee option \<Rightarrow> VoteStatus" where
  "vote_status env asf_uid list_raw committee =
     (let committee =
        (if is_dev_environment env
         then committee_get (env_committees env) (after_sep ''.'' (before_sep ''.apache.org'' list_raw))
         else committee)
      in case committee of
           None \<Rightarrow> UNKNOWN
         | Some c \<Rightarrow>
             if asf_uid \<in> set (c_committee_members c) then BINDING
             else if asf_uid \<in> set (c_committers c) then COMMITTER
             else CONTRIBUTOR)"

section \<open>What a message votes\<close>

definition vote_continue :: "string \<Rightarrow> bool" where
  "vote_continue line =
     (if list_ex (\<lambda>i. occurs i line)
           [''[ ] +1'', ''[ ] +0'', ''[ ] -0'', ''[ ] -1'', ''+1 votes'', ''-1 votes'']
      then True else startswith line ''>'')"

definition vote_break :: "string \<Rightarrow> bool" where
  "vote_break line =
     (if line = ''-- '' then True
      else if startswith line ''On '' \<and> take 2 (drop 6 line) = '', '' then True
      else if startswith line ''From: '' then True
      else startswith line ''________'')"

definition line_vote :: "string \<Rightarrow> Vote option" where
  "line_vote line =
     (let plus_one = startswith line ''+1'' \<or> occurs '' +1'' line;
          minus_one = startswith line ''-1'' \<or> occurs '' -1'' line;
          zero = line \<in> {''0'', ''-0'', ''+0''} \<or> startswith line ''0 '' \<or> startswith line ''+0 ''
                 \<or> startswith line ''-0 ''
      in if (plus_one \<and> minus_one) \<or> (plus_one \<and> zero) \<or> (minus_one \<and> zero) then None
         else if plus_one then Some V_YES
         else if minus_one then Some V_NO
         else if zero then Some V_ABSTAIN
         else None)"

fun castings_lines :: "string list \<Rightarrow> (Vote \<times> string) list" where
  "castings_lines [] = []"
| "castings_lines (line # ls) =
     (if vote_continue line then castings_lines ls
      else if vote_break line then []
      else (case line_vote line of
              None \<Rightarrow> castings_lines ls
            | Some v \<Rightarrow> (v, line) # castings_lines ls))"

definition vote_castings :: "string \<Rightarrow> (Vote \<times> string) list" where
  "vote_castings body = castings_lines (split_on (CHR 0x0A) body)"

section \<open>The tabulation\<close>

type_synonym tabulated = "(string \<times> VoteEmail) list"

definition validate_thread_id :: "string \<Rightarrow> unit py" where
  "validate_thread_id thread_id =
     (if thread_id = [] then Inl (ValueError ''Invalid thread_id'')
      else if \<not> (list_all is_alnum (take 32 thread_id) \<and>
                 (length thread_id = 32 \<or> (length thread_id = 33 \<and> thread_id ! 32 = CHR 0x0A)))
      then Inl (ValueError ''Invalid thread_id format'')
      else Inr ())"

definition excluded_message :: "string list \<Rightarrow> message \<Rightarrow> bool" where
  "excluded_message excluded msg =
     (case m_message_id msg of
        None \<Rightarrow> False
      | Some i \<Rightarrow> message_id_normalize i \<in> set (map message_id_normalize (filter (\<lambda>x. x \<noteq> []) excluded)))"

definition identity_of ::
  "(string \<Rightarrow> string option) \<Rightarrow> message \<Rightarrow> bool \<times> string \<times> string \<times> string option" where
  "identity_of email_to_uid msg =
     vote_identity (m_from_raw msg) email_to_uid (m_list_raw msg)
       (split_str [CHR '','', CHR 0x0A] (m_cc msg)) (m_received_spf msg)"

definition record_start :: "int option \<Rightarrow> message \<Rightarrow> int option" where
  "record_start start msg =
     (case start of
        Some s \<Rightarrow> Some s
      | None \<Rightarrow> (case m_epoch msg of None \<Rightarrow> None | Some e \<Rightarrow> if e \<noteq> 0 then Some e else None))"

text \<open>The VoteEmail of a message with castings; \<open>updated\<close> says whether its key is tabulated already.\<close>

definition make_vote_email ::
  "tab_env \<Rightarrow> committee option \<Rightarrow> string \<times> string \<times> string option \<Rightarrow> message
    \<Rightarrow> (Vote \<times> string) list \<Rightarrow> tabulated \<Rightarrow> VoteEmail" where
  "make_vote_email env committee ident msg castings tab =
     (case ident of (name, email, uid) \<Rightarrow>
       (let key = (case uid of Some u \<Rightarrow> u | None \<Rightarrow> email);
            status = (case uid of Some u \<Rightarrow> vote_status env u (m_list_raw msg) committee
                                | None \<Rightarrow> CONTRIBUTOR)
        in \<lparr> ve_name = name, ve_asf_uid_or_email = key, ve_from_email = email, ve_status = status,
             ve_asf_eid = m_mid msg, ve_iso_datetime = m_date msg,
             ve_vote = (if length castings = 1 then fst (castings ! 0) else V_UNKNOWN),
             ve_quotation = join '' // '' (map snd castings),
             ve_updated = (key \<in> fst ` set tab) \<rparr>))"

fun votes_loop ::
  "tab_env \<Rightarrow> committee option \<Rightarrow> (string \<Rightarrow> string option) \<Rightarrow> string list \<Rightarrow> message list
    \<Rightarrow> nat \<Rightarrow> int option \<Rightarrow> tabulated \<Rightarrow> (int option \<times> tabulated) py" where
  "votes_loop env committee email_to_uid excluded [] message_count start tab = Inr (start, tab)"
| "votes_loop env committee email_to_uid excluded (msg # msgs) message_count start tab =
     (let message_count = message_count + 1 in
      if message_count > MAX_THREAD_MESSAGES
      then Inl (ValueError ''Thread exceeds maximum number of messages'')
      else if excluded_message excluded msg
      then votes_loop env committee email_to_uid excluded msgs message_count start tab
      else (case identity_of email_to_uid msg of (ok, ident) \<Rightarrow>
        if \<not> ok then votes_loop env committee email_to_uid excluded msgs message_count start tab
        else
          (let start = record_start start msg in
           if occurs ''[RESULT]'' (m_subject msg) then Inr (start, tab)
           else if m_body msg = []
           then votes_loop env committee email_to_uid excluded msgs message_count start tab
           else
             (let castings = vote_castings (m_body msg) in
              if castings = []
              then votes_loop env committee email_to_uid excluded msgs message_count start tab
              else
                (let ve = make_vote_email env committee ident msg castings tab in
                 votes_loop env committee email_to_uid excluded msgs message_count start
                   (AList.update (ve_asf_uid_or_email ve) ve tab))))))"

definition votes ::
  "tab_env \<Rightarrow> (string \<Rightarrow> message list py) \<Rightarrow> committee option \<Rightarrow> string \<Rightarrow> string list
    \<Rightarrow> (int option \<times> tabulated) py" where
  "votes env thread_messages committee thread_id excluded =
     (case email_uid_view env of
        None \<Rightarrow> Inl (ValueError ''email-to-UID lookup unavailable for tabulation'')
      | Some email_to_uid \<Rightarrow>
          bindE (validate_thread_id thread_id) (\<lambda>_.
          bindE (thread_messages thread_id) (\<lambda>msgs.
            votes_loop env committee email_to_uid excluded msgs 0 None [])))"

section \<open>Summary and outcome\<close>

record summary =
  s_binding_votes :: int
  s_binding_votes_yes :: int
  s_binding_votes_no :: int
  s_binding_votes_abstain :: int
  s_non_binding_votes :: int
  s_non_binding_votes_yes :: int
  s_non_binding_votes_no :: int
  s_non_binding_votes_abstain :: int
  s_unknown_votes :: int
  s_unknown_votes_yes :: int
  s_unknown_votes_no :: int
  s_unknown_votes_abstain :: int

definition summary_zero :: summary where
  "summary_zero = \<lparr> s_binding_votes = 0, s_binding_votes_yes = 0, s_binding_votes_no = 0,
     s_binding_votes_abstain = 0, s_non_binding_votes = 0, s_non_binding_votes_yes = 0,
     s_non_binding_votes_no = 0, s_non_binding_votes_abstain = 0, s_unknown_votes = 0,
     s_unknown_votes_yes = 0, s_unknown_votes_no = 0, s_unknown_votes_abstain = 0 \<rparr>"

definition one_if :: "bool \<Rightarrow> int" where
  "one_if b = (if b then 1 else 0)"

definition summary_add :: "VoteEmail \<Rightarrow> summary \<Rightarrow> summary" where
  "summary_add ve r =
     (let y = one_if (ve_vote ve = V_YES); n = one_if (ve_vote ve = V_NO);
          a = one_if (ve_vote ve = V_ABSTAIN) in
      if ve_status ve = BINDING then
        r \<lparr> s_binding_votes := s_binding_votes r + 1,
            s_binding_votes_yes := s_binding_votes_yes r + y,
            s_binding_votes_no := s_binding_votes_no r + n,
            s_binding_votes_abstain := s_binding_votes_abstain r + a \<rparr>
      else if ve_status ve = COMMITTER \<or> ve_status ve = CONTRIBUTOR then
        r \<lparr> s_non_binding_votes := s_non_binding_votes r + 1,
            s_non_binding_votes_yes := s_non_binding_votes_yes r + y,
            s_non_binding_votes_no := s_non_binding_votes_no r + n,
            s_non_binding_votes_abstain := s_non_binding_votes_abstain r + a \<rparr>
      else
        r \<lparr> s_unknown_votes := s_unknown_votes r + 1,
            s_unknown_votes_yes := s_unknown_votes_yes r + y,
            s_unknown_votes_no := s_unknown_votes_no r + n,
            s_unknown_votes_abstain := s_unknown_votes_abstain r + a \<rparr>)"

definition vote_summary :: "tabulated \<Rightarrow> summary" where
  "vote_summary tab = fold summary_add (map snd tab) summary_zero"

definition binding_vote_passes :: "int \<Rightarrow> int \<Rightarrow> bool" where
  "binding_vote_passes binding_plus_one binding_minus_one =
     (binding_plus_one \<ge> 3 \<and> binding_plus_one > binding_minus_one)"

definition plural :: "int \<Rightarrow> string \<Rightarrow> string" where
  "plural n singular =
     str_int n @ '' '' @ (if n = 1 then singular else singular @ ''s'')"

text \<open>Python's \<open>int(x)\<close> and \<open>round(x)\<close>: towards zero, and to the nearest with ties to even.\<close>

definition py_int :: "rat \<Rightarrow> int" where
  "py_int x = (if x < 0 then \<lceil>x\<rceil> else \<lfloor>x\<rfloor>)"

definition py_round :: "rat \<Rightarrow> int" where
  "py_round x =
     (let f = \<lfloor>x\<rfloor>; d = x - of_int f in
      if d < 1 / 2 then f else if d > 1 / 2 then f + 1 else if even f then f else f + 1)"

definition format_duration :: "rat \<Rightarrow> string" where
  "format_duration duration_hours =
     (let hours = py_int duration_hours;
          minutes = py_round ((duration_hours - of_int hours) * 60);
          (hours, minutes) = (if minutes = 60 then (hours + 1, 0) else (hours, minutes));
          parts = (if hours > 0 then [plural hours ''hour''] else []) @
                  (if minutes > 0 then [plural minutes ''minute''] else [])
      in if parts = [] then ''less than 1 minute'' else join '' and '' parts)"

definition vote_outcome_format :: "rat option \<Rightarrow> int \<Rightarrow> int \<Rightarrow> bool \<times> string" where
  "vote_outcome_format duration_hours_remaining binding_plus_one binding_minus_one =
     (let outcome_passed = binding_vote_passes binding_plus_one binding_minus_one in
      if \<not> outcome_passed then
        (False,
         (case duration_hours_remaining of
            Some d \<Rightarrow>
              if d > 0
              then ''The vote is still open for '' @ format_duration d @
                   '', but it would fail if closed now.''
              else ''The vote failed.''
          | None \<Rightarrow> ''The vote would fail if closed now.''))
      else
        (True,
         (case duration_hours_remaining of
            Some d \<Rightarrow>
              if d > 0
              then ''The vote is still open for '' @ format_duration d @
                   '', but it would pass if closed now.''
              else ''The vote passed.''
          | None \<Rightarrow> ''The vote passed.'')))"

fun count_binding :: "VoteEmail list \<Rightarrow> int \<Rightarrow> int \<Rightarrow> int \<times> int" where
  "count_binding [] p m = (p, m)"
| "count_binding (ve # ves) p m =
     (if ve_status ve \<noteq> BINDING then count_binding ves p m
      else if ve_vote ve = V_YES then count_binding ves (p + 1) m
      else if ve_vote ve = V_NO then count_binding ves p (m + 1)
      else count_binding ves p m)"

text \<open>\<open>now\<close> is \<open>int(time.time())\<close>; the project is \<open>release.project\<close>.\<close>

definition vote_outcome :: "int \<Rightarrow> project \<Rightarrow> int option \<Rightarrow> tabulated \<Rightarrow> bool \<times> string" where
  "vote_outcome now proj start_unixtime tab =
     (let duration_hours =
            (case start_unixtime of None \<Rightarrow> 0 | Some st \<Rightarrow> of_int (now - st) / 3600);
          remaining = (if policy_min_hours proj = 0 then None
                       else Some (of_int (policy_min_hours proj) - duration_hours))
      in case count_binding (map snd tab) 0 0 of
           (p, m) \<Rightarrow> vote_outcome_format remaining p m)"

record VoteDetails =
  vd_start_unixtime :: "int option"
  vd_votes :: tabulated
  vd_summary :: summary
  vd_passed :: bool
  vd_outcome :: string

definition vote_details ::
  "tab_env \<Rightarrow> (string \<Rightarrow> message list py) \<Rightarrow> int \<Rightarrow> committee option \<Rightarrow> string \<Rightarrow> project
    \<Rightarrow> string list \<Rightarrow> VoteDetails py" where
  "vote_details env thread_messages now committee thread_id proj excluded =
     bindE (votes env thread_messages committee thread_id excluded) (\<lambda>(start_unixtime, tab).
       (let (passed, outcome) = vote_outcome now proj start_unixtime tab in
        Inr \<lparr> vd_start_unixtime = start_unixtime, vd_votes = tab, vd_summary = vote_summary tab,
              vd_passed = passed, vd_outcome = outcome \<rparr>))"

text \<open>
  \<open>vote_committee\<close>: in development the committee of the mailing list of the first message, for the
  second round of a podling the Incubator, otherwise the committee of the project.
\<close>

definition vote_committee ::
  "tab_env \<Rightarrow> (string \<Rightarrow> message list py) \<Rightarrow> string \<Rightarrow> committee option \<Rightarrow> string option
    \<Rightarrow> committee option py" where
  "vote_committee env thread_messages thread_id project_committee podling_thread_id =
     (if is_dev_environment env then
        bindE (thread_messages thread_id) (\<lambda>msgs.
          (case msgs of
             [] \<Rightarrow> Inr project_committee
           | msg # _ \<Rightarrow>
               Inr (committee_get (env_committees env)
                      (after_sep ''.'' (before_sep ''.apache.org'' (m_list_raw msg))))))
      else
        (case project_committee of
           None \<Rightarrow> Inr None
         | Some c \<Rightarrow>
             if c_is_podling c \<and> podling_thread_id \<noteq> None
             then Inr (committee_get (env_committees env) ''incubator'')
             else Inr project_committee))"

section \<open>The text of a tally\<close>

record trusted_summary =
  ts_binding_yes :: int
  ts_binding_no :: int
  ts_binding_abstain :: int
  ts_non_binding_yes :: int
  ts_non_binding_no :: int
  ts_non_binding_abstain :: int

definition ts_binding_votes :: "trusted_summary \<Rightarrow> int" where
  "ts_binding_votes s = ts_binding_yes s + ts_binding_no s + ts_binding_abstain s"

definition ts_non_binding_votes :: "trusted_summary \<Rightarrow> int" where
  "ts_non_binding_votes s = ts_non_binding_yes s + ts_non_binding_no s + ts_non_binding_abstain s"

definition thread_url :: "string \<Rightarrow> string" where
  "thread_url thread_id = ''https://lists.apache.org/thread/'' @ thread_id"

definition trusted_tally_lines ::
  "trusted_summary \<Rightarrow> string \<Rightarrow> string \<Rightarrow> string option \<Rightarrow> string option \<Rightarrow> string list" where
  "trusted_tally_lines s binding_label non_binding_label thread_id podling_thread_id =
     (case podling_thread_id of
        Some t \<Rightarrow> if t \<noteq> []
                  then [''The previous round of voting is archived at the following URL:'', [],
                        thread_url t, []]
                  else []
      | None \<Rightarrow> []) @
     (case thread_id of
        Some t \<Rightarrow> [''The vote thread is archived at the following URL:'', [], thread_url t, []]
      | None \<Rightarrow> []) @
     [''There were '' @ str_int (ts_binding_votes s) @ '' '' @ binding_label_inline binding_label @ '' votes.'',
      binding_label @ '' votes: +1: '' @ str_int (ts_binding_yes s) @ '', 0: '' @
        str_int (ts_binding_abstain s) @ '', -1: '' @ str_int (ts_binding_no s) @ ''.'',
      non_binding_label @ '' votes: +1: '' @ str_int (ts_non_binding_yes s) @ '', 0: '' @
        str_int (ts_non_binding_abstain s) @ '', -1: '' @ str_int (ts_non_binding_no s) @ ''.'']"

definition trusted_tally_block ::
  "trusted_summary \<Rightarrow> string \<Rightarrow> string \<Rightarrow> string option \<Rightarrow> string option \<Rightarrow> string" where
  "trusted_tally_block s binding_label non_binding_label thread_id podling_thread_id =
     join [CHR 0x0A] (trusted_tally_lines s binding_label non_binding_label thread_id podling_thread_id)"

definition vote_resolution_count :: "int \<Rightarrow> string \<Rightarrow> string" where
  "vote_resolution_count n symbol =
     str_int n @ '' '' @ (if n = 1 then ''was'' else ''were'') @ '' '' @ symbol"

fun vote_symbol :: "Vote \<Rightarrow> string" where
  "vote_symbol V_YES = ''+1''"
| "vote_symbol V_NO = ''-1''"
| "vote_symbol V_ABSTAIN = ''0''"
| "vote_symbol V_UNKNOWN = ''?''"

definition vote_line :: "string \<Rightarrow> VoteEmail \<Rightarrow> string" where
  "vote_line binding_label ve =
     vote_symbol (ve_vote ve) @ '' '' @ ve_asf_uid_or_email ve @ '' ('' @
     (if ve_status ve = BINDING then binding_label_inline binding_label
      else lower (status_value (ve_status ve))) @
     (if ve_updated ve then '', updated'' else []) @ '')''"

text \<open>
  The statuses are a Python set; the list gives the order in which the set is iterated for the
  header.
\<close>

definition vote_resolution_votes ::
  "tabulated \<Rightarrow> VoteStatus list \<Rightarrow> string \<Rightarrow> string \<Rightarrow> string list" where
  "vote_resolution_votes tab statuses binding_label non_binding_label =
     (let status_label = (\<lambda>st. if st = BINDING then binding_label_inline binding_label
                               else if st = COMMITTER \<or> st = CONTRIBUTOR then lower (status_value st)
                               else lower non_binding_label);
          header = ''The '' @ join '' and '' (map status_label statuses) @
                   '' votes were cast as follows:'';
          rows = filter (\<lambda>ve. ve_status ve \<in> set statuses) (map snd tab)
      in if rows = [] then []
         else [header, []] @ map (vote_line binding_label) rows @ [[]])"

definition vote_resolution_body_votes ::
  "tabulated \<Rightarrow> summary \<Rightarrow> string \<Rightarrow> string \<Rightarrow> VoteStatus list \<Rightarrow> string list" where
  "vote_resolution_body_votes tab s binding_label non_binding_label others =
     (let inline = binding_label_inline binding_label;
          total = s_binding_votes s;
          were_word = (if total = 1 then ''was'' else ''were'');
          votes_word = (if total = 1 then ''vote'' else ''votes'')
      in vote_resolution_votes tab [BINDING] binding_label non_binding_label @
         [''There '' @ were_word @ '' '' @ str_int total @ '' '' @ inline @ '' '' @ votes_word @ ''.'', [],
          ''Of these '' @ inline @ '' votes, '' @
            join '', '' [vote_resolution_count (s_binding_votes_yes s) ''+1'',
                         vote_resolution_count (s_binding_votes_no s) ''-1''] @
            '', and '' @ vote_resolution_count (s_binding_votes_abstain s) ''0'' @ ''.'', []] @
         vote_resolution_votes tab [COMMITTER] binding_label non_binding_label @
         vote_resolution_votes tab others binding_label non_binding_label)"

definition email_tally_block ::
  "tabulated \<Rightarrow> summary \<Rightarrow> string \<Rightarrow> string \<Rightarrow> string \<Rightarrow> string option \<Rightarrow> VoteStatus list \<Rightarrow> string" where
  "email_tally_block tab s thread_id binding_label non_binding_label podling_thread_id others =
     join [CHR 0x0A]
       ((if podling_thread_id \<noteq> None \<and> podling_thread_id \<noteq> Some []
         then [''The previous round of voting is archived at the following URL:'', [],
               thread_url (the podling_thread_id), [],
               ''The current vote thread is archived at the following URL:'']
         else [''The vote thread is archived at the following URL:'']) @
        [[], thread_url thread_id, []] @
        vote_resolution_body_votes tab s binding_label non_binding_label others)"

definition vote_result_subject :: "string \<Rightarrow> string \<Rightarrow> string \<Rightarrow> string" where
  "vote_result_subject display_name version resolution =
     ''[RESULT] [VOTE] Release '' @ display_name @ '' '' @ version @ '' '' @ map upper_char resolution"

section \<open>The castings of a message\<close>

text \<open>
  What \<open>vote_castings\<close> computes, without the loop: drop the explanation and quotation lines, stop at
  the first line that starts a signature or a quoted message, and read every line left.
\<close>

definition castings_spec :: "string list \<Rightarrow> (Vote \<times> string) list" where
  "castings_spec ls =
     List.map_filter (\<lambda>l. map_option (\<lambda>v. (v, l)) (line_vote l))
       (takeWhile (\<lambda>l. \<not> vote_break l) (filter (\<lambda>l. \<not> vote_continue l) ls))"

lemma castings_lines_spec: "castings_lines ls = castings_spec ls"
  by (induction ls)
     (auto simp: castings_spec_def List.map_filter_simps split: option.split)

text \<open>Nothing below a signature or a quotation mark is read, whatever it says.\<close>

lemma castings_after_break:
  "vote_break b \<Longrightarrow> \<not> vote_continue b \<Longrightarrow>
     castings_lines (ls @ b # rest) = castings_lines (ls @ [b])"
  by (induction ls) (auto split: option.split)

lemma castings_quoted:
  "(\<And>l. l \<in> set qs \<Longrightarrow> vote_continue l) \<Longrightarrow> castings_lines (ls @ qs @ rest) = castings_lines (ls @ rest)"
proof (induction ls)
  case Nil
  then show ?case by (induction qs) auto
next
  case (Cons l ls)
  then show ?case by (auto split: option.split)
qed

lemma castings_lines_sound:
  "(v, l) \<in> set (castings_lines ls) \<Longrightarrow>
     l \<in> set ls \<and> \<not> startswith l ''>'' \<and> line_vote l = Some v"
  by (induction ls) (auto simp: vote_continue_def split: if_splits option.splits)

section \<open>The tabulation as a fold over the ballots cast\<close>

definition considered :: "(string \<Rightarrow> string option) \<Rightarrow> string list \<Rightarrow> message list \<Rightarrow> message list" where
  "considered e excluded msgs =
     takeWhile (\<lambda>m. \<not> occurs ''[RESULT]'' (m_subject m))
       (filter (\<lambda>m. \<not> excluded_message excluded m \<and> fst (identity_of e m)) msgs)"

definition ballot_of ::
  "tab_env \<Rightarrow> committee option \<Rightarrow> (string \<Rightarrow> string option) \<Rightarrow> message \<Rightarrow> VoteEmail option" where
  "ballot_of env committee e m =
     (if m_body m = [] \<or> vote_castings (m_body m) = [] then None
      else Some (make_vote_email env committee (snd (identity_of e m)) m (vote_castings (m_body m)) []))"

definition cast_ballots ::
  "tab_env \<Rightarrow> committee option \<Rightarrow> (string \<Rightarrow> string option) \<Rightarrow> string list \<Rightarrow> message list \<Rightarrow> VoteEmail list" where
  "cast_ballots env committee e excluded msgs =
     List.map_filter (ballot_of env committee e) (considered e excluded msgs)"

definition record_ballot :: "VoteEmail \<Rightarrow> tabulated \<Rightarrow> tabulated" where
  "record_ballot ve tab =
     AList.update (ve_asf_uid_or_email ve)
       (ve \<lparr> ve_updated := (ve_asf_uid_or_email ve \<in> fst ` set tab) \<rparr>) tab"

lemma make_vote_email_key:
  "ve_asf_uid_or_email (make_vote_email env c ident m cs tab) =
     ve_asf_uid_or_email (make_vote_email env c ident m cs [])"
  by (simp add: make_vote_email_def Let_def split: prod.splits)

lemma make_vote_email_updated:
  "make_vote_email env c ident m cs tab =
     (make_vote_email env c ident m cs []) \<lparr> ve_updated :=
        (ve_asf_uid_or_email (make_vote_email env c ident m cs []) \<in> fst ` set tab) \<rparr>"
  by (simp add: make_vote_email_def Let_def split: prod.splits)

lemma update_record_ballot:
  "AList.update (ve_asf_uid_or_email (make_vote_email env c ident m cs tab))
     (make_vote_email env c ident m cs tab) tab =
   record_ballot (make_vote_email env c ident m cs []) tab"
  unfolding record_ballot_def by (metis make_vote_email_key make_vote_email_updated)

lemma votes_loop_fold:
  assumes "n + length msgs \<le> MAX_THREAD_MESSAGES"
  shows "\<exists>start'. votes_loop env c e excluded msgs n start tab =
           Inr (start', fold record_ballot (cast_ballots env c e excluded msgs) tab)"
  using assms
proof (induction msgs arbitrary: n start tab)
  case Nil
  show ?case by (simp add: cast_ballots_def considered_def List.map_filter_simps)
next
  case (Cons m msgs)
  have bound: "\<not> MAX_THREAD_MESSAGES < n + 1" "(n + 1) + length msgs \<le> MAX_THREAD_MESSAGES"
    using Cons.prems by simp_all
  note IH = Cons.IH [OF bound(2)]
  obtain ok ident where id: "identity_of e m = (ok, ident)" by (cases "identity_of e m") auto
  show ?case
  proof (cases "excluded_message excluded m \<or> \<not> ok")
    case True
    then have "cast_ballots env c e excluded (m # msgs) = cast_ballots env c e excluded msgs"
      using id by (auto simp: cast_ballots_def considered_def)
    then show ?thesis using True id bound IH by (auto simp: Let_def)
  next
    case False
    show ?thesis
    proof (cases "occurs ''[RESULT]'' (m_subject m)")
      case True
      then have "cast_ballots env c e excluded (m # msgs) = []"
        using False id by (auto simp: cast_ballots_def considered_def List.map_filter_simps)
      then show ?thesis using True False id bound by (simp add: Let_def)
    next
      case nores: False
      then have cb: "cast_ballots env c e excluded (m # msgs) =
          (case ballot_of env c e m of None \<Rightarrow> cast_ballots env c e excluded msgs
                                     | Some ve \<Rightarrow> ve # cast_ballots env c e excluded msgs)"
        using False id
        by (auto simp: cast_ballots_def considered_def List.map_filter_simps split: option.split)
      show ?thesis
      proof (cases "m_body m = [] \<or> vote_castings (m_body m) = []")
        case True
        then have "ballot_of env c e m = None" by (simp add: ballot_of_def)
        then show ?thesis using cb True nores False id bound IH by (auto simp: Let_def)
      next
        case body: False
        then have "ballot_of env c e m =
            Some (make_vote_email env c ident m (vote_castings (m_body m)) [])"
          using id by (simp add: ballot_of_def)
        then show ?thesis
          using cb body nores False id bound IH by (auto simp: Let_def update_record_ballot)
      qed
    qed
  qed
qed

lemma votes_fold:
  assumes "email_uid_view env = Some e" and "validate_thread_id t = Inr ()"
    and "fetch t = Inr msgs" and "length msgs \<le> MAX_THREAD_MESSAGES"
  shows "\<exists>start. votes env fetch c t excluded =
           Inr (start, fold record_ballot (cast_ballots env c e excluded msgs) [])"
  using votes_loop_fold [of 0 msgs env c e excluded None "[]"] assms
  by (simp add: votes_def)

section \<open>The dictionary of ballots\<close>

abbreviation ballots_by :: "string \<Rightarrow> VoteEmail list \<Rightarrow> VoteEmail list" where
  "ballots_by k bs \<equiv> filter (\<lambda>ve. ve_asf_uid_or_email ve = k) bs"

lemma keys_record_ballot:
  "fst ` set (record_ballot ve tab) = insert (ve_asf_uid_or_email ve) (fst ` set tab)"
  by (simp add: record_ballot_def dom_update)

lemma distinct_record_ballots:
  "distinct (map fst tab) \<Longrightarrow> distinct (map fst (fold record_ballot bs tab))"
  by (induction bs arbitrary: tab) (auto simp: record_ballot_def distinct_update)

lemma map_of_record_ballots:
  "map_of (fold record_ballot bs tab) k =
     (case rev (ballots_by k bs) of
        [] \<Rightarrow> map_of tab k
      | ve # earlier \<Rightarrow> Some (ve \<lparr> ve_updated := (earlier \<noteq> [] \<or> k \<in> fst ` set tab) \<rparr>))"
proof (induction bs rule: rev_induct)
  case Nil
  show ?case by simp
next
  case (snoc b bs)
  have keys: "fst ` set (fold record_ballot bs tab) =
      ve_asf_uid_or_email ` set bs \<union> fst ` set tab" for tab
    by (induction bs arbitrary: tab) (auto simp: keys_record_ballot)
  have ne: "ballots_by k bs \<noteq> [] \<longleftrightarrow> k \<in> ve_asf_uid_or_email ` set bs"
    by (auto simp: filter_empty_conv)
  show ?case
  proof (cases "ve_asf_uid_or_email b = k")
    case True
    have "map_of (fold record_ballot (bs @ [b]) tab) k =
        Some (b \<lparr> ve_updated := k \<in> ve_asf_uid_or_email ` set bs \<union> fst ` set tab \<rparr>)"
      using True by (simp add: record_ballot_def update_conv' keys)
    moreover have "k \<in> ve_asf_uid_or_email ` set bs \<union> fst ` set tab \<longleftrightarrow>
        ballots_by k bs \<noteq> [] \<or> k \<in> fst ` set tab"
      using ne by auto
    ultimately show ?thesis using True by simp
  next
    case False
    then show ?thesis using snoc.IH by (simp add: record_ballot_def update_conv')
  qed
qed

section \<open>Counting\<close>

definition tally :: "VoteStatus \<Rightarrow> Vote \<Rightarrow> VoteEmail list \<Rightarrow> int" where
  "tally st v ves = int (length (filter (\<lambda>ve. ve_status ve = st \<and> ve_vote ve = v) ves))"

lemma tally_Nil [simp]: "tally st v [] = 0"
  by (simp add: tally_def)

lemma tally_Cons [simp]:
  "tally st v (ve # ves) = one_if (ve_status ve = st \<and> ve_vote ve = v) + tally st v ves"
  by (simp add: tally_def one_if_def)

lemma count_binding_tally:
  "count_binding ves p m = (p + tally BINDING V_YES ves, m + tally BINDING V_NO ves)"
  by (induction ves p m rule: count_binding.induct) (auto simp: one_if_def)

lemma summary_binding_tally:
  "s_binding_votes_yes (fold summary_add ves r) = s_binding_votes_yes r + tally BINDING V_YES ves"
  "s_binding_votes_no (fold summary_add ves r) = s_binding_votes_no r + tally BINDING V_NO ves"
  "s_binding_votes_abstain (fold summary_add ves r) =
     s_binding_votes_abstain r + tally BINDING V_ABSTAIN ves"
  "s_binding_votes (fold summary_add ves r) =
     s_binding_votes r + tally BINDING V_YES ves + tally BINDING V_NO ves +
       tally BINDING V_ABSTAIN ves + tally BINDING V_UNKNOWN ves"
proof (induction ves arbitrary: r)
  case (Cons ve ves)
  {
    case 1
    show ?case using Cons(1) by (cases "ve_status ve") (auto simp: summary_add_def one_if_def Let_def)
  next
    case 2
    show ?case using Cons(2) by (cases "ve_status ve") (auto simp: summary_add_def one_if_def Let_def)
  next
    case 3
    show ?case using Cons(3) by (cases "ve_status ve") (auto simp: summary_add_def one_if_def Let_def)
  next
    case 4
    show ?case using Cons(4)
      by (cases "ve_status ve"; cases "ve_vote ve") (auto simp: summary_add_def one_if_def Let_def)
  }
qed simp_all

lemma summary_totals:
  "s_binding_votes (fold summary_add ves r) + s_non_binding_votes (fold summary_add ves r) +
     s_unknown_votes (fold summary_add ves r) =
   s_binding_votes r + s_non_binding_votes r + s_unknown_votes r + int (length ves)"
proof (induction ves arbitrary: r)
  case (Cons ve ves)
  have step: "s_binding_votes (summary_add ve r) + s_non_binding_votes (summary_add ve r) +
      s_unknown_votes (summary_add ve r) =
    s_binding_votes r + s_non_binding_votes r + s_unknown_votes r + 1"
    by (cases "ve_status ve") (auto simp: summary_add_def Let_def)
  show ?case using Cons.IH [of "summary_add ve r"] step by simp
qed simp

lemma fst_vote_outcome:
  "fst (vote_outcome now proj st tab) =
     binding_vote_passes (tally BINDING V_YES (map snd tab)) (tally BINDING V_NO (map snd tab))"
  by (simp add: vote_outcome_def Let_def count_binding_tally vote_outcome_format_def)

lemma vote_details_Inr:
  assumes "vote_details env fetch now c t proj excluded = Inr d"
  obtains start tab where "votes env fetch c t excluded = Inr (start, tab)"
    and "d = \<lparr> vd_start_unixtime = start, vd_votes = tab, vd_summary = vote_summary tab,
               vd_passed = fst (vote_outcome now proj start tab),
               vd_outcome = snd (vote_outcome now proj start tab) \<rparr>"
  using assms by (auto simp: vote_details_def Let_def split: prod.splits)

lemma vote_summary_tally:
  "s_binding_votes_yes (vote_summary tab) = tally BINDING V_YES (map snd tab)"
  "s_binding_votes_no (vote_summary tab) = tally BINDING V_NO (map snd tab)"
  "s_binding_votes_yes (vote_summary tab) + s_binding_votes_no (vote_summary tab) +
     s_binding_votes_abstain (vote_summary tab) + tally BINDING V_UNKNOWN (map snd tab) =
   s_binding_votes (vote_summary tab)"
  by (simp_all add: vote_summary_def summary_binding_tally summary_zero_def)

lemma vote_summary_total:
  "s_binding_votes (vote_summary tab) + s_non_binding_votes (vote_summary tab) +
     s_unknown_votes (vote_summary tab) = int (length tab)"
  using summary_totals [of "map snd tab" summary_zero]
  by (simp add: vote_summary_def) (simp add: summary_zero_def)

lemma details_consistent:
  assumes "vote_details env fetch now c t proj excluded = Inr d"
  shows "vd_passed d \<longleftrightarrow> s_binding_votes_yes (vd_summary d) \<ge> 3
           \<and> s_binding_votes_yes (vd_summary d) > s_binding_votes_no (vd_summary d)"
    and "s_binding_votes (vd_summary d) + s_non_binding_votes (vd_summary d) +
           s_unknown_votes (vd_summary d) = int (length (vd_votes d))"
    and "s_binding_votes_yes (vd_summary d) + s_binding_votes_no (vd_summary d) +
           s_binding_votes_abstain (vd_summary d) +
           int (length (filter (\<lambda>(k, ve). ve_status ve = BINDING \<and> ve_vote ve = V_UNKNOWN) (vd_votes d)))
         = s_binding_votes (vd_summary d)"
proof -
  obtain start tab where d: "d = \<lparr> vd_start_unixtime = start, vd_votes = tab,
      vd_summary = vote_summary tab, vd_passed = fst (vote_outcome now proj start tab),
      vd_outcome = snd (vote_outcome now proj start tab) \<rparr>"
    using assms by (rule vote_details_Inr)
  have unknown: "int (length (filter (\<lambda>(k, ve). ve_status ve = BINDING \<and> ve_vote ve = V_UNKNOWN) tab))
      = tally BINDING V_UNKNOWN (map snd tab)"
    by (simp add: tally_def filter_map o_def case_prod_unfold)
  show "vd_passed d \<longleftrightarrow> s_binding_votes_yes (vd_summary d) \<ge> 3
           \<and> s_binding_votes_yes (vd_summary d) > s_binding_votes_no (vd_summary d)"
    by (simp add: d fst_vote_outcome binding_vote_passes_def vote_summary_tally)
  show "s_binding_votes (vd_summary d) + s_non_binding_votes (vd_summary d) +
           s_unknown_votes (vd_summary d) = int (length (vd_votes d))"
    by (simp add: d vote_summary_total)
  show "s_binding_votes_yes (vd_summary d) + s_binding_votes_no (vd_summary d) +
           s_binding_votes_abstain (vd_summary d) +
           int (length (filter (\<lambda>(k, ve). ve_status ve = BINDING \<and> ve_vote ve = V_UNKNOWN) (vd_votes d)))
         = s_binding_votes (vd_summary d)"
    using vote_summary_tally(3) [of tab] unknown by (simp add: d)
qed

section \<open>Only the committee's messages decide\<close>

text \<open>The ASF uid a message is attributed to, and whether it is a member's message or ends the vote.\<close>

definition sender_uid :: "(string \<Rightarrow> string option) \<Rightarrow> message \<Rightarrow> string option" where
  "sender_uid e m = snd (snd (snd (identity_of e m)))"

definition sender_email :: "(string \<Rightarrow> string option) \<Rightarrow> message \<Rightarrow> string" where
  "sender_email e m = fst (snd (snd (identity_of e m)))"

definition decisive :: "committee \<Rightarrow> (string \<Rightarrow> string option) \<Rightarrow> message \<Rightarrow> bool" where
  "decisive c e m =
     (occurs ''[RESULT]'' (m_subject m) \<or>
      (case sender_uid e m of None \<Rightarrow> False | Some u \<Rightarrow> u \<in> set (c_committee_members c)))"

lemma takeWhile_filter_commute:
  "(\<And>x. x \<in> set xs \<Longrightarrow> \<not> P x \<Longrightarrow> K x) \<Longrightarrow> takeWhile P (filter K xs) = filter K (takeWhile P xs)"
  by (induction xs) auto

lemma considered_decisive:
  "considered e excluded (filter (decisive c e) msgs) = filter (decisive c e) (considered e excluded msgs)"
proof -
  have "considered e excluded (filter (decisive c e) msgs) =
      takeWhile (\<lambda>m. \<not> occurs ''[RESULT]'' (m_subject m)) (filter (decisive c e)
        (filter (\<lambda>m. \<not> excluded_message excluded m \<and> fst (identity_of e m)) msgs))"
    by (simp add: considered_def conj_commute)
  also have "\<dots> = filter (decisive c e) (considered e excluded msgs)"
    unfolding considered_def by (rule takeWhile_filter_commute) (simp add: decisive_def)
  finally show ?thesis .
qed

lemma ballot_of_key:
  assumes "ballot_of env c e m = Some ve"
  shows "ve_asf_uid_or_email ve = (case sender_uid e m of Some u \<Rightarrow> u | None \<Rightarrow> sender_email e m)"
    and "ve_status ve = (case sender_uid e m of Some u \<Rightarrow> vote_status env u (m_list_raw m) c
                                              | None \<Rightarrow> CONTRIBUTOR)"
  using assms
  by (auto simp: ballot_of_def make_vote_email_def sender_uid_def sender_email_def Let_def
      split: if_splits prod.splits option.splits)

lemma ballots_by_decisive:
  assumes "\<not> is_dev_environment env" and "k \<in> set (c_committee_members c)"
    and "\<And>m. m \<in> set msgs \<Longrightarrow> sender_uid e m = None \<Longrightarrow> sender_email e m \<noteq> k"
  shows "ballots_by k (cast_ballots env c' e excluded (filter (decisive c e) msgs)) =
         ballots_by k (cast_ballots env c' e excluded msgs)"
proof -
  define xs where "xs = considered e excluded msgs"
  have sub: "set xs \<subseteq> set msgs"
    by (auto simp: xs_def considered_def dest: set_takeWhileD)
  have "ballots_by k (List.map_filter (ballot_of env c' e) (filter (decisive c e) ys)) =
      ballots_by k (List.map_filter (ballot_of env c' e) ys)"
    if "set ys \<subseteq> set msgs" for ys
    using that
  proof (induction ys)
    case (Cons y ys)
    show ?case
    proof (cases "decisive c e y")
      case True
      then show ?thesis using Cons by (simp add: List.map_filter_simps split: option.split)
    next
      case False
      have "ve_asf_uid_or_email ve \<noteq> k" if "ballot_of env c' e y = Some ve" for ve
        using ballot_of_key(1) [OF that] False assms(2,3) Cons.prems
        by (auto simp: decisive_def split: option.splits)
      then show ?thesis using Cons False by (simp add: List.map_filter_simps split: option.split)
    qed
  qed simp
  from this [OF sub] show ?thesis
    by (simp add: cast_ballots_def considered_decisive xs_def)
qed

lemma tally_map_of:
  assumes "distinct (map fst tab)"
  shows "tally st v (map snd tab) =
    int (card {k. \<exists>ve. map_of tab k = Some ve \<and> ve_status ve = st \<and> ve_vote ve = v})"
proof -
  let ?P = "\<lambda>x. ve_status (snd x) = st \<and> ve_vote (snd x) = v"
  have "distinct (map fst (filter ?P tab))"
    using assms by (rule distinct_map_filter_key)
  then have "length (filter ?P tab) = card (set (map fst (filter ?P tab)))"
    by (subst distinct_card) simp_all
  moreover have "set (map fst (filter ?P tab)) =
      {k. \<exists>ve. map_of tab k = Some ve \<and> ve_status ve = st \<and> ve_vote ve = v}"
    using assms by (auto simp: map_of_eq_Some_iff image_iff)
  ultimately show ?thesis by (simp add: tally_def filter_map o_def)
qed

lemma binding_key_is_member:
  assumes "\<not> is_dev_environment env"
    and "map_of (fold record_ballot (cast_ballots env (Some c) e excluded msgs) []) k = Some ve"
    and "ve_status ve = BINDING"
  shows "k \<in> set (c_committee_members c)"
proof -
  obtain b earlier where b: "rev (ballots_by k (cast_ballots env (Some c) e excluded msgs)) = b # earlier"
    and ve: "ve_status ve = ve_status b"
    using assms(2) by (auto simp: map_of_record_ballots split: list.splits)
  have "b \<in> set (ballots_by k (cast_ballots env (Some c) e excluded msgs))"
    using b by (metis list.set_intros(1) set_rev)
  then obtain m where m: "ballot_of env (Some c) e m = Some b" and key: "ve_asf_uid_or_email b = k"
    by (auto simp: cast_ballots_def List.map_filter_def)
  show ?thesis
    using ballot_of_key [OF m] key ve assms(1,3)
    by (auto simp: vote_status_def split: option.splits if_splits)
qed

lemma tally_decisive:
  fixes env c e excluded msgs
  defines "tab \<equiv> fold record_ballot (cast_ballots env (Some c) e excluded msgs) []"
    and "tab' \<equiv> fold record_ballot (cast_ballots env (Some c) e excluded (filter (decisive c e) msgs)) []"
  assumes nodev: "\<not> is_dev_environment env"
    and nocoll: "\<And>m. m \<in> set msgs \<Longrightarrow> sender_uid e m = None \<Longrightarrow>
                   sender_email e m \<notin> set (c_committee_members c)"
  shows "tally BINDING v (map snd tab') = tally BINDING v (map snd tab)"
proof -
  have same: "map_of tab' k = map_of tab k" if "k \<in> set (c_committee_members c)" for k
  proof -
    have "ballots_by k (cast_ballots env (Some c) e excluded (filter (decisive c e) msgs)) =
        ballots_by k (cast_ballots env (Some c) e excluded msgs)"
      by (rule ballots_by_decisive [OF nodev that]) (use nocoll that in auto)
    then show ?thesis by (simp add: tab_def tab'_def map_of_record_ballots)
  qed
  have mem: "k \<in> set (c_committee_members c)" if "map_of tab k = Some ve" "ve_status ve = BINDING" for k ve
    using binding_key_is_member [OF nodev] that by (auto simp: tab_def)
  have mem': "k \<in> set (c_committee_members c)" if "map_of tab' k = Some ve" "ve_status ve = BINDING" for k ve
    using binding_key_is_member [OF nodev] that by (auto simp: tab'_def)
  have "{k. \<exists>ve. map_of tab' k = Some ve \<and> ve_status ve = BINDING \<and> ve_vote ve = v} =
      {k. \<exists>ve. map_of tab k = Some ve \<and> ve_status ve = BINDING \<and> ve_vote ve = v}"
  proof (rule Collect_cong)
    fix k
    show "(\<exists>ve. map_of tab' k = Some ve \<and> ve_status ve = BINDING \<and> ve_vote ve = v) \<longleftrightarrow>
        (\<exists>ve. map_of tab k = Some ve \<and> ve_status ve = BINDING \<and> ve_vote ve = v)"
    proof (cases "k \<in> set (c_committee_members c)")
      case True
      then show ?thesis by (simp add: same)
    next
      case False
      then show ?thesis using mem mem' by blast
    qed
  qed
  moreover have "distinct (map fst tab)" "distinct (map fst tab')"
    by (simp_all add: tab_def tab'_def distinct_record_ballots)
  ultimately show ?thesis by (simp add: tally_map_of)
qed

lemma details_of_fold:
  assumes "email_uid_view env = Some e" and "validate_thread_id t = Inr ()"
    and "fetch t = Inr msgs" and "length msgs \<le> MAX_THREAD_MESSAGES"
  shows "\<exists>d. vote_details env fetch now c t proj excluded = Inr d \<and>
    vd_votes d = fold record_ballot (cast_ballots env c e excluded msgs) [] \<and>
    (vd_passed d \<longleftrightarrow> binding_vote_passes (tally BINDING V_YES (map snd (vd_votes d)))
                                       (tally BINDING V_NO (map snd (vd_votes d))))"
proof -
  obtain start where "votes env fetch c t excluded =
      Inr (start, fold record_ballot (cast_ballots env c e excluded msgs) [])"
    using votes_fold [where fetch = fetch and t = t, OF assms] by blast
  then show ?thesis
    using fst_vote_outcome [of now proj start]
    by (simp add: vote_details_def Let_def case_prod_unfold)
qed

section \<open>Properties\<close>

text \<open>
  C28: for every thread within the message limit the tabulation succeeds with one entry per voter,
  and the entry of a voter is the voter's last message with a casting before the first result
  message, marked as updated exactly when the voter had cast before; every other message of the
  thread leaves no entry.
\<close>
theorem votes_last_casting_wins:
  assumes "email_uid_view env = Some e" and "validate_thread_id t = Inr ()"
    and "fetch t = Inr msgs" and "length msgs \<le> MAX_THREAD_MESSAGES"
  shows "\<exists>start tab. votes env fetch c t excluded = Inr (start, tab) \<and> distinct (map fst tab) \<and>
    (\<forall>k. map_of tab k =
      (case rev (filter (\<lambda>ve. ve_asf_uid_or_email ve = k) (cast_ballots env c e excluded msgs)) of
         [] \<Rightarrow> None
       | ve # earlier \<Rightarrow> Some (ve \<lparr> ve_updated := (earlier \<noteq> []) \<rparr>)))"
proof -
  obtain start where "votes env fetch c t excluded =
      Inr (start, fold record_ballot (cast_ballots env c e excluded msgs) [])"
    using votes_fold [where fetch = fetch and t = t, OF assms] by blast
  then show ?thesis by (simp add: distinct_record_ballots map_of_record_ballots cong: list.case_cong)
qed

text \<open>
  the decision and the printed summary agree: the vote passes exactly when the summary shows
  at least three binding +1 and more of them than binding -1, the three groups of the summary
  add up to the number of voters, and the binding choices with the unreadable binding votes add
  up to the binding votes.
\<close>
theorem vote_details_consistent:
  assumes "vote_details env fetch now c t proj excluded = Inr d"
  shows "(vd_passed d \<longleftrightarrow> s_binding_votes_yes (vd_summary d) \<ge> 3
           \<and> s_binding_votes_yes (vd_summary d) > s_binding_votes_no (vd_summary d)) \<and>
    s_binding_votes (vd_summary d) + s_non_binding_votes (vd_summary d) +
      s_unknown_votes (vd_summary d) = int (length (vd_votes d)) \<and>
    s_binding_votes_yes (vd_summary d) + s_binding_votes_no (vd_summary d) +
      s_binding_votes_abstain (vd_summary d) +
      int (length (filter (\<lambda>(k, ve). ve_status ve = BINDING \<and> ve_vote ve = V_UNKNOWN) (vd_votes d)))
      = s_binding_votes (vd_summary d)"
  using details_consistent [OF assms] by blast

text \<open>
  C30: messages from outside the committee do not decide a vote: deleting every message that is
  neither attributed to a committee member nor a result message leaves the decision as it is,
  provided that no message without an ASF uid has the bare uid of a member as its address.
\<close>
theorem only_members_decide:
  assumes "email_uid_view env = Some e" and "validate_thread_id t = Inr ()"
    and "length msgs \<le> MAX_THREAD_MESSAGES"
    and "\<not> is_dev_environment env"
    and "\<And>m. m \<in> set msgs \<Longrightarrow> sender_uid e m = None \<Longrightarrow>
           sender_email e m \<notin> set (c_committee_members c)"
  shows "\<exists>d d'. vote_details env (\<lambda>_. Inr msgs) now (Some c) t proj excluded = Inr d \<and>
    vote_details env (\<lambda>_. Inr (filter (decisive c e) msgs)) now (Some c) t proj excluded = Inr d' \<and>
    vd_passed d' = vd_passed d"
proof -
  have len: "length (filter (decisive c e) msgs) \<le> MAX_THREAD_MESSAGES"
    using assms(3) length_filter_le order_trans by blast
  obtain d where d: "vote_details env (\<lambda>_. Inr msgs) now (Some c) t proj excluded = Inr d"
    "vd_votes d = fold record_ballot (cast_ballots env (Some c) e excluded msgs) []"
    "vd_passed d \<longleftrightarrow> binding_vote_passes (tally BINDING V_YES (map snd (vd_votes d)))
                                       (tally BINDING V_NO (map snd (vd_votes d)))"
    using details_of_fold [where fetch = "\<lambda>_. Inr msgs" and t = t, OF assms(1,2) refl assms(3)] by metis
  obtain d' where d': "vote_details env (\<lambda>_. Inr (filter (decisive c e) msgs)) now (Some c) t proj excluded = Inr d'"
    "vd_votes d' = fold record_ballot (cast_ballots env (Some c) e excluded (filter (decisive c e) msgs)) []"
    "vd_passed d' \<longleftrightarrow> binding_vote_passes (tally BINDING V_YES (map snd (vd_votes d')))
                                        (tally BINDING V_NO (map snd (vd_votes d')))"
    using details_of_fold [where fetch = "\<lambda>_. Inr (filter (decisive c e) msgs)" and t = t, OF assms(1,2) refl len] by metis
  show ?thesis
    using d d' tally_decisive [OF assms(4,5)] by auto
qed


section \<open>Concrete threads\<close>

definition mail :: "string \<Rightarrow> string \<Rightarrow> string \<Rightarrow> message" where
  "mail sender subject body = \<lparr> m_message_id = None, m_from_raw = sender,
     m_list_raw = ''dev.x.apache.org'', m_cc = [], m_received_spf = [], m_epoch = Some 1000,
     m_subject = subject, m_body = body, m_mid = [], m_date = [] \<rparr>"

definition example_committee :: committee where
  "example_committee = \<lparr> c_key = ''x'', c_name = None, c_is_podling = False,
     c_is_archived = False, c_committee_members = [''ann'', ''bob'', ''cay''],
     c_committers = [''dan''], c_release_managers = [] \<rparr>"

definition example_uids :: "string \<Rightarrow> string option" where
  "example_uids a = (if a = ''c@h.org'' then Some ''cay'' else None)"

definition example_env :: tab_env where
  "example_env = \<lparr> is_dev_environment = False, env_committees = [],
     email_uid_view = Some example_uids \<rparr>"

definition example_id :: string where
  "example_id = replicate 32 (CHR ''a'')"

definition example_project :: project where
  "example_project = \<lparr> p_key = ''x'', p_name = None, p_status = PS_ACTIVE,
     p_committee_key = Some ''x'', p_release_policy = None \<rparr>"

definition example_thread :: "message list" where
  "example_thread =
     [mail ''<ann@apache.org>'' ''V'' ''+1'', mail ''<bob@apache.org>'' ''V'' ''+1'',
      mail ''<c@h.org>'' ''V'' ''+1'', mail ''<m@e.org>'' ''V'' ''-1'']"

text \<open>A message whose address is the bare uid of a member.\<close>

definition spoofed :: message where
  "spoofed = mail ''<ann>'' ''V'' ''-1''"
lemma example_id_valid: "validate_thread_id example_id = Inr ()"
  by code_simp

definition passes :: "message list \<Rightarrow> bool option" where
  "passes msgs =
     (case vote_details example_env (\<lambda>_. Inr msgs) 0 (Some example_committee) example_id
             example_project [] of
        Inr d \<Rightarrow> Some (vd_passed d) | Inl _ \<Rightarrow> None)"

lemma passes_tally:
  assumes "length msgs \<le> MAX_THREAD_MESSAGES"
  shows "passes msgs =
    (let tab = map snd (fold record_ballot
           (cast_ballots example_env (Some example_committee) example_uids [] msgs) []) in
     Some (binding_vote_passes (tally BINDING V_YES tab) (tally BINDING V_NO tab)))"
proof -
  have view: "email_uid_view example_env = Some example_uids" by (simp add: example_env_def)
  show ?thesis
    using details_of_fold [where fetch = "\<lambda>_. Inr msgs" and t = example_id and now = 0
        and c = "Some example_committee" and proj = example_project and excluded = "[]",
        OF view example_id_valid refl assms]
    by (auto simp: passes_def)
qed

text \<open>
  The bare address replaces the binding vote of the member: the thread passes with three binding
  +1, and no longer after a message whose From header carries \<open><ann>\<close> without a domain, although
  that message is not counted as binding.
\<close>

lemma bare_address_replaces_member_vote:
  "passes example_thread = Some True \<and> passes (example_thread @ [spoofed]) = Some False"
proof -
  have len: "length example_thread \<le> MAX_THREAD_MESSAGES"
    "length (example_thread @ [spoofed]) \<le> MAX_THREAD_MESSAGES"
    by (simp_all add: example_thread_def MAX_THREAD_MESSAGES_def)
  show ?thesis unfolding passes_tally [OF len(1)] passes_tally [OF len(2)] by code_simp
qed

text \<open>
  \<open>email_from_uid\<close> lowers an address in angle brackets but returns a bare one as it stands, and its
  unescaped dot accepts any character in \<open>apache.org\<close>.
\<close>

lemma email_from_uid_bare:
  "email_from_uid ''Ann@apache.org'' = Some ''Ann@apache.org''"
  "email_from_uid ''Ann <Ann@apache.org>'' = Some ''ann@apache.org''"
  "email_from_uid ''ann@apacheXorg'' = Some ''ann@apacheXorg''"
  by code_simp+

lemma example_second_thoughts:
  "(case rev (filter (\<lambda>ve. ve_asf_uid_or_email ve = ''ann'')
       (cast_ballots example_env (Some example_committee) example_uids []
          (example_thread @ [mail ''<ann@apache.org>'' ''V'' ''-1'']))) of
      [] \<Rightarrow> None | ve # earlier \<Rightarrow> Some (ve_vote ve, earlier \<noteq> [])) = Some (V_NO, True)"
  by code_simp

theorem votes_last_casting_wins_witness:
  "\<exists>start tab. votes example_env (\<lambda>_. Inr (example_thread @ [mail ''<ann@apache.org>'' ''V'' ''-1'']))
       (Some example_committee) example_id [] = Inr (start, tab) \<and>
     map_option (\<lambda>ve. (ve_vote ve, ve_updated ve)) (map_of tab ''ann'') = Some (V_NO, True)"
proof -
  let ?t = "example_thread @ [mail ''<ann@apache.org>'' ''V'' ''-1'']"
  have hyps: "email_uid_view example_env = Some example_uids" "validate_thread_id example_id = Inr ()"
    "length ?t \<le> MAX_THREAD_MESSAGES"
    by (simp add: example_env_def, rule example_id_valid, simp add: example_thread_def MAX_THREAD_MESSAGES_def)
  obtain start tab where tab: "votes example_env (\<lambda>_. Inr ?t) (Some example_committee) example_id [] =
      Inr (start, tab)"
    and all: "\<forall>k. map_of tab k =
      (case rev (filter (\<lambda>ve. ve_asf_uid_or_email ve = k)
               (cast_ballots example_env (Some example_committee) example_uids [] ?t)) of
         [] \<Rightarrow> None
       | ve # earlier \<Rightarrow> Some (ve \<lparr> ve_updated := (earlier \<noteq> []) \<rparr>))"
    using votes_last_casting_wins [where fetch = "\<lambda>_. Inr ?t" and t = example_id
        and c = "Some example_committee" and excluded = "[]", OF hyps(1,2) refl hyps(3)]
    by blast
  have "map_option (\<lambda>ve. (ve_vote ve, ve_updated ve)) (map_of tab ''ann'') = Some (V_NO, True)"
    using example_second_thoughts spec [OF all, of "''ann''"] by (simp split: list.splits)
  then show ?thesis using tab by blast
qed

theorem vote_details_consistent_witness:
  "\<exists>d. vote_details example_env (\<lambda>_. Inr example_thread) 0 (Some example_committee) example_id
         example_project [] = Inr d \<and>
     (vd_passed d \<longleftrightarrow> s_binding_votes_yes (vd_summary d) \<ge> 3
        \<and> s_binding_votes_yes (vd_summary d) > s_binding_votes_no (vd_summary d)) \<and> vd_passed d"
proof -
  obtain d where d: "vote_details example_env (\<lambda>_. Inr example_thread) 0 (Some example_committee)
      example_id example_project [] = Inr d" and p: "vd_passed d"
    using bare_address_replaces_member_vote by (auto simp: passes_def split: sum.splits)
  show ?thesis using vote_details_consistent [OF d] d p by blast
qed

theorem only_members_decide_witness:
  "\<exists>d d'. vote_details example_env (\<lambda>_. Inr example_thread) 0 (Some example_committee) example_id
       example_project [] = Inr d \<and>
     vote_details example_env
       (\<lambda>_. Inr (filter (decisive example_committee example_uids) example_thread)) 0
       (Some example_committee) example_id example_project [] = Inr d' \<and> vd_passed d' = vd_passed d"
proof (rule only_members_decide)
  show "email_uid_view example_env = Some example_uids" by (simp add: example_env_def)
  show "validate_thread_id example_id = Inr ()" by (rule example_id_valid)
  show "length example_thread \<le> MAX_THREAD_MESSAGES"
    by (simp add: example_thread_def MAX_THREAD_MESSAGES_def)
  show "\<not> is_dev_environment example_env" by (simp add: example_env_def)
  have "list_all (\<lambda>m. sender_uid example_uids m \<noteq> None \<or>
      sender_email example_uids m \<notin> set (c_committee_members example_committee)) example_thread"
    by code_simp
  then show "sender_email example_uids m \<notin> set (c_committee_members example_committee)"
    if "m \<in> set example_thread" "sender_uid example_uids m = None" for m
    using that by (auto simp: list_all_iff)
qed

end
