(* ===== verification/Store.thy ===== *)
theory Store
  imports Sql
begin

text \<open>
  The operations of src/atr/models/sql.py on the database: release and revision keys, the relations
  of a row, the computed attributes of a release, the allocation of revision and vote numbers from
  their counter tables, and the deletion of a release with what the schema cascades to.

  Each table's primary key is an interpretation of \<open>keyed_table\<close>.
\<close>

section \<open>Keys and relations\<close>

definition release_key :: "string \<Rightarrow> string \<Rightarrow> string" where
  "release_key project_key version_key = project_key @ ''-'' @ version_key"

definition revision_key :: "string \<Rightarrow> string \<Rightarrow> string" where
  "revision_key rel_key number = rel_key @ '' '' @ number"

definition project_get :: "db \<Rightarrow> string \<Rightarrow> project option" where
  "project_get d k = sel_one (\<lambda>p. p_key p = k) (db_projects d)"

definition project_committee :: "db \<Rightarrow> project \<Rightarrow> committee option" where
  "project_committee d p =
     (case p_committee_key p of
        None \<Rightarrow> None
      | Some k \<Rightarrow> sel_one (\<lambda>c. c_key c = k) (db_committees d))"

text \<open>
  \<open>release.project\<close> and \<open>release.committee\<close>; the foreign key guarantees the project of a stored
  release, and \<open>None\<close> stands for a row without one.
\<close>

definition release_project :: "db \<Rightarrow> release \<Rightarrow> project option" where
  "release_project d r = project_get d (r_project_key r)"

definition release_committee :: "db \<Rightarrow> release \<Rightarrow> committee option" where
  "release_committee d r =
     (case release_project d r of None \<Rightarrow> None | Some p \<Rightarrow> project_committee d p)"

text \<open>\<open>data.release(project_key=..., version=...).get()\<close>, and with a phase.\<close>

definition release_get :: "db \<Rightarrow> string \<Rightarrow> string \<Rightarrow> release option" where
  "release_get d pk v = sel_one (\<lambda>r. r_project_key r = pk \<and> r_version r = v) (db_releases d)"

definition release_get_phase :: "db \<Rightarrow> string \<Rightarrow> string \<Rightarrow> ReleasePhase \<Rightarrow> release option" where
  "release_get_phase d pk v ph =
     sel_one (\<lambda>r. r_project_key r = pk \<and> r_version r = v \<and> r_phase r = ph) (db_releases d)"

definition release_by_key :: "db \<Rightarrow> string \<Rightarrow> release option" where
  "release_by_key d k = sel_one (\<lambda>r. r_key r = k) (db_releases d)"

section \<open>Computed attributes of a release\<close>

definition latest_revision :: "db \<Rightarrow> string \<Rightarrow> revision option" where
  "latest_revision d rk = max_by_key rev_seq (sel (\<lambda>v. rev_release_key v = rk) (db_revisions d))"

definition latest_revision_number :: "db \<Rightarrow> string \<Rightarrow> string option" where
  "latest_revision_number d rk = map_option rev_number (latest_revision d rk)"

text \<open>\<open>unwrap_revision_number\<close>\<close>

definition unwrap_revision_number :: "db \<Rightarrow> release \<Rightarrow> string py" where
  "unwrap_revision_number d r =
     (case latest_revision_number d (r_key r) of
        None \<Rightarrow> Inl (ValueError ''Release has no revisions'')
      | Some n \<Rightarrow> Inr n)"

definition is_embargoed :: "release \<Rightarrow> bool" where
  "is_embargoed r = (r_expedited r \<and> r_phase r \<noteq> RELEASE)"

definition effective_vote_mode :: "project \<Rightarrow> release \<Rightarrow> VoteMode py" where
  "effective_vote_mode p r =
     (if r_expedited r then
        (if r_vote_mode r \<noteq> None \<and> r_vote_mode r \<noteq> Some TRUSTED
         then Inl (RuntimeError ''Expedited release has a non-trusted vote mode'')
         else Inr TRUSTED)
      else
        (case r_vote_mode r of
           Some m \<Rightarrow> if r_phase r \<noteq> RELEASE_CANDIDATE_DRAFT then Inr m else Inr (policy_vote_mode p)
         | None \<Rightarrow> Inr (policy_vote_mode p)))"

section \<open>Counters\<close>

text \<open>
  The upserts on \<open>RevisionCounter\<close> and \<open>VoteCounter\<close>: insert 1, or add 1 to the stored number, and
  return the number.
\<close>

definition counter_next :: "(string \<Rightarrow> nat option) \<Rightarrow> string \<Rightarrow> nat" where
  "counter_next c k = (case c k of None \<Rightarrow> 1 | Some n \<Rightarrow> n + 1)"

definition vote_seq_allocate :: "db \<Rightarrow> string \<Rightarrow> nat \<times> db" where
  "vote_seq_allocate d rk =
     (let n = counter_next (db_vote_counter d) rk in
      (n, d \<lparr> db_vote_counter := (db_vote_counter d)(rk \<mapsto> n) \<rparr>))"

text \<open>
  The \<open>before_insert\<close> listener \<open>populate_revision_sequence_and_key\<close> with the insertion it precedes:
  the sequence number comes from the counter, the number is its five digit form, and the parent
  is the revision of the release with the greatest sequence number.
\<close>

definition insert_revision :: "db \<Rightarrow> revision \<Rightarrow> (revision \<times> db) py" where
  "insert_revision d rv =
     (if rev_release_key rv = []
      then Inl (RuntimeError ''Cannot populate revision sequence and key without release_key'')
      else
        (let rk = rev_release_key rv;
             n = counter_next (db_revision_counter d) rk;
             number = zfill 5 (str_nat n);
             parent = map_option rev_key (latest_revision d rk);
             new = rv \<lparr> rev_seq := n, rev_number := number, rev_key := revision_key rk number,
                         rev_parent_key := (case parent of None \<Rightarrow> rev_parent_key rv | Some k \<Rightarrow> Some k) \<rparr>
         in Inr (new, d \<lparr> db_revisions := db_revisions d @ [new],
                          db_revision_counter := (db_revision_counter d)(rk \<mapsto> n) \<rparr>)))"

text \<open>A new row of a table with an integer primary key: one more than the greatest id.\<close>

definition next_id :: "('r \<Rightarrow> nat) \<Rightarrow> 'r list \<Rightarrow> nat" where
  "next_id k t = foldr max (map k t) 0 + 1"

definition add_task :: "db \<Rightarrow> task \<Rightarrow> task \<times> db" where
  "add_task d t =
     (let t' = t \<lparr> t_id := next_id t_id (db_tasks d) \<rparr> in
      (t', d \<lparr> db_tasks := db_tasks d @ [t'] \<rparr>))"

definition add_ballot :: "db \<Rightarrow> ballot \<Rightarrow> db" where
  "add_ballot d b =
     d \<lparr> db_ballots := db_ballots d @ [b \<lparr> b_id := next_id b_id (db_ballots d) \<rparr>] \<rparr>"

definition add_event :: "db \<Rightarrow> lifecycle_event \<Rightarrow> db" where
  "add_event d e =
     d \<lparr> db_events := db_events d @ [e \<lparr> e_id := next_id e_id (db_events d) \<rparr>] \<rparr>"

definition update_release :: "db \<Rightarrow> (release \<Rightarrow> bool) \<Rightarrow> (release \<Rightarrow> release) \<Rightarrow> db" where
  "update_release d P f = d \<lparr> db_releases := upd P f (db_releases d) \<rparr>"

text \<open>
  \<open>data.delete(release)\<close> with the cascades of the schema: the revisions, ballots, quarantined rows,
  lifecycle events and artifacts of the release go with it.
\<close>

definition delete_release :: "db \<Rightarrow> string \<Rightarrow> db" where
  "delete_release d rk =
     d \<lparr> db_releases := del (\<lambda>r. r_key r = rk) (db_releases d),
         db_revisions := del (\<lambda>v. rev_release_key v = rk) (db_revisions d),
         db_ballots := del (\<lambda>b. b_release_key b = rk) (db_ballots d),
         db_quarantined := del (\<lambda>q. q_release_key q = rk) (db_quarantined d),
         db_events := del (\<lambda>e. e_version_key e = Some rk) (db_events d),
         db_artifacts := del (\<lambda>a. a_release_key a = Some rk) (db_artifacts d) \<rparr>"

section \<open>Primary keys\<close>

definition releases_keyed :: "release list \<Rightarrow> bool" where
  "releases_keyed t = distinct (map r_key t)"

definition revisions_keyed :: "revision list \<Rightarrow> bool" where
  "revisions_keyed t = distinct (map rev_key t)"

definition tasks_keyed :: "task list \<Rightarrow> bool" where
  "tasks_keyed t = distinct (map t_id t)"

definition ballots_keyed :: "ballot list \<Rightarrow> bool" where
  "ballots_keyed t = distinct (map b_id t)"

interpretation releases: keyed_table r_key releases_keyed
  by unfold_locales (simp add: releases_keyed_def)

interpretation revisions: keyed_table rev_key revisions_keyed
  by unfold_locales (simp add: revisions_keyed_def)

interpretation tasks: keyed_table t_id tasks_keyed
  by unfold_locales (simp add: tasks_keyed_def)

interpretation ballots: keyed_table b_id ballots_keyed
  by unfold_locales (simp add: ballots_keyed_def)

lemma next_id_fresh: "next_id k t \<notin> k ` set t"
proof -
  have "k r \<le> foldr max (map k t) 0" if "r \<in> set t" for r
    using that by (induction t) auto
  then show ?thesis by (fastforce simp: next_id_def)
qed

lemma next_id_greater: "r \<in> set t \<Longrightarrow> k r < next_id k t"
proof -
  assume r: "r \<in> set t"
  have "k r \<le> foldr max (map k t) 0" using r by (induction t) auto
  then show ?thesis by (simp add: next_id_def)
qed

section \<open>Facts about the latest revision\<close>

lemma latest_revision_in:
  "latest_revision d rk = Some v \<Longrightarrow> v \<in> set (db_revisions d) \<and> rev_release_key v = rk"
  unfolding latest_revision_def by (drule max_by_key_in) (simp add: sel_set)

lemma latest_revision_max:
  "latest_revision d rk = Some v \<Longrightarrow> w \<in> set (db_revisions d) \<Longrightarrow> rev_release_key w = rk \<Longrightarrow>
     rev_seq w \<le> rev_seq v"
  unfolding latest_revision_def by (erule max_by_key_ge) (simp add: sel_set)

lemma latest_revision_None:
  "latest_revision d rk = None \<longleftrightarrow> (\<forall>v \<in> set (db_revisions d). rev_release_key v \<noteq> rk)"
  by (auto simp: latest_revision_def sel_def filter_empty_conv)

lemma latest_revision_cong:
  "db_revisions d' = db_revisions d \<Longrightarrow> latest_revision d' rk = latest_revision d rk"
  by (simp add: latest_revision_def)

lemma sel_snoc: "sel P (t @ [r]) = sel P t @ (if P r then [r] else [])"
  by (simp add: sel_def)

lemma max_by_key_snoc_greater:
  "(\<And>x. x \<in> set rs \<Longrightarrow> k x < k r) \<Longrightarrow> max_by_key k (rs @ [r]) = Some r"
  by (rule max_by_key_unique) auto

lemma latest_revision_insert:
  assumes "insert_revision d rv = Inr (new, d')"
    and "\<And>v. v \<in> set (db_revisions d) \<Longrightarrow> rev_release_key v = rev_release_key rv \<Longrightarrow>
           rev_seq v < counter_next (db_revision_counter d) (rev_release_key rv)"
  shows "latest_revision d' (rev_release_key rv) = Some new"
    and "rk \<noteq> rev_release_key rv \<Longrightarrow> latest_revision d' rk = latest_revision d rk"
proof -
  have new: "rev_release_key new = rev_release_key rv"
      "rev_seq new = counter_next (db_revision_counter d) (rev_release_key rv)"
    and d': "db_revisions d' = db_revisions d @ [new]"
    using assms(1) by (auto simp: insert_revision_def Let_def split: if_splits)
  show "latest_revision d' (rev_release_key rv) = Some new"
    unfolding latest_revision_def d' sel_snoc using new assms(2)
    by (simp add: sel_set) (rule max_by_key_snoc_greater, simp add: sel_set)
  show "latest_revision d' rk = latest_revision d rk" if "rk \<noteq> rev_release_key rv"
    using that new by (simp add: latest_revision_def d' sel_snoc)
qed

end
