(* ===== verification/Writers.thy ===== *)
theory Writers
  imports Store User
begin

text \<open>
  What the storage writers share: the request they serve, the guards of src/atr/storage/__init__.py,
  the task queries of src/atr/db/interaction.py, and the small writers that only queue a task.

  An operation of a writer is a function from the database to \<open>('a \<times> db) py\<close>.  \<open>Inl e\<close> means that the
  exception \<open>e\<close> left the transaction, which then rolls back, so the database is the one before the
  call.  An operation that commits before it can still raise returns \<open>'a py \<times> db\<close> instead.
\<close>

section \<open>The request\<close>

text \<open>
  Who asks, when, with which memberships, under which configuration.
\<close>

record request =
  rq_asf_uid :: string
  rq_now :: int
  rq_member_of :: "string list"
  rq_admin :: admin_env
  rq_production :: bool
  rq_app_host :: string
  rq_presentations_bypass :: bool
  rq_svn_publish_url :: "string option"

definition is_member_of :: "request \<Rightarrow> string \<Rightarrow> bool" where
  [guard_defs]: "is_member_of rq k = (k \<in> set (rq_member_of rq))"

definition ensure_project_active :: "project \<Rightarrow> unit py" where
  "ensure_project_active p =
     guardE (project_is_active p) (AccessError None ''Project is archived; release actions are disabled.'')"

text \<open>\<open>ensure_release_writable\<close> with \<open>release.project\<close> as an argument.\<close>

definition ensure_release_writable :: "request \<Rightarrow> project \<Rightarrow> release \<Rightarrow> unit py" where
  "ensure_release_writable rq p r =
     (if \<not> is_embargoed r then Inr ()
      else (case p_committee_key p of
              None \<Rightarrow> Inl (access 403 ''Not authorized'')
            | Some k \<Rightarrow> guardE (is_member_of rq k) (access 403 ''Not authorized'')))"

text \<open>\<open>release.project\<close> of a stored release, whose absence would be a broken foreign key.\<close>

definition demand_project :: "db \<Rightarrow> release \<Rightarrow> project py" where
  "demand_project d r = demandE IntegrityError (release_project d r)"

section \<open>Queries on tasks\<close>

definition task_of_release :: "string \<Rightarrow> string \<Rightarrow> task \<Rightarrow> bool" where
  [guard_defs]: "task_of_release pk v t = (t_project_key t = Some pk \<and> t_version_key t = Some v)"

definition tasks_ongoing :: "db \<Rightarrow> string \<Rightarrow> string \<Rightarrow> string \<Rightarrow> nat" where
  "tasks_ongoing d pk v number =
     rowcount (\<lambda>t. task_of_release pk v t \<and> t_revision_number t = Some number
                 \<and> (t_status t = QUEUED \<or> t_status t = ACTIVE)) (db_tasks d)"

definition pending_quarantine_count :: "db \<Rightarrow> string \<Rightarrow> nat" where
  "pending_quarantine_count d rk =
     rowcount (\<lambda>q. q_release_key q = rk \<and> (q_status q = Q_STAGING \<or> q_status q = Q_PENDING))
       (db_quarantined d)"

definition has_blocking_tasks :: "db \<Rightarrow> release \<Rightarrow> bool" where
  "has_blocking_tasks d r =
     (rowcount (\<lambda>t. task_of_release (r_project_key r) (r_version r) t
                  \<and> (t_status t = QUEUED \<or> t_status t = ACTIVE)) (db_tasks d) > 0)"

definition has_blocking_quarantine :: "db \<Rightarrow> release \<Rightarrow> bool" where
  "has_blocking_quarantine d r =
     (rowcount (\<lambda>q. q_release_key q = r_key r \<and> (q_status q = Q_STAGING \<or> q_status q = Q_PENDING))
        (db_quarantined d) > 0)"

definition task_vote_seq :: "task \<Rightarrow> nat option" where
  "task_vote_seq t = (case t_task_args t of A_INITIATE a \<Rightarrow> ia_vote_seq a | _ \<Rightarrow> None)"

definition release_latest_vote_task :: "db \<Rightarrow> release \<Rightarrow> task option" where
  "release_latest_vote_task d r =
     max_by_key t_added
       (sel (\<lambda>t. task_of_release (r_project_key r) (r_version r) t \<and> t_task_type t = VOTE_INITIATE)
          (db_tasks d))"

definition release_current_vote_task :: "db \<Rightarrow> release \<Rightarrow> task option" where
  "release_current_vote_task d r =
     (case r_current_vote_seq r of
        None \<Rightarrow> release_latest_vote_task d r
      | Some s \<Rightarrow>
          max_by_key t_added
            (sel (\<lambda>t. task_of_release (r_project_key r) (r_version r) t
                    \<and> t_task_type t = VOTE_INITIATE \<and> task_vote_seq t = Some s) (db_tasks d)))"

definition svn_publish_result :: "task \<Rightarrow> int option" where
  "svn_publish_result t = (case t_result t of Some (RS_SVN_PUBLISH n) \<Rightarrow> Some n | _ \<Rightarrow> None)"

definition release_in_flight_svn_publish_task :: "db \<Rightarrow> string \<Rightarrow> string \<Rightarrow> string \<Rightarrow> task option" where
  "release_in_flight_svn_publish_task d pk v number =
     max_by_key t_added
       (sel (\<lambda>t. task_of_release pk v t \<and> t_revision_number t = Some number
               \<and> t_task_type t = SVN_PUBLISH \<and> (t_status t = QUEUED \<or> t_status t = ACTIVE))
          (db_tasks d))"

definition release_completed_svn_publish_task_for_revision ::
  "db \<Rightarrow> string \<Rightarrow> string \<Rightarrow> string \<Rightarrow> task option" where
  "release_completed_svn_publish_task_for_revision d pk v number =
     max_by_key t_added
       (sel (\<lambda>t. task_of_release pk v t \<and> t_revision_number t = Some number
               \<and> t_task_type t = SVN_PUBLISH \<and> t_status t = COMPLETED
               \<and> svn_publish_result t \<noteq> None)
          (db_tasks d))"

definition task_mid_get :: "task \<Rightarrow> string option" where
  "task_mid_get t = (case t_result t of Some (RS_VOTE_INITIATE v) \<Rightarrow> vi_mid v | _ \<Rightarrow> None)"

definition task_recipient_get :: "task \<Rightarrow> string option" where
  "task_recipient_get t =
     (case t_result t of
        Some (RS_VOTE_INITIATE v) \<Rightarrow> if vi_email_to v = [] then None else Some (vi_email_to v)
      | _ \<Rightarrow> None)"

text \<open>\<open>vi_vote_end\<close> is the parsed date of the result, \<open>None\<close> when \<open>strptime\<close> rejects it.\<close>

definition vote_end_get :: "task option \<Rightarrow> int option" where
  "vote_end_get t =
     (case t of
        None \<Rightarrow> None
      | Some t' \<Rightarrow> (case t_result t' of Some (RS_VOTE_INITIATE v) \<Rightarrow> vi_vote_end v | _ \<Rightarrow> None))"

definition vote_pass_fail_allowed :: "request \<Rightarrow> task option \<Rightarrow> bool" where
  "vote_pass_fail_allowed rq t =
     (case vote_end_get t of None \<Rightarrow> False | Some e \<Rightarrow> rq_now rq \<ge> e)"

text \<open>Who may resolve a vote early and without the votes: see \<open>vote_resolution_bypass\<close>.\<close>

definition vote_resolution_bypass :: "request \<Rightarrow> project \<Rightarrow> string option \<Rightarrow> bool" where
  "vote_resolution_bypass rq p asf_uid =
     (if takeWhile (\<lambda>c. c \<noteq> CHR '':'') (rq_app_host rq) = ''tooling-vm-ec2-de.apache.org''
      then is_admin (rq_admin rq) asf_uid \<and> p_committee_key p = Some ''tooling''
      else \<not> rq_production rq \<or>
           (p_key p = ''tooling-presentations'' \<and> rq_presentations_bypass rq))"

section \<open>Queued tasks\<close>

text \<open>A new task row before it is added: queued now, with the other columns empty.\<close>

definition new_task ::
  "request \<Rightarrow> TaskType \<Rightarrow> task_args \<Rightarrow> string \<Rightarrow> string option \<Rightarrow> string option \<Rightarrow> string option \<Rightarrow> task" where
  "new_task rq ty args uid pk v number =
     \<lparr> t_id = 0, t_status = QUEUED, t_task_type = ty, t_task_args = args, t_asf_uid = uid,
       t_added = rq_now rq, t_completed = None, t_result = None, t_error = None,
       t_project_key = pk, t_version_key = v, t_revision_number = number \<rparr>"

definition queue_task :: "db \<Rightarrow> task \<Rightarrow> db" where
  "queue_task d t = snd (add_task d t)"

definition queue_svn_unpublish :: "request \<Rightarrow> db \<Rightarrow> string \<Rightarrow> release \<Rightarrow> db" where
  "queue_svn_unpublish rq d uid r =
     (case rq_svn_publish_url rq of
        None \<Rightarrow> d
      | Some [] \<Rightarrow> d
      | Some _ \<Rightarrow>
          queue_task d (new_task rq SVN_UNPUBLISH (A_SVN_UNPUBLISH uid) uid
            (Some (r_project_key r)) (Some (r_version r)) None))"

definition catalog_task_queued :: "db \<Rightarrow> string option \<Rightarrow> bool" where
  "catalog_task_queued d pk =
     list_ex (\<lambda>t. t_status t = QUEUED \<and> t_task_type t = CATALOG_SITE_GENERATE \<and> t_project_key t = pk)
       (db_tasks d)"

definition queue_regeneration :: "request \<Rightarrow> db \<Rightarrow> string \<Rightarrow> string option \<Rightarrow> db" where
  "queue_regeneration rq d uid pk =
     (if catalog_task_queued d pk then d
      else queue_task d (new_task rq CATALOG_SITE_GENERATE A_OTHER uid pk None None))"

text \<open>The parts of the database that queueing tasks and logging events do not touch.\<close>

definition same_core :: "db \<Rightarrow> db \<Rightarrow> bool" where
  "same_core d d' =
     (db_committees d' = db_committees d \<and> db_projects d' = db_projects d \<and>
      db_releases d' = db_releases d \<and> db_revisions d' = db_revisions d \<and>
      db_ballots d' = db_ballots d \<and> db_quarantined d' = db_quarantined d \<and>
      db_revision_counter d' = db_revision_counter d \<and> db_vote_counter d' = db_vote_counter d)"

lemma same_core_refl [simp]: "same_core d d"
  by (simp add: same_core_def)

lemma same_core_trans: "same_core a b \<Longrightarrow> same_core b c \<Longrightarrow> same_core a c"
  by (simp add: same_core_def)

lemma queue_task_core [simp]: "same_core d (queue_task d t)"
  by (simp add: same_core_def queue_task_def add_task_def Let_def)

lemma add_event_core [simp]: "same_core d (add_event d e)"
  by (simp add: same_core_def add_event_def)

lemma queue_svn_unpublish_core [simp]: "same_core d (queue_svn_unpublish rq d uid r)"
  by (auto simp: queue_svn_unpublish_def split: option.split list.split)

lemma queue_regeneration_core [simp]: "same_core d (queue_regeneration rq d uid pk)"
  by (simp add: queue_regeneration_def)

lemma ensure_release_writable_Inr [simp]:
  "ensure_release_writable rq p r = Inr u \<longleftrightarrow>
     (is_embargoed r \<longrightarrow> (\<exists>k. p_committee_key p = Some k \<and> is_member_of rq k))"
  by (auto simp: ensure_release_writable_def split: option.split)

lemma ensure_project_active_Inr [simp]:
  "ensure_project_active p = Inr u \<longleftrightarrow> project_is_active p"
  by (simp add: ensure_project_active_def)

lemma completed_publish_task:
  assumes "release_completed_svn_publish_task_for_revision d pk v n = Some t"
  shows "t \<in> set (db_tasks d)" and "t_task_type t = SVN_PUBLISH" and "t_status t = COMPLETED"
    and "t_revision_number t = Some n" and "svn_publish_result t \<noteq> None"
    and "t_project_key t = Some pk" and "t_version_key t = Some v"
  using assms unfolding release_completed_svn_publish_task_for_revision_def
  by (auto dest!: max_by_key_in simp: sel_set task_of_release_def)

end
