(* ===== verification/ReleaseOps.thy ===== *)
theory ReleaseOps
  imports Writers
begin

text \<open>
  src/atr/storage/writers/release.py: starting a release and a vote on it, archiving, deleting,
  publishing, and the dist watcher's catalogue, on the database.

  What these operations learn from the file system, from the check results and from the project's
  version patterns comes in as the records \<open>vote_gate\<close> and \<open>start_inputs\<close>.  The messages of the
  exceptions leave out the keys and numbers that the code interpolates into them.
\<close>

section \<open>Starting a release\<close>

definition version_char :: "char \<Rightarrow> bool" where
  "version_char c = (is_alnum c \<or> c = CHR ''+'' \<or> c = CHR ''.'' \<or> c = CHR ''-'')"

definition version_sep :: "char \<Rightarrow> bool" where
  "version_sep c = (c = CHR ''+'' \<or> c = CHR ''.'' \<or> c = CHR ''-'')"

text \<open>\<open>re.search(r"[+.-]{2,}", s)\<close>: two separators in a row.\<close>

fun double_sep :: "string \<Rightarrow> bool" where
  "double_sep (a # b # s) = ((version_sep a \<and> version_sep b) \<or> double_sep (b # s))"
| "double_sep s = False"

text \<open>A dollar in a pattern also matches before a newline that ends the string.\<close>

definition chomp :: "string \<Rightarrow> string" where
  "chomp s = (if s \<noteq> [] \<and> last s = CHR 0x0A then butlast s else s)"

definition MAX_VERSION_LENGTH :: nat where
  "MAX_VERSION_LENGTH = 128"

definition version_key_error :: "string \<Rightarrow> string option" where
  "version_key_error s =
     (if s = [] then Some ''Must not be empty''
      else if length s > MAX_VERSION_LENGTH then Some ''Must be at most 128 characters''
      else if lower s = ''version'' then Some (''Must not be 'version'' @ [CHR 0x27])
      else if \<not> is_alnum (hd s) then Some ''Must start with a letter or number''
      else if \<not> (is_alnum (last s) \<or> (chomp s \<noteq> [] \<and> is_alnum (last (chomp s))))
      then Some ''Must end with a letter or number''
      else if double_sep s
      then Some ''Must not contain multiple consecutive plus, full stop, or hyphen''
      else if \<not> (chomp s \<noteq> [] \<and> list_all version_char (chomp s))
      then Some ''Must contain only letters, numbers, plus, full stop, or hyphen''
      else None)"

text \<open>
  \<open>si_missing\<close> is \<open>missing_release_metadata\<close>; \<open>si_pattern\<close> is \<open>None\<close> without a version pattern, an
  error when the pattern does not compile, and otherwise whether it matches the version; \<open>si_cycle\<close>
  is \<open>cycles.cycle_name_for_version\<close>.
\<close>

record start_inputs =
  si_missing :: "string list"
  si_pattern :: "bool py option"
  si_cycle :: "string py"

definition assert_can_start :: "request \<Rightarrow> string \<Rightarrow> committee option \<Rightarrow> unit py" where
  "assert_can_start rq uid committee =
     (if is_test_mode (rq_admin rq) \<and> (case committee of Some c \<Rightarrow> c_key c = ''test'' | None \<Rightarrow> False)
      then Inr ()
      else (case committee of
              None \<Rightarrow> Inl (access 403 ''You must be a member or committer to start a release draft.'')
            | Some c \<Rightarrow>
                guardE (uid \<in> set (c_committee_members c) \<or> uid \<in> set (c_committers c))
                  (access 403 ''You must be a member or committer to start a release draft.'')))"

definition assert_no_existing_release :: "db \<Rightarrow> string \<Rightarrow> string \<Rightarrow> unit py" where
  "assert_no_existing_release d pk v =
     (case release_get d pk v of
        None \<Rightarrow> Inr ()
      | Some r \<Rightarrow>
          Inl (access 409
            ((case r_phase r of
                RELEASE_CANDIDATE_DRAFT \<Rightarrow> ''A draft release (being composed)''
              | RELEASE_CANDIDATE \<Rightarrow> ''A release candidate (being voted on)''
              | RELEASE_PREVIEW \<Rightarrow> ''A release preview (being finished)''
              | RELEASE \<Rightarrow> ''A finished release'') @ '' already exists.'')))"

definition validate_version :: "start_inputs \<Rightarrow> string \<Rightarrow> unit py" where
  "validate_version si v =
     (case version_key_error v of
        Some e \<Rightarrow> Inl (access 400 (''Invalid version name: '' @ e))
      | None \<Rightarrow>
          (case si_pattern si of
             None \<Rightarrow> Inr ()
           | Some (Inl _) \<Rightarrow> Inl (access 400 ''The project's version pattern is invalid'')
           | Some (Inr matches) \<Rightarrow>
               guardE matches (access 400 ''Version does not match the project's version pattern'')))"

definition ensure_cycle :: "db \<Rightarrow> string \<Rightarrow> string \<Rightarrow> string \<times> db" where
  "ensure_cycle d pk name =
     (let key = pk @ ''-'' @ name in
      if list_ex (\<lambda>c. cy_cycle_key c = key) (db_cycles d) then (key, d)
      else (key, d \<lparr> db_cycles := db_cycles d @
              [\<lparr> cy_cycle_key = key, cy_cycle = name, cy_project_key = pk, cy_lts = False \<rparr>] \<rparr>))"

definition ensure_project_cycle :: "start_inputs \<Rightarrow> db \<Rightarrow> string \<Rightarrow> (string \<times> db) py" where
  "ensure_project_cycle si d pk =
     (case si_cycle si of
        Inl _ \<Rightarrow> Inl (AccessError None ''The version does not match the project's cycles'')
      | Inr name \<Rightarrow> Inr (ensure_cycle d pk name))"

text \<open>
  A new row of the release table: the \<open>before_insert\<close> listener fills in the key, and the primary key
  and the unique constraint on project and version refuse a second row.
\<close>

definition new_release :: "int \<Rightarrow> string \<Rightarrow> string \<Rightarrow> string \<Rightarrow> ReleasePhase \<Rightarrow> release" where
  "new_release now pk v cycle_key ph =
     \<lparr> r_key = release_key pk v, r_phase = ph, r_created = now, r_released = None, r_archived = None,
       r_is_archived = False, r_archive_source = None, r_activity_at = now,
       r_inactivity_notice_key = None, r_archive_prior_release = False, r_expedited = False,
       r_check_cache_key = None, r_download_path_suffix = None, r_commit_hash = None,
       r_project_key = pk, r_cycle_key = cycle_key, r_version = v, r_vote_mode = None,
       r_voted_revision_number = None, r_current_vote_seq = None, r_vote_started = None,
       r_vote_resolved = None, r_podling_thread_id = None, r_vote_thread_url = None \<rparr>"

definition insert_release :: "db \<Rightarrow> release \<Rightarrow> db py" where
  "insert_release d r =
     (if list_ex (\<lambda>x. r_key x = r_key r \<or>
                    (r_project_key x = r_project_key r \<and> r_version x = r_version r)) (db_releases d)
      then Inl IntegrityError
      else Inr (d \<lparr> db_releases := db_releases d @ [r] \<rparr>))"

text \<open>\<open>_start_release\<close> up to its commit; the first revision follows in \<open>RevisionOps\<close>.\<close>

definition start_release_record ::
  "request \<Rightarrow> start_inputs \<Rightarrow> db \<Rightarrow> string \<Rightarrow> string \<Rightarrow> bool \<Rightarrow> bool \<Rightarrow> string option \<Rightarrow> (release \<times> db) py" where
  "start_release_record rq si d pk v auto_archive expedited suffix =
     bindE (demandE (access 404 ''Project not found'')
              (sel_one (\<lambda>p. p_key p = pk \<and> p_status p = PS_ACTIVE) (db_projects d))) (\<lambda>p.
     bindE (assert_can_start rq (rq_asf_uid rq) (project_committee d p)) (\<lambda>_.
     bindE (guardE (si_missing si = [])
              (access 400 ''Project metadata incomplete, cannot start a release'')) (\<lambda>_.
     bindE (guardE (\<not> (expedited \<and> (case project_committee d p of
                                      Some c \<Rightarrow> c_is_podling c | None \<Rightarrow> False)))
              (access 400 ''Expedited releases are not available for podling projects.'')) (\<lambda>_.
     bindE (assert_no_existing_release d (p_key p) v) (\<lambda>_.
     bindE (validate_version si v) (\<lambda>_.
     bindE (ensure_project_cycle si d (p_key p)) (\<lambda>(cycle_key, d1).
       (let override = (case suffix of
                          None \<Rightarrow> None
                        | Some s \<Rightarrow> if s = policy_download_path_suffix p then None else Some s);
            r = (new_release (rq_now rq) (p_key p) v cycle_key RELEASE_CANDIDATE_DRAFT)
                  \<lparr> r_archive_prior_release := auto_archive, r_expedited := expedited,
                    r_download_path_suffix := override \<rparr>
        in bindE (ensure_release_writable rq p r) (\<lambda>_.
           bindE (insert_release d1 r) (\<lambda>d2. Inr (r, d2)))))))))))"

text \<open>
  An upload through rsync makes the release when there is none (\<open>_step_07c_ensure_release_object_for_write\<close>
  of src/atr/ssh.py), always in the default cycle, which \<open>model_post_init\<close> of the row fills in.
\<close>

definition in_quotes :: "string \<Rightarrow> string" where
  "in_quotes s = [CHR 0x27] @ s @ [CHR 0x27]"

definition ensure_release_object_for_write :: "int \<Rightarrow> db \<Rightarrow> string \<Rightarrow> string \<Rightarrow> db py" where
  "ensure_release_object_for_write now d pk v =
     (case release_get d pk v of
        Some r \<Rightarrow>
          if r_phase r \<noteq> RELEASE_CANDIDATE_DRAFT
          then Inl (RsyncArgsError (''Release '' @ in_quotes (r_key r) @ '' is no longer in draft phase ('' @
                 phase_value (r_phase r) @ '')''))
          else Inr d
      | None \<Rightarrow>
          bindE (demandE (RuntimeError ''Project not found after validation'')
                   (sel_one (\<lambda>p. p_key p = pk \<and> p_status p = PS_ACTIVE) (db_projects d))) (\<lambda>p.
            case version_key_error v of
              Some e \<Rightarrow> Inl (RuntimeError (''Invalid version name '' @ [CHR 0x22] @ v @ [CHR 0x22] @ '': '' @ e))
            | None \<Rightarrow> insert_release d
                (new_release now (p_key p) v (p_key p @ ''-default'') RELEASE_CANDIDATE_DRAFT)))"

section \<open>Starting a vote\<close>

record vote_gate =
  vg_blockers :: bool
  vg_file_count :: nat
  vg_required_concerns :: "string list"

text \<open>The CASE expressions that bump the activity: never backwards, and the notice only with it.\<close>

definition bump_columns :: "int \<Rightarrow> release \<Rightarrow> release" where
  "bump_columns now r =
     r \<lparr> r_activity_at := (if r_activity_at r > now then r_activity_at r else now),
         r_inactivity_notice_key := (if r_activity_at r > now then r_inactivity_notice_key r else None) \<rparr>"

definition start_vote_values ::
  "int \<Rightarrow> nat \<Rightarrow> bool \<Rightarrow> VoteMode \<Rightarrow> string \<Rightarrow> release \<Rightarrow> release" where
  "start_vote_values now vote_seq promote vote_mode number r =
     (let r1 = (bump_columns now r) \<lparr> r_vote_started := Some now, r_vote_resolved := None,
                 r_current_vote_seq := Some vote_seq \<rparr>
      in if promote
         then r1 \<lparr> r_phase := RELEASE_CANDIDATE, r_vote_mode := Some vote_mode,
                   r_voted_revision_number := Some number \<rparr>
         else r1)"

definition start_vote_where ::
  "db \<Rightarrow> string \<Rightarrow> ReleasePhase \<Rightarrow> string \<Rightarrow> bool \<Rightarrow> string option \<Rightarrow> release \<Rightarrow> bool" where
  "start_vote_where d rk expected_phase number promote expected_podling r =
     (r_key r = rk \<and> r_phase r = expected_phase \<and> latest_revision_number d (r_key r) = Some number \<and>
      (promote \<or>
       ((r_voted_revision_number r = None \<or> r_voted_revision_number r = Some number) \<and>
        r_podling_thread_id r = expected_podling)))"

definition start_vote_no_commit ::
  "request \<Rightarrow> vote_gate \<Rightarrow> db \<Rightarrow> string \<Rightarrow> string option \<Rightarrow> VoteMode option \<Rightarrow> bool
    \<Rightarrow> string option \<Rightarrow> string list \<Rightarrow> ((release \<times> nat \<times> VoteMode \<times> string) \<times> db) py" where
  "start_vote_no_commit rq gate d rk expected_revision expected_vote_mode promote
       expected_podling acknowledged =
     bindE (demandE (access 404 ''Release candidate draft not found'') (release_by_key d rk)) (\<lambda>r.
     bindE (demand_project d r) (\<lambda>p.
     bindE (ensure_project_active p) (\<lambda>_.
     bindE (ensure_release_writable rq p r) (\<lambda>_.
     bindE (unwrap_revision_number d r) (\<lambda>number.
     bindE (guardE (expected_revision = None \<or> expected_revision = Some number)
              (access 409 ''A newer revision appeared, please refresh and try again.'')) (\<lambda>_.
     bindE (if promote then effective_vote_mode p r
            else demandE (access 409 ''The release state has changed, please refresh and try again'')
                   (r_vote_mode r)) (\<lambda>vote_mode.
     bindE (guardE (expected_vote_mode = None \<or> expected_vote_mode = Some vote_mode)
              (access 409 ''This release's vote mode does not allow that action'')) (\<lambda>_.
     bindE (guardE (promote \<longrightarrow> tasks_ongoing d (r_project_key r) (r_version r) number = 0)
              (access 409 ''All checks must be completed before starting a vote'')) (\<lambda>_.
     bindE (guardE (promote \<longrightarrow> pending_quarantine_count d (r_key r) = 0)
              (access 409 ''Pending quarantine'')) (\<lambda>_.
       (let expected_phase = (if promote then RELEASE_CANDIDATE_DRAFT else RELEASE_CANDIDATE) in
     bindE (guardE (r_phase r = expected_phase)
              (access 409 (if promote then ''This release is not in the candidate draft phase''
                           else ''The release state has changed, please refresh and try again''))) (\<lambda>_.
     bindE (guardE (\<not> vg_blockers gate)
              (access 409 ''This release candidate draft has blockers.'')) (\<lambda>_.
     bindE (guardE (promote \<longrightarrow> vg_file_count gate \<noteq> 0)
              (access 400 ''This candidate draft is empty, containing no files'')) (\<lambda>_.
     bindE (guardE (promote \<longrightarrow> set (vg_required_concerns gate) \<subseteq> set acknowledged)
              (access 409 ''Unacknowledged concerns'')) (\<lambda>_.
       (case vote_seq_allocate d (r_key r) of (vote_seq, d1) \<Rightarrow>
          (let W = start_vote_where d1 (r_key r) expected_phase number promote expected_podling;
               F = start_vote_values (rq_now rq) vote_seq promote vote_mode number
           in if rowcount W (db_releases d1) \<noteq> 1
              then Inl (access 409 ''A newer revision appeared, please refresh and try again.'')
              else Inr ((F r, vote_seq, vote_mode, number), update_release d1 W F))))))))))))))))))"

section \<open>Publishing\<close>

text \<open>
  \<open>publish_to_svn\<close>: \<open>url_ok\<close> says whether the configured publish URLs are acceptable, and
  \<open>security\<close> whether the writer is the security team's.
\<close>

definition publish_to_svn ::
  "request \<Rightarrow> bool \<Rightarrow> bool \<Rightarrow> db \<Rightarrow> string \<Rightarrow> string \<Rightarrow> string \<Rightarrow> string option \<Rightarrow> string option
    \<Rightarrow> (task \<times> db) py" where
  "publish_to_svn rq security url_ok d pk v expected_revision suffix publisher =
     bindE (demandE (access 404 ''Release preview does not exist'')
              (release_get_phase d pk v RELEASE_PREVIEW)) (\<lambda>r.
     bindE (demand_project d r) (\<lambda>p.
     bindE (ensure_project_active p) (\<lambda>_.
     bindE (if security then Inr () else ensure_release_writable rq p r) (\<lambda>_.
     bindE (demandE (access 500 ''Release has no committee - Invalid state'') (project_committee d p)) (\<lambda>_.
     bindE (guardE url_ok (access 409 ''SVN publish URL is not acceptable'')) (\<lambda>_.
     bindE (demandE (access 500 ''Release has no revisions - Invalid state'')
              (latest_revision_number d (r_key r))) (\<lambda>latest.
     bindE (guardE (latest = expected_revision)
              (access 409 ''A newer revision appeared, please refresh and try again.'')) (\<lambda>_.
     bindE (guardE (release_in_flight_svn_publish_task d pk v expected_revision = None)
              (access 409 ''An SVN publish task is already queued or running for this revision'')) (\<lambda>_.
     bindE (guardE (release_completed_svn_publish_task_for_revision d pk v expected_revision = None)
              (access 409 ''An SVN publish task already completed for this revision'')) (\<lambda>_.
       (let uid = (case publisher of Some u \<Rightarrow> if u \<noteq> [] then u else rq_asf_uid rq | None \<Rightarrow> rq_asf_uid rq);
            args = \<lparr> pa_asf_uid = uid, pa_revision_number = expected_revision,
                     pa_download_path_suffix = suffix, pa_vote_thread_url = r_vote_thread_url r \<rparr>;
            d1 = update_release d (\<lambda>x. r_key x = r_key r)
                   (\<lambda>x. x \<lparr> r_download_path_suffix :=
                          Some (case suffix of Some sfx \<Rightarrow> sfx | None \<Rightarrow> []) \<rparr>)
        in Inr (add_task d1 (new_task rq SVN_PUBLISH (A_SVN_PUBLISH args) uid (Some pk) (Some v)
                  (Some expected_revision))))))))))))))"

text \<open>
  \<open>__validate_publication_revision\<close>, which the worker runs before it commits the files to SVN.
\<close>

definition validate_publication_revision :: "db \<Rightarrow> release \<Rightarrow> string \<Rightarrow> unit py" where
  "validate_publication_revision d r number =
     bindE (unwrap_revision_number d r) (\<lambda>latest.
     bindE (guardE (latest = number)
              (FailedError ''A newer revision appeared after queuing this publish task'')) (\<lambda>_.
       guardE (r_voted_revision_number r = None \<or> r_voted_revision_number r = Some number)
         (FailedError ''The ATR revision to publish differs from the voted ATR revision'')))"

text \<open>
  \<open>publish_to_svn_execute\<close> in the worker: the guards, then the SVN commit, whose outcome \<open>svn\<close> is the
  new SVN revision or an error.
\<close>

definition publish_to_svn_execute ::
  "db \<Rightarrow> bool \<Rightarrow> int py \<Rightarrow> string \<Rightarrow> string \<Rightarrow> string \<Rightarrow> task_result py" where
  "publish_to_svn_execute d url_ok svn pk v number =
     bindE (demandE (FailedError ''Release preview not found for publish'')
              (release_get_phase d pk v RELEASE_PREVIEW)) (\<lambda>r.
     bindE (demand_project d r) (\<lambda>p.
     bindE (ensure_project_active p) (\<lambda>_.
     bindE (demandE (FailedError ''Release has no committee - Invalid state'') (project_committee d p)) (\<lambda>_.
     bindE (validate_publication_revision d r number) (\<lambda>_.
     bindE (guardE url_ok (FailedError ''SVN publish URL is not acceptable'')) (\<lambda>_.
     bindE svn (\<lambda>n. Inr (RS_SVN_PUBLISH n))))))))"

section \<open>Archiving\<close>

definition event_row ::
  "release \<Rightarrow> LifecycleEventType \<Rightarrow> int \<Rightarrow> int \<Rightarrow> string list \<Rightarrow> lifecycle_event" where
  "event_row r ev effective published urls =
     \<lparr> e_id = 0, e_project_key = r_project_key r, e_cycle_key = Some (r_cycle_key r),
       e_version_key = Some (r_key r), e_event = ev, e_effective = effective,
       e_published = published, e_target_event_id = None, e_reference_urls = urls \<rparr>"

text \<open>\<open>archive_release_core\<close>: an error message with the database unchanged, or the archived release.\<close>

definition archive_values :: "int \<Rightarrow> ArchiveSource \<Rightarrow> release \<Rightarrow> release" where
  "archive_values now source r =
     r \<lparr> r_archived := Some now, r_is_archived := True, r_archive_source := Some source \<rparr>"

definition archive_release_core ::
  "request \<Rightarrow> db \<Rightarrow> release \<Rightarrow> ArchiveSource \<Rightarrow> string option \<times> db" where
  "archive_release_core rq d r source =
     (if r_phase r \<noteq> RELEASE then (Some ''Release is not in the release phase'', d)
      else
        (let W = (\<lambda>x. r_key x = r_key r \<and> \<not> r_is_archived x) in
         if rowcount W (db_releases d) \<noteq> 1 then (Some ''Release is already archived'', d)
         else
           (let d1 = update_release d W (archive_values (rq_now rq) source);
                d2 = (if source \<noteq> AS_DIST_WATCHER then queue_svn_unpublish rq d1 (rq_asf_uid rq) r else d1);
                d3 = add_event d2 (event_row r EV_ARCHIVE (rq_now rq) (rq_now rq) [])
            in (None, queue_regeneration rq d3 (rq_asf_uid rq) (Some (r_project_key r))))))"

text \<open>\<open>CommitteeMember.archive\<close> and the dist watcher's \<open>FoundationAdmin.archive\<close>.\<close>

definition archive_release :: "request \<Rightarrow> db \<Rightarrow> string \<Rightarrow> string \<Rightarrow> (unit \<times> db) py" where
  "archive_release rq d pk v =
     bindE (demandE (access 404 ''Release not found'') (release_get d pk v)) (\<lambda>r.
     bindE (guardE (r_phase r = RELEASE) (access 409 ''Release is not in the release phase'')) (\<lambda>_.
     bindE (guardE (\<not> r_is_archived r) (access 409 ''Release is already archived.'')) (\<lambda>_.
       (case archive_release_core rq d r AS_MANUAL of
          (Some e, _) \<Rightarrow> Inl (access 409 e)
        | (None, d') \<Rightarrow> Inr ((), d')))))"

definition archive_by_watcher :: "request \<Rightarrow> db \<Rightarrow> string \<Rightarrow> string \<Rightarrow> string option \<times> db" where
  "archive_by_watcher rq d pk v =
     (case release_get d pk v of
        None \<Rightarrow> (Some ''Release not found'', d)
      | Some r \<Rightarrow> archive_release_core rq d r AS_DIST_WATCHER)"

text \<open>The most recently published archive event of a release, and the row that withdraws it.\<close>

definition prior_archive_event :: "db \<Rightarrow> string \<Rightarrow> nat option" where
  "prior_archive_event d rk =
     map_option e_id
       (max_by_key e_published
          (sel (\<lambda>e. e_version_key e = Some rk \<and> e_event e = EV_ARCHIVE) (db_events d)))"

definition withdraw_event :: "int \<Rightarrow> release \<Rightarrow> nat \<Rightarrow> lifecycle_event" where
  "withdraw_event now r target =
     (event_row r EV_WITHDRAW now now []) \<lparr> e_target_event_id := Some target \<rparr>"

definition clear_archive :: "release \<Rightarrow> release" where
  "clear_archive r = r \<lparr> r_is_archived := False, r_archived := None, r_archive_source := None \<rparr>"

definition withdraw_prior :: "request \<Rightarrow> db \<Rightarrow> release \<Rightarrow> nat option \<Rightarrow> db" where
  "withdraw_prior rq d r prior =
     (case prior of None \<Rightarrow> d | Some i \<Rightarrow> add_event d (withdraw_event (rq_now rq) r i))"

definition revert_failed_archive :: "request \<Rightarrow> db \<Rightarrow> string \<Rightarrow> string \<Rightarrow> db" where
  "revert_failed_archive rq d pk v =
     (case release_get d pk v of
        None \<Rightarrow> d
      | Some r \<Rightarrow>
          if \<not> r_is_archived r then d
          else withdraw_prior rq (update_release d (\<lambda>x. r_key x = r_key r) clear_archive) r
                 (prior_archive_event d (r_key r)))"

section \<open>The dist watcher's catalogue\<close>

definition catalogued_artifacts :: "release \<Rightarrow> artifact list \<Rightarrow> artifact list" where
  "catalogued_artifacts r arts =
     map (\<lambda>a. a \<lparr> a_project_key := r_project_key r, a_version := r_version r,
                  a_release_key := Some (r_key r), a_managed := False \<rparr>) arts"

definition restore_catalogued_release :: "request \<Rightarrow> db \<Rightarrow> release \<Rightarrow> artifact list \<Rightarrow> db" where
  "restore_catalogued_release rq d r arts =
     (let d1 = update_release d (\<lambda>x. r_key x = r_key r) clear_archive;
          d2 = d1 \<lparr> db_artifacts := del (\<lambda>a. a_release_key a = Some (r_key r)) (db_artifacts d1) @
                      catalogued_artifacts r arts \<rparr>;
          d3 = withdraw_prior rq d2 r (prior_archive_event d (r_key r))
      in queue_regeneration rq d3 (rq_asf_uid rq) (Some (r_project_key r)))"

definition catalogue_release ::
  "request \<Rightarrow> string py \<Rightarrow> db \<Rightarrow> string \<Rightarrow> string \<Rightarrow> int \<Rightarrow> artifact list \<Rightarrow> (string option \<times> db) py" where
  "catalogue_release rq cycle d pk v released arts =
     (case project_get d pk of
        None \<Rightarrow> Inr (Some ''Project not found'', d)
      | Some p \<Rightarrow>
          (case release_get d (p_key p) v of
             Some r \<Rightarrow>
               if r_is_archived r then Inr (None, restore_catalogued_release rq d r arts)
               else Inr (None, d)
           | None \<Rightarrow>
               (case ensure_cycle d (p_key p)
                       (case cycle of Inl _ \<Rightarrow> ''default'' | Inr name \<Rightarrow> name) of
                  (cycle_key, d1) \<Rightarrow>
                    (let r = (new_release released (p_key p) v cycle_key RELEASE)
                               \<lparr> r_released := Some released, r_activity_at := rq_now rq \<rparr>
                     in bindE (insert_release d1 r) (\<lambda>d2.
                          (let d3 = add_event d2 (event_row r EV_RELEASE released (rq_now rq) []);
                               d4 = d3 \<lparr> db_artifacts := db_artifacts d3 @ catalogued_artifacts r arts \<rparr>
                           in Inr (None, queue_regeneration rq d4 (rq_asf_uid rq) (Some (p_key p)))))))))"

section \<open>Deleting and keeping alive\<close>

definition is_test_release :: "request \<Rightarrow> committee option \<Rightarrow> bool" where
  "is_test_release rq c =
     (is_test_mode (rq_admin rq) \<and> (case c of None \<Rightarrow> False | Some c' \<Rightarrow> c_key c' = ''test''))"

text \<open>
  \<open>__delete_body\<close>: the tasks by project and version, the release with its cascades, in test mode the
  counters of the test committee's releases; \<open>fs_error\<close> is what the removal of the directories says.
\<close>

definition delete_body :: "request \<Rightarrow> string option \<Rightarrow> db \<Rightarrow> release \<Rightarrow> string option \<times> db" where
  "delete_body rq fs_error d r =
     (let d1 = d \<lparr> db_tasks := del (task_of_release (r_project_key r) (r_version r)) (db_tasks d) \<rparr>;
          d2 = delete_release d1 (r_key r);
          d3 = (if is_test_release rq (release_committee d r)
                then d2 \<lparr> db_revision_counter := (db_revision_counter d2)(r_key r := None),
                          db_vote_counter := (db_vote_counter d2)(r_key r := None) \<rparr>
                else d2)
      in (fs_error, d3))"

text \<open>\<open>CommitteeParticipant.delete\<close>, with the optional phase the caller restricts it to.\<close>

definition delete_by_participant ::
  "request \<Rightarrow> string option \<Rightarrow> db \<Rightarrow> string \<Rightarrow> string \<Rightarrow> ReleasePhase option \<Rightarrow> (string option \<times> db) py" where
  "delete_by_participant rq fs_error d pk v phase =
     bindE (demandE (access 404 ''Release not found.'')
              (case phase of None \<Rightarrow> release_get d pk v | Some ph \<Rightarrow> release_get_phase d pk v ph)) (\<lambda>r.
     bindE (demand_project d r) (\<lambda>p.
     bindE (ensure_project_active p) (\<lambda>_.
     bindE (ensure_release_writable rq p r) (\<lambda>_.
       if r_phase r = RELEASE
       then Inr (Some ''Release has been announced; it can only be archived, not deleted.'', d)
       else Inr (delete_body rq fs_error d r)))))"

text \<open>\<open>FoundationAdmin.delete\<close>, which takes a release in any phase.\<close>

definition delete_by_admin ::
  "request \<Rightarrow> string option \<Rightarrow> db \<Rightarrow> string \<Rightarrow> string \<Rightarrow> (string option \<times> db) py" where
  "delete_by_admin rq fs_error d pk v =
     bindE (demandE (access 404 ''Release not found.'') (release_get d pk v)) (\<lambda>r.
     bindE (demand_project d r) (\<lambda>p.
     bindE (ensure_project_active p) (\<lambda>_. Inr (delete_body rq fs_error d r))))"

definition INACTIVITY_DELETE_DAYS :: int where
  "INACTIVITY_DELETE_DAYS = 90"

definition check_eligibility :: "request \<Rightarrow> db \<Rightarrow> string \<Rightarrow> string \<Rightarrow> string option py" where
  "check_eligibility rq d pk v =
     (case release_get d pk v of
        None \<Rightarrow> Inr (Some ''release no longer exists'')
      | Some r \<Rightarrow>
          bindE (demand_project d r) (\<lambda>p. Inr
            (if p_status p \<noteq> PS_ACTIVE
             then Some (''release project '' @ r_project_key r @ '' is not active'')
             else if r_phase r \<noteq> RELEASE_CANDIDATE_DRAFT \<and> r_phase r \<noteq> RELEASE_CANDIDATE
             then Some (''release phase '' @ phase_value (r_phase r) @
                        '' is not eligible for system deletion'')
             else if (rq_now rq - r_activity_at r) div 86400 < INACTIVITY_DELETE_DAYS
             then Some (''release activity is only '' @ str_int ((rq_now rq - r_activity_at r) div 86400) @
                        '' days old; threshold is 90'')
             else if has_blocking_tasks d r then Some ''release has queued or active tasks''
             else if has_blocking_quarantine d r
             then Some ''release has staging or pending quarantine rows''
             else None)))"

definition delete_inactive ::
  "request \<Rightarrow> string option \<Rightarrow> db \<Rightarrow> string \<Rightarrow> string \<Rightarrow> bool \<Rightarrow> (string option \<times> db) py" where
  "delete_inactive rq fs_error d pk v dry_run =
     bindE (check_eligibility rq d pk v) (\<lambda>e.
       (case e of
          Some msg \<Rightarrow> Inr (Some msg, d)
        | None \<Rightarrow> if dry_run then Inr (None, d) else delete_by_admin rq fs_error d pk v))"

definition bump_phase :: "ReleasePhase \<Rightarrow> bool" where
  "bump_phase ph = (ph = RELEASE_CANDIDATE_DRAFT \<or> ph = RELEASE_CANDIDATE \<or> ph = RELEASE_PREVIEW)"

definition bump_activity :: "request \<Rightarrow> db \<Rightarrow> string \<Rightarrow> string \<Rightarrow> (unit \<times> db) py" where
  "bump_activity rq d pk v =
     bindE (demandE (access 404 ''Release not found.'') (release_get d pk v)) (\<lambda>r.
     bindE (demand_project d r) (\<lambda>p.
     bindE (ensure_project_active p) (\<lambda>_.
     bindE (ensure_release_writable rq p r) (\<lambda>_.
     bindE (guardE (bump_phase (r_phase r))
              (access 409 ''Release phase is not eligible for activity reset'')) (\<lambda>_.
       (let W = (\<lambda>x. r_key x = r_key r \<and> bump_phase (r_phase x)) in
        if rowcount W (db_releases d) \<noteq> 1
        then Inl (access 409 ''The release state has changed, please refresh and try again'')
        else Inr ((), update_release d W
               (\<lambda>x. x \<lparr> r_activity_at := (if r_activity_at x > rq_now rq then r_activity_at x else rq_now rq),
                        r_inactivity_notice_key := None \<rparr>))))))))"

end
