(* ===== verification/Ballots.thy ===== *)
theory Ballots
  imports Store User Tabulate "HOL-Library.List_Lexorder" "HOL-Library.Char_ord"
    "HOL-Library.Product_Lexorder" "HOL-Library.Option_ord"
begin

text \<open>
  The ballots of a trusted vote: the queries and tallies of src/atr/db/interaction.py that turn
  the ballot papers of a release into the votes that count.

  A podling votes twice.  In the second round the ballots of Incubator members from the first
  round are carried over, unless the voter has cast again.
\<close>

section \<open>Queries\<close>

abbreviation ballots_in :: "db \<Rightarrow> string \<Rightarrow> nat \<Rightarrow> ballot list" where
  "ballots_in d rk s \<equiv> sel (\<lambda>b. b_release_key b = rk \<and> b_vote_seq b = s) (db_ballots d)"

text \<open>
  \<open>ballots_for_resolution\<close>: the row with the greatest id of every partition by round and voter,
  ordered by round (NULL first) and voter.
\<close>

definition ballot_partition :: "ballot \<Rightarrow> nat option \<times> string" where
  "ballot_partition b = (b_vote_round b, b_voter_asf_uid b)"

definition is_latest_in :: "ballot list \<Rightarrow> ballot \<Rightarrow> bool" where
  "is_latest_in bs b = list_all (\<lambda>b'. ballot_partition b' = ballot_partition b \<longrightarrow> b_id b' \<le> b_id b) bs"

definition ballots_for_resolution :: "db \<Rightarrow> string \<Rightarrow> nat \<Rightarrow> ballot list" where
  "ballots_for_resolution d rk s =
     sort_key ballot_partition (filter (is_latest_in (ballots_in d rk s)) (ballots_in d rk s))"

definition latest_ballot_for_voter :: "db \<Rightarrow> string \<Rightarrow> nat \<Rightarrow> string \<Rightarrow> ballot option" where
  "latest_ballot_for_voter d rk s uid =
     max_by_key b_id
       (sel (\<lambda>b. b_release_key b = rk \<and> b_vote_seq b = s \<and> b_voter_asf_uid b = uid) (db_ballots d))"

definition previous_round_one_vote_seq :: "db \<Rightarrow> string \<Rightarrow> nat \<Rightarrow> nat option" where
  "previous_round_one_vote_seq d rk current_vote_seq =
     map_option b_vote_seq
       (max_by_key b_vote_seq
          (sel (\<lambda>b. b_release_key b = rk \<and> b_vote_round b = Some 1 \<and> b_vote_seq b < current_vote_seq)
             (db_ballots d)))"

definition ballot_receipt_message_ids :: "db \<Rightarrow> string \<Rightarrow> nat \<Rightarrow> string list" where
  "ballot_receipt_message_ids d rk s =
     remdups (filter (\<lambda>i. i \<noteq> []) (map b_receipt_message_id (ballots_in d rk s)))"

definition vote_round_of :: "committee option \<Rightarrow> string option \<Rightarrow> nat option" where
  "vote_round_of c podling_thread_id =
     (case c of
        None \<Rightarrow> None
      | Some c' \<Rightarrow> if c_is_podling c' then (if podling_thread_id = None then Some 1 else Some 2) else None)"

definition trusted_vote_round :: "db \<Rightarrow> release \<Rightarrow> nat option" where
  "trusted_vote_round d r = vote_round_of (release_committee d r) (r_podling_thread_id r)"

section \<open>The ballots that count\<close>

text \<open>The loop over the first round: skip who voted again, keep who is binding in round two.\<close>

fun carry_ballots ::
  "committee list \<Rightarrow> committee \<Rightarrow> string list \<Rightarrow> ballot list \<Rightarrow> ballot list py" where
  "carry_ballots cs c voted [] = Inr []"
| "carry_ballots cs c voted (b # bs) =
     (if b_voter_asf_uid b \<in> set voted then carry_ballots cs c voted bs
      else
        bindE (is_binding_for_release cs c (b_voter_asf_uid b) (Some 2)) (\<lambda>(is_binding, _).
        bindE (carry_ballots cs c voted bs) (\<lambda>rest.
          Inr (if is_binding then b # rest else rest))))"

definition effective_trusted_ballots :: "db \<Rightarrow> release \<Rightarrow> nat \<Rightarrow> ballot list py" where
  "effective_trusted_ballots d r vote_seq =
     (let current = ballots_for_resolution d (r_key r) vote_seq in
      case release_committee d r of
        None \<Rightarrow> Inr current
      | Some c \<Rightarrow>
          if \<not> c_is_podling c \<or> trusted_vote_round d r \<noteq> Some 2 then Inr current
          else (case previous_round_one_vote_seq d (r_key r) vote_seq of
                  None \<Rightarrow> Inr current
                | Some r1_seq \<Rightarrow>
                    bindE (carry_ballots (db_committees d) c (map b_voter_asf_uid current)
                             (ballots_for_resolution d (r_key r) r1_seq))
                      (\<lambda>carried. Inr (current @ carried))))"

definition effective_latest_ballot_for_voter :: "db \<Rightarrow> release \<Rightarrow> nat \<Rightarrow> string \<Rightarrow> ballot option py" where
  "effective_latest_ballot_for_voter d r vote_seq uid =
     (case latest_ballot_for_voter d (r_key r) vote_seq uid of
        Some b \<Rightarrow> Inr (Some b)
      | None \<Rightarrow>
          (case release_committee d r of
             None \<Rightarrow> Inr None
           | Some c \<Rightarrow>
               if \<not> c_is_podling c \<or> trusted_vote_round d r \<noteq> Some 2 then Inr None
               else (case previous_round_one_vote_seq d (r_key r) vote_seq of
                       None \<Rightarrow> Inr None
                     | Some r1_seq \<Rightarrow>
                         (case latest_ballot_for_voter d (r_key r) r1_seq uid of
                            None \<Rightarrow> Inr None
                          | Some b \<Rightarrow>
                              bindE (is_binding_for_release (db_committees d) c uid (Some 2))
                                (\<lambda>(is_binding, _). Inr (if is_binding then Some b else None))))))"

section \<open>The tally\<close>

definition trusted_summary_zero :: trusted_summary where
  "trusted_summary_zero = \<lparr> ts_binding_yes = 0, ts_binding_no = 0, ts_binding_abstain = 0,
     ts_non_binding_yes = 0, ts_non_binding_no = 0, ts_non_binding_abstain = 0 \<rparr>"

fun trusted_summary_add :: "trusted_summary \<Rightarrow> VoteChoice \<Rightarrow> bool \<Rightarrow> trusted_summary" where
  "trusted_summary_add s CH_YES is_binding =
     (if is_binding then s \<lparr> ts_binding_yes := ts_binding_yes s + 1 \<rparr>
      else s \<lparr> ts_non_binding_yes := ts_non_binding_yes s + 1 \<rparr>)"
| "trusted_summary_add s CH_ABSTAIN is_binding =
     (if is_binding then s \<lparr> ts_binding_abstain := ts_binding_abstain s + 1 \<rparr>
      else s \<lparr> ts_non_binding_abstain := ts_non_binding_abstain s + 1 \<rparr>)"
| "trusted_summary_add s CH_NO is_binding =
     (if is_binding then s \<lparr> ts_binding_no := ts_binding_no s + 1 \<rparr>
      else s \<lparr> ts_non_binding_no := ts_non_binding_no s + 1 \<rparr>)"

record TrustedBallotDetail =
  tb_cast_at :: int
  tb_choice :: VoteChoice
  tb_comment :: string
  tb_is_binding :: bool
  tb_is_carried :: bool
  tb_receipt_message_id :: string
  tb_revision_number_at_cast :: string
  tb_status_label :: string
  tb_voter_asf_uid :: string
  tb_voter_fullname :: string
  tb_vote_round :: "nat option"

text \<open>
  \<open>expected_vote_round\<close> is \<open>None\<close> when the caller passes no expectation, and \<open>Some r\<close> for an expected
  round \<open>r\<close>, itself \<open>None\<close> outside podlings.
\<close>

definition ballot_is_carried :: "nat option \<Rightarrow> ballot \<Rightarrow> bool" where
  "ballot_is_carried active_round b = (b_vote_round b = Some 1 \<and> active_round = Some 2)"

definition ballot_detail :: "nat option \<Rightarrow> ballot \<Rightarrow> bool \<Rightarrow> TrustedBallotDetail" where
  "ballot_detail active_round b is_binding =
     \<lparr> tb_cast_at = b_created b, tb_choice = b_choice b, tb_comment = b_comment b,
       tb_is_binding = is_binding, tb_is_carried = ballot_is_carried active_round b,
       tb_receipt_message_id = b_receipt_message_id b,
       tb_revision_number_at_cast = b_revision_number_at_cast b,
       tb_status_label = (if is_binding then fst (binding_terminology active_round)
                          else snd (binding_terminology active_round)),
       tb_voter_asf_uid = b_voter_asf_uid b, tb_voter_fullname = b_voter_fullname b,
       tb_vote_round = b_vote_round b \<rparr>"

fun ballot_details_loop ::
  "committee list \<Rightarrow> committee \<Rightarrow> nat option \<Rightarrow> nat option option \<Rightarrow> ballot list
    \<Rightarrow> TrustedBallotDetail list \<Rightarrow> trusted_summary
    \<Rightarrow> (TrustedBallotDetail list \<times> trusted_summary) py" where
  "ballot_details_loop cs c active_round expected [] ds s = Inr (ds, s)"
| "ballot_details_loop cs c active_round expected (b # bs) ds s =
     (if (case expected of None \<Rightarrow> False | Some e \<Rightarrow> b_vote_round b \<noteq> e)
         \<and> \<not> ballot_is_carried active_round b
      then Inl (ValueError ''Trusted ballot vote round does not match the active vote round'')
      else
        bindE (is_binding_for_release cs c (b_voter_asf_uid b) active_round) (\<lambda>(is_binding, _).
          ballot_details_loop cs c active_round expected bs
            (ds @ [ballot_detail active_round b is_binding])
            (trusted_summary_add s (b_choice b) is_binding)))"

definition trusted_ballot_details_from_ballots ::
  "db \<Rightarrow> release \<Rightarrow> ballot list \<Rightarrow> nat option option \<Rightarrow> (TrustedBallotDetail list \<times> trusted_summary) py" where
  "trusted_ballot_details_from_ballots d r bs expected =
     (case release_committee d r of
        None \<Rightarrow> Inl (ValueError ''Release has no committee'')
      | Some c \<Rightarrow>
          ballot_details_loop (db_committees d) c (trusted_vote_round d r) expected bs []
            trusted_summary_zero)"

definition trusted_ballot_summary :: "db \<Rightarrow> release \<Rightarrow> ballot list \<Rightarrow> trusted_summary py" where
  "trusted_ballot_summary d r bs =
     bindE (trusted_ballot_details_from_ballots d r bs None) (\<lambda>(_, s). Inr s)"

definition trusted_ballot_details ::
  "db \<Rightarrow> release \<Rightarrow> nat \<Rightarrow> nat option \<Rightarrow> (TrustedBallotDetail list \<times> trusted_summary) py" where
  "trusted_ballot_details d r vote_seq expected =
     trusted_ballot_details_from_ballots d r (ballots_for_resolution d (r_key r) vote_seq) (Some expected)"

section \<open>One ballot per voter\<close>

text \<open>A vote has one round: all ballots of a release with one sequence number carry the same round.\<close>

definition one_round_per_vote :: "db \<Rightarrow> bool" where
  "one_round_per_vote d =
     list_all (\<lambda>b. list_all (\<lambda>b'. b_release_key b = b_release_key b' \<and> b_vote_seq b = b_vote_seq b'
                                  \<longrightarrow> b_vote_round b = b_vote_round b') (db_ballots d)) (db_ballots d)"

lemma one_roundD:
  assumes "one_round_per_vote d" and "b \<in> set (ballots_in d rk s)" and "b' \<in> set (ballots_in d rk s)"
  shows "b_vote_round b = b_vote_round b'"
  using assms by (auto simp: one_round_per_vote_def list_all_iff sel_set)

lemma set_ballots_for_resolution:
  "set (ballots_for_resolution d rk s) = {b \<in> set (ballots_in d rk s). is_latest_in (ballots_in d rk s) b}"
  by (auto simp: ballots_for_resolution_def)

lemma latest_for_voter_iff:
  assumes key: "ballots_keyed (db_ballots d)" and one: "one_round_per_vote d"
  shows "b \<in> set (ballots_for_resolution d rk s) \<longleftrightarrow>
           latest_ballot_for_voter d rk s (b_voter_asf_uid b) = Some b"
proof -
  let ?in = "ballots_in d rk s"
  let ?mine = "sel (\<lambda>x. b_release_key x = rk \<and> b_vote_seq x = s
                     \<and> b_voter_asf_uid x = b_voter_asf_uid b) (db_ballots d)"
  have mine: "x \<in> set ?mine \<longleftrightarrow> x \<in> set ?in \<and> b_voter_asf_uid x = b_voter_asf_uid b" for x
    by (auto simp: sel_set)
  have part: "ballot_partition x = ballot_partition b \<longleftrightarrow> b_voter_asf_uid x = b_voter_asf_uid b"
    if "x \<in> set ?in" "b \<in> set ?in" for x
    using one_roundD [OF one that] by (auto simp: ballot_partition_def)
  show ?thesis
  proof
    assume "b \<in> set (ballots_for_resolution d rk s)"
    then have b: "b \<in> set ?in" and latest: "is_latest_in ?in b"
      by (auto simp: set_ballots_for_resolution)
    have "max_by_key b_id ?mine = Some b"
    proof (rule max_by_key_unique)
      show "b \<in> set ?mine" using b mine by simp
      fix x assume x: "x \<in> set ?mine" "x \<noteq> b"
      have "b_id x \<le> b_id b"
        using latest x mine part b by (auto simp: is_latest_in_def list_all_iff)
      moreover have "b_id x \<noteq> b_id b"
        using ballots.unique [OF key, of x b] x b by (auto simp: sel_set)
      ultimately show "b_id x < b_id b" by simp
    qed
    then show "latest_ballot_for_voter d rk s (b_voter_asf_uid b) = Some b"
      by (simp add: latest_ballot_for_voter_def)
  next
    assume "latest_ballot_for_voter d rk s (b_voter_asf_uid b) = Some b"
    then have m: "max_by_key b_id ?mine = Some b" by (simp add: latest_ballot_for_voter_def)
    have "b \<in> set ?mine" using m by (rule max_by_key_in)
    then have b: "b \<in> set ?in" using mine by blast
    have "b_id x \<le> b_id b" if "x \<in> set ?in" "ballot_partition x = ballot_partition b" for x
      using max_by_key_ge [OF m, of x] mine part that b by blast
    then have "is_latest_in ?in b" by (auto simp: is_latest_in_def list_all_iff)
    then show "b \<in> set (ballots_for_resolution d rk s)" using b by (simp add: set_ballots_for_resolution)
  qed
qed

lemma latest_ballot_voter:
  "latest_ballot_for_voter d rk s uid = Some b \<Longrightarrow>
     b_voter_asf_uid b = uid \<and> b_vote_seq b = s \<and> b_release_key b = rk \<and> b \<in> set (db_ballots d)"
  unfolding latest_ballot_for_voter_def by (drule max_by_key_in) (simp add: sel_set)

lemma latest_ballot_None:
  "latest_ballot_for_voter d rk s uid = None \<longleftrightarrow>
     (\<forall>b \<in> set (ballots_in d rk s). b_voter_asf_uid b \<noteq> uid)"
  by (auto simp: latest_ballot_for_voter_def sel_def filter_empty_conv)

lemma distinct_voters:
  assumes key: "ballots_keyed (db_ballots d)" and one: "one_round_per_vote d"
  shows "distinct (map b_voter_asf_uid (ballots_for_resolution d rk s))"
proof -
  let ?bs = "ballots_for_resolution d rk s"
  have "distinct (db_ballots d)"
    using key by (simp add: ballots_keyed_def distinct_map)
  then have dist: "distinct ?bs"
    by (simp add: ballots_for_resolution_def sel_def)
  have "inj_on b_voter_asf_uid (set ?bs)"
  proof (rule inj_onI)
    fix x y assume "x \<in> set ?bs" "y \<in> set ?bs" "b_voter_asf_uid x = b_voter_asf_uid y"
    then show "x = y" using latest_for_voter_iff [OF key one] by (metis option.inject)
  qed
  then show ?thesis using dist by (simp add: distinct_map)
qed

lemma find_distinct:
  assumes "distinct (map f xs)" and "x \<in> set xs"
  shows "find (\<lambda>y. f y = f x) xs = Some x"
  using assms by (induction xs) (auto simp: image_iff)

lemma find_append: "find P (xs @ ys) = (case find P xs of None \<Rightarrow> find P ys | Some x \<Rightarrow> Some x)"
  by (induction xs) auto

text \<open>The ballot of a voter in the resolution list is the ballot \<open>latest_ballot_for_voter\<close> shows.\<close>

lemma find_ballot:
  assumes key: "ballots_keyed (db_ballots d)" and one: "one_round_per_vote d"
  shows "find (\<lambda>b. b_voter_asf_uid b = uid) (ballots_for_resolution d rk s) =
           latest_ballot_for_voter d rk s uid"
proof (cases "latest_ballot_for_voter d rk s uid")
  case None
  then have "find (\<lambda>b. b_voter_asf_uid b = uid) (ballots_for_resolution d rk s) = None"
    by (simp add: latest_ballot_None find_None_iff set_ballots_for_resolution)
  then show ?thesis using None by simp
next
  case (Some b)
  then have "b_voter_asf_uid b = uid" by (simp add: latest_ballot_voter)
  moreover have "b \<in> set (ballots_for_resolution d rk s)"
    using Some latest_for_voter_iff [OF key one] \<open>b_voter_asf_uid b = uid\<close> by blast
  ultimately show ?thesis
    using find_distinct [OF distinct_voters [OF key one], of b rk s] Some by simp
qed

section \<open>Carried ballots\<close>

lemma carry_ballots_eq:
  assumes "c_is_podling c"
  shows "carry_ballots cs c voted bs =
    Inr (filter (\<lambda>b. b_voter_asf_uid b \<notin> set voted
            \<and> is_committee_member (committee_get cs ''incubator'') (b_voter_asf_uid b)) bs)"
  using assms by (induction bs) (auto simp: is_binding_for_release_def)

text \<open>\<open>effective_trusted_ballots\<close> without its branches: the current ballots and the carried ones.\<close>

definition carried_ballots :: "db \<Rightarrow> release \<Rightarrow> nat \<Rightarrow> ballot list" where
  "carried_ballots d r s =
     (if trusted_vote_round d r = Some 2
      then (case previous_round_one_vote_seq d (r_key r) s of
              None \<Rightarrow> []
            | Some r1 \<Rightarrow>
                filter (\<lambda>b. latest_ballot_for_voter d (r_key r) s (b_voter_asf_uid b) = None
                    \<and> is_committee_member (committee_get (db_committees d) ''incubator'')
                        (b_voter_asf_uid b))
                  (ballots_for_resolution d (r_key r) r1))
      else [])"

lemma trusted_vote_round_podling:
  "trusted_vote_round d r = Some n \<Longrightarrow> \<exists>c. release_committee d r = Some c \<and> c_is_podling c"
  by (auto simp: trusted_vote_round_def vote_round_of_def split: option.splits if_splits)

lemma voters_of_resolution:
  assumes "ballots_keyed (db_ballots d)" and "one_round_per_vote d"
  shows "uid \<in> b_voter_asf_uid ` set (ballots_for_resolution d rk s) \<longleftrightarrow>
           latest_ballot_for_voter d rk s uid \<noteq> None"
proof
  assume "uid \<in> b_voter_asf_uid ` set (ballots_for_resolution d rk s)"
  then show "latest_ballot_for_voter d rk s uid \<noteq> None"
    using latest_for_voter_iff [OF assms] by fastforce
next
  assume "latest_ballot_for_voter d rk s uid \<noteq> None"
  then obtain b where "latest_ballot_for_voter d rk s uid = Some b" by blast
  then show "uid \<in> b_voter_asf_uid ` set (ballots_for_resolution d rk s)"
    using latest_for_voter_iff [OF assms] latest_ballot_voter by (metis image_eqI)
qed

lemma effective_ballots_eq:
  assumes "ballots_keyed (db_ballots d)" and "one_round_per_vote d"
  shows "effective_trusted_ballots d r s =
           Inr (ballots_for_resolution d (r_key r) s @ carried_ballots d r s)"
proof (cases "trusted_vote_round d r = Some 2")
  case True
  then obtain c where "release_committee d r = Some c" "c_is_podling c"
    using trusted_vote_round_podling by blast
  then show ?thesis
    using True voters_of_resolution [OF assms]
    by (auto simp: effective_trusted_ballots_def carried_ballots_def carry_ballots_eq Let_def
        split: option.split intro!: filter_cong)
next
  case False
  then show ?thesis
    by (auto simp: effective_trusted_ballots_def carried_ballots_def Let_def split: option.split)
qed

lemma effective_latest_eq:
  assumes "ballots_keyed (db_ballots d)" and "one_round_per_vote d"
  shows "effective_latest_ballot_for_voter d r s uid =
    Inr (case latest_ballot_for_voter d (r_key r) s uid of
           Some b \<Rightarrow> Some b
         | None \<Rightarrow> find (\<lambda>b. b_voter_asf_uid b = uid) (carried_ballots d r s))"
proof (cases "latest_ballot_for_voter d (r_key r) s uid")
  case (Some b)
  then show ?thesis by (simp add: effective_latest_ballot_for_voter_def)
next
  case None
  show ?thesis
  proof (cases "trusted_vote_round d r = Some 2")
    case False
    then show ?thesis using None
      by (auto simp: effective_latest_ballot_for_voter_def carried_ballots_def split: option.split)
  next
    case True
    then obtain c where c: "release_committee d r = Some c" "c_is_podling c"
      using trusted_vote_round_podling by blast
    show ?thesis
    proof (cases "previous_round_one_vote_seq d (r_key r) s")
      case N1: None
      then show ?thesis using None True c
        by (simp add: effective_latest_ballot_for_voter_def carried_ballots_def)
    next
      case (Some r1)
      let ?old = "ballots_for_resolution d (r_key r) r1"
      let ?inc = "is_committee_member (committee_get (db_committees d) ''incubator'')"
      have find_filter: "find (\<lambda>b. b_voter_asf_uid b = uid)
            (filter (\<lambda>b. latest_ballot_for_voter d (r_key r) s (b_voter_asf_uid b) = None
                \<and> ?inc (b_voter_asf_uid b)) xs) =
          (if ?inc uid then find (\<lambda>b. b_voter_asf_uid b = uid) xs else None)" for xs
        using None by (induction xs) auto
      show ?thesis
        using None True c Some find_filter [of ?old] find_ballot [OF assms, of uid "r_key r" r1]
        by (auto simp: effective_latest_ballot_for_voter_def carried_ballots_def
            is_binding_for_release_def split: option.split)
    qed
  qed
qed

section \<open>Tally\<close>

text \<open>Whether a voter's ballot is binding in a round, with the error case as not binding.\<close>

definition binding_in :: "committee list \<Rightarrow> committee \<Rightarrow> nat option \<Rightarrow> string \<Rightarrow> bool" where
  "binding_in cs c rnd uid =
     (case is_binding_for_release cs c uid rnd of Inl _ \<Rightarrow> False | Inr (b, _) \<Rightarrow> b)"

lemma ballot_details_loop_Inr:
  assumes "ballot_details_loop cs c ar ex bs ds s = Inr (ds', s')"
  shows "ds' = ds @ map (\<lambda>b. ballot_detail ar b (binding_in cs c ar (b_voter_asf_uid b))) bs"
    and "s' = fold (\<lambda>b s. trusted_summary_add s (b_choice b) (binding_in cs c ar (b_voter_asf_uid b))) bs s"
  using assms
  by (induction cs c ar ex bs ds s rule: ballot_details_loop.induct)
     (auto simp: bindE_Inr_iff binding_in_def split: if_splits prod.splits)

definition choice_count :: "(ballot \<Rightarrow> bool) \<Rightarrow> VoteChoice \<Rightarrow> ballot list \<Rightarrow> int" where
  "choice_count P ch bs = int (length (filter (\<lambda>b. P b \<and> b_choice b = ch) bs))"

lemma trusted_fold_counts:
  fixes P :: "ballot \<Rightarrow> bool"
  defines "F \<equiv> \<lambda>bs s. fold (\<lambda>b s. trusted_summary_add s (b_choice b) (P b)) bs s"
  shows "ts_binding_yes (F bs s) = ts_binding_yes s + choice_count P CH_YES bs"
    and "ts_binding_no (F bs s) = ts_binding_no s + choice_count P CH_NO bs"
    and "ts_binding_abstain (F bs s) = ts_binding_abstain s + choice_count P CH_ABSTAIN bs"
    and "ts_binding_votes (F bs s) + ts_non_binding_votes (F bs s) =
           ts_binding_votes s + ts_non_binding_votes s + int (length bs)"
proof -
  have "ts_binding_yes (F bs s) = ts_binding_yes s + choice_count P CH_YES bs \<and>
    ts_binding_no (F bs s) = ts_binding_no s + choice_count P CH_NO bs \<and>
    ts_binding_abstain (F bs s) = ts_binding_abstain s + choice_count P CH_ABSTAIN bs \<and>
    ts_binding_votes (F bs s) + ts_non_binding_votes (F bs s) =
      ts_binding_votes s + ts_non_binding_votes s + int (length bs)" for bs s
  proof (induction bs arbitrary: s)
    case Nil
    show ?case by (simp add: F_def choice_count_def)
  next
    case (Cons b bs)
    have step: "F (b # bs) s = F bs (trusted_summary_add s (b_choice b) (P b))"
      by (simp add: F_def)
    show ?case
      unfolding step using Cons.IH [of "trusted_summary_add s (b_choice b) (P b)"]
      by (cases "b_choice b")
         (auto simp: choice_count_def ts_binding_votes_def ts_non_binding_votes_def)
  qed
  then show "ts_binding_yes (F bs s) = ts_binding_yes s + choice_count P CH_YES bs"
    and "ts_binding_no (F bs s) = ts_binding_no s + choice_count P CH_NO bs"
    and "ts_binding_abstain (F bs s) = ts_binding_abstain s + choice_count P CH_ABSTAIN bs"
    and "ts_binding_votes (F bs s) + ts_non_binding_votes (F bs s) =
           ts_binding_votes s + ts_non_binding_votes s + int (length bs)"
    by blast+
qed

lemma details_summary:
  assumes "trusted_ballot_details_from_ballots d r bs ex = Inr (ds, s)"
  obtains c where "release_committee d r = Some c"
    and "ds = map (\<lambda>b. ballot_detail (trusted_vote_round d r) b
                 (binding_in (db_committees d) c (trusted_vote_round d r) (b_voter_asf_uid b))) bs"
    and "s = fold (\<lambda>b s. trusted_summary_add s (b_choice b)
                 (binding_in (db_committees d) c (trusted_vote_round d r) (b_voter_asf_uid b))) bs
               trusted_summary_zero"
  using assms
  by (auto simp: trusted_ballot_details_from_ballots_def split: option.splits
      dest: ballot_details_loop_Inr)

lemma summary_counts:
  assumes "trusted_ballot_summary d r bs = Inr s"
  obtains c where "release_committee d r = Some c"
    and "ts_binding_yes s = choice_count (\<lambda>b. binding_in (db_committees d) c (trusted_vote_round d r)
            (b_voter_asf_uid b)) CH_YES bs"
    and "ts_binding_no s = choice_count (\<lambda>b. binding_in (db_committees d) c (trusted_vote_round d r)
            (b_voter_asf_uid b)) CH_NO bs"
    and "ts_binding_votes s + ts_non_binding_votes s = int (length bs)"
proof -
  obtain ds where "trusted_ballot_details_from_ballots d r bs None = Inr (ds, s)"
    using assms by (auto simp: trusted_ballot_summary_def)
  then obtain c where c: "release_committee d r = Some c"
    and s: "s = fold (\<lambda>b s. trusted_summary_add s (b_choice b)
                 (binding_in (db_committees d) c (trusted_vote_round d r) (b_voter_asf_uid b))) bs
               trusted_summary_zero"
    by (rule details_summary)
  show ?thesis
    by (rule that [OF c])
       (simp_all add: s trusted_fold_counts, simp_all add: trusted_summary_zero_def
         ts_binding_votes_def ts_non_binding_votes_def)
qed

section \<open>Properties\<close>

lemma previous_round_one:
  assumes "previous_round_one_vote_seq d rk s = Some r1"
  shows "\<exists>b \<in> set (ballots_in d rk r1). b_vote_round b = Some 1" and "r1 < s"
proof -
  obtain b where b: "max_by_key b_vote_seq (sel (\<lambda>b. b_release_key b = rk \<and> b_vote_round b = Some 1
      \<and> b_vote_seq b < s) (db_ballots d)) = Some b" "b_vote_seq b = r1"
    using assms by (auto simp: previous_round_one_vote_seq_def)
  have "b \<in> set (sel (\<lambda>b. b_release_key b = rk \<and> b_vote_round b = Some 1 \<and> b_vote_seq b < s) (db_ballots d))"
    using b(1) by (rule max_by_key_in)
  then show "\<exists>b \<in> set (ballots_in d rk r1). b_vote_round b = Some 1" and "r1 < s"
    using b(2) by (auto simp: sel_set)
qed

lemma disjoint_images:
  assumes "\<And>b. b \<in> B \<Longrightarrow> f b \<notin> f ` A"
  shows "f ` A \<inter> f ` B = {}"
proof (rule equals0I)
  fix y assume "y \<in> f ` A \<inter> f ` B"
  then obtain b where "b \<in> B" "y = f b" "y \<in> f ` A" by blast
  then show False using assms by simp
qed

lemma carried_ballots_facts:
  assumes one: "one_round_per_vote d" and b: "b \<in> set (carried_ballots d r s)"
  shows "trusted_vote_round d r = Some 2" and "b_vote_round b = Some 1" and "b_vote_seq b < s"
    and "is_committee_member (committee_get (db_committees d) ''incubator'') (b_voter_asf_uid b)"
    and "latest_ballot_for_voter d (r_key r) s (b_voter_asf_uid b) = None"
proof -
  have two: "trusted_vote_round d r = Some 2"
    using b by (cases "trusted_vote_round d r = Some 2") (simp_all add: carried_ballots_def)
  obtain r1 where r1: "previous_round_one_vote_seq d (r_key r) s = Some r1"
    using b two by (cases "previous_round_one_vote_seq d (r_key r) s") (simp_all add: carried_ballots_def)
  have mem: "b \<in> set (ballots_for_resolution d (r_key r) r1)"
      "is_committee_member (committee_get (db_committees d) ''incubator'') (b_voter_asf_uid b)"
      "latest_ballot_for_voter d (r_key r) s (b_voter_asf_uid b) = None"
    using b two r1 by (simp_all add: carried_ballots_def)
  have inb: "b \<in> set (ballots_in d (r_key r) r1)"
    using mem(1) by (simp add: set_ballots_for_resolution)
  obtain b1 where "b1 \<in> set (ballots_in d (r_key r) r1)" "b_vote_round b1 = Some 1"
    using previous_round_one(1) [OF r1] by blast
  then show "b_vote_round b = Some 1" using one_roundD [OF one inb] by metis
  show "b_vote_seq b < s" using previous_round_one(2) [OF r1] inb by (simp add: sel_set)
  show "trusted_vote_round d r = Some 2" by (rule two)
  show "is_committee_member (committee_get (db_committees d) ''incubator'') (b_voter_asf_uid b)"
    by (rule mem(2))
  show "latest_ballot_for_voter d (r_key r) s (b_voter_asf_uid b) = None" by (rule mem(3))
qed


text \<open>
  C33: a ballot counts in a vote it was not cast in only when the vote is the second round of a
  podling, the ballot was cast in an earlier first round, its voter belongs to the Incubator
  committee, and the voter has cast no ballot in the second round.
\<close>
theorem carried_only_from_round_one:
  assumes "ballots_keyed (db_ballots d)" and "one_round_per_vote d"
    and "effective_trusted_ballots d r s = Inr bs" and "b \<in> set bs" and "b_vote_seq b \<noteq> s"
  shows "trusted_vote_round d r = Some 2 \<and> b_vote_round b = Some 1 \<and> b_vote_seq b < s \<and>
    is_committee_member (committee_get (db_committees d) ''incubator'') (b_voter_asf_uid b) \<and>
    (\<forall>b' \<in> set (db_ballots d). b_release_key b' = r_key r \<and> b_vote_seq b' = s \<longrightarrow>
       b_voter_asf_uid b' \<noteq> b_voter_asf_uid b)"
proof -
  have "b \<notin> set (ballots_for_resolution d (r_key r) s)"
    using assms(5) by (auto simp: set_ballots_for_resolution sel_set)
  then have "b \<in> set (carried_ballots d r s)"
    using assms(3,4) by (auto simp: effective_ballots_eq [OF assms(1,2)])
  from carried_ballots_facts [OF assms(2) this] show ?thesis
    by (auto simp: latest_ballot_None sel_set)
qed

text \<open>
  the tally counts every ballot it is given once: the six totals add up to the number of
  ballots, the details list the voters in order, and the binding totals are the numbers of details
  marked binding with that choice.
\<close>
theorem tally_counts_every_ballot:
  assumes "trusted_ballot_details_from_ballots d r bs ex = Inr (ds, s)"
  shows "ts_binding_votes s + ts_non_binding_votes s = int (length bs) \<and>
    map tb_voter_asf_uid ds = map b_voter_asf_uid bs \<and>
    ts_binding_yes s = int (length (filter (\<lambda>x. tb_is_binding x \<and> tb_choice x = CH_YES) ds)) \<and>
    ts_binding_no s = int (length (filter (\<lambda>x. tb_is_binding x \<and> tb_choice x = CH_NO) ds)) \<and>
    ts_binding_abstain s = int (length (filter (\<lambda>x. tb_is_binding x \<and> tb_choice x = CH_ABSTAIN) ds))"
proof -
  obtain c where ds: "ds = map (\<lambda>b. ballot_detail (trusted_vote_round d r) b
                 (binding_in (db_committees d) c (trusted_vote_round d r) (b_voter_asf_uid b))) bs"
    and s: "s = fold (\<lambda>b s. trusted_summary_add s (b_choice b)
                 (binding_in (db_committees d) c (trusted_vote_round d r) (b_voter_asf_uid b))) bs
               trusted_summary_zero"
    using assms by (rule details_summary)
  have zero: "ts_binding_yes trusted_summary_zero = 0" "ts_binding_no trusted_summary_zero = 0"
    "ts_binding_abstain trusted_summary_zero = 0" "ts_binding_votes trusted_summary_zero = 0"
    "ts_non_binding_votes trusted_summary_zero = 0"
    by (simp_all add: trusted_summary_zero_def ts_binding_votes_def ts_non_binding_votes_def)
  show ?thesis
    unfolding s trusted_fold_counts zero
    by (simp add: ds choice_count_def ballot_detail_def filter_map o_def)
qed

section \<open>A podling's two rounds\<close>

definition example_pod :: committee where
  "example_pod = \<lparr> c_key = ''pod'', c_name = None, c_is_podling = True, c_is_archived = False,
     c_committee_members = [''ann'', ''bob''], c_committers = [], c_release_managers = [] \<rparr>"

definition example_incubator :: committee where
  "example_incubator = \<lparr> c_key = ''incubator'', c_name = None, c_is_podling = False,
     c_is_archived = False, c_committee_members = [''ann'', ''ivy''], c_committers = [],
     c_release_managers = [] \<rparr>"

definition pod_project :: project where
  "pod_project = \<lparr> p_key = ''pod'', p_name = None, p_status = PS_ACTIVE,
     p_committee_key = Some ''pod'', p_release_policy = None \<rparr>"

definition pod_release :: release where
  "pod_release = \<lparr> r_key = ''pod-1'', r_phase = RELEASE_CANDIDATE, r_created = 0, r_released = None,
     r_archived = None, r_is_archived = False, r_archive_source = None, r_activity_at = 0,
     r_inactivity_notice_key = None, r_archive_prior_release = False, r_expedited = False,
     r_check_cache_key = None, r_download_path_suffix = None, r_commit_hash = None,
     r_project_key = ''pod'', r_cycle_key = ''pod-default'', r_version = ''1'',
     r_vote_mode = Some TRUSTED, r_voted_revision_number = Some ''00002'',
     r_current_vote_seq = Some 3, r_vote_started = Some 0, r_vote_resolved = None,
     r_podling_thread_id = Some ''t'', r_vote_thread_url = None \<rparr>"

definition pod_ballot :: "nat \<Rightarrow> nat \<Rightarrow> nat \<Rightarrow> string \<Rightarrow> VoteChoice \<Rightarrow> string \<Rightarrow> ballot" where
  "pod_ballot i s rnd uid ch revision =
     \<lparr> b_id = i, b_release_key = ''pod-1'', b_vote_seq = s, b_vote_round = Some rnd,
       b_voter_asf_uid = uid, b_voter_fullname = uid, b_choice = ch, b_comment = [],
       b_is_binding_at_cast = True, b_revision_number_at_cast = revision,
       b_receipt_message_id = str_nat i, b_created = 0 \<rparr>"

definition pod_db :: "ballot list \<Rightarrow> db" where
  "pod_db bs = \<lparr> db_committees = [example_pod, example_incubator], db_projects = [pod_project],
     db_cycles = [], db_releases = [pod_release], db_revisions = [], db_ballots = bs, db_tasks = [],
     db_events = [], db_quarantined = [], db_artifacts = [], db_revision_counter = (\<lambda>_. None),
     db_vote_counter = (\<lambda>_. None) \<rparr>"

text \<open>Round one is vote 2: Ann votes twice, Bob once.  Round two is vote 3: Ivy votes.\<close>

definition pod_ballots :: "ballot list" where
  "pod_ballots = [pod_ballot 1 2 1 ''ann'' CH_NO ''00002'', pod_ballot 2 2 1 ''bob'' CH_YES ''00002'',
     pod_ballot 3 2 1 ''ann'' CH_YES ''00002'', pod_ballot 4 3 2 ''ivy'' CH_YES ''00002'']"

lemma pod_ballots_ok: "ballots_keyed (db_ballots (pod_db pod_ballots)) \<and> one_round_per_vote (pod_db pod_ballots)"
  by code_simp

lemma pod_effective:
  "effective_trusted_ballots (pod_db pod_ballots) pod_release 3 =
     Inr [pod_ballot 4 3 2 ''ivy'' CH_YES ''00002'', pod_ballot 3 2 1 ''ann'' CH_YES ''00002'']"
  by code_simp


theorem carried_only_from_round_one_witness:
  "trusted_vote_round (pod_db pod_ballots) pod_release = Some 2 \<and>
     b_vote_round (pod_ballot 3 2 1 ''ann'' CH_YES ''00002'') = Some 1"
  using carried_only_from_round_one [of "pod_db pod_ballots" pod_release 3 _
      "pod_ballot 3 2 1 ''ann'' CH_YES ''00002''"] pod_ballots_ok pod_effective
  by (simp add: pod_ballot_def)

lemma pod_tally:
  "(case trusted_ballot_details_from_ballots (pod_db pod_ballots) pod_release
       [pod_ballot 4 3 2 ''ivy'' CH_YES ''00002'', pod_ballot 3 2 1 ''ann'' CH_YES ''00002''] None of
      Inl _ \<Rightarrow> False | Inr (ds, s) \<Rightarrow> ts_binding_yes s = 2)"
  by code_simp

theorem tally_counts_every_ballot_witness:
  "\<exists>ds s. trusted_ballot_details_from_ballots (pod_db pod_ballots) pod_release
       [pod_ballot 4 3 2 ''ivy'' CH_YES ''00002'', pod_ballot 3 2 1 ''ann'' CH_YES ''00002''] None
       = Inr (ds, s) \<and> ts_binding_votes s + ts_non_binding_votes s = 2 \<and> ts_binding_yes s = 2"
proof -
  obtain ds s where ds: "trusted_ballot_details_from_ballots (pod_db pod_ballots) pod_release
       [pod_ballot 4 3 2 ''ivy'' CH_YES ''00002'', pod_ballot 3 2 1 ''ann'' CH_YES ''00002''] None
       = Inr (ds, s)" "ts_binding_yes s = 2"
    using pod_tally by (auto split: sum.splits)
  show ?thesis using tally_counts_every_ballot [OF ds(1)] ds by simp
qed

text \<open>
  The first round whose ballots are carried is the latest with a ballot on record, not the latest
  first round.  Vote 1 was a failed first round on revision 00001; vote 2, a first round on
  revision 00002, was passed by a bypass without ballots; in vote 3, its second round, the ballot
  that Ann cast on revision 00001 in vote 1 counts.
\<close>

lemma stale_round_one_is_carried:
  "effective_trusted_ballots (pod_db [pod_ballot 1 1 1 ''ann'' CH_YES ''00001'']) pod_release 3 =
     Inr [pod_ballot 1 1 1 ''ann'' CH_YES ''00001'']"
  by code_simp

end
