(* ===== verification/VoteOps.thy ===== *)
theory VoteOps
  imports ReleaseOps Ballots
begin

text \<open>
  src/atr/storage/writers/vote.py: casting a trusted ballot, starting a vote, and resolving one,
  by the trusted ballots or by the email thread, with the second round of a podling, the early
  completion of a vote and the security team's override.

  What leaves the database is an argument: the archive lookup of a message, the download of a
  thread, the texts of the emails and the lists of permitted recipients.
\<close>

section \<open>Email text\<close>

definition vote_potency_label :: "db \<Rightarrow> release \<Rightarrow> string \<Rightarrow> bool \<Rightarrow> string option py" where
  "vote_potency_label d r uid is_binding =
     (case release_committee d r of
        Some c \<Rightarrow>
          if c_is_podling c \<and> r_podling_thread_id r = None
          then bindE (is_binding_for_release (db_committees d) c uid (Some 2)) (\<lambda>(ipmc, _).
                 Inr (Some (binding_label_inline (round_one_binding_label is_binding ipmc))))
          else Inr (if is_binding then Some ''binding'' else None)
      | None \<Rightarrow> Inr (if is_binding then Some ''binding'' else None))"

definition format_vote_email_body ::
  "string \<Rightarrow> string \<Rightarrow> string \<Rightarrow> bool \<Rightarrow> string \<Rightarrow> string option \<Rightarrow> string" where
  "format_vote_email_body vote uid fullname is_binding comment potency_label =
     join [CHR 0x0A, CHR 0x0A]
       ((case potency_label of
           Some l \<Rightarrow> vote @ '' ('' @ l @ '') ('' @ uid @ '') '' @ fullname
         | None \<Rightarrow> if is_binding then vote @ '' (binding) ('' @ uid @ '') '' @ fullname
                   else vote @ '' ('' @ uid @ '') '' @ fullname) #
        (if comment = [] then []
         else [comment, ''-- '' @ [CHR 0x0A] @ fullname @ '' ('' @ uid @ '')'']))"

fun extend_unique :: "string list \<Rightarrow> string list \<Rightarrow> string list \<Rightarrow> string list \<times> string list" where
  "extend_unique addresses [] seen = (addresses, seen)"
| "extend_unique addresses (a # additions) seen =
     (if lower a \<in> set seen then extend_unique addresses additions seen
      else extend_unique (addresses @ [a]) additions (lower a # seen))"

section \<open>Casting a trusted ballot\<close>

text \<open>
  The early returns give an empty list of addressees and a message, with the transaction rolled
  back; \<open>receipt\<close> is the message id that \<open>mail.message_id_create\<close> makes.
\<close>

definition cast_trusted ::
  "request \<Rightarrow> string \<Rightarrow> db \<Rightarrow> string \<Rightarrow> string \<Rightarrow> VoteChoice \<Rightarrow> string \<Rightarrow> string \<Rightarrow> nat option
    \<Rightarrow> VoteMode option \<Rightarrow> ((string list \<times> string) \<times> db) py" where
  "cast_trusted rq receipt d pk v choice comment fullname expected_vote_seq expected_vote_mode =
     (case release_get_phase d pk v RELEASE_CANDIDATE of
        None \<Rightarrow> Inr (([], ''Vote is no longer open.''), d)
      | Some r \<Rightarrow>
     bindE (demand_project d r) (\<lambda>p.
     bindE (ensure_release_writable rq p r) (\<lambda>_.
       if expected_vote_mode \<noteq> None \<and> expected_vote_mode \<noteq> Some TRUSTED
       then Inr (([], ''The vote form is stale, please refresh and try again.''), d)
       else
     bindE (effective_vote_mode p r) (\<lambda>mode.
       if mode \<noteq> TRUSTED then Inr (([], ''This release is not accepting trusted votes.''), d)
       else (case r_current_vote_seq r of
         None \<Rightarrow> Inr (([], ''Vote serial is missing, please refresh and try again.''), d)
       | Some seq \<Rightarrow>
       if expected_vote_seq \<noteq> None \<and> expected_vote_seq \<noteq> Some seq
       then Inr (([], ''The vote form is stale, please refresh and try again.''), d)
       else (case release_committee d r of
         None \<Rightarrow> Inr (([], ''The committee for this release was not found.''), d)
       | Some c \<Rightarrow>
       (case latest_revision_number d (r_key r) of
         None \<Rightarrow> Inr (([], ''No revision found for this release.''), d)
       | Some number \<Rightarrow>
       (let vote_round = (if c_is_podling c
                          then Some (if r_podling_thread_id r \<noteq> None then 2 else 1) else None) in
     bindE (is_binding_for_release (db_committees d) c (rq_asf_uid rq) vote_round) (\<lambda>(is_binding, _).
     bindE (vote_potency_label d r (rq_asf_uid rq) is_binding) (\<lambda>potency.
       (case release_current_vote_task d r of
         None \<Rightarrow> Inr (([], ''No vote task found.''), d)
       | Some start_task \<Rightarrow>
       (case t_result start_task of
         None \<Rightarrow> Inr (([], ''Vote task has not completed yet.''), d)
       | Some (RS_VOTE_INITIATE vi) \<Rightarrow>
       (case vi_mid vi of
         None \<Rightarrow> Inr (([], ''No vote thread found.''), d)
       | Some start_mid \<Rightarrow>
       (case t_task_args start_task of
         A_INITIATE ia \<Rightarrow>
           (let send = \<lparr> sa_email_sender = rq_asf_uid rq @ ''@apache.org'',
                         sa_email_to = ia_email_to ia, sa_subject = ''Re: '' @ vi_subject vi,
                         sa_body = format_vote_email_body (vote_choice_value choice) (rq_asf_uid rq)
                                     fullname is_binding comment potency,
                         sa_in_reply_to = Some start_mid, sa_email_cc = ia_email_cc ia,
                         sa_email_bcc = ia_email_bcc ia, sa_message_id = Some receipt \<rparr>;
                d1 = queue_task d (new_task rq MESSAGE_SEND (A_SEND send) (rq_asf_uid rq)
                       (Some (p_key p)) (Some (r_version r)) None);
                b = \<lparr> b_id = 0, b_release_key = r_key r, b_vote_seq = seq, b_vote_round = vote_round,
                      b_voter_asf_uid = rq_asf_uid rq, b_voter_fullname = fullname, b_choice = choice,
                      b_comment = comment, b_is_binding_at_cast = is_binding,
                      b_revision_number_at_cast = number, b_receipt_message_id = receipt,
                      b_created = rq_now rq \<rparr>
            in Inr (([ia_email_to ia], []), add_ballot d1 b))
       | _ \<Rightarrow> Inl KeyError))
       | Some _ \<Rightarrow> Inr (([], ''Vote task result is not a VoteInitiate result.''), d)))))))))))))"

section \<open>Starting a vote\<close>

record start_form =
  sf_email_to :: string
  sf_vote_duration :: int
  sf_subject :: string
  sf_body :: string
  sf_fullname :: string
  sf_permitted_recipients :: "string list option"
  sf_email_cc :: "string list"
  sf_email_bcc :: "string list"
  sf_second_round_email_to :: "string option"
  sf_notify_when_finished :: bool
  sf_automatic_resolve_when_finished :: bool
  sf_automatic_publish_when_resolved :: bool
  sf_automatic_publish_asf_uid :: "string option"
  sf_download_path_suffix :: "string option"

text \<open>
  The addresses that \<open>util.permitted_podling_first_round_recipients\<close> and its second round
  counterpart allow.
\<close>

record recipients =
  rc_first_round :: "string list"
  rc_second_round :: "string list"

text \<open>An expedited vote goes to the committee's private list only and is never automatic.\<close>

definition expedite_form :: "committee \<Rightarrow> start_form \<Rightarrow> start_form" where
  "expedite_form c f =
     (let to = ''private@'' @ c_key c @ ''.apache.org'' in
      f \<lparr> sf_email_to := to, sf_email_cc := [], sf_email_bcc := [], sf_second_round_email_to := None,
          sf_vote_duration := 0, sf_permitted_recipients := Some [to],
          sf_notify_when_finished := False, sf_automatic_resolve_when_finished := False,
          sf_download_path_suffix := None \<rparr>)"

definition initiate_args_of :: "string \<Rightarrow> string \<Rightarrow> nat \<Rightarrow> start_form \<Rightarrow> initiate_args" where
  "initiate_args_of uid rk vote_seq f =
     \<lparr> ia_release_key = rk, ia_email_to = sf_email_to f, ia_vote_duration = sf_vote_duration f,
       ia_initiator_id = uid, ia_initiator_fullname = sf_fullname f, ia_subject = sf_subject f,
       ia_body = sf_body f, ia_vote_seq = Some vote_seq, ia_email_cc = sf_email_cc f,
       ia_email_bcc = sf_email_bcc f, ia_second_round_email_to = sf_second_round_email_to f,
       ia_notify_when_finished = sf_notify_when_finished f,
       ia_automatic_resolve_when_finished = sf_automatic_resolve_when_finished f,
       ia_automatic_publish_when_resolved = sf_automatic_publish_when_resolved f,
       ia_automatic_publish_asf_uid = sf_automatic_publish_asf_uid f,
       ia_download_path_suffix = sf_download_path_suffix f \<rparr>"

text \<open>
  The part of \<open>vote.start\<close> after the release is under the vote: the committee, the options that the
  mode and the round allow, the recipients, and the task that sends the call for votes.
\<close>

definition start_vote_task ::
  "request \<Rightarrow> recipients \<Rightarrow> db \<Rightarrow> string \<Rightarrow> string \<Rightarrow> start_form \<Rightarrow> release \<Rightarrow> nat \<Rightarrow> VoteMode \<Rightarrow> (task \<times> db) py" where
  "start_vote_task rq rc d1 pk v form r vote_seq vote_mode =
     bindE (demandE (access 500 ''Release has no committee'') (release_committee d1 r)) (\<lambda>c.
       (let f = (if r_expedited r then expedite_form c form else form) in
     bindE (guardE (sf_notify_when_finished f \<longrightarrow> vote_mode = TRUSTED)
              (access 403 ''Vote end reminders are only available in Trusted Vote mode'')) (\<lambda>_.
     bindE (guardE (sf_automatic_resolve_when_finished f \<longrightarrow> vote_mode = TRUSTED)
              (access 403 ''Automatic vote resolution is only available in Trusted Vote mode'')) (\<lambda>_.
     bindE (guardE (\<not> (sf_automatic_resolve_when_finished f \<and> c_is_podling c \<and> r_podling_thread_id r = None))
              (access 403 ''Automatic vote resolution is not available for the first round of podling votes'')) (\<lambda>_.
     bindE (guardE (\<not> (sf_automatic_publish_when_resolved f \<and> r_expedited r))
              (access 403 ''Automatic SVN publish is not available for expedited releases'')) (\<lambda>_.
     bindE (guardE (sf_automatic_publish_when_resolved f \<longrightarrow> is_member_of rq (c_key c))
              (access 403 ''Automatic SVN publish requires a committee member initiator'')) (\<lambda>_.
       (let f = (if sf_automatic_publish_when_resolved f \<and> sf_automatic_publish_asf_uid f = None
                 then f \<lparr> sf_automatic_publish_asf_uid := Some (rq_asf_uid rq) \<rparr> else f);
            d2 = (if sf_automatic_publish_when_resolved f
                  then update_release d1 (\<lambda>x. r_key x = r_key r)
                         (\<lambda>x. x \<lparr> r_download_path_suffix :=
                                Some (case sf_download_path_suffix f of Some s \<Rightarrow> s | None \<Rightarrow> []) \<rparr>)
                  else d1);
            permitted = (case sf_permitted_recipients f of Some l \<Rightarrow> l | None \<Rightarrow> rc_first_round rc)
        in
     bindE (guardE (set ([sf_email_to f] @ sf_email_cc f @ sf_email_bcc f) \<subseteq> set permitted)
              (access 403 ''Invalid mailing list choice'')) (\<lambda>_.
     bindE (guardE (case sf_second_round_email_to f of
                      None \<Rightarrow> True | Some a \<Rightarrow> a \<in> set (rc_second_round rc))
              (access 403 ''Second round mailing list choice is not permitted'')) (\<lambda>_.
       Inr (add_task d2 (new_task rq VOTE_INITIATE
              (A_INITIATE (initiate_args_of (rq_asf_uid rq) (r_key r) vote_seq f))
              (rq_asf_uid rq) (Some pk) (Some v) None))))))))))))"

text \<open>\<open>vote.start\<close> in one transaction; \<open>promote\<close> is false when a second round starts.\<close>

definition start_vote ::
  "request \<Rightarrow> vote_gate \<Rightarrow> recipients \<Rightarrow> db \<Rightarrow> string \<Rightarrow> string \<Rightarrow> start_form \<Rightarrow> bool
    \<Rightarrow> VoteMode option \<Rightarrow> string option \<Rightarrow> string list \<Rightarrow> (task \<times> db) py" where
  "start_vote rq gate rc d pk v form promote expected_vote_mode expected_revision acknowledged =
     bindE (demandE (access 404 ''Release not found'') (release_get d pk v)) (\<lambda>r0.
     bindE (demand_project d r0) (\<lambda>p.
     bindE (ensure_project_active p) (\<lambda>_.
     bindE (guardE (\<not> (r_expedited r0 \<and> (case release_committee d r0 of
                                               Some c \<Rightarrow> c_is_podling c | None \<Rightarrow> False)))
              (access 400 ''Expedited releases are not available for podling projects'')) (\<lambda>_.
     bindE (if promote
            then start_vote_no_commit rq gate d (r_key r0) expected_revision expected_vote_mode True
                   None acknowledged
            else start_vote_no_commit rq gate d (r_key r0) expected_revision None False
                   (r_podling_thread_id r0) []) (\<lambda>((r, vote_seq, vote_mode, number), d1).
       start_vote_task rq rc d1 pk v form r vote_seq vote_mode)))))"

section \<open>Resolving a vote\<close>

datatype vote_result = VR_PASSED | VR_FAILED | VR_CANCELLED

text \<open>
  The world around a resolution: the gate and the recipients of a second round, its template and
  texts, the archive lookup, the tabulation's environment and thread download, the recipients the
  resolver may add, the publish URL check, the effective suffix of the release, and the message that
  opened the first round.
\<close>

record resolve_env =
  re_gate :: vote_gate
  re_recipients :: recipients
  re_second_round_body :: "string option"
  re_second_round_subject :: string
  re_second_round_text :: string
  re_archive_url :: "string option \<Rightarrow> string option \<Rightarrow> string option"
  re_tab_env :: tab_env
  re_fetch :: "string \<Rightarrow> message list py"
  re_permitted_additions :: "string list"
  re_url_ok :: bool
  re_effective_suffix :: "string option py"
  re_round_one_mail :: "string \<Rightarrow> (string \<times> string) py"

record resolve_form =
  rf_result :: vote_result
  rf_fullname :: string
  rf_body :: string
  rf_expected_vote_seq :: "nat option"
  rf_expected_vote_mode :: "VoteMode option"
  rf_automatic_resolve_when_finished :: bool
  rf_notify_when_finished :: bool
  rf_additional_cc :: "string list"
  rf_additional_bcc :: "string list"
  rf_early_reason :: string

definition resolved_vote_thread_url :: "resolve_env \<Rightarrow> task option \<Rightarrow> string option" where
  "resolved_vote_thread_url env t =
     (case t of None \<Rightarrow> None
              | Some t' \<Rightarrow> re_archive_url env (task_mid_get t') (task_recipient_get t'))"

definition thread_id_of_url :: "string \<Rightarrow> string" where
  "thread_id_of_url url = last (split_on (CHR ''/'') url)"

definition cancel_followup :: "int \<Rightarrow> TaskType \<Rightarrow> string \<Rightarrow> string \<Rightarrow> string \<Rightarrow> task list \<Rightarrow> task list" where
  "cancel_followup now ty pk v why =
     upd (\<lambda>t. t_task_type t = ty \<and> t_status t = QUEUED \<and> task_of_release pk v t)
       (\<lambda>t. t \<lparr> t_status := FAILED, t_completed := Some now, t_error := Some why \<rparr>)"

definition cancel_pending_vote_followups :: "int \<Rightarrow> db \<Rightarrow> release \<Rightarrow> db" where
  "cancel_pending_vote_followups now d r =
     d \<lparr> db_tasks :=
        cancel_followup now VOTE_AUTO_RESOLVE (r_project_key r) (r_version r)
          ''Vote resolved before auto-resolution fired''
          (cancel_followup now VOTE_END_NOTIFY (r_project_key r) (r_version r)
             ''Vote resolved before reminder fired'' (db_tasks d)) \<rparr>"

definition transition_where :: "release \<Rightarrow> ReleasePhase \<Rightarrow> string option \<Rightarrow> release \<Rightarrow> bool" where
  "transition_where r expected_phase expected_podling x =
     (r_key x = r_key r \<and> r_phase x = expected_phase \<and>
      r_current_vote_seq x = r_current_vote_seq r \<and> r_podling_thread_id x = expected_podling)"

definition transition_values ::
  "int \<Rightarrow> ReleasePhase \<Rightarrow> VoteMode option \<Rightarrow> int option \<Rightarrow> string option \<Rightarrow> string option \<Rightarrow> release \<Rightarrow> release" where
  "transition_values now ph mode resolved podling url x =
     (let x1 = (bump_columns now x) \<lparr> r_phase := ph, r_vote_mode := mode, r_vote_resolved := resolved,
                 r_podling_thread_id := podling, r_vote_thread_url := url \<rparr>
      in if ph = RELEASE_CANDIDATE_DRAFT then x1 \<lparr> r_voted_revision_number := None \<rparr> else x1)"

definition resolve_transition ::
  "request \<Rightarrow> db \<Rightarrow> release \<Rightarrow> ReleasePhase \<Rightarrow> string option \<Rightarrow> ReleasePhase \<Rightarrow> VoteMode option
    \<Rightarrow> int option \<Rightarrow> string option \<Rightarrow> string option \<Rightarrow> db py" where
  "resolve_transition rq d r expected_phase expected_podling ph mode resolved podling url =
     (let W = transition_where r expected_phase expected_podling in
      if rowcount W (db_releases d) \<noteq> 1
      then Inl (access 409 ''The release state has changed, please refresh and try again'')
      else Inr (cancel_pending_vote_followups (rq_now rq)
                  (update_release d W (transition_values (rq_now rq) ph mode resolved podling url)) r))"

definition EARLY_VOTE_REASON_MAX_LENGTH :: nat where
  "EARLY_VOTE_REASON_MAX_LENGTH = 1000"

definition early_completion_reason ::
  "request \<Rightarrow> committee list \<Rightarrow> committee \<Rightarrow> nat option \<Rightarrow> vote_result \<Rightarrow> int option \<Rightarrow> string \<Rightarrow> string py" where
  "early_completion_reason rq cs c voting_round result vote_end early_reason =
     (let reason = strip early_reason in
      if result \<noteq> VR_PASSED \<or> vote_end = None
      then Inl (access 409 ''The vote cannot be resolved before the voting period has ended unless it is cancelled.'')
      else if reason = []
      then Inl (access 409 ''A reason is required to complete a vote before the voting period has ended'')
      else if length reason > EARLY_VOTE_REASON_MAX_LENGTH
      then Inl (access 400 ''The early completion reason must be at most 1000 characters'')
      else bindE (is_binding_for_release cs c (rq_asf_uid rq) voting_round) (\<lambda>(is_binding, _).
           bindE (guardE is_binding (access 403 ''Only binding voters can complete this vote early'')) (\<lambda>_.
             Inr reason)))"

text \<open>
  The second round of a podling starts in the transaction that records the pass of the first: the
  release keeps its phase, gets the thread of the first round, and \<open>start\<close> allocates a new vote.
\<close>

definition second_round_address :: "task \<Rightarrow> string" where
  "second_round_address t =
     (case t_task_args t of
        A_INITIATE ia \<Rightarrow>
          (case ia_second_round_email_to ia of
             Some a \<Rightarrow> if a \<noteq> [] then a else ''general@incubator.apache.org''
           | None \<Rightarrow> ''general@incubator.apache.org'')
      | _ \<Rightarrow> ''general@incubator.apache.org'')"

definition round_one_message :: "task \<Rightarrow> string" where
  "round_one_message t =
     ''First round vote marked as passed, and second round vote automatically started (sent to '' @
     second_round_address t @ '')''"

definition second_round_form ::
  "request \<Rightarrow> resolve_env \<Rightarrow> bool \<Rightarrow> resolve_form \<Rightarrow> task \<Rightarrow> initiate_args \<Rightarrow> start_form" where
  "second_round_form rq env security f t ia =
     (let to = second_round_address t
      in \<lparr> sf_email_to = to, sf_vote_duration = ia_vote_duration ia,
           sf_subject = re_second_round_subject env, sf_body = re_second_round_text env,
           sf_fullname = rf_fullname f, sf_permitted_recipients = Some [to], sf_email_cc = [],
           sf_email_bcc = [], sf_second_round_email_to = None,
           sf_notify_when_finished = rf_notify_when_finished f,
           sf_automatic_resolve_when_finished = rf_automatic_resolve_when_finished f,
           sf_automatic_publish_when_resolved =
             (\<not> security \<and> ia_automatic_publish_when_resolved ia),
           sf_automatic_publish_asf_uid =
             (case ia_automatic_publish_asf_uid ia of
                Some u \<Rightarrow> Some u | None \<Rightarrow> Some (ia_initiator_id ia)),
           sf_download_path_suffix = ia_download_path_suffix ia \<rparr>)"

definition pass_round_one ::
  "request \<Rightarrow> resolve_env \<Rightarrow> bool \<Rightarrow> resolve_form \<Rightarrow> db \<Rightarrow> project \<Rightarrow> release \<Rightarrow> task \<Rightarrow> string \<Rightarrow> (task \<times> db) py" where
  "pass_round_one rq env security f d p r vote_task thread_id =
     bindE (effective_vote_mode p r) (\<lambda>mode.
     bindE (resolve_transition rq d r RELEASE_CANDIDATE None RELEASE_CANDIDATE (Some mode) None
              (Some thread_id) None) (\<lambda>d1.
     bindE (demandE (access 500 ''Release has no revision number - Invalid state'')
              (latest_revision_number d1 (r_key r))) (\<lambda>number.
     bindE (demandE (access 500 ''Second round vote template was not resolved'')
              (re_second_round_body env)) (\<lambda>_.
       (case t_task_args vote_task of
          A_INITIATE ia \<Rightarrow>
            start_vote rq (re_gate env) (re_recipients env) d1 (r_project_key r) (r_version r)
              (second_round_form rq env security f vote_task ia) False None (Some number) []
        | _ \<Rightarrow> Inl KeyError)))))"

text \<open>
  What a resolution leaves for the messages that follow it: the round, the success message, the
  reason of an early completion, the vote task, and the sequence number of a second round.
\<close>

record resolution =
  rs_round :: "nat option"
  rs_message :: string
  rs_early :: "string option"
  rs_task :: "task option"
  rs_second_seq :: "nat option"

text \<open>The transition of a decided vote: to a preview when it passed, back to a draft otherwise.\<close>

definition decide_transition ::
  "request \<Rightarrow> resolve_env \<Rightarrow> db \<Rightarrow> project \<Rightarrow> release \<Rightarrow> vote_result \<Rightarrow> task option \<Rightarrow> db py" where
  "decide_transition rq env d p r result vote_task =
     (if result = VR_PASSED then
        bindE (effective_vote_mode p r) (\<lambda>mode.
          resolve_transition rq d r RELEASE_CANDIDATE (r_podling_thread_id r) RELEASE_PREVIEW
            (Some mode) (Some (rq_now rq)) (r_podling_thread_id r)
            (resolved_vote_thread_url env vote_task))
      else
        resolve_transition rq d r RELEASE_CANDIDATE (r_podling_thread_id r) RELEASE_CANDIDATE_DRAFT
          None None None None)"

fun result_message :: "vote_result \<Rightarrow> string" where
  "result_message VR_PASSED = ''Vote marked as passed''"
| "result_message VR_FAILED = ''Vote marked as failed''"
| "result_message VR_CANCELLED = ''Vote marked as cancelled''"

text \<open>\<open>_resolve_trusted\<close> up to its commit.\<close>

definition resolve_trusted ::
  "request \<Rightarrow> resolve_env \<Rightarrow> bool \<Rightarrow> resolve_form \<Rightarrow> db \<Rightarrow> string \<Rightarrow> string \<Rightarrow> string option
    \<Rightarrow> (resolution \<times> db) py" where
  "resolve_trusted rq env security f d pk v round_one_thread_id =
     bindE (demandE (access 404 ''Release not found'') (release_get_phase d pk v RELEASE_CANDIDATE)) (\<lambda>r.
     bindE (demand_project d r) (\<lambda>p.
     bindE (guardE (rf_expected_vote_mode f = None \<or> rf_expected_vote_mode f = Some TRUSTED)
              (access 409 ''The resolve form is stale, please refresh and try again'')) (\<lambda>_.
     bindE (effective_vote_mode p r) (\<lambda>mode.
     bindE (guardE (mode = TRUSTED) (access 409 ''Release is not configured for trusted voting'')) (\<lambda>_.
     bindE (demandE (access 409 ''Vote serial is missing, please refresh and try again'')
              (r_current_vote_seq r)) (\<lambda>vote_seq.
     bindE (guardE (rf_expected_vote_seq f = None \<or> rf_expected_vote_seq f = Some vote_seq)
              (access 409 ''The resolve form is stale, please refresh and try again'')) (\<lambda>_.
     bindE (demandE (access 500 ''Project has no committee - Invalid state'') (release_committee d r)) (\<lambda>c.
       (let voting_round = trusted_vote_round d r;
            vote_task = release_current_vote_task d r;
            vote_end = vote_end_get vote_task;
            bypass = (security \<or> vote_resolution_bypass rq p (Some (rq_asf_uid rq)))
        in
     bindE (if rf_result f \<noteq> VR_CANCELLED \<and> vote_end \<noteq> None \<and> \<not> vote_pass_fail_allowed rq vote_task
               \<and> \<not> bypass
            then bindE (early_completion_reason rq (db_committees d) c voting_round (rf_result f) vote_end
                          (rf_early_reason f)) (\<lambda>x. Inr (Some x))
            else Inr None) (\<lambda>early.
     bindE (effective_trusted_ballots d r vote_seq) (\<lambda>bs.
     bindE (trusted_ballot_summary d r bs) (\<lambda>s.
     bindE (guardE (rf_result f = VR_PASSED \<longrightarrow>
                      binding_vote_passes (ts_binding_yes s) (ts_binding_no s) \<or> bypass)
              (access 409 ''The trusted ballot record does not have enough +1 votes to pass.'')) (\<lambda>_.
       if voting_round = Some 1 \<and> rf_result f = VR_PASSED then
         bindE (demandE (access 404 ''No vote task found, unable to start the Incubator vote.'') vote_task) (\<lambda>t.
         bindE (demandE (access 404 ''No archive URL found for podling vote'') round_one_thread_id) (\<lambda>th.
         bindE (pass_round_one rq env security f d p r t th) (\<lambda>(t2, d1).
           Inr (\<lparr> rs_round = voting_round, rs_message = round_one_message t,
                  rs_early = early, rs_task = vote_task, rs_second_seq = task_vote_seq t2 \<rparr>, d1))))
       else
         bindE (decide_transition rq env d p r (rf_result f) vote_task) (\<lambda>d1.
           Inr (\<lparr> rs_round = voting_round, rs_message = result_message (rf_result f),
                  rs_early = early, rs_task = vote_task, rs_second_seq = None \<rparr>, d1)))))))))))))))"

text \<open>\<open>__email_vote_passes\<close>: the fetch and tabulation errors count as not passing.\<close>

definition email_vote_passes ::
  "request \<Rightarrow> resolve_env \<Rightarrow> db \<Rightarrow> project \<Rightarrow> release \<Rightarrow> task \<Rightarrow> bool" where
  "email_vote_passes rq env d p r vote_task =
     (case resolved_vote_thread_url env (Some vote_task) of
        None \<Rightarrow> False
      | Some url \<Rightarrow>
          (let thread_id = thread_id_of_url url in
           case vote_committee (re_tab_env env) (re_fetch env) thread_id (project_committee d p)
                  (r_podling_thread_id r) of
             Inl _ \<Rightarrow> False
           | Inr c \<Rightarrow>
               (case vote_details (re_tab_env env) (re_fetch env) (rq_now rq) c thread_id p [] of
                  Inl _ \<Rightarrow> False
                | Inr details \<Rightarrow> vd_passed details)))"

text \<open>\<open>__resolve_release\<close> up to its commit: the decision of an email vote.\<close>

definition resolve_release ::
  "request \<Rightarrow> resolve_env \<Rightarrow> bool \<Rightarrow> resolve_form \<Rightarrow> db \<Rightarrow> project \<Rightarrow> release \<Rightarrow> nat option \<Rightarrow> task
    \<Rightarrow> string option \<Rightarrow> (resolution \<times> db) py" where
  "resolve_release rq env security f d p r voting_round vote_task early =
     bindE (ensure_project_active p) (\<lambda>_.
       if voting_round = Some 1 \<and> rf_result f = VR_PASSED then
         bindE (demandE (access 404 ''No archive URL found for podling vote'')
                  (resolved_vote_thread_url env (Some vote_task))) (\<lambda>url.
         bindE (pass_round_one rq env security f d p r vote_task (thread_id_of_url url)) (\<lambda>(t2, d1).
           Inr (\<lparr> rs_round = voting_round, rs_message = round_one_message vote_task,
                  rs_early = early, rs_task = Some vote_task, rs_second_seq = task_vote_seq t2 \<rparr>, d1)))
       else
         bindE (decide_transition rq env d p r (rf_result f) (Some vote_task)) (\<lambda>d1.
           Inr (\<lparr> rs_round = voting_round, rs_message = result_message (rf_result f),
                  rs_early = early, rs_task = Some vote_task, rs_second_seq = None \<rparr>, d1)))"

definition resolve_email ::
  "request \<Rightarrow> resolve_env \<Rightarrow> bool \<Rightarrow> resolve_form \<Rightarrow> db \<Rightarrow> project \<Rightarrow> release \<Rightarrow> (resolution \<times> db) py" where
  "resolve_email rq env security f d p r =
     bindE (guardE (\<not> (rf_expected_vote_seq f \<noteq> None \<and> r_current_vote_seq r \<noteq> None
                        \<and> r_current_vote_seq r \<noteq> rf_expected_vote_seq f))
              (access 409 ''The resolve form is stale, please refresh and try again'')) (\<lambda>_.
     bindE (demandE (access 404 ''No vote task found, unable to send resolution message.'')
              (release_current_vote_task d r)) (\<lambda>vote_task.
     bindE (demandE (access 500 ''Project has no committee - Invalid state'') (release_committee d r)) (\<lambda>c.
       (let voting_round = trusted_vote_round d r in
     bindE (if rf_result f \<noteq> VR_CANCELLED \<and> \<not> security \<and> \<not> vote_pass_fail_allowed rq (Some vote_task)
               \<and> \<not> vote_resolution_bypass rq p (Some (rq_asf_uid rq))
            then bindE (early_completion_reason rq (db_committees d) c voting_round (rf_result f)
                          (vote_end_get (Some vote_task)) (rf_early_reason f)) (\<lambda>x.
                 bindE (guardE (email_vote_passes rq env d p r vote_task)
                          (access 409 ''ATR could not confirm that this vote is passing'')) (\<lambda>_.
                   Inr (Some x)))
            else Inr None) (\<lambda>early.
       resolve_release rq env security f d p r voting_round vote_task early)))))"

text \<open>
  \<open>resolve\<close>: the checks that both kinds of vote share, then the resolution of the release's kind.
\<close>

definition resolve_additions :: "release \<Rightarrow> resolve_form \<Rightarrow> resolve_form" where
  "resolve_additions r f =
     (if r_expedited r then f \<lparr> rf_additional_cc := [], rf_additional_bcc := [] \<rparr> else f)"

definition resolve ::
  "request \<Rightarrow> resolve_env \<Rightarrow> bool \<Rightarrow> resolve_form \<Rightarrow> db \<Rightarrow> string \<Rightarrow> string \<Rightarrow> (resolution \<times> db) py" where
  "resolve rq env security f0 d pk v =
     bindE (demandE (access 404 ''Release not found'') (release_get_phase d pk v RELEASE_CANDIDATE)) (\<lambda>r.
     bindE (demand_project d r) (\<lambda>p.
     bindE (ensure_project_active p) (\<lambda>_.
     bindE (if security
            then guardE (case release_current_vote_task d r of
                           None \<Rightarrow> False | Some t \<Rightarrow> task_mid_get t \<noteq> None)
                   (access 409 ''The vote has not been announced, so it cannot be forced'')
            else ensure_release_writable rq p r) (\<lambda>_.
       (let f = (resolve_additions r f0) \<lparr> rf_automatic_resolve_when_finished :=
                   (rf_automatic_resolve_when_finished f0 \<and> \<not> security) \<rparr> in
     bindE (guardE (release_committee d r \<noteq> None \<longrightarrow>
                      set (rf_additional_cc f @ rf_additional_bcc f) \<subseteq> set (re_permitted_additions env))
              (access 400 ''Invalid recipient selection'')) (\<lambda>_.
     bindE (effective_vote_mode p r) (\<lambda>mode.
     bindE (guardE (rf_expected_vote_mode f = None \<or> rf_expected_vote_mode f = Some mode)
              (access 409 ''The resolve form is stale, please refresh and try again'')) (\<lambda>_.
       if mode = TRUSTED
       then resolve_trusted rq env security f d pk v
              (if rf_result f = VR_PASSED \<and> trusted_vote_round d r = Some 1
               then map_option thread_id_of_url
                      (resolved_vote_thread_url env (release_current_vote_task d r))
               else None)
       else resolve_email rq env security f d p r))))))))"

section \<open>After a resolution\<close>

text \<open>
  These run after the commit: the automatic publication, whose failure is only reported, and the
  resolution message.
\<close>

definition enqueue_automatic_svn_publish ::
  "request \<Rightarrow> resolve_env \<Rightarrow> bool \<Rightarrow> db \<Rightarrow> string \<Rightarrow> string \<Rightarrow> string \<Rightarrow> task option \<Rightarrow> string option \<times> db" where
  "enqueue_automatic_svn_publish rq env security d pk v number vote_task =
     (case vote_task of
        None \<Rightarrow> (None, d)
      | Some t \<Rightarrow>
          (case t_task_args t of
             A_INITIATE ia \<Rightarrow>
               if \<not> security \<and> \<not> ia_automatic_publish_when_resolved ia then (None, d)
               else
                 (case bindE (if security then re_effective_suffix env else Inr (ia_download_path_suffix ia))
                         (\<lambda>suffix.
                            publish_to_svn rq security (re_url_ok env) d pk v number suffix
                              (case ia_automatic_publish_asf_uid ia of
                                 Some u \<Rightarrow> Some u | None \<Rightarrow> Some (ia_initiator_id ia))) of
                    Inl _ \<Rightarrow> (Some ''Automatic SVN publish was not queued'', d)
                  | Inr (_, d') \<Rightarrow> (None, d'))
           | _ \<Rightarrow> (None, d)))"

definition queue_send ::
  "request \<Rightarrow> db \<Rightarrow> release \<Rightarrow> string \<Rightarrow> string \<Rightarrow> string \<Rightarrow> string \<Rightarrow> string list \<Rightarrow> string list \<Rightarrow> db" where
  "queue_send rq d r to subject body in_reply_to cc bcc =
     queue_task d (new_task rq MESSAGE_SEND
       (A_SEND \<lparr> sa_email_sender = rq_asf_uid rq @ ''@apache.org'', sa_email_to = to,
                 sa_subject = subject, sa_body = body, sa_in_reply_to = Some in_reply_to,
                 sa_email_cc = cc, sa_email_bcc = bcc, sa_message_id = None \<rparr>)
       (rq_asf_uid rq) (Some (r_project_key r)) (Some (r_version r)) None)"

fun result_value :: "vote_result \<Rightarrow> string" where
  "result_value VR_PASSED = ''passed''"
| "result_value VR_FAILED = ''failed''"
| "result_value VR_CANCELLED = ''cancelled''"

definition send_resolution ::
  "request \<Rightarrow> db \<Rightarrow> project \<Rightarrow> release \<Rightarrow> resolve_form \<Rightarrow> task \<Rightarrow> (string \<times> string) option
    \<Rightarrow> string option \<Rightarrow> (string option \<times> db) py" where
  "send_resolution rq d p r f vote_task extra early =
     bindE (ensure_project_active p) (\<lambda>_.
       (case task_mid_get vote_task of
          None \<Rightarrow> Inr (Some ''No vote thread found, unable to send resolution message.'', d)
        | Some mid \<Rightarrow>
            (case t_task_args vote_task of
               A_INITIATE ia \<Rightarrow>
                 (let nl = [CHR 0x0A];
                      body = (case early of
                                None \<Rightarrow> rf_body f
                              | Some reason \<Rightarrow>
                                  rstrip (rf_body f) @ nl @ nl @
                                  ''This vote was completed before the end of its voting period,'' @
                                  '' for the following reason:'' @ nl @ nl @ reason @ nl);
                      seen = map lower (ia_email_to ia # ia_email_cc ia @ ia_email_bcc ia);
                      (cc, seen1) = extend_unique (ia_email_cc ia) (rf_additional_cc f) seen;
                      (bcc, _) = extend_unique (ia_email_bcc ia) (rf_additional_bcc f) seen1;
                      subject = vote_result_subject (project_display_name p (project_committee d p))
                                  (r_version r) (result_value (rf_result f));
                      d1 = queue_send rq d r (ia_email_to ia) subject body mid cc bcc
                  in Inr (None, (case extra of
                                   None \<Rightarrow> d1
                                 | Some (to, in_reply) \<Rightarrow> queue_send rq d1 r to subject body in_reply [] [])))
             | _ \<Rightarrow> Inl KeyError)))"

definition after_resolution ::
  "request \<Rightarrow> resolve_env \<Rightarrow> bool \<Rightarrow> resolve_form \<Rightarrow> db \<Rightarrow> string \<Rightarrow> string \<Rightarrow> resolution
    \<Rightarrow> string option py \<times> db" where
  "after_resolution rq env security f d pk v rs =
     (case release_get d pk v of
        None \<Rightarrow> (Inl IntegrityError, d)
      | Some r \<Rightarrow>
     (case demand_project d r of
        Inl e \<Rightarrow> (Inl e, d)
      | Inr p \<Rightarrow>
     (let passed = (rf_result f = VR_PASSED \<and> rs_round rs \<noteq> Some 1) in
      case (if passed then unwrap_revision_number d r else Inr []) of
        Inl e \<Rightarrow> (Inl e, d)
      | Inr number \<Rightarrow>
     (case (if passed then enqueue_automatic_svn_publish rq env security d pk v number (rs_task rs)
            else (None, d)) of
        (publish_error, d1) \<Rightarrow>
     (case (if passed \<and> rs_round rs = Some 2
            then (case r_podling_thread_id r of
                    None \<Rightarrow> Inr None
                  | Some th \<Rightarrow> bindE (re_round_one_mail env th) (\<lambda>m. Inr (Some m)))
            else Inr None) of
        Inl e \<Rightarrow> (Inl e, d1)
      | Inr extra \<Rightarrow>
     (case (case rs_task rs of
              None \<Rightarrow> Inr (Some ''No vote task found, unable to send resolution message.'', d1)
            | Some t \<Rightarrow> send_resolution rq d1 p r (resolve_additions r f) t extra (rs_early rs)) of
        Inl e \<Rightarrow> (Inl e, d1)
      | Inr (error, d2) \<Rightarrow>
          (Inr (case (error, publish_error) of
                  (None, e) \<Rightarrow> e
                | (Some e, None) \<Rightarrow> Some e
                | (Some e, Some e') \<Rightarrow> Some (e @ ''; '' @ e')), d2)))))))"

end
