(* ===== verification/RevisionOps.thy ===== *)
theory RevisionOps
  imports Writers
begin

text \<open>
  src/atr/storage/writers/revision.py and the promotion of a quarantined upload in
  src/atr/tasks/quarantine.py, on the database.

  Creating a revision has a first part without a lock, which reads the release and the revision it
  builds on, and a locked part, which reads the release again and commits.  Any other operation may
  come between the two, so they are two definitions; \<open>create_revision\<close> is their composition when
  nothing does.  What the file system and the archives say is the record \<open>upload\<close>.
\<close>

section \<open>The request for a revision\<close>

text \<open>
  \<open>up_files\<close>, \<open>up_merge\<close>, \<open>up_provenance\<close> and \<open>up_install\<close> are the outcomes of the steps on the file
  system, in the order of the code: copying, modifying and validating the files; merging with an
  intervening revision; the check that its inputs did not change; and moving the directory into
  place.  \<open>up_archives\<close> says that archives need quarantine, \<open>up_deduped\<close> that some are left after
  deduplication, \<open>up_commit_hash\<close> is the commit of the new source record, and \<open>up_checks\<close> are the
  check tasks that \<open>tasks.draft_checks\<close> would queue.
\<close>

record upload =
  up_allowed_phases :: "ReleasePhase list"
  up_description :: "string option"
  up_clone_from :: "string option"
  up_expected_revision :: "string option"
  up_set_local_cache :: "string option"
  up_reset_to_global_cache :: bool
  up_has_source_override :: bool
  up_has_path_sources :: bool
  up_has_modify :: bool
  up_files :: "unit py"
  up_merge :: "unit py"
  up_provenance :: "unit py"
  up_archives :: bool
  up_deduped :: bool
  up_token :: string
  up_commit_hash :: "string option"
  up_install :: "unit py"
  up_checks :: "string list"

definition assert_release_in_committee :: "project \<Rightarrow> string \<Rightarrow> unit py" where
  "assert_release_in_committee p ck =
     guardE (p_committee_key p = Some ck) (access 403 ''Project is not in committee'')"

definition revision_get :: "db \<Rightarrow> string \<Rightarrow> string \<Rightarrow> revision option" where
  "revision_get d rk number =
     sel_one (\<lambda>v. rev_release_key v = rk \<and> rev_number v = number) (db_revisions d)"

section \<open>Creating a revision\<close>

text \<open>The part before the lock: the key of the release and the revision to build on.\<close>

definition create_revision_prepare ::
  "request \<Rightarrow> upload \<Rightarrow> db \<Rightarrow> string \<Rightarrow> string \<Rightarrow> string \<Rightarrow> (string \<times> revision option) py" where
  "create_revision_prepare rq u d ck pk v =
     bindE (demandE (RuntimeError ''Release does not exist for new revision creation'')
              (release_get d pk v)) (\<lambda>r.
     bindE (demand_project d r) (\<lambda>p.
     bindE (assert_release_in_committee p ck) (\<lambda>_.
     bindE (ensure_project_active p) (\<lambda>_.
     bindE (ensure_release_writable rq p r) (\<lambda>_.
     bindE (guardE (r_phase r \<in> set (up_allowed_phases u)) PhaseMismatchError) (\<lambda>_.
     bindE (case up_clone_from u of
              None \<Rightarrow> Inr (latest_revision d (r_key r))
            | Some n \<Rightarrow>
                bindE (demandE (RuntimeError ''Revision does not exist'') (revision_get d (r_key r) n))
                  (\<lambda>base. Inr (Some base))) (\<lambda>old.
     bindE (up_files u) (\<lambda>_. Inr (r_key r, old)))))))))"

text \<open>
  \<open>_lock_and_merge\<close> reads the release and its latest revision again under the write lock: the
  release, the key of the latest revision, and the key of a revision that came in between.
\<close>

definition lock_and_merge ::
  "unit py \<Rightarrow> bool \<Rightarrow> db \<Rightarrow> string \<Rightarrow> revision option \<Rightarrow> (release \<times> string option \<times> string option) py" where
  "lock_and_merge merge merge_enabled d rk old =
     bindE (demandE (RuntimeError ''Could not refresh the release'') (release_by_key d rk)) (\<lambda>r.
       (let prior = map_option rev_key (latest_revision d (r_key r)) in
        case (old, prior) of
          (Some base, Some k) \<Rightarrow>
            if merge_enabled \<and> k \<noteq> rev_key base
            then bindE merge (\<lambda>_. Inr (r, prior, Some k))
            else Inr (r, prior, None)
        | _ \<Rightarrow> Inr (r, prior, None)))"

definition commit_columns :: "int \<Rightarrow> string option \<Rightarrow> release \<Rightarrow> release" where
  "commit_columns now commit_hash r =
     (let r1 = (if r_activity_at r \<le> now
                then r \<lparr> r_activity_at := now, r_inactivity_notice_key := None \<rparr> else r)
      in r1 \<lparr> r_commit_hash := commit_hash \<rparr>)"

definition queue_checks :: "request \<Rightarrow> db \<Rightarrow> string \<Rightarrow> release \<Rightarrow> string \<Rightarrow> string list \<Rightarrow> db" where
  "queue_checks rq d uid r number values =
     (if r_phase r = RELEASE_CANDIDATE_DRAFT
      then foldl (\<lambda>d ty. queue_task d (new_task rq (TT_OTHER ty) A_OTHER uid
                            (Some (r_project_key r)) (Some (r_version r)) (Some number))) d values
      else d)"

definition new_revision ::
  "int \<Rightarrow> string \<Rightarrow> release \<Rightarrow> string option \<Rightarrow> string option \<Rightarrow> bool \<Rightarrow> revision" where
  "new_revision now uid r description merge_base was_quarantined =
     \<lparr> rev_key = [], rev_release_key = r_key r, rev_seq = 0, rev_number = [], rev_asfuid = uid,
       rev_created = now, rev_phase = r_phase r, rev_parent_key = None,
       rev_description = description, rev_merge_base_revision_key = merge_base, rev_tag = None,
       rev_was_quarantined = was_quarantined \<rparr>"

text \<open>
  \<open>_commit_new_revision\<close>: the revision and the columns of the release in one transaction, then the
  checks in another.
\<close>

definition commit_new_revision ::
  "request \<Rightarrow> upload \<Rightarrow> db \<Rightarrow> string \<Rightarrow> release \<Rightarrow> string option \<Rightarrow> bool \<Rightarrow> (revision \<times> db) py" where
  "commit_new_revision rq u d uid r merge_base was_quarantined =
     bindE (insert_revision d
              (new_revision (rq_now rq) uid r (up_description u) merge_base was_quarantined))
       (\<lambda>(new, d1).
     bindE (up_install u) (\<lambda>_.
       (let d2 = update_release d1 (\<lambda>x. r_key x = r_key r)
                   (commit_columns (rq_now rq) (up_commit_hash u))
        in Inr (new, queue_checks rq d2 uid r (rev_number new) (up_checks u)))))"

datatype created = CREATED revision | IN_QUARANTINE nat

text \<open>
  \<open>_quarantine_archives\<close> commits twice: first the row in the STAGING state, with the directory moved
  into the quarantine, then the validation task and the PENDING state.
\<close>

definition quarantine_stage ::
  "request \<Rightarrow> upload \<Rightarrow> db \<Rightarrow> string \<Rightarrow> string \<Rightarrow> string option \<Rightarrow> (nat \<times> db) py" where
  "quarantine_stage rq u d uid rk prior =
     bindE (up_install u) (\<lambda>_.
       (let q = \<lparr> q_id = next_id q_id (db_quarantined d), q_release_key = rk, q_asf_uid = uid,
                  q_prior_revision_key = prior, q_status = Q_STAGING, q_token = up_token u,
                  q_created = rq_now rq, q_completed = None, q_description = up_description u \<rparr>
        in Inr (q_id q, d \<lparr> db_quarantined := db_quarantined d @ [q] \<rparr>)))"

definition quarantine_queue ::
  "request \<Rightarrow> db \<Rightarrow> string \<Rightarrow> string \<Rightarrow> string \<Rightarrow> nat \<Rightarrow> db" where
  "quarantine_queue rq d uid pk v qid =
     (queue_task d (new_task rq QUARANTINE_VALIDATE (A_QUARANTINE_VALIDATE qid) uid (Some pk) (Some v) None))
       \<lparr> db_quarantined := upd (\<lambda>q. q_id q = qid) (\<lambda>q. q \<lparr> q_status := Q_PENDING \<rparr>) (db_quarantined d) \<rparr>"

definition cache_key_column :: "upload \<Rightarrow> release \<Rightarrow> release" where
  "cache_key_column u r =
     (let r1 = (case up_set_local_cache u of None \<Rightarrow> r | Some k \<Rightarrow> r \<lparr> r_check_cache_key := Some k \<rparr>)
      in if up_reset_to_global_cache u then r1 \<lparr> r_check_cache_key := None \<rparr> else r1)"

text \<open>
  The locked part.  It leaves the quarantine row in the STAGING state; \<open>quarantine_queue\<close> is the
  transaction that follows.
\<close>

definition create_revision_locked ::
  "request \<Rightarrow> upload \<Rightarrow> db \<Rightarrow> string \<Rightarrow> string \<Rightarrow> revision option \<Rightarrow> (created \<times> db) py" where
  "create_revision_locked rq u d uid rk old =
     bindE (lock_and_merge (up_merge u) (up_clone_from u = None) d rk old) (\<lambda>(r, prior, merge_base).
     bindE (guardE (r_phase r \<in> set (up_allowed_phases u)) PhaseMismatchError) (\<lambda>_.
     bindE (guardE (\<not> (up_has_source_override u \<and> old = None \<and> prior \<noteq> None))
              RevisionMismatchError) (\<lambda>_.
     bindE (guardE (case up_expected_revision u of
                      None \<Rightarrow> True | Some n \<Rightarrow> prior = Some (revision_key rk n))
              RevisionMismatchError) (\<lambda>_.
     bindE (if merge_base \<noteq> None then up_provenance u else Inr ()) (\<lambda>_.
       (let d1 = update_release d (\<lambda>x. r_key x = r_key r) (cache_key_column u);
            r1 = cache_key_column u r
        in
     bindE (guardE (\<not> (up_archives u \<and> (up_has_source_override u \<or> up_has_path_sources u)
                        \<and> \<not> up_has_modify u))
              (FailedError ''Source archives need validation before their source can be set.'')) (\<lambda>_.
       if up_archives u \<and> up_deduped u
       then bindE (quarantine_stage rq u d1 uid rk prior) (\<lambda>(qid, d2). Inr (IN_QUARANTINE qid, d2))
       else bindE (commit_new_revision rq u d1 uid r1 merge_base False) (\<lambda>(new, d2).
              Inr (CREATED new, d2)))))))))"

text \<open>\<open>create_revision_with_quarantine\<close> with nothing in between.\<close>

definition create_revision ::
  "request \<Rightarrow> upload \<Rightarrow> db \<Rightarrow> string \<Rightarrow> string \<Rightarrow> string \<Rightarrow> string \<Rightarrow> (created \<times> db) py" where
  "create_revision rq u d ck pk v uid =
     bindE (create_revision_prepare rq u d ck pk v) (\<lambda>(rk, old).
     bindE (create_revision_locked rq u d uid rk old) (\<lambda>(c, d1).
       (case c of
          CREATED new \<Rightarrow> Inr (c, d1)
        | IN_QUARANTINE qid \<Rightarrow> Inr (c, quarantine_queue rq d1 uid pk v qid))))"

section \<open>Leaving the quarantine\<close>

definition quarantined_get :: "db \<Rightarrow> nat \<Rightarrow> quarantined option" where
  "quarantined_get d qid = sel_one (\<lambda>q. q_id q = qid) (db_quarantined d)"

definition mark_failed :: "request \<Rightarrow> db \<Rightarrow> nat \<Rightarrow> db" where
  "mark_failed rq d qid =
     d \<lparr> db_quarantined := upd (\<lambda>q. q_id q = qid)
           (\<lambda>q. q \<lparr> q_status := Q_FAILED, q_completed := Some (rq_now rq) \<rparr>) (db_quarantined d) \<rparr>"

text \<open>The revision that the prior key of a quarantined row names: its last word is the number.\<close>

definition prior_revision :: "db \<Rightarrow> quarantined \<Rightarrow> revision option" where
  "prior_revision d q =
     (case q_prior_revision_key q of
        None \<Rightarrow> None
      | Some k \<Rightarrow> revision_get d (q_release_key q) (last (split_on (CHR '' '') k)))"

text \<open>
  \<open>finalise_revision\<close>, which \<open>_promote\<close> calls; the row of the quarantine is deleted in a transaction
  of its own.
\<close>

definition finalise_revision :: "request \<Rightarrow> upload \<Rightarrow> db \<Rightarrow> quarantined \<Rightarrow> (revision \<times> db) py" where
  "finalise_revision rq u d q =
     bindE (lock_and_merge (up_merge u) True d (q_release_key q) (prior_revision d q))
       (\<lambda>(r, prior, merge_base).
     commit_new_revision rq (u \<lparr> up_description := q_description q \<rparr>) d (q_asf_uid q) r merge_base True)"

definition quarantine_remove :: "db \<Rightarrow> nat \<Rightarrow> db" where
  "quarantine_remove d qid = d \<lparr> db_quarantined := del (\<lambda>q. q_id q = qid) (db_quarantined d) \<rparr>"

text \<open>
  \<open>validate\<close>, the QUARANTINE_VALIDATE task: \<open>dir_ok\<close> says that the directory is there, \<open>extracted\<close>
  that every archive could be extracted.  The exceptions of the promotion fail the task.
\<close>

definition quarantine_validate ::
  "request \<Rightarrow> upload \<Rightarrow> bool \<Rightarrow> bool \<Rightarrow> db \<Rightarrow> nat \<Rightarrow> unit py \<times> db" where
  "quarantine_validate rq u dir_ok extracted d qid =
     (case quarantined_get d qid of
        None \<Rightarrow> (Inr (), d)
      | Some q \<Rightarrow>
          if q_status q \<noteq> Q_PENDING then (Inr (), d)
          else if \<not> dir_ok \<or> \<not> extracted then (Inr (), mark_failed rq d qid)
          else (case finalise_revision rq u d q of
                  Inl e \<Rightarrow> (Inl e, d)
                | Inr (_, d1) \<Rightarrow> (Inr (), quarantine_remove d1 qid)))"

definition clear_quarantine ::
  "request \<Rightarrow> db \<Rightarrow> string \<Rightarrow> string \<Rightarrow> string \<Rightarrow> nat \<Rightarrow> (unit \<times> db) py" where
  "clear_quarantine rq d ck pk v qid =
     bindE (demandE (access 404 ''Release not found.'') (release_get d pk v)) (\<lambda>r.
     bindE (demand_project d r) (\<lambda>p.
     bindE (assert_release_in_committee p ck) (\<lambda>_.
     bindE (ensure_project_active p) (\<lambda>_.
     bindE (ensure_release_writable rq p r) (\<lambda>_.
     bindE (demandE (RuntimeError ''Quarantine failure not found or not in FAILED state'')
              (sel_one (\<lambda>q. q_id q = qid \<and> q_release_key q = r_key r \<and> q_status q = Q_FAILED)
                 (db_quarantined d))) (\<lambda>q.
       Inr ((), d \<lparr> db_quarantined := upd (\<lambda>q. q_id q = qid)
                      (\<lambda>q. q \<lparr> q_status := Q_ACKNOWLEDGED \<rparr>) (db_quarantined d) \<rparr>)))))))"

section \<open>Tags\<close>

definition tag_char :: "char \<Rightarrow> bool" where
  "tag_char c = (is_alnum c \<or> c \<in> set ''+_.-'')"

text \<open>\<open>set_tag\<close>: a revision's tag is set once.\<close>

definition set_tag ::
  "request \<Rightarrow> db \<Rightarrow> string \<Rightarrow> string \<Rightarrow> string \<Rightarrow> string \<Rightarrow> string \<Rightarrow> (unit \<times> db) py" where
  "set_tag rq d ck pk v number tag0 =
     (let tag = strip tag0 in
     bindE (guardE (tag \<noteq> []) (access 400 ''Tag is required'')) (\<lambda>_.
     bindE (guardE (list_all tag_char tag)
              (access 400 ''Tag must contain only letters, numbers, plus, underscore, dot, or hyphen'')) (\<lambda>_.
     bindE (guardE (length tag \<le> 256) (access 400 ''Tag must be at most 256 bytes'')) (\<lambda>_.
     bindE (demandE (AccessError None ''No release found'') (release_get d pk v)) (\<lambda>r.
     bindE (demand_project d r) (\<lambda>p.
     bindE (assert_release_in_committee p ck) (\<lambda>_.
     bindE (ensure_project_active p) (\<lambda>_.
     bindE (ensure_release_writable rq p r) (\<lambda>_.
       (let W = (\<lambda>x. rev_release_key x = r_key r \<and> rev_number x = number \<and> rev_tag x = None) in
        if rowcount W (db_revisions d) \<noteq> 1
        then (case revision_get d (r_key r) number of
                None \<Rightarrow> Inl (access 404 ''Revision not found'')
              | Some _ \<Rightarrow> Inl (access 409 ''Revision already has a tag and cannot be changed''))
        else Inr ((), d \<lparr> db_revisions := upd W (\<lambda>x. x \<lparr> rev_tag := Some tag \<rparr>) (db_revisions d) \<rparr>)))))))))))"

end
