(* ===== verification/AnnounceOps.thy ===== *)
theory AnnounceOps
  imports ReleaseOps
begin

text \<open>
  src/atr/storage/writers/announce.py: announcing a release, which promotes a published preview to a
  release, and the archiving of the prior release of its cycle that follows the commit.  Then the
  catalogue administration of a release's archived flag in src/atr/storage/writers/catalogue.py.
\<close>

section \<open>The world around an announcement\<close>

text \<open>
  \<open>an_permitted\<close> are the permitted recipients, \<open>an_missing\<close> the distributions that the policy asks for
  and that are not recorded, \<open>an_template_hash\<close> and \<open>an_subject\<close> the current subject template and its
  text, \<open>an_publication\<close> the outcome of the comparison of the published files with the preview,
  \<open>an_relay\<close> whether the mail relay can be reached, \<open>an_notification\<close> the message for the releases
  list, \<open>an_artifacts\<close> the artifact rows (or the exception that reading them raises), and
  \<open>an_prior\<close> the choice of \<open>cycles.prior_release_in_cycle\<close> among the candidates.
\<close>

record announce_env =
  an_permitted :: "string list"
  an_missing :: "string list"
  an_template_hash :: string
  an_subject :: "string py"
  an_publication :: "unit py"
  an_relay :: bool
  an_notification :: send_args
  an_artifacts :: "artifact list py"
  an_prior :: "project \<Rightarrow> string \<Rightarrow> release list \<Rightarrow> release option"

record announce_form =
  af_preview_revision :: "string option"
  af_email_to :: string
  af_email_cc :: "string list"
  af_email_bcc :: "string list"
  af_body :: string
  af_template_hash :: "string option"
  af_auto_archive_prior :: bool

fun duplicate_recipients :: "string list \<Rightarrow> string list \<Rightarrow> bool" where
  "duplicate_recipients seen [] = False"
| "duplicate_recipients seen (a # as) =
     (lower a \<in> set seen \<or> duplicate_recipients (lower a # seen) as)"

definition all_recipients :: "announce_form \<Rightarrow> string list" where
  "all_recipients f = af_email_to f # af_email_cc f @ af_email_bcc f"

definition download_path_suffix_from_task :: "task \<Rightarrow> string option" where
  "download_path_suffix_from_task t =
     (case t_task_args t of
        A_SVN_PUBLISH a \<Rightarrow> (case pa_download_path_suffix a of
                              None \<Rightarrow> None | Some s \<Rightarrow> if s = [] then None else Some s)
      | _ \<Rightarrow> None)"

section \<open>Before anything is written\<close>

definition announce_guards ::
  "request \<Rightarrow> announce_env \<Rightarrow> announce_form \<Rightarrow> db \<Rightarrow> string \<Rightarrow> string \<Rightarrow> string
    \<Rightarrow> (release \<times> project \<times> string \<times> string \<times> task \<times> int) py" where
  "announce_guards rq env f d ck pk v =
     bindE (demandE (access 404 ''Release does not exist'')
              (release_get_phase d pk v RELEASE_PREVIEW)) (\<lambda>r.
     bindE (demand_project d r) (\<lambda>p.
     bindE (guardE (p_committee_key p = Some ck) (access 403 ''Project is not in committee'')) (\<lambda>_.
     bindE (ensure_project_active p) (\<lambda>_.
     bindE (ensure_release_writable rq p r) (\<lambda>_.
     bindE (unwrap_revision_number d r) (\<lambda>latest.
     bindE (guardE (af_preview_revision f = None \<or> af_preview_revision f = Some latest)
              (access 409 ''Revision is not the latest revision'')) (\<lambda>_.
     bindE (demandE (access 500 ''Release has no committee - Invalid state'') (project_committee d p)) (\<lambda>_.
     bindE (guardE (set (all_recipients f) \<subseteq> set (an_permitted env))
              (access 403 ''You are not permitted to send announcements to this address'')) (\<lambda>_.
     bindE (guardE (\<not> duplicate_recipients [] (all_recipients f))
              (access 400 ''Duplicate recipient'')) (\<lambda>_.
     bindE (guardE (an_missing env = [])
              (access 409 ''This release cannot be announced until the distributions have been recorded'')) (\<lambda>_.
     bindE (guardE (af_template_hash f = None \<or> af_template_hash f = Some (an_template_hash env))
              (access 409 ''Subject template has been modified since the form was loaded'')) (\<lambda>_.
     bindE (an_subject env) (\<lambda>subject.
     bindE (demandE (access 409 ''This release cannot be announced until it has been published to SVN'')
              (release_completed_svn_publish_task_for_revision d pk (r_version r) latest)) (\<lambda>t.
     bindE (demandE (access 500 ''The completed SVN publish has no recorded revision - Invalid state'')
              (svn_publish_result t)) (\<lambda>svn_revision.
     bindE (an_publication env) (\<lambda>_.
     bindE (guardE (an_relay env) (access 503 ''The mail relay appears to be unavailable'')) (\<lambda>_.
       Inr (r, p, latest, subject, t, svn_revision))))))))))))))))))"

section \<open>The transaction\<close>

definition promote_where :: "db \<Rightarrow> string \<Rightarrow> string \<Rightarrow> release \<Rightarrow> bool" where
  "promote_where d rk latest x =
     (r_key x = rk \<and> r_phase x = RELEASE_PREVIEW \<and> latest_revision_number d (r_key x) = Some latest)"

definition promote_values :: "int \<Rightarrow> release \<Rightarrow> release" where
  "promote_values now x = x \<lparr> r_phase := RELEASE, r_released := Some now \<rparr>"

definition promote_in_database :: "db \<Rightarrow> release \<Rightarrow> string \<Rightarrow> int \<Rightarrow> db py" where
  "promote_in_database d r latest now =
     (let W = promote_where d (r_key r) latest in
      if rowcount W (db_releases d) \<noteq> 1
      then Inl (RuntimeError ''A newer revision appeared, please refresh and try again.'')
      else (let d1 = update_release d W (promote_values now) in
            Inr (d1 \<lparr> db_revisions := del (\<lambda>x. rev_release_key x = r_key r) (db_revisions d1) \<rparr>)))"

definition announce_queue ::
  "request \<Rightarrow> announce_env \<Rightarrow> announce_form \<Rightarrow> db \<Rightarrow> string \<Rightarrow> string \<Rightarrow> string \<Rightarrow> string \<Rightarrow> task \<Rightarrow> int \<Rightarrow> db" where
  "announce_queue rq env f d pk v latest subject t svn_revision =
     (let finalise = \<lparr> fa_asf_uid = rq_asf_uid rq, fa_revision_number = latest,
                       fa_svn_revision = svn_revision,
                       fa_download_path_suffix = download_path_suffix_from_task t,
                       fa_email_to = af_email_to f, fa_email_cc = af_email_cc f,
                       fa_email_bcc = af_email_bcc f \<rparr>;
          send = \<lparr> sa_email_sender = rq_asf_uid rq @ ''@apache.org'', sa_email_to = af_email_to f,
                   sa_subject = subject, sa_body = af_body f, sa_in_reply_to = None,
                   sa_email_cc = af_email_cc f, sa_email_bcc = af_email_bcc f, sa_message_id = None \<rparr>;
          uid = rq_asf_uid rq;
          d1 = queue_task d (new_task rq RELEASE_FINALISE (A_RELEASE_FINALISE finalise) uid
                 (Some pk) (Some v) (Some latest));
          d2 = queue_task d1 (new_task rq MESSAGE_SEND (A_SEND send) uid (Some pk) (Some v) None);
          d3 = queue_task d2 (new_task rq MESSAGE_SEND (A_SEND (an_notification env)) uid
                 (Some pk) (Some v) None)
      in queue_regeneration rq d3 uid (Some pk))"

definition managed_artifacts ::
  "release \<Rightarrow> int \<Rightarrow> int \<Rightarrow> artifact list \<Rightarrow> artifact list" where
  "managed_artifacts r svn_revision dated arts =
     map (\<lambda>a. a \<lparr> a_project_key := r_project_key r, a_version := r_version r,
                  a_release_key := Some (r_key r), a_svn_revision := Some svn_revision,
                  a_managed := True, a_dated := Some dated \<rparr>) arts"

text \<open>An \<open>AccessError\<close> passes through the handler, any other exception becomes one with status 500.\<close>

definition as_access_error :: "'a py \<Rightarrow> 'a py" where
  "as_access_error m =
     (case m of
        Inr a \<Rightarrow> Inr a
      | Inl (AccessError st msg) \<Rightarrow> Inl (AccessError st msg)
      | Inl _ \<Rightarrow> Inl (access 500 ''Error queuing announcement''))"

definition announce_commit ::
  "request \<Rightarrow> announce_env \<Rightarrow> announce_form \<Rightarrow> db \<Rightarrow> string \<Rightarrow> string \<Rightarrow> release \<Rightarrow> string \<Rightarrow> string \<Rightarrow> task
    \<Rightarrow> int \<Rightarrow> db py" where
  "announce_commit rq env f d pk v r latest subject t svn_revision =
     as_access_error
       (bindE (an_artifacts env) (\<lambda>arts.
          (let d1 = announce_queue rq env f d pk v latest subject t svn_revision;
               d2 = d1 \<lparr> db_artifacts := db_artifacts d1 @
                          managed_artifacts r svn_revision (rq_now rq) arts \<rparr>
           in bindE (promote_in_database d2 r latest (rq_now rq)) (\<lambda>d3.
                Inr (add_event d3 (event_row r EV_RELEASE (rq_now rq) (rq_now rq)
                       [''https://lists.apache.org/list.html?'' @ af_email_to f]))))))"

section \<open>The prior release\<close>

definition prior_candidates :: "db \<Rightarrow> string \<Rightarrow> string \<Rightarrow> release list" where
  "prior_candidates d pk v =
     sel (\<lambda>x. r_project_key x = pk \<and> r_phase x = RELEASE \<and> \<not> r_is_archived x \<and> r_version x \<noteq> v)
       (db_releases d)"

definition prior_release_for_archive :: "announce_env \<Rightarrow> db \<Rightarrow> project \<Rightarrow> string \<Rightarrow> release option" where
  "prior_release_for_archive env d p v = an_prior env p v (prior_candidates d (p_key p) v)"

definition archive_prior_release ::
  "request \<Rightarrow> announce_env \<Rightarrow> bool \<Rightarrow> db \<Rightarrow> project \<Rightarrow> release \<Rightarrow> unit py \<times> db" where
  "archive_prior_release rq env auto_archive_prior d p r =
     (if \<not> auto_archive_prior \<or> \<not> r_archive_prior_release r \<or> \<not> policy_auto_archive_prior_release p
      then (Inr (), d)
      else (case prior_release_for_archive env d p (r_version r) of
              None \<Rightarrow> (Inr (), d)
            | Some prior \<Rightarrow>
                if r_project_key prior \<noteq> r_project_key r
                then (Inl (AccessError None
                        ''Release announced, but resolved prior release belongs to another project''), d)
                else (case archive_release_core rq d prior AS_AUTO_PRIOR of
                        (None, d') \<Rightarrow> (Inr (), d')
                      | (Some e, d') \<Rightarrow>
                          (Inl (access 500 (''Release announced, but archiving prior release failed: '' @ e)), d'))))"

text \<open>\<open>ReleaseManager.release\<close>\<close>

definition announce ::
  "request \<Rightarrow> announce_env \<Rightarrow> announce_form \<Rightarrow> db \<Rightarrow> string \<Rightarrow> string \<Rightarrow> string \<Rightarrow> unit py \<times> db" where
  "announce rq env f d ck pk v =
     (case announce_guards rq env f d ck pk v of
        Inl e \<Rightarrow> (Inl e, d)
      | Inr (r, p, latest, subject, t, svn_revision) \<Rightarrow>
          (case announce_commit rq env f d pk v r latest subject t svn_revision of
             Inl e \<Rightarrow> (Inl e, d)
           | Inr d1 \<Rightarrow> archive_prior_release rq env (af_auto_archive_prior f) d1 p r))"

section \<open>Catalogue administration\<close>

definition queue_full_regeneration :: "request \<Rightarrow> db \<Rightarrow> string \<Rightarrow> db" where
  "queue_full_regeneration rq d uid = queue_regeneration rq d uid None"

definition catalogue_archive_release :: "request \<Rightarrow> db \<Rightarrow> string \<Rightarrow> (unit \<times> db) py" where
  "catalogue_archive_release rq d rk =
     bindE (demandE (access 404 ''Release not found.'') (release_by_key d rk)) (\<lambda>r.
     bindE (guardE (\<not> r_is_archived r) (access 409 ''Release is already archived.'')) (\<lambda>_.
       (let d1 = update_release d (\<lambda>x. r_key x = rk)
                   (\<lambda>x. x \<lparr> r_is_archived := True, r_archive_source := Some AS_CATALOG_ADMIN \<rparr>)
        in Inr ((), queue_full_regeneration rq (queue_svn_unpublish rq d1 (rq_asf_uid rq) r)
                      (rq_asf_uid rq)))))"

definition catalogue_restore_release :: "request \<Rightarrow> db \<Rightarrow> string \<Rightarrow> (unit \<times> db) py" where
  "catalogue_restore_release rq d rk =
     bindE (demandE (access 404 ''Release not found.'') (release_by_key d rk)) (\<lambda>r.
     bindE (guardE (r_is_archived r) (access 409 ''Release is already active.'')) (\<lambda>_.
     bindE (guardE (r_archive_source r = None)
              (access 409 ''Release was removed from the distribution area'')) (\<lambda>_.
       (let d1 = update_release d (\<lambda>x. r_key x = rk) clear_archive
        in Inr ((), queue_full_regeneration rq d1 (rq_asf_uid rq))))))"

end
