(* ===== verification/Invariant.thy ===== *)
theory Invariant
  imports VoteOps RevisionOps AnnounceOps
begin

text \<open>
  The invariant of the release tables, and the lemmas that the operations share to keep it: a
  change of other tables, an update of one table's rows, an insertion and a deletion.
\<close>

section \<open>The invariant\<close>

text \<open>
  One release row: its key, that only an announced release has a release date, that a draft has
  no trace of a vote, that a release under a vote or in preview has its vote's mode, number and
  revision, that only the catalogue's administration archives what is not announced, and that what
  a vote leaves in the row comes in the order of its start, its number, its mode and revision, and
  its end.
\<close>

definition row_ok :: "release \<Rightarrow> bool" where
  "row_ok r =
     (r_key r = release_key (r_project_key r) (r_version r) \<and>
      (r_phase r = RELEASE \<longleftrightarrow> r_released r \<noteq> None) \<and>
      (\<not> r_is_archived r \<longrightarrow> r_archived r = None \<and> r_archive_source r = None) \<and>
      (r_is_archived r \<and> r_archive_source r \<noteq> Some AS_CATALOG_ADMIN \<longrightarrow> r_phase r = RELEASE) \<and>
      (r_phase r = RELEASE_CANDIDATE_DRAFT \<longrightarrow>
         r_vote_mode r = None \<and> r_voted_revision_number r = None \<and> r_vote_resolved r = None \<and>
         r_podling_thread_id r = None \<and> r_vote_thread_url r = None) \<and>
      (r_phase r = RELEASE_CANDIDATE \<or> r_phase r = RELEASE_PREVIEW \<longrightarrow>
         r_vote_mode r \<noteq> None \<and> r_current_vote_seq r \<noteq> None \<and> r_voted_revision_number r \<noteq> None) \<and>
      (r_phase r = RELEASE_CANDIDATE \<longrightarrow> r_vote_resolved r = None) \<and>
      (r_phase r = RELEASE_PREVIEW \<longrightarrow> r_vote_resolved r \<noteq> None) \<and>
      (r_expedited r \<longrightarrow> r_vote_mode r = None \<or> r_vote_mode r = Some TRUSTED) \<and>
      (r_current_vote_seq r \<noteq> None \<or> r_vote_resolved r \<noteq> None \<longrightarrow> r_vote_started r \<noteq> None) \<and>
      (r_voted_revision_number r \<noteq> None \<longrightarrow> r_current_vote_seq r \<noteq> None \<and> r_vote_mode r \<noteq> None) \<and>
      (r_phase r = RELEASE_CANDIDATE \<longrightarrow> r_vote_thread_url r = None))"

definition votes_in_round :: "db \<Rightarrow> string \<Rightarrow> nat option \<Rightarrow> nat option \<Rightarrow> bool" where
  "votes_in_round d rk seq rnd =
     (\<forall>b \<in> set (db_ballots d). b_release_key b = rk \<and> Some (b_vote_seq b) = seq \<longrightarrow> b_vote_round b = rnd)"

text \<open>
  A release row and the other tables: the revision under a vote is the latest one and stays so
  until the announcement, which leaves no revisions; nothing is in quarantine once the vote has
  started; the vote's number is an allocated one, and its ballots are of its round.
\<close>

definition linked :: "db \<Rightarrow> release \<Rightarrow> bool" where
  "linked d r =
     ((r_phase r = RELEASE_CANDIDATE \<or> r_phase r = RELEASE_PREVIEW \<longrightarrow>
         r_voted_revision_number r = latest_revision_number d (r_key r)) \<and>
      (r_phase r = RELEASE \<longrightarrow> latest_revision d (r_key r) = None) \<and>
      (r_phase r \<noteq> RELEASE_CANDIDATE_DRAFT \<longrightarrow> pending_quarantine_count d (r_key r) = 0) \<and>
      (\<forall>s. r_current_vote_seq r = Some s \<longrightarrow> (\<exists>n. db_vote_counter d (r_key r) = Some n \<and> s \<le> n)) \<and>
      (r_phase r = RELEASE_CANDIDATE \<longrightarrow>
         votes_in_round d (r_key r) (r_current_vote_seq r) (trusted_vote_round d r)))"

definition has_release :: "db \<Rightarrow> string \<Rightarrow> bool" where
  "has_release d rk = (rk \<in> r_key ` set (db_releases d))"

definition revision_ok :: "db \<Rightarrow> revision \<Rightarrow> bool" where
  "revision_ok d v =
     (has_release d (rev_release_key v) \<and>
      (\<exists>n. db_revision_counter d (rev_release_key v) = Some n \<and> rev_seq v \<le> n) \<and>
      rev_number v = zfill 5 (str_nat (rev_seq v)) \<and>
      rev_key v = revision_key (rev_release_key v) (rev_number v))"

definition ballot_ok :: "db \<Rightarrow> ballot \<Rightarrow> bool" where
  "ballot_ok d b =
     (has_release d (b_release_key b) \<and>
      (\<exists>n. db_vote_counter d (b_release_key b) = Some n \<and> b_vote_seq b \<le> n))"

text \<open>
  A quarantined upload is complete unless it waits in the quarantine, and the revision it follows is
  one of its release.
\<close>

definition quarantine_row_ok :: "quarantined \<Rightarrow> bool" where
  "quarantine_row_ok q =
     (((q_completed q = None) \<longleftrightarrow> (q_status q = Q_STAGING \<or> q_status q = Q_PENDING)) \<and>
      (\<forall>k. q_prior_revision_key q = Some k \<longrightarrow> startswith k (q_release_key q @ '' '')))"

definition quarantined_keyed :: "quarantined list \<Rightarrow> bool" where
  "quarantined_keyed t = distinct (map q_id t)"

interpretation quarantines: keyed_table q_id quarantined_keyed
  by unfold_locales (simp add: quarantined_keyed_def)

definition project_version :: "release \<Rightarrow> string \<times> string" where
  "project_version r = (r_project_key r, r_version r)"

definition revision_seq :: "revision \<Rightarrow> string \<times> nat" where
  "revision_seq v = (rev_release_key v, rev_seq v)"

definition db_ok :: "db \<Rightarrow> bool" where
  "db_ok d =
     (releases_keyed (db_releases d) \<and>
      distinct (map project_version (db_releases d)) \<and>
      (\<forall>r \<in> set (db_releases d). row_ok r \<and> linked d r) \<and>
      distinct (map revision_seq (db_revisions d)) \<and>
      (\<forall>v \<in> set (db_revisions d). revision_ok d v) \<and>
      ballots_keyed (db_ballots d) \<and> one_round_per_vote d \<and>
      (\<forall>b \<in> set (db_ballots d). ballot_ok d b) \<and>
      (\<forall>q \<in> set (db_quarantined d). has_release d (q_release_key q)) \<and>
      quarantined_keyed (db_quarantined d) \<and>
      (\<forall>q \<in> set (db_quarantined d). quarantine_row_ok q))"

lemma invD:
  assumes "db_ok d"
  shows "releases_keyed (db_releases d)" and "distinct (map project_version (db_releases d))"
    and "r \<in> set (db_releases d) \<Longrightarrow> row_ok r" and "r \<in> set (db_releases d) \<Longrightarrow> linked d r"
    and "distinct (map revision_seq (db_revisions d))"
    and "v \<in> set (db_revisions d) \<Longrightarrow> revision_ok d v"
    and "ballots_keyed (db_ballots d)" and "one_round_per_vote d"
    and "b \<in> set (db_ballots d) \<Longrightarrow> ballot_ok d b"
    and "q \<in> set (db_quarantined d) \<Longrightarrow> has_release d (q_release_key q)"
    and "quarantined_keyed (db_quarantined d)"
    and "q \<in> set (db_quarantined d) \<Longrightarrow> quarantine_row_ok q"
  using assms by (simp_all add: db_ok_def)

lemma inv_balls:
  assumes "db_ok d"
  shows "\<forall>r \<in> set (db_releases d). row_ok r \<and> linked d r"
    and "\<forall>v \<in> set (db_revisions d). revision_ok d v"
    and "\<forall>b \<in> set (db_ballots d). ballot_ok d b"
  using assms by (simp_all add: db_ok_def)

lemma inv_foreign_keys:
  assumes "db_ok d"
  shows "\<forall>v \<in> set (db_revisions d). has_release d (rev_release_key v)"
    and "\<forall>b \<in> set (db_ballots d). has_release d (b_release_key b)"
    and "\<forall>q \<in> set (db_quarantined d). has_release d (q_release_key q)"
  using assms by (simp_all add: db_ok_def revision_ok_def ballot_ok_def)

section \<open>Queries on a database that keeps the invariant\<close>

lemma release_get_in:
  "release_get d pk v = Some r \<Longrightarrow> r \<in> set (db_releases d) \<and> r_project_key r = pk \<and> r_version r = v"
  unfolding release_get_def by (drule sel_one_Some_in) simp

lemma release_get_phase_in:
  "release_get_phase d pk v ph = Some r \<Longrightarrow>
     r \<in> set (db_releases d) \<and> r_project_key r = pk \<and> r_version r = v \<and> r_phase r = ph"
  unfolding release_get_phase_def by (drule sel_one_Some_in) simp

lemma release_by_key_in: "release_by_key d k = Some r \<Longrightarrow> r \<in> set (db_releases d) \<and> r_key r = k"
  unfolding release_by_key_def by (drule sel_one_Some_in) simp

lemma same_release:
  "db_ok d \<Longrightarrow> a \<in> set (db_releases d) \<Longrightarrow> b \<in> set (db_releases d) \<Longrightarrow> r_key a = r_key b \<Longrightarrow> a = b"
  by (rule releases.unique [OF invD(1)])

lemma same_project_version:
  "db_ok d \<Longrightarrow> a \<in> set (db_releases d) \<Longrightarrow> b \<in> set (db_releases d) \<Longrightarrow>
     r_project_key a = r_project_key b \<Longrightarrow> r_version a = r_version b \<Longrightarrow> a = b"
  by (rule distinct_map_eq [OF invD(2)]) (simp_all add: project_version_def)

text \<open>Of the rows that a conditional update may touch, the key leaves one.\<close>

lemma update_release_set:
  "r' \<in> set (db_releases (update_release d W F)) \<longleftrightarrow>
     (\<exists>r \<in> set (db_releases d). r' = (if W r then F r else r))"
  by (simp add: update_release_def upd_set)

lemma update_release_sels [simp]:
  "db_committees (update_release d W F) = db_committees d"
  "db_projects (update_release d W F) = db_projects d"
  "db_cycles (update_release d W F) = db_cycles d"
  "db_revisions (update_release d W F) = db_revisions d"
  "db_ballots (update_release d W F) = db_ballots d"
  "db_tasks (update_release d W F) = db_tasks d"
  "db_events (update_release d W F) = db_events d"
  "db_quarantined (update_release d W F) = db_quarantined d"
  "db_artifacts (update_release d W F) = db_artifacts d"
  "db_revision_counter (update_release d W F) = db_revision_counter d"
  "db_vote_counter (update_release d W F) = db_vote_counter d"
  by (simp_all add: update_release_def)

section \<open>Changes that keep the invariant\<close>

text \<open>What \<open>linked\<close> reads of the database.\<close>

definition link_view_eq :: "db \<Rightarrow> db \<Rightarrow> string \<Rightarrow> bool" where
  "link_view_eq d d' rk =
     (latest_revision d' rk = latest_revision d rk \<and>
      pending_quarantine_count d' rk = pending_quarantine_count d rk \<and>
      db_vote_counter d' rk = db_vote_counter d rk \<and>
      (\<forall>s t. votes_in_round d' rk s t = votes_in_round d rk s t))"

lemma linked_cong:
  assumes "link_view_eq d d' (r_key r)"
    and "r_phase r = RELEASE_CANDIDATE \<Longrightarrow> trusted_vote_round d' r = trusted_vote_round d r"
  shows "linked d' r = linked d r"
  using assms by (auto simp: linked_def link_view_eq_def latest_revision_number_def)

lemma trusted_vote_round_cong:
  "db_committees d' = db_committees d \<Longrightarrow> db_projects d' = db_projects d \<Longrightarrow>
     r_project_key r' = r_project_key r \<Longrightarrow> r_podling_thread_id r' = r_podling_thread_id r \<Longrightarrow>
     trusted_vote_round d' r' = trusted_vote_round d r"
  by (simp add: trusted_vote_round_def release_committee_def release_project_def project_get_def
      project_committee_def split: option.split)

text \<open>A database that differs in other tables, or in a committee that no open vote is about.\<close>

definition same_tables :: "db \<Rightarrow> db \<Rightarrow> bool" where
  "same_tables d d' =
     (db_releases d' = db_releases d \<and> db_revisions d' = db_revisions d \<and>
      db_ballots d' = db_ballots d \<and> db_quarantined d' = db_quarantined d \<and>
      db_revision_counter d' = db_revision_counter d \<and> db_vote_counter d' = db_vote_counter d \<and>
      (\<forall>r \<in> set (db_releases d). r_phase r = RELEASE_CANDIDATE \<longrightarrow>
         trusted_vote_round d' r = trusted_vote_round d r))"

lemma same_core_tables: "same_core d d' \<Longrightarrow> same_tables d d'"
  by (auto simp: same_core_def same_tables_def intro: trusted_vote_round_cong)

lemma has_release_cong: "db_releases d' = db_releases d \<Longrightarrow> has_release d' rk = has_release d rk"
  by (simp add: has_release_def)

lemma inv_same_tables:
  assumes "db_ok d" and "same_tables d d'"
  shows "db_ok d'"
proof -
  note eqs = assms(2) [unfolded same_tables_def]
  have link: "linked d' r" if "r \<in> set (db_releases d)" for r
  proof -
    have "link_view_eq d d' (r_key r)"
      using eqs by (simp add: link_view_eq_def latest_revision_def pending_quarantine_count_def
          votes_in_round_def)
    then have "linked d' r = linked d r" using eqs that by (intro linked_cong) auto
    then show ?thesis using invD(4) [OF assms(1) that] by simp
  qed
  have has: "has_release d' k = has_release d k" for k using eqs by (simp add: has_release_def)
  show ?thesis
    using assms(1) eqs link
    by (simp add: db_ok_def one_round_per_vote_def revision_ok_def ballot_ok_def has)
qed

lemma inv_same_core: "db_ok d \<Longrightarrow> same_core d d' \<Longrightarrow> db_ok d'"
  by (blast intro: inv_same_tables same_core_tables)

text \<open>Keys that an update leaves alone, and the update itself.\<close>

definition keeps_identity :: "(release \<Rightarrow> release) \<Rightarrow> bool" where
  "keeps_identity F =
     (\<forall>r. r_key (F r) = r_key r \<and> r_project_key (F r) = r_project_key r \<and> r_version (F r) = r_version r)"

lemma inv_update:
  assumes inv: "db_ok d" and F: "keeps_identity F"
    and rows: "\<And>r. r \<in> set (db_releases d) \<Longrightarrow> W r \<Longrightarrow> row_ok (F r) \<and> linked d (F r)"
  shows "db_ok (update_release d W F)"
proof -
  let ?d = "update_release d W F"
  have keys: "map r_key (db_releases ?d) = map r_key (db_releases d)"
    using F by (simp add: update_release_def upd_def keeps_identity_def)
  have pvs: "map project_version (db_releases ?d) = map project_version (db_releases d)"
    using F by (simp add: update_release_def upd_def keeps_identity_def project_version_def)
  have link: "linked ?d r = linked d r" for r
  proof (rule linked_cong)
    show "link_view_eq d ?d (r_key r)"
      by (simp add: link_view_eq_def latest_revision_def pending_quarantine_count_def votes_in_round_def)
    show "trusted_vote_round ?d r = trusted_vote_round d r"
      by (rule trusted_vote_round_cong) simp_all
  qed
  have has: "has_release ?d k = has_release d k" for k
    unfolding has_release_def set_map [symmetric] keys ..
  have all: "row_ok r \<and> linked ?d r" if r: "r \<in> set (db_releases ?d)" for r
  proof -
    obtain r0 where r0: "r0 \<in> set (db_releases d)" "r = (if W r0 then F r0 else r0)"
      using r unfolding update_release_set by blast
    show ?thesis
    proof (cases "W r0")
      case True
      then show ?thesis using rows [OF r0(1) True] r0(2) by (simp add: link)
    next
      case False
      then show ?thesis using r0 invD(3,4) [OF inv r0(1)] by (simp add: link)
    qed
  qed
  have "releases_keyed (db_releases ?d)" using invD(1) [OF inv] keys by (simp add: releases_keyed_def)
  moreover have "distinct (map project_version (db_releases ?d))" using invD(2) [OF inv] pvs by simp
  moreover have "\<forall>r \<in> set (db_releases ?d). row_ok r \<and> linked ?d r" using all by blast
  ultimately show ?thesis
    using inv unfolding db_ok_def [of ?d]
    by (simp add: db_ok_def has one_round_per_vote_def revision_ok_def ballot_ok_def)
qed


lemma inv_insert_release:
  assumes inv: "db_ok d" and ins: "insert_release d r = Inr d'" and row: "row_ok r"
    and phase: "r_phase r = RELEASE_CANDIDATE_DRAFT \<or> r_phase r = RELEASE"
    and seq: "r_current_vote_seq r = None"
  shows "db_ok d'"
proof -
  have d': "d' = d \<lparr> db_releases := db_releases d @ [r] \<rparr>"
    and fresh: "\<not> has_release d (r_key r)" "project_version r \<notin> project_version ` set (db_releases d)"
    using ins by (auto simp: insert_release_def list_ex_iff has_release_def project_version_def image_iff
        split: if_splits)
  have link: "linked d' x = linked d x" for x
  proof (rule linked_cong)
    show "link_view_eq d d' (r_key x)"
      by (simp add: d' link_view_eq_def latest_revision_def pending_quarantine_count_def votes_in_round_def)
    show "trusted_vote_round d' x = trusted_vote_round d x"
      by (rule trusted_vote_round_cong) (simp_all add: d')
  qed
  have has: "has_release d k \<Longrightarrow> has_release d' k" for k by (auto simp: has_release_def d')
  have "latest_revision d (r_key r) = None"
    unfolding latest_revision_None using fresh(1) inv_foreign_keys(1) [OF inv] by metis
  moreover have "pending_quarantine_count d (r_key r) = 0"
    unfolding pending_quarantine_count_def rowcount_zero using fresh(1) inv_foreign_keys(3) [OF inv] by metis
  ultimately have new: "linked d' r" unfolding link using phase seq by (auto simp: linked_def)
  have "set (db_releases d') = insert r (set (db_releases d))" by (simp add: d')
  then have "\<forall>x \<in> set (db_releases d'). row_ok x \<and> linked d' x"
    using inv_balls(1) [OF inv] row new by (simp add: link)
  moreover have "releases_keyed (db_releases d')"
    using releases.ok_insert [OF invD(1) [OF inv]] fresh(1) by (simp add: d' has_release_def)
  moreover have "distinct (map project_version (db_releases d'))"
    using invD(2) [OF inv] fresh(2) by (simp add: d')
  ultimately show ?thesis
    using inv has unfolding db_ok_def [of d']
    by (simp add: db_ok_def d' one_round_per_vote_def revision_ok_def ballot_ok_def)
qed

text \<open>What a deletion of a release leaves.\<close>

definition drops_release :: "db \<Rightarrow> db \<Rightarrow> string \<Rightarrow> bool" where
  "drops_release d d' rk =
     (db_committees d' = db_committees d \<and> db_projects d' = db_projects d \<and>
      db_releases d' = del (\<lambda>r. r_key r = rk) (db_releases d) \<and>
      db_revisions d' = del (\<lambda>v. rev_release_key v = rk) (db_revisions d) \<and>
      db_ballots d' = del (\<lambda>b. b_release_key b = rk) (db_ballots d) \<and>
      db_quarantined d' = del (\<lambda>q. q_release_key q = rk) (db_quarantined d) \<and>
      (\<forall>k. k \<noteq> rk \<longrightarrow> db_revision_counter d' k = db_revision_counter d k
                  \<and> db_vote_counter d' k = db_vote_counter d k))"

lemma sel_del: "(\<And>x. P x \<Longrightarrow> \<not> Q x) \<Longrightarrow> sel P (del Q t) = sel P t"
  by (induction t) (auto simp: sel_def del_def)

lemma rowcount_del: "(\<And>x. P x \<Longrightarrow> \<not> Q x) \<Longrightarrow> rowcount P (del Q t) = rowcount P t"
  by (induction t) (auto simp: rowcount_def del_def)

lemma inv_drops:
  assumes inv: "db_ok d" and drop: "drops_release d d' rk"
  shows "db_ok d'"
proof -
  note eqs = drop [unfolded drops_release_def]
  have link: "linked d' r = linked d r" if k: "r_key r \<noteq> rk" for r
  proof (rule linked_cong)
    have "latest_revision d' (r_key r) = latest_revision d (r_key r)"
      using k eqs by (simp add: latest_revision_def) (subst sel_del, auto)
    moreover have "pending_quarantine_count d' (r_key r) = pending_quarantine_count d (r_key r)"
      using k eqs by (simp add: pending_quarantine_count_def) (subst rowcount_del, auto)
    ultimately show "link_view_eq d d' (r_key r)"
      using k eqs by (auto simp: link_view_eq_def votes_in_round_def del_set)
    show "trusted_vote_round d' r = trusted_vote_round d r"
      by (rule trusted_vote_round_cong) (simp_all add: eqs)
  qed
  have has: "has_release d' k" if "has_release d k" "k \<noteq> rk" for k
    using that eqs by (auto simp: has_release_def del_set)
  have rel: "releases_keyed (db_releases d')"
    using eqs releases.ok_del [OF invD(1) [OF inv]] by simp
  have pv: "distinct (map project_version (db_releases d'))"
    using eqs invD(2) [OF inv] by (simp add: del_def distinct_map_filter_key)
  have rows: "\<forall>r \<in> set (db_releases d'). row_ok r \<and> linked d' r"
    using eqs inv_balls(1) [OF inv] by (auto simp: del_set link)
  have seqs: "distinct (map revision_seq (db_revisions d'))"
    using eqs invD(5) [OF inv] by (simp add: del_def distinct_map_filter_key)
  have revs: "\<forall>v \<in> set (db_revisions d'). revision_ok d' v"
    using eqs inv_balls(2) [OF inv] has by (auto simp: del_set revision_ok_def)
  have bk: "ballots_keyed (db_ballots d')"
    using eqs ballots.ok_del [OF invD(7) [OF inv]] by simp
  have one: "one_round_per_vote d'"
    using eqs invD(8) [OF inv] by (auto simp: one_round_per_vote_def list_all_iff del_set)
  have bs: "\<forall>b \<in> set (db_ballots d'). ballot_ok d' b"
    using eqs inv_balls(3) [OF inv] has by (auto simp: del_set ballot_ok_def)
  have qs: "\<forall>q \<in> set (db_quarantined d'). has_release d' (q_release_key q)"
    using eqs inv_foreign_keys(3) [OF inv] has by (auto simp: del_set)
  have qk: "quarantined_keyed (db_quarantined d')"
    using eqs quarantines.ok_del [OF invD(11) [OF inv]] by simp
  have qr: "\<forall>q \<in> set (db_quarantined d'). quarantine_row_ok q"
    using eqs invD(12) [OF inv] by (auto simp: del_set)
  show ?thesis unfolding db_ok_def using rel pv rows seqs revs bk one bs qs qk qr by blast
qed

text \<open>A new revision of a draft, whose number is one that no revision of the release has had.\<close>

lemma insert_revision_facts:
  assumes "insert_revision d rv = Inr (new, d')"
  shows "rev_release_key new = rev_release_key rv"
    and "rev_seq new = counter_next (db_revision_counter d) (rev_release_key rv)"
    and "rev_number new = zfill 5 (str_nat (rev_seq new))"
    and "rev_key new = revision_key (rev_release_key rv) (rev_number new)"
    and "d' = d \<lparr> db_revisions := db_revisions d @ [new],
                 db_revision_counter := (db_revision_counter d)(rev_release_key rv \<mapsto> rev_seq new) \<rparr>"
    and "rev_release_key rv \<noteq> []"
  using assms by (auto simp: insert_revision_def Let_def split: if_splits)

lemma counter_next_fresh:
  assumes inv: "db_ok d" and v: "v \<in> set (db_revisions d)"
  shows "rev_seq v < counter_next (db_revision_counter d) (rev_release_key v)"
  using invD(6) [OF inv v] by (auto simp: revision_ok_def counter_next_def)

lemma inv_insert_revision:
  assumes inv: "db_ok d" and ins: "insert_revision d rv = Inr (new, d')"
    and r: "r \<in> set (db_releases d)" "r_key r = rev_release_key rv" "r_phase r = RELEASE_CANDIDATE_DRAFT"
  shows "db_ok d'"
proof -
  note new = insert_revision_facts [OF ins]
  let ?rk = "rev_release_key rv"
  have fresh: "rev_seq v < rev_seq new" if "v \<in> set (db_revisions d)" "rev_release_key v = ?rk" for v
    using counter_next_fresh [OF inv that(1)] that(2) new(2) by simp
  have link: "linked d' x" if x: "x \<in> set (db_releases d)" for x
  proof (cases "r_key x = ?rk")
    case True
    then have "x = r" using same_release [OF inv x r(1)] r(2) by simp
    then show ?thesis using invD(4) [OF inv r(1)] r(3) by (simp add: linked_def new(5))
  next
    case False
    have "latest_revision d' (r_key x) = latest_revision d (r_key x)"
      using False by (simp add: latest_revision_def new(5) sel_snoc new(1))
    then have "link_view_eq d d' (r_key x)"
      by (simp add: link_view_eq_def pending_quarantine_count_def votes_in_round_def new(5))
    moreover have "trusted_vote_round d' x = trusted_vote_round d x"
      by (rule trusted_vote_round_cong) (simp_all add: new(5))
    ultimately have "linked d' x = linked d x" by (rule linked_cong)
    then show ?thesis using invD(4) [OF inv x] by simp
  qed
  have has: "has_release d' k = has_release d k" for k by (simp add: has_release_def new(5))
  have hasn: "has_release d ?rk" unfolding has_release_def using r(1) r(2) [symmetric] by simp
  have "revision_seq new \<notin> revision_seq ` set (db_revisions d)"
  proof
    assume "revision_seq new \<in> revision_seq ` set (db_revisions d)"
    then obtain v where v: "v \<in> set (db_revisions d)" "revision_seq new = revision_seq v" by blast
    then show False using fresh [of v] new(1) by (simp add: revision_seq_def)
  qed
  then have seqs: "distinct (map revision_seq (db_revisions d'))"
    using invD(5) [OF inv] by (simp add: new(5))
  have grown: "revision_ok d' v" if v: "v \<in> set (db_revisions d)" for v
    using invD(6) [OF inv v] fresh [OF v] by (auto simp: revision_ok_def has [unfolded new(5)] new(5))
  have "revision_ok d' new"
    unfolding revision_ok_def has using new(1-4) hasn by (simp add: new(5))
  then have revs: "\<forall>v \<in> set (db_revisions d'). revision_ok d' v"
    using grown by (simp add: new(5))
  show ?thesis
    using inv link seqs revs unfolding db_ok_def [of d']
    by (simp add: db_ok_def new(5) has [unfolded new(5)] one_round_per_vote_def ballot_ok_def)
qed

text \<open>A new number for a vote, which no ballot carries yet.\<close>

lemma vote_seq_fresh:
  assumes "db_ok d" and "b \<in> set (db_ballots d)"
  shows "b_vote_seq b < counter_next (db_vote_counter d) (b_release_key b)"
  using invD(9) [OF assms] by (auto simp: ballot_ok_def counter_next_def)

lemma inv_vote_seq_allocate:
  assumes inv: "db_ok d" and alloc: "vote_seq_allocate d rk = (s, d')"
  shows "db_ok d'" and "votes_in_round d' rk (Some s) t"
    and "db_vote_counter d' rk = Some s"
    and "d' = d \<lparr> db_vote_counter := (db_vote_counter d)(rk \<mapsto> s) \<rparr>"
    and "s = counter_next (db_vote_counter d) rk"
proof -
  have d': "d' = d \<lparr> db_vote_counter := (db_vote_counter d)(rk \<mapsto> s) \<rparr>"
    and s: "s = counter_next (db_vote_counter d) rk"
    using alloc by (auto simp: vote_seq_allocate_def Let_def)
  show "d' = d \<lparr> db_vote_counter := (db_vote_counter d)(rk \<mapsto> s) \<rparr>" by (rule d')
  show "s = counter_next (db_vote_counter d) rk" by (rule s)
  show "db_vote_counter d' rk = Some s" by (simp add: d')
  show "votes_in_round d' rk (Some s) t"
    using vote_seq_fresh [OF inv] s by (fastforce simp: votes_in_round_def d')
  have more: "\<exists>n. db_vote_counter d' k = Some n \<and> m \<le> n" if "\<exists>n. db_vote_counter d k = Some n \<and> m \<le> n" for k m
    using that s by (auto simp: d' counter_next_def)
  have round: "trusted_vote_round d' x = trusted_vote_round d x" for x
    by (rule trusted_vote_round_cong) (simp_all add: d')
  have latest: "latest_revision d' k = latest_revision d k" for k
    by (simp add: d' latest_revision_def)
  have link: "linked d' x" if "linked d x" for x
    using that more unfolding linked_def round latest_revision_number_def latest
    by (simp add: pending_quarantine_count_def votes_in_round_def d')
  have has: "has_release d' k = has_release d k" for k by (simp add: has_release_def d')
  have bs: "\<forall>b \<in> set (db_ballots d'). ballot_ok d' b"
    using inv_balls(3) [OF inv] more by (simp add: ballot_ok_def has) (simp add: d')
  have rows: "\<forall>x \<in> set (db_releases d'). row_ok x \<and> linked d' x"
    using inv_balls(1) [OF inv] link by (simp add: d')
  show "db_ok d'"
    using inv bs rows unfolding db_ok_def [of d']
    by (simp add: db_ok_def d' has [unfolded d'] one_round_per_vote_def revision_ok_def)
qed

text \<open>A ballot for the open vote of a release, in that vote's round.\<close>

lemma one_round_pair:
  "one_round_per_vote d \<Longrightarrow> b \<in> set (db_ballots d) \<Longrightarrow> b' \<in> set (db_ballots d) \<Longrightarrow>
     b_release_key b = b_release_key b' \<Longrightarrow> b_vote_seq b = b_vote_seq b' \<Longrightarrow>
     b_vote_round b = b_vote_round b'"
  unfolding one_round_per_vote_def list_all_iff by blast

lemma inv_add_ballot:
  assumes inv: "db_ok d" and r: "r \<in> set (db_releases d)" "r_phase r = RELEASE_CANDIDATE"
    and b: "b_release_key b = r_key r" "r_current_vote_seq r = Some (b_vote_seq b)"
      "b_vote_round b = trusted_vote_round d r"
  shows "db_ok (add_ballot d b)"
proof -
  let ?d = "add_ballot d b"
  define i where "i = next_id b_id (db_ballots d)"
  have d': "?d = d \<lparr> db_ballots := db_ballots d @ [b \<lparr> b_id := i \<rparr>] \<rparr>"
    by (simp add: add_ballot_def i_def)
  have i: "i \<notin> b_id ` set (db_ballots d)" unfolding i_def by (rule next_id_fresh)
  have round: "trusted_vote_round ?d x = trusted_vote_round d x" for x
    by (rule trusted_vote_round_cong) (simp_all add: d')
  have mine: "votes_in_round d (r_key r) (r_current_vote_seq r) (trusted_vote_round d r)"
    using invD(4) [OF inv r(1)] r(2) by (simp add: linked_def)
  have other: "linked ?d x" if x: "x \<in> set (db_releases d)" for x
  proof (cases "r_key x = r_key r")
    case True
    then have "x = r" using same_release [OF inv x r(1)] by simp
    then show ?thesis
      using invD(4) [OF inv r(1)] b mine unfolding linked_def round
      by (simp add: d' latest_revision_number_def latest_revision_def pending_quarantine_count_def
          votes_in_round_def)
  next
    case False
    then show ?thesis
      using invD(4) [OF inv x] b(1) unfolding linked_def round
      by (simp add: d' latest_revision_number_def latest_revision_def pending_quarantine_count_def
          votes_in_round_def)
  qed
  have has: "has_release ?d k = has_release d k" for k by (simp add: has_release_def d')
  have new: "ballot_ok ?d (b \<lparr> b_id := i \<rparr>)"
    using invD(4) [OF inv r(1)] r(1) b(1,2) by (auto simp: ballot_ok_def has_release_def linked_def d')
  have bs: "\<forall>x \<in> set (db_ballots ?d). ballot_ok ?d x"
    using inv_balls(3) [OF inv] new by (simp add: ballot_ok_def has) (simp add: d')
  let ?same = "\<lambda>x y. b_release_key x = b_release_key y \<and> b_vote_seq x = b_vote_seq y"
  have mine': "b_vote_round x = b_vote_round b" if "x \<in> set (db_ballots d)" "?same x b" for x
    using mine b that by (simp add: votes_in_round_def)
  have one: "one_round_per_vote ?d"
    unfolding one_round_per_vote_def list_all_iff
  proof (intro ballI impI)
    fix x y assume x: "x \<in> set (db_ballots ?d)" and y: "y \<in> set (db_ballots ?d)" and same: "?same x y"
    have cases: "z \<in> set (db_ballots d) \<or> z = b \<lparr> b_id := i \<rparr>" if "z \<in> set (db_ballots ?d)" for z
      using that by (auto simp: d')
    show "b_vote_round x = b_vote_round y"
      using cases [OF x] cases [OF y]
    proof (elim disjE)
      assume "x \<in> set (db_ballots d)" "y \<in> set (db_ballots d)"
      then show ?thesis
        using one_round_pair [OF invD(8) [OF inv]] same by blast
    next
      assume "x \<in> set (db_ballots d)" "y = b \<lparr> b_id := i \<rparr>"
      then show ?thesis using mine' [of x] same by simp
    next
      assume "x = b \<lparr> b_id := i \<rparr>" "y \<in> set (db_ballots d)"
      then show ?thesis using mine' [of y] same by simp
    next
      assume "x = b \<lparr> b_id := i \<rparr>" "y = b \<lparr> b_id := i \<rparr>"
      then show ?thesis by simp
    qed
  qed
  have keyed: "ballots_keyed (db_ballots ?d)"
    using ballots.ok_insert [OF invD(7) [OF inv]] i by (simp add: d')
  show ?thesis
    using inv other bs one keyed unfolding db_ok_def [of ?d]
    by (simp add: db_ok_def d' has [unfolded d'] revision_ok_def)
qed

text \<open>A change of the quarantine that leaves nothing pending for a release past the draft.\<close>

lemma inv_quarantine:
  assumes inv: "db_ok d" and d': "d' = d \<lparr> db_quarantined := qs \<rparr>"
    and keyed: "quarantined_keyed qs"
    and has: "\<forall>q \<in> set qs. has_release d (q_release_key q)"
    and shape: "\<forall>q \<in> set qs. quarantine_row_ok q"
    and none: "\<forall>r \<in> set (db_releases d). r_phase r \<noteq> RELEASE_CANDIDATE_DRAFT \<longrightarrow>
                 pending_quarantine_count d' (r_key r) = 0"
  shows "db_ok d'"
proof -
  have round: "trusted_vote_round d' x = trusted_vote_round d x" for x
    by (rule trusted_vote_round_cong) (simp_all add: d')
  have latest: "latest_revision d' k = latest_revision d k" for k
    by (simp add: d' latest_revision_def)
  have link: "linked d' x" if "x \<in> set (db_releases d)" for x
    using invD(4) [OF inv that] none that unfolding linked_def round latest_revision_number_def latest
    by (simp add: d' votes_in_round_def)
  have has': "has_release d' k = has_release d k" for k by (simp add: has_release_def d')
  show ?thesis
    using inv link keyed has shape unfolding db_ok_def [of d']
    by (simp add: db_ok_def d' has' [unfolded d'] one_round_per_vote_def revision_ok_def ballot_ok_def)
qed

end
