(* ===== verification/PreserveReleases.thy ===== *)
theory PreserveReleases
  imports Invariant
begin

text \<open>
  The operations on releases, revisions, the quarantine and the catalogue keep the invariant.
\<close>

section \<open>Operations that leave the life of a release alone\<close>

text \<open>The columns that the invariant reads.\<close>

definition lifecycle_view where
  "lifecycle_view r =
     ((r_key r, r_project_key r, r_version r), (r_phase r, r_released r),
      (r_archived r, r_is_archived r, r_archive_source r),
      (r_expedited r, r_vote_mode r, r_voted_revision_number r, r_current_vote_seq r),
      (r_vote_started r, r_vote_resolved r, r_podling_thread_id r, r_vote_thread_url r))"

lemma lifecycle_view_eq:
  assumes "lifecycle_view r' = lifecycle_view r"
  shows "row_ok r' = row_ok r" and "linked d r' = linked d r"
proof -
  show "row_ok r' = row_ok r" using assms by (simp add: lifecycle_view_def row_ok_def)
  have "trusted_vote_round d r' = trusted_vote_round d r"
    by (rule trusted_vote_round_cong) (use assms in \<open>simp_all add: lifecycle_view_def\<close>)
  then show "linked d r' = linked d r" using assms by (simp add: lifecycle_view_def linked_def)
qed

lemma inv_update_idle:
  assumes inv: "db_ok d" and view: "\<And>r. lifecycle_view (F r) = lifecycle_view r"
  shows "db_ok (update_release d W F)"
proof (rule inv_update [OF inv])
  show "keeps_identity F" using view by (simp add: keeps_identity_def lifecycle_view_def)
  show "row_ok (F r) \<and> linked d (F r)" if "r \<in> set (db_releases d)" for r
    using lifecycle_view_eq [OF view] invD(3,4) [OF inv that] by simp
qed

lemma idle_columns:
  "lifecycle_view (commit_columns now c r) = lifecycle_view r"
  "lifecycle_view (cache_key_column u r) = lifecycle_view r"
  "lifecycle_view (r \<lparr> r_download_path_suffix := sfx \<rparr>) = lifecycle_view r"
  "lifecycle_view (r \<lparr> r_activity_at := t, r_inactivity_notice_key := n \<rparr>) = lifecycle_view r"
  by (simp_all add: lifecycle_view_def commit_columns_def cache_key_column_def Let_def split: option.split)

lemma add_task_core: "add_task d t = (t', d') \<Longrightarrow> same_core d d'"
  by (auto simp: add_task_def Let_def same_core_def)

lemma inv_queue [simp]:
  "db_ok d \<Longrightarrow> db_ok (queue_task d t)"
  "db_ok d \<Longrightarrow> db_ok (queue_regeneration rq d uid k)"
  "db_ok d \<Longrightarrow> db_ok (queue_svn_unpublish rq d uid r)"
  "db_ok d \<Longrightarrow> db_ok (add_event d e)"
  "db_ok d \<Longrightarrow> db_ok (queue_full_regeneration rq d uid)"
  by (auto simp: queue_full_regeneration_def intro: inv_same_core)

section \<open>Releases: start, publish, archive, delete\<close>

lemma ensure_cycle_core: "ensure_cycle d pk n = (k, d') \<Longrightarrow> same_core d d'"
  by (auto simp: ensure_cycle_def Let_def same_core_def split: if_splits)

lemma new_release_ok:
  "row_ok ((new_release now pk v ck RELEASE_CANDIDATE_DRAFT)
     \<lparr> r_archive_prior_release := a, r_expedited := e, r_download_path_suffix := s \<rparr>)"
  "row_ok ((new_release now pk v ck RELEASE) \<lparr> r_released := Some t, r_activity_at := u \<rparr>)"
  by (simp_all add: row_ok_def new_release_def)

lemma start_release_inv:
  assumes inv: "db_ok d"
    and start: "start_release_record rq si d pk v auto expedited suffix = Inr (r, d')"
  shows "db_ok d'" and "insert_release (snd (ensure_cycle d pk (projr (si_cycle si)))) r = Inr d'"
    and "r_phase r = RELEASE_CANDIDATE_DRAFT" and "release_get d pk v = None"
    and "r_current_vote_seq r = None" and "r_key r = release_key pk v"
proof -
  from start obtain p ck d1 where p: "sel_one (\<lambda>p. p_key p = pk \<and> p_status p = PS_ACTIVE) (db_projects d) = Some p"
    and none: "assert_no_existing_release d (p_key p) v = Inr ()"
    and cyc: "ensure_project_cycle si d (p_key p) = Inr (ck, d1)"
    and ins: "insert_release d1 r = Inr d'"
    and r: "\<exists>sfx. r = (new_release (rq_now rq) (p_key p) v ck RELEASE_CANDIDATE_DRAFT)
                \<lparr> r_archive_prior_release := auto, r_expedited := expedited, r_download_path_suffix := sfx \<rparr>"
    unfolding start_release_record_def Let_def by (auto simp: bindE_Inr_iff)
  have pk: "p_key p = pk" using sel_one_Some_in [OF p] by simp
  obtain n where n: "si_cycle si = Inr n" "ensure_cycle d pk n = (ck, d1)"
    using cyc pk by (auto simp: ensure_project_cycle_def split: sum.splits)
  have "db_ok d1" using inv ensure_cycle_core [OF n(2)] by (rule inv_same_core)
  then show "db_ok d'"
    by (rule inv_insert_release [OF _ ins]) (use r new_release_ok in \<open>auto simp: new_release_def\<close>)
  show "insert_release (snd (ensure_cycle d pk (projr (si_cycle si)))) r = Inr d'"
    using n ins by simp
  show "r_phase r = RELEASE_CANDIDATE_DRAFT" using r by (auto simp: new_release_def)
  show "r_current_vote_seq r = None" and "r_key r = release_key pk v"
    using r pk by (auto simp: new_release_def)
  show "release_get d pk v = None"
    using none pk by (simp add: assert_no_existing_release_def split: option.splits)
qed

lemma ensure_release_object_cases:
  assumes "ensure_release_object_for_write now d pk v = Inr d'"
  obtains (kept) r where "d' = d" "release_get d pk v = Some r" "r_phase r = RELEASE_CANDIDATE_DRAFT"
  | (made) "release_get d pk v = None" "version_key_error v = None"
      "insert_release d (new_release now pk v (pk @ ''-default'') RELEASE_CANDIDATE_DRAFT) = Inr d'"
proof (cases "release_get d pk v")
  case None
  then obtain p where p: "sel_one (\<lambda>p. p_key p = pk \<and> p_status p = PS_ACTIVE) (db_projects d) = Some p"
    and ins: "version_key_error v = None"
      "insert_release d (new_release now (p_key p) v (p_key p @ ''-default'') RELEASE_CANDIDATE_DRAFT) = Inr d'"
    using assms by (auto simp: ensure_release_object_for_write_def bindE_Inr_iff split: option.splits)
  have "p_key p = pk" using sel_one_Some_in [OF p] by simp
  then show ?thesis using made None ins by simp
next
  case (Some r)
  then show ?thesis using assms kept by (auto simp: ensure_release_object_for_write_def split: if_splits)
qed

lemma ensure_release_object_inv:
  assumes inv: "db_ok d" and "ensure_release_object_for_write now d pk v = Inr d'"
  shows "db_ok d'"
  using assms(2)
proof (cases rule: ensure_release_object_cases)
  case (kept r)
  then show ?thesis using inv by simp
next
  case made
  show ?thesis
    by (rule inv_insert_release [OF inv made(3)]) (use new_release_ok in \<open>auto simp: new_release_def\<close>)
qed

lemma inv_suffix_and_task:
  assumes "db_ok d"
    and "add_task (update_release d W (\<lambda>x. x \<lparr> r_download_path_suffix := sfx \<rparr>)) t0 = (t, d')"
  shows "db_ok d'"
  using inv_update_idle [OF assms(1)] add_task_core [OF assms(2)]
  by (rule inv_same_core) (simp add: idle_columns)

lemma publish_to_svn_inv:
  assumes "db_ok d" and "publish_to_svn rq sec ok d pk v n sfx u = Inr (t, d')"
  shows "db_ok d'"
  using assms unfolding publish_to_svn_def Let_def
  by (auto simp: bindE_Inr_iff elim: inv_suffix_and_task)

lemma bump_activity_inv:
  assumes "db_ok d" and "bump_activity rq d pk v = Inr (u, d')"
  shows "db_ok d'"
  using assms unfolding bump_activity_def Let_def
  by (auto simp: bindE_Inr_iff lifecycle_view_def split: if_splits intro: inv_update_idle)

text \<open>Archiving an announced release, and undoing it.\<close>

lemma linked_archive [simp]:
  "linked d (archive_values now src r) = linked d r"
  "linked d (clear_archive r) = linked d r"
  by (simp_all add: linked_def archive_values_def clear_archive_def trusted_vote_round_def
      release_committee_def release_project_def)

lemma row_ok_archive:
  "row_ok r \<Longrightarrow> r_phase r = RELEASE \<Longrightarrow> row_ok (archive_values now src r)"
  "row_ok r \<Longrightarrow> row_ok (clear_archive r)"
  by (simp_all add: row_ok_def archive_values_def clear_archive_def)

lemma archive_release_core_inv:
  assumes inv: "db_ok d" and r: "r \<in> set (db_releases d)"
    and arch: "archive_release_core rq d r src = (e, d')"
  shows "db_ok d'"
proof (cases "e = None")
  case True
  have ph: "r_phase r = RELEASE"
    using arch True by (auto simp: archive_release_core_def split: if_splits)
  let ?W = "\<lambda>x. r_key x = r_key r \<and> \<not> r_is_archived x"
  have "db_ok (update_release d ?W (archive_values (rq_now rq) src))"
  proof (rule inv_update [OF inv])
    show "keeps_identity (archive_values (rq_now rq) src)"
      by (simp add: keeps_identity_def archive_values_def)
    fix x assume x: "x \<in> set (db_releases d)" and W: "?W x"
    then have "x = r" using same_release [OF inv x r] by simp
    then show "row_ok (archive_values (rq_now rq) src x) \<and> linked d (archive_values (rq_now rq) src x)"
      using invD(3,4) [OF inv x] ph by (simp add: row_ok_archive)
  qed
  then show ?thesis
    using arch ph True by (auto simp: archive_release_core_def Let_def split: if_splits)
next
  case False
  then show ?thesis
    using arch inv by (auto simp: archive_release_core_def Let_def split: if_splits)
qed

lemma archive_release_core_Inr:
  assumes "archive_release rq d pk v = Inr (u, d')"
  obtains r where "release_get d pk v = Some r" and "r_phase r = RELEASE" and "\<not> r_is_archived r"
    and "archive_release_core rq d r AS_MANUAL = (None, d')"
proof -
  obtain r where r: "release_get d pk v = Some r" "r_phase r = RELEASE" "\<not> r_is_archived r"
    and m: "(case archive_release_core rq d r AS_MANUAL of
               (Some e, _) \<Rightarrow> Inl (access 409 e) | (None, d') \<Rightarrow> Inr ((), d')) = Inr (u, d')"
    using assms unfolding archive_release_def by (auto simp: bindE_Inr_iff)
  obtain e d1 where c: "archive_release_core rq d r AS_MANUAL = (e, d1)" by fastforce
  show thesis
    by (rule that [OF r]) (use m c in \<open>cases e; simp\<close>)
qed

lemma archive_release_inv:
  assumes inv: "db_ok d" and "archive_release rq d pk v = Inr (u, d')"
  shows "db_ok d'"
  using assms(2)
proof (rule archive_release_core_Inr)
  fix r assume r: "release_get d pk v = Some r" and a: "archive_release_core rq d r AS_MANUAL = (None, d')"
  have "r \<in> set (db_releases d)" using release_get_in [OF r] by simp
  then show ?thesis by (rule archive_release_core_inv [OF inv _ a])
qed

lemma archive_by_watcher_inv:
  assumes inv: "db_ok d" and w: "archive_by_watcher rq d pk v = (e, d')"
  shows "db_ok d'"
proof (cases "release_get d pk v")
  case None
  then show ?thesis using assms by (simp add: archive_by_watcher_def)
next
  case (Some r)
  then have a: "archive_release_core rq d r AS_DIST_WATCHER = (e, d')"
    using w by (simp add: archive_by_watcher_def)
  have "r \<in> set (db_releases d)" using release_get_in [OF Some] by simp
  then show ?thesis by (rule archive_release_core_inv [OF inv _ a])
qed

lemma inv_clear_archive: "db_ok d \<Longrightarrow> db_ok (update_release d W clear_archive)"
proof (rule inv_update)
  show "keeps_identity clear_archive" by (simp add: keeps_identity_def clear_archive_def)
  fix r assume "db_ok d" "r \<in> set (db_releases d)"
  then show "row_ok (clear_archive r) \<and> linked d (clear_archive r)"
    using invD(3,4) [of d r] by (simp add: row_ok_archive)
qed

lemma inv_withdraw: "db_ok d \<Longrightarrow> db_ok (withdraw_prior rq d r prior)"
  by (simp add: withdraw_prior_def split: option.split)

lemma revert_failed_archive_inv: "db_ok d \<Longrightarrow> db_ok (revert_failed_archive rq d pk v)"
  by (auto simp: revert_failed_archive_def intro: inv_withdraw inv_clear_archive split: option.split)

lemma artifacts_core: "same_core d (d \<lparr> db_artifacts := arts \<rparr>)"
  by (simp add: same_core_def)

lemma restore_catalogued_inv: "db_ok d \<Longrightarrow> db_ok (restore_catalogued_release rq d r arts)"
  unfolding restore_catalogued_release_def Let_def
  by (intro inv_queue inv_withdraw inv_same_core [OF _ artifacts_core] inv_clear_archive)

lemma catalogue_release_inv:
  assumes inv: "db_ok d" and cat: "catalogue_release rq cyc d pk v t arts = Inr (e, d')"
  shows "db_ok d'"
proof (cases "project_get d pk")
  case None
  then show ?thesis using inv cat by (simp add: catalogue_release_def)
next
  case p: (Some p)
  show ?thesis
  proof (cases "release_get d (p_key p) v")
    case (Some r)
    then show ?thesis
      using inv cat p by (auto simp: catalogue_release_def intro: restore_catalogued_inv split: if_splits)
  next
    case None
    obtain ck d1 where cyc: "ensure_cycle d (p_key p)
        (case cyc of Inl _ \<Rightarrow> ''default'' | Inr name \<Rightarrow> name) = (ck, d1)" by fastforce
    let ?r = "(new_release t (p_key p) v ck RELEASE) \<lparr> r_released := Some t, r_activity_at := rq_now rq \<rparr>"
    obtain d2 where ins: "insert_release d1 ?r = Inr d2"
      and d': "d' = queue_regeneration rq
          ((add_event d2 (event_row ?r EV_RELEASE t (rq_now rq) []))
             \<lparr> db_artifacts := db_artifacts (add_event d2 (event_row ?r EV_RELEASE t (rq_now rq) []))
                 @ catalogued_artifacts ?r arts \<rparr>) (rq_asf_uid rq) (Some (p_key p))"
      using cat p None cyc by (auto simp: catalogue_release_def Let_def bindE_Inr_iff)
    have "db_ok d1" using inv ensure_cycle_core [OF cyc] by (rule inv_same_core)
    then have "db_ok d2"
      by (rule inv_insert_release [OF _ ins new_release_ok(2)]) (simp_all add: new_release_def)
    then show ?thesis
      unfolding d' by (intro inv_queue inv_same_core [OF _ artifacts_core])
  qed
qed

lemma delete_body_inv:
  assumes "db_ok d" and "delete_body rq fs d r = (e, d')"
  shows "db_ok d'"
proof -
  have "drops_release d d' (r_key r)"
    using assms(2) by (auto simp: delete_body_def delete_release_def drops_release_def Let_def)
  then show ?thesis by (rule inv_drops [OF assms(1)])
qed

lemma delete_inv:
  "db_ok d \<Longrightarrow> delete_by_participant rq fs d pk v ph = Inr (e, d') \<Longrightarrow> db_ok d'"
  "db_ok d \<Longrightarrow> delete_by_admin rq fs d pk v = Inr (e, d') \<Longrightarrow> db_ok d'"
  "db_ok d \<Longrightarrow> delete_inactive rq fs d pk v dry = Inr (e, d') \<Longrightarrow> db_ok d'"
proof -
  show part: "db_ok d \<Longrightarrow> delete_by_participant rq fs d pk v ph = Inr (e, d') \<Longrightarrow> db_ok d'"
    by (auto simp: delete_by_participant_def bindE_Inr_iff split: if_splits intro: delete_body_inv)
  show adm: "db_ok d \<Longrightarrow> delete_by_admin rq fs d pk v = Inr (e, d') \<Longrightarrow> db_ok d'"
    by (auto simp: delete_by_admin_def bindE_Inr_iff intro: delete_body_inv)
  show "db_ok d \<Longrightarrow> delete_inactive rq fs d pk v dry = Inr (e, d') \<Longrightarrow> db_ok d'"
    by (auto simp: delete_inactive_def bindE_Inr_iff split: option.splits if_splits intro: adm)
qed

section \<open>Revisions and the quarantine\<close>

lemma foldl_queue_core: "same_core d (foldl (\<lambda>d x. queue_task d (f x)) d xs)"
proof (induction xs arbitrary: d)
  case Nil
  show ?case by simp
next
  case (Cons x xs)
  show ?case by (simp, rule same_core_trans [OF queue_task_core Cons.IH])
qed

lemma queue_checks_core: "same_core d (queue_checks rq d uid r n xs)"
  by (simp add: queue_checks_def foldl_queue_core)

lemma lock_and_merge_in:
  assumes "lock_and_merge m me d rk old = Inr (r, prior, mb)"
  shows "r \<in> set (db_releases d)" and "r_key r = rk"
    and "prior = map_option rev_key (latest_revision d rk)"
proof -
  obtain x where x: "release_by_key d rk = Some x"
    using assms by (auto simp: lock_and_merge_def bindE_Inr_iff)
  have "r = x \<and> prior = map_option rev_key (latest_revision d (r_key x))"
    using assms x by (cases old; cases "latest_revision d (r_key x)")
      (auto simp: lock_and_merge_def Let_def bindE_Inr_iff split: if_splits)
  then show "r \<in> set (db_releases d)" and "r_key r = rk"
    and "prior = map_option rev_key (latest_revision d rk)"
    using release_by_key_in [OF x] by simp_all
qed

lemma commit_new_revision_Inr:
  assumes "commit_new_revision rq u d uid r mb wq = Inr (new, d')"
  obtains d1 where
    "insert_revision d (new_revision (rq_now rq) uid r (up_description u) mb wq) = Inr (new, d1)"
    and "d' = queue_checks rq (update_release d1 (\<lambda>x. r_key x = r_key r)
                (commit_columns (rq_now rq) (up_commit_hash u))) uid r (rev_number new) (up_checks u)"
  using assms unfolding commit_new_revision_def Let_def by (auto simp: bindE_Inr_iff)

lemma commit_new_revision_inv:
  assumes inv: "db_ok d" and com: "commit_new_revision rq u d uid r mb wq = Inr (new, d')"
    and x: "x \<in> set (db_releases d)" "r_key x = r_key r" "r_phase x = RELEASE_CANDIDATE_DRAFT"
  shows "db_ok d'"
  using com
proof (rule commit_new_revision_Inr)
  fix d1 assume ins: "insert_revision d (new_revision (rq_now rq) uid r (up_description u) mb wq) = Inr (new, d1)"
    and d': "d' = queue_checks rq (update_release d1 (\<lambda>x. r_key x = r_key r)
                (commit_columns (rq_now rq) (up_commit_hash u))) uid r (rev_number new) (up_checks u)"
  have "db_ok d1" by (rule inv_insert_revision [OF inv ins x(1)]) (simp_all add: x new_revision_def)
  then have "db_ok (update_release d1 (\<lambda>x. r_key x = r_key r) (commit_columns (rq_now rq) (up_commit_hash u)))"
    by (rule inv_update_idle) (rule idle_columns)
  then show ?thesis unfolding d' by (rule inv_same_core [OF _ queue_checks_core])
qed

text \<open>The key of the latest revision names its release.\<close>

lemma latest_revision_key:
  assumes inv: "db_ok d" and "latest_revision d rk = Some v"
  shows "startswith (rev_key v) (rk @ '' '')"
proof -
  have v: "v \<in> set (db_revisions d)" "rev_release_key v = rk"
    using latest_revision_in [OF assms(2)] by simp_all
  have "startswith (rk @ '' '' @ n) (rk @ '' '')" for n
    using startswith_append [of "rk @ '' ''" n] by simp
  then show ?thesis using invD(6) [OF inv v(1)] v(2) by (simp add: revision_ok_def revision_key_def)
qed

lemma quarantine_stage_inv:
  assumes inv: "db_ok d" and st: "quarantine_stage rq u d uid rk prior = Inr (qid, d')"
    and prior: "prior = map_option rev_key (latest_revision d rk)"
    and x: "x \<in> set (db_releases d)" "r_key x = rk" "r_phase x = RELEASE_CANDIDATE_DRAFT"
  shows "db_ok d'"
proof -
  obtain q where d': "d' = d \<lparr> db_quarantined := db_quarantined d @ [q] \<rparr>"
    and q: "q_id q = next_id q_id (db_quarantined d)" "q_release_key q = rk"
    and row: "q_completed q = None" "q_status q = Q_STAGING" "q_prior_revision_key q = prior"
    using st by (auto simp: quarantine_stage_def Let_def bindE_Inr_iff)
  have "q_id q \<notin> q_id ` set (db_quarantined d)" unfolding q(1) by (rule next_id_fresh)
  then have keyed: "quarantined_keyed (db_quarantined d @ [q])"
    by (rule quarantines.ok_insert [OF invD(11) [OF inv]])
  have hasx: "has_release d rk" using x unfolding has_release_def by blast
  have "\<forall>p \<in> set (db_quarantined d @ [q]). has_release d (q_release_key p)"
    using inv_foreign_keys(3) [OF inv] hasx q(2) by simp
  moreover have "quarantine_row_ok q"
    using latest_revision_key [OF inv] by (auto simp: quarantine_row_ok_def row prior q(2))
  then have "\<forall>p \<in> set (db_quarantined d @ [q]). quarantine_row_ok p"
    using invD(12) [OF inv] by simp
  moreover have "pending_quarantine_count d' (r_key y) = 0"
    if y: "y \<in> set (db_releases d)" "r_phase y \<noteq> RELEASE_CANDIDATE_DRAFT" for y
  proof -
    have "r_key y \<noteq> rk" using same_release [OF inv y(1) x(1)] x y(2) by auto
    then show ?thesis
      using invD(4) [OF inv y(1)] y(2) q(2)
      by (simp add: linked_def pending_quarantine_count_def d' rowcount_def)
  qed
  ultimately show ?thesis by (intro inv_quarantine [OF inv d' keyed]) auto
qed

lemma create_revision_locked_inv:
  assumes inv: "db_ok d" and "create_revision_locked rq u d uid rk old = Inr (c, d')"
    and phases: "up_allowed_phases u = [RELEASE_CANDIDATE_DRAFT]"
  shows "db_ok d'"
proof -
  obtain r prior mb where lock: "lock_and_merge (up_merge u) (up_clone_from u = None) d rk old = Inr (r, prior, mb)"
    and ph: "r_phase r = RELEASE_CANDIDATE_DRAFT"
    and cont: "(let d1 = update_release d (\<lambda>x. r_key x = r_key r) (cache_key_column u) in
       if up_archives u \<and> up_deduped u
       then bindE (quarantine_stage rq u d1 uid rk prior) (\<lambda>(qid, d2). Inr (IN_QUARANTINE qid, d2))
       else bindE (commit_new_revision rq u d1 uid (cache_key_column u r) mb False) (\<lambda>(new, d2).
              Inr (CREATED new, d2))) = Inr (c, d')"
    using assms(2) phases unfolding create_revision_locked_def Let_def by (auto simp: bindE_Inr_iff)
  note r = lock_and_merge_in [OF lock]
  let ?d1 = "update_release d (\<lambda>x. r_key x = r_key r) (cache_key_column u)"
  have ok1: "db_ok ?d1" by (rule inv_update_idle [OF inv]) (rule idle_columns)
  have view: "lifecycle_view (cache_key_column u r) = lifecycle_view r" by (rule idle_columns)
  have x: "cache_key_column u r \<in> set (db_releases ?d1)" "r_key (cache_key_column u r) = rk"
      "r_phase (cache_key_column u r) = RELEASE_CANDIDATE_DRAFT"
    using r ph view by (auto simp: update_release_set lifecycle_view_def)
  show ?thesis
  proof (cases "up_archives u \<and> up_deduped u")
    case True
    then obtain qid where "quarantine_stage rq u ?d1 uid rk prior = Inr (qid, d')"
      using cont by (auto simp: Let_def bindE_Inr_iff)
    moreover have "prior = map_option rev_key (latest_revision ?d1 rk)"
      using r(3) by (simp add: latest_revision_def)
    ultimately show ?thesis by (rule quarantine_stage_inv [OF ok1 _ _ x])
  next
    case False
    then obtain new where "commit_new_revision rq u ?d1 uid (cache_key_column u r) mb False = Inr (new, d')"
      using cont by (auto simp: Let_def bindE_Inr_iff)
    then show ?thesis by (rule commit_new_revision_inv [OF ok1 _ x(1) _ x(3)]) simp
  qed
qed

text \<open>
  Changing the status of one quarantined row.  A release past the draft has no staging or pending
  row, so it gets none as long as the row does not start to count.
\<close>

definition counts_pending :: "quarantined \<Rightarrow> bool" where
  "counts_pending q = (q_status q = Q_STAGING \<or> q_status q = Q_PENDING)"

lemma pending_zero:
  "pending_quarantine_count d rk = 0 \<longleftrightarrow>
     (\<forall>q \<in> set (db_quarantined d). q_release_key q = rk \<longrightarrow> \<not> counts_pending q)"
  by (auto simp: pending_quarantine_count_def rowcount_zero counts_pending_def)

lemma inv_quarantine_status:
  assumes inv: "db_ok d"
    and d': "d' = d \<lparr> db_quarantined := upd (\<lambda>q. q_id q = qid) F (db_quarantined d) \<rparr>"
    and F: "\<And>q. q_id (F q) = q_id q \<and> q_release_key (F q) = q_release_key q"
    and shape: "\<And>q. q \<in> set (db_quarantined d) \<Longrightarrow> q_id q = qid \<Longrightarrow> quarantine_row_ok q \<Longrightarrow> quarantine_row_ok (F q)"
    and less: "\<And>q. q \<in> set (db_quarantined d) \<Longrightarrow> q_id q = qid \<Longrightarrow> counts_pending (F q) \<Longrightarrow> counts_pending q"
  shows "db_ok d'"
proof -
  let ?qs = "upd (\<lambda>q. q_id q = qid) F (db_quarantined d)"
  have keyed: "quarantined_keyed ?qs"
    by (rule quarantines.ok_upd [OF invD(11) [OF inv]]) (simp add: F)
  have origin: "\<exists>p \<in> set (db_quarantined d). q_release_key p = q_release_key q \<and>
      (counts_pending q \<longrightarrow> counts_pending p)" if q: "q \<in> set ?qs" for q
  proof -
    obtain p where p: "p \<in> set (db_quarantined d)" "q = (if q_id p = qid then F p else p)"
      using q unfolding upd_set by blast
    then show ?thesis using F [of p] less [OF p(1)] by (intro bexI [OF _ p(1)]) simp
  qed
  have has: "\<forall>q \<in> set ?qs. has_release d (q_release_key q)"
    using origin inv_foreign_keys(3) [OF inv] by metis
  have rows: "\<forall>q \<in> set ?qs. quarantine_row_ok q"
    using invD(12) [OF inv] shape by (auto simp: upd_set)
  have "pending_quarantine_count d' (r_key r) = 0"
    if "r \<in> set (db_releases d)" "r_phase r \<noteq> RELEASE_CANDIDATE_DRAFT" for r
  proof -
    have "\<forall>p \<in> set (db_quarantined d). q_release_key p = r_key r \<longrightarrow> \<not> counts_pending p"
      using invD(4) [OF inv that(1)] that(2) by (simp add: linked_def pending_zero)
    moreover have "db_quarantined d' = ?qs" by (simp add: d')
    ultimately show ?thesis using origin unfolding pending_zero by metis
  qed
  then show ?thesis using inv_quarantine [OF inv d' keyed has rows] by blast
qed

lemma mark_failed_inv: "db_ok d \<Longrightarrow> db_ok (mark_failed rq d qid)"
  by (rule inv_quarantine_status [OF _ mark_failed_def]) (auto simp: counts_pending_def quarantine_row_ok_def)

lemma quarantined_get_in:
  "quarantined_get d qid = Some q \<Longrightarrow> q \<in> set (db_quarantined d) \<and> q_id q = qid"
  unfolding quarantined_get_def by (drule sel_one_Some_in) simp

lemma quarantine_queue_inv:
  assumes inv: "db_ok d" and q: "quarantined_get d qid = Some q" "q_status q = Q_STAGING"
  shows "db_ok (quarantine_queue rq d uid pk v qid)"
proof -
  let ?t = "new_task rq QUARANTINE_VALIDATE (A_QUARANTINE_VALIDATE qid) uid (Some pk) (Some v) None"
  let ?d = "queue_task d ?t"
  have qs: "db_quarantined ?d = db_quarantined d"
    by (simp add: queue_task_def add_task_def Let_def)
  have "db_ok ?d" using inv by simp
  then show ?thesis
  proof (rule inv_quarantine_status)
    show "quarantine_queue rq d uid pk v qid =
        ?d \<lparr> db_quarantined := upd (\<lambda>q. q_id q = qid) (\<lambda>q. q \<lparr> q_status := Q_PENDING \<rparr>) (db_quarantined ?d) \<rparr>"
      by (simp add: quarantine_queue_def qs)
    have pq: "p = q" if "p \<in> set (db_quarantined ?d)" "q_id p = qid" for p
      using quarantines.unique [OF invD(11) [OF inv]] that quarantined_get_in [OF q(1)]
      by (simp add: qs)
    show "counts_pending p" if "p \<in> set (db_quarantined ?d)" "q_id p = qid" for p
      using q(2) by (simp add: pq [OF that] counts_pending_def)
    show "quarantine_row_ok (p \<lparr> q_status := Q_PENDING \<rparr>)"
      if "p \<in> set (db_quarantined ?d)" "q_id p = qid" "quarantine_row_ok p" for p
      using that(3) q(2) unfolding pq [OF that(1,2)] by (simp add: quarantine_row_ok_def)
  qed simp
qed

lemma quarantine_remove_inv:
  assumes inv: "db_ok d"
  shows "db_ok (quarantine_remove d qid)"
proof (rule inv_quarantine [OF inv quarantine_remove_def])
  show "quarantined_keyed (del (\<lambda>q. q_id q = qid) (db_quarantined d))"
    by (rule quarantines.ok_del [OF invD(11) [OF inv]])
  show "\<forall>q \<in> set (del (\<lambda>q. q_id q = qid) (db_quarantined d)). has_release d (q_release_key q)"
    using inv_foreign_keys(3) [OF inv] by (simp add: del_set)
  show "\<forall>q \<in> set (del (\<lambda>q. q_id q = qid) (db_quarantined d)). quarantine_row_ok q"
    using invD(12) [OF inv] by (simp add: del_set)
  show "\<forall>r \<in> set (db_releases d). r_phase r \<noteq> RELEASE_CANDIDATE_DRAFT \<longrightarrow>
      pending_quarantine_count (quarantine_remove d qid) (r_key r) = 0"
    using inv_balls(1) [OF inv]
    by (auto simp: linked_def pending_zero quarantine_remove_def del_set)
qed

lemma finalise_revision_inv:
  assumes inv: "db_ok d" and fin: "finalise_revision rq u d q = Inr (new, d')"
    and q: "q \<in> set (db_quarantined d)" "q_status q = Q_PENDING"
  shows "db_ok d'"
proof -
  obtain r prior mb where lock: "lock_and_merge (up_merge u) True d (q_release_key q) (prior_revision d q)
      = Inr (r, prior, mb)"
    and com: "commit_new_revision rq (u \<lparr> up_description := q_description q \<rparr>) d (q_asf_uid q) r mb True
      = Inr (new, d')"
    using fin unfolding finalise_revision_def by (auto simp: bindE_Inr_iff)
  note r = lock_and_merge_in [OF lock]
  have "pending_quarantine_count d (r_key r) \<noteq> 0"
    using q r(2) by (auto simp: pending_zero counts_pending_def)
  then have "r_phase r = RELEASE_CANDIDATE_DRAFT"
    using invD(4) [OF inv r(1)] by (auto simp: linked_def)
  then show ?thesis using commit_new_revision_inv [OF inv com r(1)] by simp
qed

lemma quarantine_validate_inv:
  assumes inv: "db_ok d" and val: "quarantine_validate rq u ok ex d qid = (e, d')"
  shows "db_ok d'"
proof (cases "quarantined_get d qid")
  case None
  then show ?thesis using val inv by (simp add: quarantine_validate_def)
next
  case (Some q)
  note q = quarantined_get_in [OF Some]
  show ?thesis
  proof (cases "q_status q = Q_PENDING \<and> ok \<and> ex")
    case False
    then show ?thesis
      using val inv Some mark_failed_inv [OF inv] by (auto simp: quarantine_validate_def split: if_splits)
  next
    case True
    show ?thesis
    proof (cases "finalise_revision rq u d q")
      case (Inl x)
      then show ?thesis using val inv Some True by (simp add: quarantine_validate_def)
    next
      case (Inr y)
      obtain new d1 where y: "y = (new, d1)" by fastforce
      have "db_ok d1" using finalise_revision_inv [OF inv Inr [unfolded y]] q True by simp
      then show ?thesis
        using val Inr y Some True quarantine_remove_inv by (auto simp: quarantine_validate_def)
    qed
  qed
qed

lemma clear_quarantine_inv:
  assumes inv: "db_ok d" and "clear_quarantine rq d ck pk v qid = Inr (u, d')"
  shows "db_ok d'"
proof -
  have "d' = d \<lparr> db_quarantined := upd (\<lambda>q. q_id q = qid)
           (\<lambda>q. q \<lparr> q_status := Q_ACKNOWLEDGED \<rparr>) (db_quarantined d) \<rparr> \<and>
      (\<exists>r x. sel_one (\<lambda>q. q_id q = qid \<and> q_release_key q = r_key (r::release) \<and> q_status q = Q_FAILED)
              (db_quarantined d) = Some x)"
    using assms(2) unfolding clear_quarantine_def by (auto simp: bindE_Inr_iff)
  then obtain r x where d': "d' = d \<lparr> db_quarantined := upd (\<lambda>q. q_id q = qid)
           (\<lambda>q. q \<lparr> q_status := Q_ACKNOWLEDGED \<rparr>) (db_quarantined d) \<rparr>"
    and x: "sel_one (\<lambda>q. q_id q = qid \<and> q_release_key q = r_key (r::release) \<and> q_status q = Q_FAILED)
              (db_quarantined d) = Some x"
    by blast
  note xin = sel_one_Some_in [OF x]
  have failed: "q_status q = Q_FAILED" if "q \<in> set (db_quarantined d)" "q_id q = qid" for q
    using quarantines.unique [OF invD(11) [OF inv] that(1), of x] xin that(2) by simp
  show ?thesis
    by (rule inv_quarantine_status [OF inv d'])
      (auto simp: counts_pending_def quarantine_row_ok_def dest: failed)
qed

lemma set_tag_inv:
  assumes inv: "db_ok d" and "set_tag rq d ck pk v n tag = Inr (u, d')"
  shows "db_ok d'"
proof -
  obtain W t where d': "d' = d \<lparr> db_revisions := upd W (\<lambda>x. x \<lparr> rev_tag := t \<rparr>) (db_revisions d) \<rparr>"
    using assms(2) unfolding set_tag_def Let_def
    by (fastforce simp: bindE_Inr_iff split: if_splits option.splits)
  have latest: "latest_revision d' rk = map_option (\<lambda>x. if W x then x \<lparr> rev_tag := t \<rparr> else x) (latest_revision d rk)" for rk
  proof -
    have "sel (\<lambda>v. rev_release_key v = rk) (db_revisions d') =
        map (\<lambda>x. if W x then x \<lparr> rev_tag := t \<rparr> else x) (sel (\<lambda>v. rev_release_key v = rk) (db_revisions d))"
      by (simp add: d' sel_upd) (simp add: upd_def)
    then show ?thesis unfolding latest_revision_def by (simp add: max_by_key_map)
  qed
  have number: "latest_revision_number d' rk = latest_revision_number d rk" for rk
    by (cases "latest_revision d rk") (simp_all add: latest_revision_number_def latest)
  have round: "trusted_vote_round d' x = trusted_vote_round d x" for x
    by (rule trusted_vote_round_cong) (simp_all add: d')
  have link: "linked d' x = linked d x" for x
    unfolding linked_def number round by (simp add: latest) (simp add: d' pending_quarantine_count_def votes_in_round_def)
  have has: "has_release d' k = has_release d k" for k by (simp add: has_release_def d')
  have seqs: "map revision_seq (db_revisions d') = map revision_seq (db_revisions d)"
    by (simp add: d' map_upd revision_seq_def)
  have revs: "\<forall>v \<in> set (db_revisions d'). revision_ok d' v"
    using inv_balls(2) [OF inv] unfolding revision_ok_def has by (auto simp: d' upd_set)
  have rows: "\<forall>x \<in> set (db_releases d'). row_ok x \<and> linked d' x"
    using inv_balls(1) [OF inv] unfolding link by (simp add: d')
  show ?thesis
    using inv seqs revs rows unfolding db_ok_def [of d']
    by (simp add: db_ok_def d' has [unfolded d'] one_round_per_vote_def ballot_ok_def)
qed

section \<open>Announcing\<close>

lemma rowcount_one: "rowcount P t = 1 \<Longrightarrow> \<exists>r \<in> set t. P r"
  using rowcount_pos [of P t] by simp

lemma promote_inv:
  assumes inv: "db_ok d" and prom: "promote_in_database d r n now = Inr d'"
  shows "db_ok d'"
    and "\<exists>x \<in> set (db_releases d). r_key x = r_key r \<and> r_phase x = RELEASE_PREVIEW \<and>
           latest_revision_number d (r_key r) = Some n \<and> promote_values now x \<in> set (db_releases d')"
proof -
  let ?W = "promote_where d (r_key r) n"
  have one: "rowcount ?W (db_releases d) = 1"
    and d': "d' = (update_release d ?W (promote_values now))
        \<lparr> db_revisions := del (\<lambda>x. rev_release_key x = r_key r) (db_revisions d) \<rparr>"
    using prom by (auto simp: promote_in_database_def Let_def split: if_splits)
  obtain x where x: "x \<in> set (db_releases d)" "?W x" using rowcount_one [OF one] by blast
  note w = x(2) [unfolded promote_where_def]
  have rels: "y \<in> set (db_releases d') \<longleftrightarrow>
      (\<exists>z \<in> set (db_releases d). y = (if ?W z then promote_values now z else z))" for y
    by (simp add: d' update_release_set)
  show "\<exists>x \<in> set (db_releases d). r_key x = r_key r \<and> r_phase x = RELEASE_PREVIEW \<and>
           latest_revision_number d (r_key r) = Some n \<and> promote_values now x \<in> set (db_releases d')"
    using x w rels by fastforce
  have round: "trusted_vote_round d' z = trusted_vote_round d z" for z
    by (rule trusted_vote_round_cong) (simp_all add: d')
  have gone: "latest_revision d' (r_key r) = None"
    by (simp add: latest_revision_None d' del_set)
  have other: "linked d' z = linked d z" if "r_key z \<noteq> r_key r" for z
  proof (rule linked_cong)
    have "latest_revision d' (r_key z) = latest_revision d (r_key z)"
      unfolding latest_revision_def d' using that by simp (subst sel_del, auto)
    then show "link_view_eq d d' (r_key z)"
      by (simp add: link_view_eq_def pending_quarantine_count_def votes_in_round_def d')
  qed (rule round)
  have row: "row_ok y \<and> linked d' y" if y: "y \<in> set (db_releases d')" for y
  proof -
    obtain z where z: "z \<in> set (db_releases d)" "y = (if ?W z then promote_values now z else z)"
      using y rels by blast
    note okz = invD(3,4) [OF inv z(1)]
    show ?thesis
    proof (cases "r_key z = r_key r")
      case True
      then have "z = x" using same_release [OF inv z(1) x(1)] w by simp
      then have y: "y = promote_values now x" using z(2) x(2) by simp
      have "row_ok y" using okz(1) \<open>z = x\<close> w by (simp add: y row_ok_def promote_values_def)
      moreover have "pending_quarantine_count d' (r_key r) = pending_quarantine_count d (r_key r)"
        by (simp add: d' pending_quarantine_count_def)
      then have "linked d' y"
        using okz(2) \<open>z = x\<close> w gone
        by (simp add: y linked_def promote_values_def) (simp add: d')
      ultimately show ?thesis by simp
    next
      case False
      then have "y = z" using z(2) by (simp add: promote_where_def)
      then show ?thesis using okz other [OF False] by simp
    qed
  qed
  have keys: "map r_key (db_releases d') = map r_key (db_releases d)"
    by (simp add: d' update_release_def upd_def promote_values_def)
  have pvs: "map project_version (db_releases d') = map project_version (db_releases d)"
    by (simp add: d' update_release_def upd_def promote_values_def project_version_def)
  have has: "has_release d' k = has_release d k" for k
    unfolding has_release_def set_map [symmetric] keys ..
  have "releases_keyed (db_releases d')" using invD(1) [OF inv] keys by (simp add: releases_keyed_def)
  moreover have "distinct (map project_version (db_releases d'))" using invD(2) [OF inv] pvs by simp
  moreover have "distinct (map revision_seq (db_revisions d'))"
    using invD(5) [OF inv] by (simp add: d' del_def distinct_map_filter_key)
  moreover have "\<forall>v \<in> set (db_revisions d'). revision_ok d' v"
    using inv_balls(2) [OF inv] unfolding revision_ok_def has by (simp add: d' del_set)
  moreover have "\<forall>b \<in> set (db_ballots d'). ballot_ok d' b"
    using inv_balls(3) [OF inv] unfolding ballot_ok_def has by (simp add: d')
  moreover have "\<forall>q \<in> set (db_quarantined d'). has_release d' (q_release_key q)"
    using inv_foreign_keys(3) [OF inv] unfolding has by (simp add: d')
  moreover have "\<forall>q \<in> set (db_quarantined d'). quarantine_row_ok q"
    using invD(12) [OF inv] by (simp add: d')
  moreover have "ballots_keyed (db_ballots d')" "one_round_per_vote d'" "quarantined_keyed (db_quarantined d')"
    using invD(7,8,11) [OF inv] by (simp_all add: d' one_round_per_vote_def)
  ultimately show "db_ok d'" unfolding db_ok_def using row by blast
qed

lemma announce_queue_core: "same_core d (announce_queue rq env f d pk v latest subject t n)"
proof -
  have "same_core d (queue_regeneration rq (queue_task (queue_task (queue_task d a) b) c) u k)" for a b c u k
    by (meson queue_task_core queue_regeneration_core same_core_trans)
  then show ?thesis by (simp add: announce_queue_def Let_def)
qed

lemma as_access_error_Inr [simp]: "as_access_error m = Inr a \<longleftrightarrow> m = Inr a"
  by (auto simp: as_access_error_def split: sum.splits py_error.splits)

lemma announce_commit_Inr:
  assumes "announce_commit rq env f d pk v r latest subject t n = Inr d'"
  obtains d1 d2 e where "same_core d d1" and "promote_in_database d1 r latest (rq_now rq) = Inr d2"
    and "d' = add_event d2 e"
proof -
  obtain arts d2 where p: "promote_in_database
        ((announce_queue rq env f d pk v latest subject t n)
           \<lparr> db_artifacts := db_artifacts (announce_queue rq env f d pk v latest subject t n) @
               managed_artifacts r n (rq_now rq) arts \<rparr>) r latest (rq_now rq) = Inr d2"
    and d': "d' = add_event d2 (event_row r EV_RELEASE (rq_now rq) (rq_now rq)
                       [''https://lists.apache.org/list.html?'' @ af_email_to f])"
    using assms by (auto simp: announce_commit_def Let_def bindE_Inr_iff)
  show thesis
    by (rule that [OF same_core_trans [OF announce_queue_core artifacts_core] p d'])
qed

lemma announce_commit_inv:
  assumes inv: "db_ok d" and com: "announce_commit rq env f d pk v r latest subject t n = Inr d'"
  shows "db_ok d'"
  using com
proof (rule announce_commit_Inr)
  fix d1 d2 e
  assume core: "same_core d d1" and p: "promote_in_database d1 r latest (rq_now rq) = Inr d2"
    and d': "d' = add_event d2 e"
  have "db_ok d2" by (rule promote_inv(1) [OF inv_same_core [OF inv core] p])
  then show ?thesis by (simp add: d')
qed

text \<open>The choice of the prior release is one of the candidates.\<close>

definition picks_candidate :: "announce_env \<Rightarrow> bool" where
  "picks_candidate env = (\<forall>p v rs x. an_prior env p v rs = Some x \<longrightarrow> x \<in> set rs)"

lemma archive_prior_inv:
  assumes inv: "db_ok d" and pick: "picks_candidate env"
    and arch: "archive_prior_release rq env a d p r = (e, d')"
  shows "db_ok d'"
proof (cases "prior_release_for_archive env d p (r_version r)")
  case None
  then show ?thesis using inv arch by (simp add: archive_prior_release_def split: if_splits)
next
  case (Some x)
  then have x: "x \<in> set (db_releases d)"
    using pick unfolding picks_candidate_def prior_release_for_archive_def prior_candidates_def
    by (meson sel_set)
  obtain e1 d1 where c: "archive_release_core rq d x AS_AUTO_PRIOR = (e1, d1)" by fastforce
  have "db_ok d1" by (rule archive_release_core_inv [OF inv x c])
  then show ?thesis
    using inv arch Some c by (simp add: archive_prior_release_def split: if_splits option.splits)
qed

lemma announce_inv:
  assumes inv: "db_ok d" and pick: "picks_candidate env" and ann: "announce rq env f d ck pk v = (e, d')"
  shows "db_ok d'"
proof (cases "announce_guards rq env f d ck pk v")
  case (Inl x)
  then show ?thesis using inv ann by (simp add: announce_def)
next
  case (Inr y)
  obtain r p latest subject t n where y: "y = (r, p, latest, subject, t, n)" by (cases y)
  show ?thesis
  proof (cases "announce_commit rq env f d pk v r latest subject t n")
    case (Inl x)
    then show ?thesis using inv ann Inr y by (simp add: announce_def)
  next
    case c: (Inr d1)
    have "db_ok d1" by (rule announce_commit_inv [OF inv c])
    moreover have "archive_prior_release rq env (af_auto_archive_prior f) d1 p r = (e, d')"
      using ann Inr y c by (simp add: announce_def)
    ultimately show ?thesis using archive_prior_inv [OF _ pick] by blast
  qed
qed

lemma catalogue_archive_inv:
  assumes inv: "db_ok d" and cat: "catalogue_archive_release rq d rk = Inr (u, d')"
  shows "db_ok d'"
proof -
  let ?F = "\<lambda>x. x \<lparr> r_is_archived := True, r_archive_source := Some AS_CATALOG_ADMIN \<rparr>"
  obtain r where r: "release_by_key d rk = Some r" "\<not> r_is_archived r"
    and d': "d' = queue_full_regeneration rq (queue_svn_unpublish rq
        (update_release d (\<lambda>x. r_key x = rk) ?F) (rq_asf_uid rq) r) (rq_asf_uid rq)"
    using cat by (auto simp: catalogue_archive_release_def Let_def bindE_Inr_iff)
  have "db_ok (update_release d (\<lambda>x. r_key x = rk) ?F)"
  proof (rule inv_update [OF inv])
    show "keeps_identity ?F" by (simp add: keeps_identity_def)
    fix x assume x: "x \<in> set (db_releases d)"
    have "linked d (?F x) = linked d x"
      by (simp add: linked_def trusted_vote_round_def release_committee_def release_project_def)
    then show "row_ok (?F x) \<and> linked d (?F x)"
      using invD(3,4) [OF inv x] by (simp add: row_ok_def)
  qed
  then show ?thesis by (simp add: d')
qed

lemma catalogue_restore_inv:
  assumes inv: "db_ok d" and "catalogue_restore_release rq d rk = Inr (u, d')"
  shows "db_ok d'"
proof -
  have "d' = queue_full_regeneration rq (update_release d (\<lambda>x. r_key x = rk) clear_archive) (rq_asf_uid rq)"
    using assms(2) by (auto simp: catalogue_restore_release_def Let_def bindE_Inr_iff)
  then show ?thesis using inv by (simp add: inv_clear_archive)
qed

end
