(* ===== verification/PreserveVotes.thy ===== *)
theory PreserveVotes
  imports PreserveReleases
begin

text \<open>
  Casting a ballot, starting a vote and resolving one keep the invariant, with what each of them
  does when it succeeds.
\<close>

section \<open>Casting\<close>

lemma trusted_vote_round_Some:
  "release_committee d r = Some c \<Longrightarrow>
     trusted_vote_round d r =
       (if c_is_podling c then Some (if r_podling_thread_id r \<noteq> None then 2 else 1) else None)"
  by (simp add: trusted_vote_round_def vote_round_of_def)

definition ballot_cast :: "request \<Rightarrow> db \<Rightarrow> string \<Rightarrow> string \<Rightarrow> VoteChoice \<Rightarrow> db \<Rightarrow> bool" where
  "ballot_cast rq d pk v choice d' =
    (\<exists>r c seq t b is_binding p.
       release_get_phase d pk v RELEASE_CANDIDATE = Some r \<and> release_committee d r = Some c \<and>
       r_current_vote_seq r = Some seq \<and>
       is_binding_for_release (db_committees d) c (rq_asf_uid rq) (trusted_vote_round d r) = Inr (is_binding, p) \<and>
       d' = add_ballot (queue_task d t) b \<and> b_release_key b = r_key r \<and> b_vote_seq b = seq \<and>
       b_vote_round b = trusted_vote_round d r \<and> b_voter_asf_uid b = rq_asf_uid rq \<and>
       b_choice b = choice \<and> b_is_binding_at_cast b = is_binding)"

definition refused :: "string list \<Rightarrow> string \<Rightarrow> db \<Rightarrow> db \<Rightarrow> bool" where
  "refused to reason d d' = (to = [] \<and> reason \<noteq> [] \<and> d' = d)"

lemma refused_simp [simp]: "refused [] (c # reason) d d"
  by (simp add: refused_def)

lemma cast_trusted_split:
  assumes cast: "cast_trusted rq receipt d pk v choice comment fullname eseq emode = Inr ((to, reason), d')"
    and changed: "\<not> refused to reason d d'"
  shows "ballot_cast rq d pk v choice d' \<and> to \<noteq> [] \<and> reason = []"
proof -
  obtain r where r: "release_get_phase d pk v RELEASE_CANDIDATE = Some r"
    using cast changed by (cases "release_get_phase d pk v RELEASE_CANDIDATE") (auto simp: cast_trusted_def)
  note s1 = cast [unfolded cast_trusted_def r option.case]
  obtain seq where seq: "r_current_vote_seq r = Some seq"
    using s1 changed by (cases "r_current_vote_seq r") (auto split: if_splits)
  obtain c where c: "release_committee d r = Some c"
    using s1 seq changed by (cases "release_committee d r") (auto split: if_splits)
  obtain n where n: "latest_revision_number d (r_key r) = Some n"
    using s1 seq c changed by (cases "latest_revision_number d (r_key r)") (auto split: if_splits)
  obtain t where t: "release_current_vote_task d r = Some t"
    using s1 seq c n changed
    by (cases "release_current_vote_task d r") (auto simp: Let_def split: if_splits)
  obtain vi where vi: "t_result t = Some (RS_VOTE_INITIATE vi)"
    using s1 seq c n t changed
    by (cases "t_result t"; cases "the (t_result t)") (auto simp: Let_def split: if_splits)
  obtain mid where mid: "vi_mid vi = Some mid"
    using s1 seq c n t vi changed
    by (cases "vi_mid vi") (auto simp: Let_def split: if_splits)
  obtain ia where ia: "t_task_args t = A_INITIATE ia"
    using s1 seq c n t vi mid changed
    by (cases "t_task_args t") (auto simp: Let_def split: if_splits)
  let ?rnd = "if c_is_podling c then Some (if r_podling_thread_id r \<noteq> None then 2 else 1) else None"
  let ?ballot = "\<lambda>bd. \<lparr> b_id = 0, b_release_key = r_key r, b_vote_seq = seq, b_vote_round = ?rnd,
      b_voter_asf_uid = rq_asf_uid rq, b_voter_fullname = fullname, b_choice = choice,
      b_comment = comment, b_is_binding_at_cast = bd, b_revision_number_at_cast = n,
      b_receipt_message_id = receipt, b_created = rq_now rq \<rparr>"
  have "\<exists>bd bp T. is_binding_for_release (db_committees d) c (rq_asf_uid rq) ?rnd = Inr (bd, bp) \<and>
      d' = add_ballot (queue_task d T) (?ballot bd) \<and> to \<noteq> [] \<and> reason = []"
    using s1 seq c n t vi mid ia changed
    by (auto simp: Let_def bindE_Inr_iff split: if_splits)
  then obtain bd bp T where b: "is_binding_for_release (db_committees d) c (rq_asf_uid rq) ?rnd = Inr (bd, bp)"
    and d': "d' = add_ballot (queue_task d T) (?ballot bd)" and to: "to \<noteq> []" "reason = []" by blast
  have b': "is_binding_for_release (db_committees d) c (rq_asf_uid rq) (trusted_vote_round d r) = Inr (bd, bp)"
    unfolding trusted_vote_round_Some [OF c] by (rule b)
  show ?thesis
    unfolding ballot_cast_def
    by (intro exI [of _ r] exI [of _ c] exI [of _ seq] exI [of _ T] exI [of _ "?ballot bd"] exI [of _ bd]
        exI [of _ bp] conjI r c seq b' d' to) (simp_all add: trusted_vote_round_Some [OF c])
qed

lemma cast_trusted_cases:
  assumes "cast_trusted rq receipt d pk v choice comment fullname eseq emode = Inr (x, d')" and "d' \<noteq> d"
  shows "ballot_cast rq d pk v choice d'"
  using cast_trusted_split [of rq receipt d pk v choice comment fullname eseq emode "fst x" "snd x" d'] assms
  by (simp add: refused_def)

lemma cast_trusted_inv:
  assumes inv: "db_ok d"
    and cast: "cast_trusted rq receipt d pk v choice comment fullname eseq emode = Inr (x, d')"
  shows "db_ok d'"
proof (cases "d' = d")
  case False
  obtain r t b where r: "release_get_phase d pk v RELEASE_CANDIDATE = Some r"
    and d': "d' = add_ballot (queue_task d t) b"
    and b: "b_release_key b = r_key r" "r_current_vote_seq r = Some (b_vote_seq b)"
      "b_vote_round b = trusted_vote_round d r"
    using cast_trusted_cases [OF cast False] unfolding ballot_cast_def by blast
  note rin = release_get_phase_in [OF r]
  have core: "same_core d (queue_task d t)" by simp
  have "db_ok (add_ballot (queue_task d t) b)"
  proof (rule inv_add_ballot)
    show "db_ok (queue_task d t)" using inv by simp
    show "r \<in> set (db_releases (queue_task d t))" using rin core by (simp add: same_core_def)
    show "b_vote_round b = trusted_vote_round (queue_task d t) r"
      unfolding b(3) by (rule trusted_vote_round_cong [symmetric]) (use core in \<open>simp_all add: same_core_def\<close>)
  qed (use rin b in auto)
  then show ?thesis by (simp add: d')
qed (simp add: inv)

section \<open>Starting a vote\<close>

lemma start_vote_no_commit_Inr:
  assumes "start_vote_no_commit rq gate d rk er em promote ep ack = Inr ((r', s, m, n), d')"
  obtains r p d1 where "release_by_key d rk = Some r" and "demand_project d r = Inr p"
    and "latest_revision_number d (r_key r) = Some n"
    and "r_phase r = (if promote then RELEASE_CANDIDATE_DRAFT else RELEASE_CANDIDATE)"
    and "promote \<longrightarrow> pending_quarantine_count d (r_key r) = 0"
    and "promote \<longrightarrow> tasks_ongoing d (r_project_key r) (r_version r) n = 0"
    and "promote \<longrightarrow> vg_file_count gate \<noteq> 0" and "\<not> vg_blockers gate"
    and "(if promote then effective_vote_mode p r else demandE (access 409
            ''The release state has changed, please refresh and try again'') (r_vote_mode r)) = Inr m"
    and "vote_seq_allocate d (r_key r) = (s, d1)"
    and "r' = start_vote_values (rq_now rq) s promote m n r"
    and "d' = update_release d1
           (start_vote_where d1 (r_key r) (r_phase r) n promote ep) (start_vote_values (rq_now rq) s promote m n)"
    and "rowcount (start_vote_where d1 (r_key r) (r_phase r) n promote ep) (db_releases d1) = 1"
proof -
  obtain r p where r: "release_by_key d rk = Some r" "demand_project d r = Inr p"
    and n: "unwrap_revision_number d r = Inr n"
    and m: "(if promote then effective_vote_mode p r else demandE (access 409
            ''The release state has changed, please refresh and try again'') (r_vote_mode r)) = Inr m"
    and g: "promote \<longrightarrow> pending_quarantine_count d (r_key r) = 0"
      "promote \<longrightarrow> tasks_ongoing d (r_project_key r) (r_version r) n = 0"
      "promote \<longrightarrow> vg_file_count gate \<noteq> 0" "\<not> vg_blockers gate"
    and ph: "r_phase r = (if promote then RELEASE_CANDIDATE_DRAFT else RELEASE_CANDIDATE)"
    and rest: "(case vote_seq_allocate d (r_key r) of (vote_seq, d1) \<Rightarrow>
          (let W = start_vote_where d1 (r_key r) (if promote then RELEASE_CANDIDATE_DRAFT else RELEASE_CANDIDATE) n promote ep;
               F = start_vote_values (rq_now rq) vote_seq promote m n
           in if rowcount W (db_releases d1) \<noteq> 1
              then Inl (access 409 ''A newer revision appeared, please refresh and try again.'')
              else Inr ((F r, vote_seq, m, n), update_release d1 W F))) = Inr ((r', s, m, n), d')"
    using assms unfolding start_vote_no_commit_def
    by (clarsimp simp: bindE_Inr_iff Let_def split del: if_split) (auto split: prod.splits if_splits)
  obtain d1 where d1: "vote_seq_allocate d (r_key r) = (s, d1)"
    using rest by (auto simp: Let_def split: prod.splits if_splits)
  have "latest_revision_number d (r_key r) = Some n"
    using n by (simp add: unwrap_revision_number_def split: option.splits)
  then show thesis
    using that [OF r _ ph g m d1] rest d1 ph by (auto simp: Let_def split: if_splits)
qed

lemma effective_vote_mode_expedited:
  "effective_vote_mode p r = Inr m \<Longrightarrow> r_expedited r \<Longrightarrow> m = TRUSTED"
  by (simp add: effective_vote_mode_def split: if_splits)

lemma start_vote_values_sels [simp]:
  "r_key (start_vote_values now s promote m n r) = r_key r"
  "r_project_key (start_vote_values now s promote m n r) = r_project_key r"
  "r_version (start_vote_values now s promote m n r) = r_version r"
  "r_current_vote_seq (start_vote_values now s promote m n r) = Some s"
  "r_podling_thread_id (start_vote_values now s promote m n r) = r_podling_thread_id r"
  "r_phase (start_vote_values now s promote m n r) = (if promote then RELEASE_CANDIDATE else r_phase r)"
  "r_vote_mode (start_vote_values now s promote m n r) = (if promote then Some m else r_vote_mode r)"
  "r_voted_revision_number (start_vote_values now s promote m n r) =
     (if promote then Some n else r_voted_revision_number r)"
  "r_expedited (start_vote_values now s promote m n r) = r_expedited r"
  "r_released (start_vote_values now s promote m n r) = r_released r"
  by (simp_all add: start_vote_values_def bump_columns_def Let_def)

lemma start_vote_values_ok:
  assumes row: "row_ok r"
    and ph: "r_phase r = (if promote then RELEASE_CANDIDATE_DRAFT else RELEASE_CANDIDATE)"
    and mode: "promote \<longrightarrow> r_expedited r \<longrightarrow> m = TRUSTED"
  shows "row_ok (start_vote_values now s promote m n r)"
  using assms by (cases promote) (auto simp: row_ok_def start_vote_values_def bump_columns_def Let_def)

lemma start_vote_no_commit_inv:
  assumes inv: "db_ok d"
    and start: "start_vote_no_commit rq gate d rk er em promote ep ack = Inr ((r', s, m, n), d')"
  shows "db_ok d'"
  using start
proof (rule start_vote_no_commit_Inr)
  fix r p d1
  assume r: "release_by_key d rk = Some r" and "demand_project d r = Inr p"
    and n: "latest_revision_number d (r_key r) = Some n"
    and ph: "r_phase r = (if promote then RELEASE_CANDIDATE_DRAFT else RELEASE_CANDIDATE)"
    and pend: "promote \<longrightarrow> pending_quarantine_count d (r_key r) = 0"
    and mode: "(if promote then effective_vote_mode p r else demandE (access 409
            ''The release state has changed, please refresh and try again'') (r_vote_mode r)) = Inr m"
    and alloc: "vote_seq_allocate d (r_key r) = (s, d1)"
    and d': "d' = update_release d1
           (start_vote_where d1 (r_key r) (r_phase r) n promote ep) (start_vote_values (rq_now rq) s promote m n)"
  note rin = release_by_key_in [OF r]
  note al = inv_vote_seq_allocate [OF inv alloc]
  let ?W = "start_vote_where d1 (r_key r) (r_phase r) n promote ep"
  let ?F = "start_vote_values (rq_now rq) s promote m n"
  have latest: "latest_revision d1 k = latest_revision d k" for k
    by (simp add: al(4) latest_revision_def)
  have "db_ok (update_release d1 ?W ?F)"
  proof (rule inv_update [OF al(1)])
    show "keeps_identity ?F" by (simp add: keeps_identity_def)
    fix x assume x: "x \<in> set (db_releases d1)" and W: "?W x"
    have "r \<in> set (db_releases d1)" using rin by (simp add: al(4))
    then have xr: "x = r" using same_release [OF al(1) x] W by (simp add: start_vote_where_def)
    have row: "row_ok (?F r)"
      using mode effective_vote_mode_expedited [of p r m] ph
      by (intro start_vote_values_ok invD(3) [OF inv]) (auto simp: rin)
    have link: "linked d r" by (rule invD(4) [OF inv]) (simp add: rin)
    have pend1: "pending_quarantine_count d1 (r_key r) = 0"
      using pend link ph by (cases promote) (auto simp: linked_def al(4) pending_quarantine_count_def)
    have voted: "(if promote then Some n else r_voted_revision_number r) = latest_revision_number d1 (r_key r)"
      using link ph n by (cases promote) (auto simp: linked_def latest_revision_number_def latest)
    have "linked d1 (?F r)"
      unfolding linked_def using voted pend1 al(2,3) ph by auto
    then show "row_ok (?F x) \<and> linked d1 (?F x)" using row xr by simp
  qed
  then show ?thesis by (simp add: d')
qed

lemma start_vote_task_Inr:
  assumes "start_vote_task rq rc d1 pk v form r s m = Inr (t, d')"
  shows "\<exists>d2 t0 ia. ((\<exists>sfx. d2 = update_release d1 (\<lambda>x. r_key x = r_key r)
             (\<lambda>x. x \<lparr> r_download_path_suffix := sfx \<rparr>)) \<or> d2 = d1) \<and>
           add_task d2 t0 = (t, d') \<and> t_task_args t0 = A_INITIATE ia \<and> ia_vote_seq ia = Some s \<and>
           ia_release_key ia = r_key r \<and> t_task_type t0 = VOTE_INITIATE"
proof -
  have "\<exists>f b sfx. add_task (if b then update_release d1 (\<lambda>x. r_key x = r_key r)
             (\<lambda>x. x \<lparr> r_download_path_suffix := sfx \<rparr>) else d1)
      (new_task rq VOTE_INITIATE (A_INITIATE (initiate_args_of (rq_asf_uid rq) (r_key r) s f))
         (rq_asf_uid rq) (Some pk) (Some v) None) = (t, d')"
    using assms unfolding start_vote_task_def Let_def
    by (clarsimp simp: bindE_Inr_iff split del: if_split) blast
  then obtain f b sfx where add: "add_task (if b then update_release d1 (\<lambda>x. r_key x = r_key r)
             (\<lambda>x. x \<lparr> r_download_path_suffix := sfx \<rparr>) else d1)
      (new_task rq VOTE_INITIATE (A_INITIATE (initiate_args_of (rq_asf_uid rq) (r_key r) s f))
         (rq_asf_uid rq) (Some pk) (Some v) None) = (t, d')" by blast
  show ?thesis
    by (rule exI, rule exI, rule exI, rule conjI [OF _ conjI [OF add]])
      (auto simp: new_task_def initiate_args_of_def)
qed

lemma start_vote_Inr:
  assumes "start_vote rq gate rc d pk v form promote em er ack = Inr (t, d')"
  obtains r0 r s m n d1 where "release_get d pk v = Some r0"
    and "start_vote_no_commit rq gate d (r_key r0) er (if promote then em else None) promote
           (if promote then None else r_podling_thread_id r0) (if promote then ack else []) = Inr ((r, s, m, n), d1)"
    and "start_vote_task rq rc d1 pk v form r s m = Inr (t, d')"
proof -
  have "\<exists>r0 r s m n d1. release_get d pk v = Some r0 \<and>
    start_vote_no_commit rq gate d (r_key r0) er (if promote then em else None) promote
       (if promote then None else r_podling_thread_id r0) (if promote then ack else []) = Inr ((r, s, m, n), d1) \<and>
    start_vote_task rq rc d1 pk v form r s m = Inr (t, d')"
    using assms unfolding start_vote_def
    by (cases promote) (clarsimp simp: bindE_Inr_iff split: prod.splits; blast)+
  then show thesis using that by blast
qed

lemma start_vote_task_inv:
  assumes ok: "db_ok d1" and task: "start_vote_task rq rc d1 pk v form r s m = Inr (t, d')"
  shows "db_ok d'"
proof -
  obtain d2 t0 where d2: "(\<exists>sfx. d2 = update_release d1 (\<lambda>x. r_key x = r_key r)
             (\<lambda>x. x \<lparr> r_download_path_suffix := sfx \<rparr>)) \<or> d2 = d1" and t0: "add_task d2 t0 = (t, d')"
    using start_vote_task_Inr [OF task] by blast
  have "db_ok d2" using d2 inv_update_idle [OF ok] idle_columns(3) ok by metis
  then show ?thesis using add_task_core [OF t0] by (rule inv_same_core)
qed

lemma start_vote_inv:
  assumes inv: "db_ok d" and start: "start_vote rq gate rc d pk v form promote em er ack = Inr (t, d')"
  shows "db_ok d'"
  using start by (rule start_vote_Inr) (blast intro: start_vote_task_inv start_vote_no_commit_inv [OF inv])

section \<open>Resolving\<close>

lemma transition_values_sels [simp]:
  "r_key (transition_values now ph mode res pod url r) = r_key r"
  "r_project_key (transition_values now ph mode res pod url r) = r_project_key r"
  "r_version (transition_values now ph mode res pod url r) = r_version r"
  "r_phase (transition_values now ph mode res pod url r) = ph"
  "r_vote_mode (transition_values now ph mode res pod url r) = mode"
  "r_vote_resolved (transition_values now ph mode res pod url r) = res"
  "r_podling_thread_id (transition_values now ph mode res pod url r) = pod"
  "r_current_vote_seq (transition_values now ph mode res pod url r) = r_current_vote_seq r"
  "r_expedited (transition_values now ph mode res pod url r) = r_expedited r"
  "r_released (transition_values now ph mode res pod url r) = r_released r"
  "r_voted_revision_number (transition_values now ph mode res pod url r) =
     (if ph = RELEASE_CANDIDATE_DRAFT then None else r_voted_revision_number r)"
  by (simp_all add: transition_values_def bump_columns_def Let_def)

text \<open>The outcomes that a resolution gives to a candidate, and what they need.\<close>

definition outcome_ok :: "release \<Rightarrow> ReleasePhase \<Rightarrow> VoteMode option \<Rightarrow> int option \<Rightarrow> string option \<Rightarrow> string option \<Rightarrow> bool" where
  "outcome_ok r ph mode res pod url =
     ((ph = RELEASE_PREVIEW \<and> mode \<noteq> None \<and> res \<noteq> None \<or>
       ph = RELEASE_CANDIDATE \<and> mode \<noteq> None \<and> res = None \<and> url = None \<or>
       ph = RELEASE_CANDIDATE_DRAFT \<and> mode = None \<and> res = None \<and> pod = None \<and> url = None) \<and>
      (r_expedited r \<longrightarrow> mode = None \<or> mode = Some TRUSTED))"

lemma transition_row_ok:
  assumes "row_ok r" and "r_phase r = RELEASE_CANDIDATE" and "outcome_ok r ph mode res pod url"
  shows "row_ok (transition_values now ph mode res pod url r)"
  using assms
  by (cases ph) (auto simp: row_ok_def outcome_ok_def transition_values_def bump_columns_def Let_def)

lemma resolve_transition_Inr:
  assumes "resolve_transition rq d r eph ep ph mode res pod url = Inr d'"
  shows "same_core (update_release d (transition_where r eph ep)
            (transition_values (rq_now rq) ph mode res pod url)) d'"
    and "rowcount (transition_where r eph ep) (db_releases d) = 1"
  using assms
  by (auto simp: resolve_transition_def Let_def cancel_pending_vote_followups_def same_core_def split: if_splits)

lemma resolve_transition_inv:
  assumes inv: "db_ok d" and r: "r \<in> set (db_releases d)"
    and tr: "resolve_transition rq d r RELEASE_CANDIDATE ep ph mode res pod url = Inr d'"
    and out: "outcome_ok r ph mode res pod url" and ph: "ph \<noteq> RELEASE_CANDIDATE"
  shows "db_ok d'"
proof -
  let ?F = "transition_values (rq_now rq) ph mode res pod url"
  have "db_ok (update_release d (transition_where r RELEASE_CANDIDATE ep) ?F)"
  proof (rule inv_update [OF inv])
    show "keeps_identity ?F" by (simp add: keeps_identity_def)
    fix x assume x: "x \<in> set (db_releases d)" and W: "transition_where r RELEASE_CANDIDATE ep x"
    have xr: "x = r" using same_release [OF inv x r] W by (simp add: transition_where_def)
    have cand: "r_phase r = RELEASE_CANDIDATE" using W xr by (simp add: transition_where_def)
    have "row_ok (?F r)" by (rule transition_row_ok [OF invD(3) [OF inv r] cand out])
    moreover have "linked d (?F r)"
      using invD(4) [OF inv r] cand out ph by (auto simp: linked_def outcome_ok_def)
    ultimately show "row_ok (?F x) \<and> linked d (?F x)" by (simp add: xr)
  qed
  then show ?thesis using resolve_transition_Inr(1) [OF tr] by (rule inv_same_core)
qed

text \<open>
  Passing the first round of a podling: between the transition and the start of the second vote the
  old ballots would belong to the wrong round, but the two happen in one transaction, and together
  they are one update of the row with a new vote number.
\<close>

lemma round_two_one_update:
  assumes uniq: "\<And>x y. x \<in> set rs \<Longrightarrow> y \<in> set rs \<Longrightarrow> r_key x = r_key y \<Longrightarrow> x = y"
    and W1: "rowcount W1 rs = 1" "\<And>x. W1 x \<Longrightarrow> r_key x = rk"
    and W2: "rowcount W2 (upd W1 F1 rs) = 1" "\<And>x. W2 x \<Longrightarrow> r_key x = rk"
    and key: "\<And>x. r_key (F1 x) = r_key x"
  shows "upd W2 F2 (upd W1 F1 rs) = upd (\<lambda>x. r_key x = rk) (F2 \<circ> F1) rs"
proof -
  obtain x1 where x1: "x1 \<in> set rs" "W1 x1" using rowcount_one [OF W1(1)] by blast
  obtain y where y: "y \<in> set (upd W1 F1 rs)" "W2 y" using rowcount_one [OF W2(1)] by blast
  obtain z where z: "z \<in> set rs" "y = (if W1 z then F1 z else z)" using y(1) unfolding upd_set by blast
  have "r_key z = rk" using W2(2) [OF y(2)] z(2) key by (cases "W1 z") simp_all
  then have "z = x1" using uniq [OF z(1) x1(1)] W1(2) [OF x1(2)] by simp
  then have w2: "W2 (F1 x1)" using y(2) z(2) x1(2) by simp
  have "(if W2 (if W1 x then F1 x else x) then F2 (if W1 x then F1 x else x) else (if W1 x then F1 x else x)) =
      (if r_key x = rk then (F2 \<circ> F1) x else x)" if x: "x \<in> set rs" for x
  proof (cases "r_key x = rk")
    case True
    then have "x = x1" using uniq [OF x x1(1)] W1(2) [OF x1(2)] by simp
    then show ?thesis using w2 x1(2) True by simp
  next
    case False
    then have "\<not> W1 x" "\<not> W2 x" using W1(2) W2(2) by blast+
    then show ?thesis using False by simp
  qed
  then show ?thesis by (simp add: upd_def)
qed

lemma vote_seq_allocate_eq:
  "vote_seq_allocate d rk =
     (counter_next (db_vote_counter d) rk,
      d \<lparr> db_vote_counter := (db_vote_counter d)(rk \<mapsto> counter_next (db_vote_counter d) rk) \<rparr>)"
  by (simp add: vote_seq_allocate_def Let_def)

lemma inv_round_two:
  assumes inv: "db_ok d" and r: "r \<in> set (db_releases d)"
    and mode: "r_expedited r \<longrightarrow> mode = TRUSTED"
    and tr: "resolve_transition rq d r RELEASE_CANDIDATE None RELEASE_CANDIDATE (Some mode) None (Some th) None
               = Inr da"
    and start: "start_vote_no_commit rq gate da (r_key r) er None False ep [] = Inr ((r', s, m, n), d')"
  shows "db_ok d'"
proof -
  let ?F1 = "transition_values (rq_now rq) RELEASE_CANDIDATE (Some mode) None (Some th) None"
  let ?W1 = "transition_where r RELEASE_CANDIDATE None"
  note one = resolve_transition_Inr [OF tr]
  have core: "same_core (update_release d ?W1 ?F1) da" by (rule one(1))
  obtain x1 where x1: "x1 \<in> set (db_releases d)" "?W1 x1" using rowcount_one [OF one(2)] by blast
  have x1r: "x1 = r" using same_release [OF inv x1(1) r] x1(2) by (simp add: transition_where_def)
  have cand: "r_phase r = RELEASE_CANDIDATE" using x1(2) x1r by (simp add: transition_where_def)
  have rels: "db_releases da = upd ?W1 ?F1 (db_releases d)"
    using core by (simp add: same_core_def update_release_def)
  show ?thesis
    using start
  proof (rule start_vote_no_commit_Inr)
    fix q p d1
    assume q: "release_by_key da (r_key r) = Some q" and n: "latest_revision_number da (r_key q) = Some n"
      and alloc: "vote_seq_allocate da (r_key q) = (s, d1)"
      and d': "d' = update_release d1 (start_vote_where d1 (r_key q) (r_phase q) n False ep)
           (start_vote_values (rq_now rq) s False m n)"
      and count: "rowcount (start_vote_where d1 (r_key q) (r_phase q) n False ep) (db_releases d1) = 1"
    let ?W2 = "start_vote_where d1 (r_key q) (r_phase q) n False ep"
    let ?F2 = "start_vote_values (rq_now rq) s False m n"
    have qk: "r_key q = r_key r" using release_by_key_in [OF q] by simp
    have d1: "d1 = da \<lparr> db_vote_counter := (db_vote_counter da)(r_key r \<mapsto> s) \<rparr>"
      and s: "s = counter_next (db_vote_counter da) (r_key r)"
      using alloc by (auto simp: vote_seq_allocate_eq qk)
    have cnt: "db_vote_counter da = db_vote_counter d" using core by (simp add: same_core_def)
    obtain db where db: "vote_seq_allocate d (r_key r) = (s, db)"
      by (simp add: vote_seq_allocate_eq s cnt)
    note al = inv_vote_seq_allocate [OF inv db]
    have rdb: "r \<in> set (db_releases db)" using r by (simp add: al(4))
    let ?dc = "update_release db (\<lambda>x. r_key x = r_key r) (?F2 \<circ> ?F1)"
    have ok: "db_ok ?dc"
    proof (rule inv_update [OF al(1)])
      show "keeps_identity (?F2 \<circ> ?F1)" by (simp add: keeps_identity_def)
      fix x assume x: "x \<in> set (db_releases db)" and W: "r_key x = r_key r"
      have xr: "x = r" by (rule same_release [OF al(1) x rdb W])
      have out: "outcome_ok r RELEASE_CANDIDATE (Some mode) None (Some th) None"
        using mode by (simp add: outcome_ok_def)
      have row: "row_ok (?F2 (?F1 r))"
        by (rule start_vote_values_ok [OF transition_row_ok [OF invD(3) [OF inv r] cand out]]) simp_all
      have link: "linked db (?F2 (?F1 r))"
        using invD(4) [OF al(1) rdb] cand al(2,3) by (auto simp: linked_def)
      show "row_ok ((?F2 \<circ> ?F1) x) \<and> linked db ((?F2 \<circ> ?F1) x)" using row link xr by simp
    qed
    have "upd ?W2 ?F2 (upd ?W1 ?F1 (db_releases d)) = upd (\<lambda>x. r_key x = r_key r) (?F2 \<circ> ?F1) (db_releases d)"
    proof (rule round_two_one_update)
      show "rowcount ?W2 (upd ?W1 ?F1 (db_releases d)) = 1" using count by (simp add: d1 rels)
    qed (use one(2) same_release [OF inv] qk in
        \<open>auto simp: transition_where_def start_vote_where_def\<close>)
    then have "db_releases d' = db_releases ?dc"
      by (simp add: d' d1 rels update_release_def al(4))
    moreover have "db_vote_counter d' = db_vote_counter ?dc"
      by (simp add: d' d1 al(4) cnt)
    ultimately have "same_core ?dc d'"
      using core by (simp add: same_core_def d' d1 al(4))
    then show ?thesis by (rule inv_same_core [OF ok])
  qed
qed

lemma pass_round_one_Inr:
  assumes "pass_round_one rq env security f d p r vt th = Inr (t, d')"
  obtains mode da n sf where "effective_vote_mode p r = Inr mode"
    and "resolve_transition rq d r RELEASE_CANDIDATE None RELEASE_CANDIDATE (Some mode) None (Some th) None = Inr da"
    and "start_vote rq (re_gate env) (re_recipients env) da (r_project_key r) (r_version r) sf False None
           (Some n) [] = Inr (t, d')"
proof -
  have "\<exists>mode da n sf. effective_vote_mode p r = Inr mode \<and>
     resolve_transition rq d r RELEASE_CANDIDATE None RELEASE_CANDIDATE (Some mode) None (Some th) None = Inr da \<and>
     start_vote rq (re_gate env) (re_recipients env) da (r_project_key r) (r_version r) sf False None
           (Some n) [] = Inr (t, d')"
    using assms unfolding pass_round_one_def
    by (cases "t_task_args vt") (auto simp: bindE_Inr_iff)
  then show thesis using that by blast
qed

lemma transition_release_key:
  assumes inv: "db_ok d" and r: "r \<in> set (db_releases d)"
    and tr: "resolve_transition rq d r eph ep ph mode res pod url = Inr da"
    and get: "release_get da (r_project_key r) (r_version r) = Some r0"
  shows "r_key r0 = r_key r"
proof -
  let ?W = "transition_where r eph ep" and ?F = "transition_values (rq_now rq) ph mode res pod url"
  have "r0 \<in> set (upd ?W ?F (db_releases d))"
    using resolve_transition_Inr(1) [OF tr] release_get_in [OF get]
    by (simp add: same_core_def update_release_def)
  then obtain x where x: "x \<in> set (db_releases d)" and rx: "r0 = (if ?W x then ?F x else x)"
    unfolding upd_set by blast
  have r0: "r0 = x \<or> r0 = ?F x" unfolding rx by simp
  have "x = r"
    using same_project_version [OF inv x r] release_get_in [OF get] r0 by auto
  then show ?thesis using r0 by auto
qed

lemma pass_round_one_inv:
  assumes inv: "db_ok d" and r: "r \<in> set (db_releases d)"
    and pass: "pass_round_one rq env security f d p r vt th = Inr (t, d')"
  shows "db_ok d'"
  using pass
proof (rule pass_round_one_Inr)
  fix mode da n sf
  assume mode: "effective_vote_mode p r = Inr mode"
    and tr: "resolve_transition rq d r RELEASE_CANDIDATE None RELEASE_CANDIDATE (Some mode) None (Some th) None = Inr da"
    and start: "start_vote rq (re_gate env) (re_recipients env) da (r_project_key r) (r_version r) sf False None
           (Some n) [] = Inr (t, d')"
  have ex: "r_expedited r \<longrightarrow> mode = TRUSTED" using effective_vote_mode_expedited [OF mode] by simp
  show ?thesis
    using start
  proof (rule start_vote_Inr)
    fix r0 q s m n' d1
    assume r0: "release_get da (r_project_key r) (r_version r) = Some r0"
      and no: "start_vote_no_commit rq (re_gate env) da (r_key r0) (Some n) (if False then None else None) False
           (if False then None else r_podling_thread_id r0) (if False then [] else []) = Inr ((q, s, m, n'), d1)"
      and task: "start_vote_task rq (re_recipients env) d1 (r_project_key r) (r_version r) sf q s m = Inr (t, d')"
    have "db_ok d1"
      using inv_round_two [OF inv r ex tr] no transition_release_key [OF inv r tr r0] by simp
    then show ?thesis using task by (rule start_vote_task_inv)
  qed
qed

lemma decide_transition_inv:
  assumes inv: "db_ok d" and r: "r \<in> set (db_releases d)"
    and dec: "decide_transition rq env d p r result vt = Inr d'"
  shows "db_ok d'"
proof (cases "result = VR_PASSED")
  case True
  then obtain mode where mode: "effective_vote_mode p r = Inr mode"
    and tr: "resolve_transition rq d r RELEASE_CANDIDATE (r_podling_thread_id r) RELEASE_PREVIEW (Some mode)
         (Some (rq_now rq)) (r_podling_thread_id r) (resolved_vote_thread_url env vt) = Inr d'"
    using dec by (auto simp: decide_transition_def bindE_Inr_iff)
  show ?thesis
    by (rule resolve_transition_inv [OF inv r tr])
      (use effective_vote_mode_expedited [OF mode] in \<open>simp_all add: outcome_ok_def\<close>)
next
  case False
  then have tr: "resolve_transition rq d r RELEASE_CANDIDATE (r_podling_thread_id r) RELEASE_CANDIDATE_DRAFT
       None None None None = Inr d'"
    using dec by (simp add: decide_transition_def)
  show ?thesis by (rule resolve_transition_inv [OF inv r tr]) (simp_all add: outcome_ok_def)
qed

text \<open>
  A resolution does one of two things: it passes the first round of a podling, or it decides the
  vote. The conditions under which it does either are read off the successful runs.
\<close>

definition resolved_by ::
  "request \<Rightarrow> resolve_env \<Rightarrow> bool \<Rightarrow> resolve_form \<Rightarrow> db \<Rightarrow> project \<Rightarrow> release \<Rightarrow> db \<Rightarrow> bool" where
  "resolved_by rq env security f d p r d' =
     (if trusted_vote_round d r = Some 1 \<and> rf_result f = VR_PASSED
      then \<exists>f' vt th t2. pass_round_one rq env security f' d p r vt th = Inr (t2, d')
      else \<exists>vt. decide_transition rq env d p r (rf_result f) vt = Inr d')"

lemma resolved_by_inv:
  "db_ok d \<Longrightarrow> r \<in> set (db_releases d) \<Longrightarrow> resolved_by rq env security f d p r d' \<Longrightarrow> db_ok d'"
  unfolding resolved_by_def by (metis pass_round_one_inv decide_transition_inv)

lemma resolved_tail:
  assumes "(if rnd = Some 1 \<and> rf_result f = VR_PASSED
            then bindE P (\<lambda>t. bindE Q (\<lambda>th. bindE (pass_round_one rq env security f d p r t th)
                   (\<lambda>(t2, d1). Inr (M t t2, d1))))
            else bindE (decide_transition rq env d p r (rf_result f) vt) (\<lambda>d1. Inr (N, d1))) = Inr (rs, d')"
    and "rnd = trusted_vote_round d r"
  shows "resolved_by rq env security f d p r d'" and "rs = N \<or> (\<exists>t t2. rs = M t t2)"
  using assms by (auto simp: resolved_by_def bindE_Inr_iff split: if_splits)

lemma resolve_trusted_Inr:
  assumes "resolve_trusted rq env security f d pk v th1 = Inr (rs, d')"
  obtains r p c seq bs ts where "release_get_phase d pk v RELEASE_CANDIDATE = Some r"
    and "demand_project d r = Inr p" and "effective_vote_mode p r = Inr TRUSTED"
    and "r_current_vote_seq r = Some seq" and "release_committee d r = Some c"
    and "effective_trusted_ballots d r seq = Inr bs" and "trusted_ballot_summary d r bs = Inr ts"
    and "rf_result f = VR_PASSED \<Longrightarrow> binding_vote_passes (ts_binding_yes ts) (ts_binding_no ts) \<or>
           security \<or> vote_resolution_bypass rq p (Some (rq_asf_uid rq))"
    and "rf_result f = VR_CANCELLED \<or> vote_end_get (release_current_vote_task d r) = None \<or>
           vote_pass_fail_allowed rq (release_current_vote_task d r) \<or>
           security \<or> vote_resolution_bypass rq p (Some (rq_asf_uid rq)) \<or>
           early_completion_reason rq (db_committees d) c (trusted_vote_round d r) (rf_result f)
             (vote_end_get (release_current_vote_task d r)) (rf_early_reason f) = Inr (the (rs_early rs))"
    and "rs_round rs = trusted_vote_round d r"
    and "resolved_by rq env security f d p r d'"
proof -
  have "\<exists>r p c seq bs ts. release_get_phase d pk v RELEASE_CANDIDATE = Some r \<and>
    demand_project d r = Inr p \<and> effective_vote_mode p r = Inr TRUSTED \<and>
    r_current_vote_seq r = Some seq \<and> release_committee d r = Some c \<and>
    effective_trusted_ballots d r seq = Inr bs \<and> trusted_ballot_summary d r bs = Inr ts \<and>
    (rf_result f = VR_PASSED \<longrightarrow> binding_vote_passes (ts_binding_yes ts) (ts_binding_no ts) \<or>
           security \<or> vote_resolution_bypass rq p (Some (rq_asf_uid rq))) \<and>
    (rf_result f = VR_CANCELLED \<or> vote_end_get (release_current_vote_task d r) = None \<or>
           vote_pass_fail_allowed rq (release_current_vote_task d r) \<or>
           security \<or> vote_resolution_bypass rq p (Some (rq_asf_uid rq)) \<or>
           early_completion_reason rq (db_committees d) c (trusted_vote_round d r) (rf_result f)
             (vote_end_get (release_current_vote_task d r)) (rf_early_reason f) = Inr (the (rs_early rs))) \<and>
    rs_round rs = trusted_vote_round d r \<and> resolved_by rq env security f d p r d'"
    using assms unfolding resolve_trusted_def Let_def
    by (clarsimp simp: bindE_Inr_iff simp del: One_nat_def split del: if_split)
      (frule resolved_tail(1) [OF _ refl], drule resolved_tail(2) [OF _ refl],
        auto simp: bindE_Inr_iff split: if_splits)
  then show thesis using that by blast
qed

lemma resolve_release_Inr:
  assumes "resolve_release rq env security f d p r (trusted_vote_round d r) vt early = Inr (rs, d')"
  shows "resolved_by rq env security f d p r d'" and "rs_round rs = trusted_vote_round d r"
    and "rs_early rs = early"
proof -
  obtain u where "(if trusted_vote_round d r = Some 1 \<and> rf_result f = VR_PASSED
      then bindE (Inr vt) (\<lambda>t. bindE u (\<lambda>th. bindE (pass_round_one rq env security f d p r t th) (\<lambda>(t2, d1).
           Inr (\<lparr> rs_round = trusted_vote_round d r, rs_message = round_one_message t,
                  rs_early = early, rs_task = Some t, rs_second_seq = task_vote_seq t2 \<rparr>, d1))))
      else bindE (decide_transition rq env d p r (rf_result f) (Some vt)) (\<lambda>d1.
           Inr (\<lparr> rs_round = trusted_vote_round d r, rs_message = result_message (rf_result f),
                  rs_early = early, rs_task = Some vt, rs_second_seq = None \<rparr>, d1))) = Inr (rs, d')"
    using assms unfolding resolve_release_def
    by (cases "resolved_vote_thread_url env (Some vt)")
      (fastforce simp: bindE_Inr_iff simp del: One_nat_def split: if_splits)+
  from resolved_tail [OF this refl]
  show "resolved_by rq env security f d p r d'" and "rs_round rs = trusted_vote_round d r"
    and "rs_early rs = early" by auto
qed

lemma resolve_email_Inr:
  assumes "resolve_email rq env security f d p r = Inr (rs, d')"
  obtains vt c where "release_current_vote_task d r = Some vt" and "release_committee d r = Some c"
    and "rf_result f = VR_CANCELLED \<or> security \<or> vote_pass_fail_allowed rq (Some vt) \<or>
           vote_resolution_bypass rq p (Some (rq_asf_uid rq)) \<or>
           early_completion_reason rq (db_committees d) c (trusted_vote_round d r) (rf_result f)
             (vote_end_get (Some vt)) (rf_early_reason f) = Inr (the (rs_early rs)) \<and>
           email_vote_passes rq env d p r vt"
    and "rs_round rs = trusted_vote_round d r" and "resolved_by rq env security f d p r d'"
proof -
  have "\<exists>vt c early. release_current_vote_task d r = Some vt \<and> release_committee d r = Some c \<and>
     (rf_result f = VR_CANCELLED \<or> security \<or> vote_pass_fail_allowed rq (Some vt) \<or>
           vote_resolution_bypass rq p (Some (rq_asf_uid rq)) \<or>
           (\<exists>reason. early = Some reason \<and>
              early_completion_reason rq (db_committees d) c (trusted_vote_round d r) (rf_result f)
                (vote_end_get (Some vt)) (rf_early_reason f) = Inr reason) \<and>
           email_vote_passes rq env d p r vt) \<and>
     resolve_release rq env security f d p r (trusted_vote_round d r) vt early = Inr (rs, d')"
    using assms unfolding resolve_email_def Let_def
    by (clarsimp simp: bindE_Inr_iff split del: if_split) (auto simp: bindE_Inr_iff split: if_split_asm)
  then show thesis using that resolve_release_Inr by (metis option.sel)
qed

lemma resolve_Inr:
  assumes "resolve rq env security f0 d pk v = Inr (rs, d')"
  obtains r p f mode where "release_get_phase d pk v RELEASE_CANDIDATE = Some r"
    and "demand_project d r = Inr p" and "ensure_project_active p = Inr ()"
    and "effective_vote_mode p r = Inr mode" and "rf_result f = rf_result f0"
    and "rf_early_reason f = rf_early_reason f0"
    and "security \<Longrightarrow> \<exists>t. release_current_vote_task d r = Some t \<and> task_mid_get t \<noteq> None"
    and "\<not> security \<Longrightarrow> ensure_release_writable rq p r = Inr ()"
    and "mode = TRUSTED \<Longrightarrow> \<exists>th. resolve_trusted rq env security f d pk v th = Inr (rs, d')"
    and "mode \<noteq> TRUSTED \<Longrightarrow> resolve_email rq env security f d p r = Inr (rs, d')"
proof -
  let ?f = "\<lambda>r. (resolve_additions r f0) \<lparr> rf_automatic_resolve_when_finished :=
                   (rf_automatic_resolve_when_finished f0 \<and> \<not> security) \<rparr>"
  have f: "rf_result (?f r) = rf_result f0" "rf_early_reason (?f r) = rf_early_reason f0" for r
    by (simp_all add: resolve_additions_def)
  have "\<exists>r p mode. release_get_phase d pk v RELEASE_CANDIDATE = Some r \<and> demand_project d r = Inr p \<and>
    ensure_project_active p = Inr () \<and> effective_vote_mode p r = Inr mode \<and>
    (security \<longrightarrow> (\<exists>t. release_current_vote_task d r = Some t \<and> task_mid_get t \<noteq> None)) \<and>
    (\<not> security \<longrightarrow> ensure_release_writable rq p r = Inr ()) \<and>
    (mode = TRUSTED \<longrightarrow> (\<exists>th. resolve_trusted rq env security (?f r) d pk v th = Inr (rs, d'))) \<and>
    (mode \<noteq> TRUSTED \<longrightarrow> resolve_email rq env security (?f r) d p r = Inr (rs, d'))"
    using assms unfolding resolve_def Let_def
    by (clarsimp simp: bindE_Inr_iff split del: if_split)
      (auto simp: bindE_Inr_iff split: if_split_asm option.splits)
  then show thesis using that [OF _ _ _ _ f] by blast
qed

text \<open>The resolution of a vote is one of the two transitions of the candidate it is about.\<close>

lemma resolve_resolved_by:
  assumes "resolve rq env security f0 d pk v = Inr (rs, d')"
  obtains r p f where "release_get_phase d pk v RELEASE_CANDIDATE = Some r"
    and "demand_project d r = Inr p" and "rf_result f = rf_result f0"
    and "resolved_by rq env security f d p r d'" and "rs_round rs = trusted_vote_round d r"
  using assms
proof (rule resolve_Inr)
  fix r p f mode
  assume r: "release_get_phase d pk v RELEASE_CANDIDATE = Some r" "demand_project d r = Inr p"
    "rf_result f = rf_result f0"
    and t: "mode = TRUSTED \<Longrightarrow> \<exists>th. resolve_trusted rq env security f d pk v th = Inr (rs, d')"
    and e: "mode \<noteq> TRUSTED \<Longrightarrow> resolve_email rq env security f d p r = Inr (rs, d')"
  show thesis
  proof (cases "mode = TRUSTED")
    case True
    then obtain th where "resolve_trusted rq env security f d pk v th = Inr (rs, d')" using t by blast
    then show thesis
      by (rule resolve_trusted_Inr) (use r that in auto)
  next
    case False
    then show thesis
      by (rule resolve_email_Inr [OF e]) (use r that in auto)
  qed
qed

lemma resolve_inv:
  assumes "db_ok d" and "resolve rq env security f0 d pk v = Inr (rs, d')"
  shows "db_ok d'"
  using assms(2)
  by (rule resolve_resolved_by) (blast intro: resolved_by_inv [OF assms(1)] dest: release_get_phase_in)

section \<open>After a resolution\<close>

lemma queue_send_core: "same_core d (queue_send rq d r to subject body irt cc bcc)"
  by (simp add: queue_send_def)

lemma send_resolution_core:
  assumes "send_resolution rq d p r f vt extra early = Inr (x, d')"
  shows "same_core d d'"
  using assms unfolding send_resolution_def Let_def
  by (auto simp: bindE_Inr_iff same_core_refl split: option.splits task_args.splits prod.splits
      intro: queue_send_core same_core_trans)

lemma enqueue_automatic_inv:
  assumes "db_ok d" and "enqueue_automatic_svn_publish rq env security d pk v n vt = (x, d')"
  shows "db_ok d'"
  using assms
  by (auto simp: enqueue_automatic_svn_publish_def bindE_Inr_iff
      split: option.splits task_args.splits if_splits sum.splits intro: publish_to_svn_inv)

lemma after_resolution_cases:
  assumes "after_resolution rq env security f d pk v rs = (x, d')"
  obtains "d' = d" | n vt y where "enqueue_automatic_svn_publish rq env security d pk v n vt = (y, d')"
    | n vt y d1 p r f' t extra early z where
        "enqueue_automatic_svn_publish rq env security d pk v n vt = (y, d1) \<or> d1 = d"
        "send_resolution rq d1 p r f' t extra early = Inr (z, d')"
  using assms unfolding after_resolution_def Let_def
  by (fastforce split: option.splits sum.splits prod.splits if_splits)

lemma after_resolution_inv:
  assumes inv: "db_ok d" and after: "after_resolution rq env security f d pk v rs = (x, d')"
  shows "db_ok d'"
  using after
  by (rule after_resolution_cases)
    (use inv in \<open>blast intro: enqueue_automatic_inv inv_same_core send_resolution_core\<close>)+

end
