(* ===== verification/Moves.thy ===== *)
theory Moves
  imports PreserveVotes
begin

text \<open>
  How one operation changes a release row: which phases follow which, what stays with the release,
  and which numbers only grow.
\<close>

section \<open>Moves of a row\<close>

definition phase_move :: "ReleasePhase \<Rightarrow> ReleasePhase \<Rightarrow> bool" where
  "phase_move a b =
     (a = b \<or> (a, b) \<in> {(RELEASE_CANDIDATE_DRAFT, RELEASE_CANDIDATE), (RELEASE_CANDIDATE, RELEASE_PREVIEW),
                        (RELEASE_CANDIDATE, RELEASE_CANDIDATE_DRAFT), (RELEASE_PREVIEW, RELEASE)})"

definition row_move :: "release \<Rightarrow> release \<Rightarrow> bool" where
  "row_move r r' =
     (r_key r' = r_key r \<and> r_project_key r' = r_project_key r \<and> r_version r' = r_version r \<and>
      r_created r' = r_created r \<and> r_expedited r' = r_expedited r \<and>
      phase_move (r_phase r) (r_phase r') \<and>
      (\<forall>s. r_current_vote_seq r = Some s \<longrightarrow> (\<exists>s'. r_current_vote_seq r' = Some s' \<and> s \<le> s')) \<and>
      (r_phase r \<noteq> RELEASE_CANDIDATE_DRAFT \<and> r_phase r' \<noteq> RELEASE_CANDIDATE_DRAFT \<longrightarrow>
         r_voted_revision_number r' = r_voted_revision_number r) \<and>
      (r_phase r = RELEASE \<longrightarrow> r_released r' = r_released r))"

definition row_keep :: "release \<Rightarrow> release \<Rightarrow> bool" where
  "row_keep r r' = (row_move r r' \<and> r_phase r' = r_phase r)"

definition row_new :: "db \<Rightarrow> release \<Rightarrow> bool" where
  "row_new d r =
     (\<not> has_release d (r_key r) \<and> (r_phase r = RELEASE_CANDIDATE_DRAFT \<or> r_phase r = RELEASE))"

definition moves :: "db \<Rightarrow> db \<Rightarrow> bool" where
  "moves d d' =
     (\<forall>r' \<in> set (db_releases d'). (\<exists>r \<in> set (db_releases d). row_move r r') \<or> row_new d r')"

definition keeps :: "db \<Rightarrow> db \<Rightarrow> bool" where
  "keeps d d' = (\<forall>r' \<in> set (db_releases d'). \<exists>r \<in> set (db_releases d). row_keep r r')"

lemma row_keep_refl [simp]: "row_keep r r"
  by (simp add: row_keep_def row_move_def phase_move_def)

lemma row_keep_move: "row_keep r r' \<Longrightarrow> row_move r r'"
  by (simp add: row_keep_def)

lemma row_move_after_keep: "row_keep a b \<Longrightarrow> row_move b c \<Longrightarrow> row_move a c"
  unfolding row_keep_def row_move_def by (elim conjE, intro conjI) (simp_all, meson le_trans)

lemma row_keep_after_move:
  assumes "row_move a b" and "row_keep b c"
  shows "row_move a c"
proof -
  have seq: "\<forall>s. r_current_vote_seq a = Some s \<longrightarrow> (\<exists>s'. r_current_vote_seq c = Some s' \<and> s \<le> s')"
    using assms unfolding row_keep_def row_move_def by (meson le_trans)
  have fin: "r_phase a = RELEASE \<Longrightarrow> r_phase b = RELEASE"
    using assms(1) by (auto simp: row_move_def phase_move_def)
  show ?thesis
    using assms fin unfolding row_keep_def row_move_def [of b c] row_move_def [of a b]
    unfolding row_move_def by (elim conjE, intro conjI seq) simp_all
qed

lemma row_keep_trans: "row_keep a b \<Longrightarrow> row_keep b c \<Longrightarrow> row_keep a c"
  using row_move_after_keep [of a b c] by (auto simp: row_keep_def)

lemma keeps_moves: "keeps d d' \<Longrightarrow> moves d d'"
  unfolding keeps_def moves_def using row_keep_move by blast

lemma keeps_trans: "keeps a b \<Longrightarrow> keeps b c \<Longrightarrow> keeps a c"
  unfolding keeps_def using row_keep_trans by blast

lemma keeps_refl [simp]: "keeps d d"
  unfolding keeps_def by (blast intro: row_keep_refl)

lemma keeps_same: "db_releases d' = db_releases d \<Longrightarrow> keeps d d'"
  unfolding keeps_def by (simp, blast intro: row_keep_refl)

lemma moves_same_right: "moves a b \<Longrightarrow> db_releases c = db_releases b \<Longrightarrow> moves a c"
  by (simp add: moves_def)

lemma moves_same_left: "db_releases b = db_releases a \<Longrightarrow> moves b c \<Longrightarrow> moves a c"
  by (simp add: moves_def row_new_def has_release_def)

lemma moves_then_keeps:
  assumes "moves a b" and "keeps b c"
  shows "moves a c"
  unfolding moves_def
proof
  fix z assume "z \<in> set (db_releases c)"
  then obtain y where y: "y \<in> set (db_releases b)" "row_keep y z" using assms(2) unfolding keeps_def by blast
  have new: "row_new a z" if "row_new a y"
    using that y(2) by (auto simp: row_new_def row_keep_def row_move_def)
  consider x where "x \<in> set (db_releases a)" "row_move x y" | "row_new a y"
    using assms(1) y(1) unfolding moves_def by blast
  then show "(\<exists>x \<in> set (db_releases a). row_move x z) \<or> row_new a z"
    by cases (use new row_keep_after_move [OF _ y(2)] in blast)+
qed

lemma keeps_then_moves:
  assumes "keeps a b" and "moves b c" and "\<And>k. has_release a k \<Longrightarrow> has_release b k"
  shows "moves a c"
  unfolding moves_def
proof
  fix z assume "z \<in> set (db_releases c)"
  then consider y where "y \<in> set (db_releases b)" "row_move y z" | "row_new b z"
    using assms(2) unfolding moves_def by blast
  then show "(\<exists>x \<in> set (db_releases a). row_move x z) \<or> row_new a z"
  proof cases
    case 1
    then show ?thesis using assms(1) row_move_after_keep unfolding keeps_def by blast
  next
    case 2
    then show ?thesis using assms(3) unfolding row_new_def by blast
  qed
qed

lemma keeps_update:
  "(\<And>r. r \<in> set (db_releases d) \<Longrightarrow> W r \<Longrightarrow> row_keep r (F r)) \<Longrightarrow> keeps d (update_release d W F)"
  unfolding keeps_def by (auto simp: update_release_set) (metis row_keep_refl)+

lemma moves_update:
  assumes "\<And>r. r \<in> set (db_releases d) \<Longrightarrow> W r \<Longrightarrow> row_move r (F r)"
  shows "moves d (update_release d W F)"
  unfolding moves_def
proof
  fix r' assume "r' \<in> set (db_releases (update_release d W F))"
  then obtain r where r: "r \<in> set (db_releases d)" "r' = (if W r then F r else r)"
    unfolding update_release_set by blast
  then have "row_move r r'" using assms [OF r(1)] row_keep_move [OF row_keep_refl] by simp
  then show "(\<exists>r \<in> set (db_releases d). row_move r r') \<or> row_new d r'" using r(1) by blast
qed

lemma moves_insert:
  assumes "insert_release d r = Inr d'"
    and "r_phase r = RELEASE_CANDIDATE_DRAFT \<or> r_phase r = RELEASE"
  shows "moves d d'"
proof -
  have d': "db_releases d' = db_releases d @ [r]" and new: "row_new d r"
    using assms by (auto simp: insert_release_def row_new_def has_release_def list_ex_iff split: if_splits)
  show ?thesis
    unfolding moves_def d' using new row_keep_move [OF row_keep_refl] by auto
qed

section \<open>Counters only grow\<close>

definition counters_grow :: "db \<Rightarrow> db \<Rightarrow> bool" where
  "counters_grow d d' =
     (\<forall>k n. (db_revision_counter d k = Some n \<longrightarrow> (\<exists>m. db_revision_counter d' k = Some m \<and> n \<le> m)) \<and>
            (db_vote_counter d k = Some n \<longrightarrow> (\<exists>m. db_vote_counter d' k = Some m \<and> n \<le> m)))"

lemma counters_grow_refl [simp]: "counters_grow d d"
  by (simp add: counters_grow_def)

lemma counters_grow_trans: "counters_grow a b \<Longrightarrow> counters_grow b c \<Longrightarrow> counters_grow a c"
  unfolding counters_grow_def by (meson le_trans)

lemma counters_grow_same:
  "db_revision_counter d' = db_revision_counter d \<Longrightarrow> db_vote_counter d' = db_vote_counter d \<Longrightarrow>
     counters_grow d d'"
  by (simp add: counters_grow_def)

lemma counters_grow_vote: "vote_seq_allocate d k = (s, d') \<Longrightarrow> counters_grow d d'"
  by (auto simp: vote_seq_allocate_eq counters_grow_def counter_next_def)

lemma counters_grow_revision:
  assumes "insert_revision d rv = Inr (new, d')"
  shows "counters_grow d d'"
proof -
  note new = insert_revision_facts [OF assms]
  show ?thesis using new(2) by (auto simp: new(5) counters_grow_def counter_next_def)
qed

text \<open>What a step does to rows and counters, with the counters left out where tests may reset them.\<close>

definition evolves :: "bool \<Rightarrow> db \<Rightarrow> db \<Rightarrow> bool" where
  "evolves test d d' = (moves d d' \<and> (\<not> test \<longrightarrow> counters_grow d d'))"

lemma evolves_keeps: "keeps d d' \<Longrightarrow> counters_grow d d' \<Longrightarrow> evolves test d d'"
  by (simp add: evolves_def keeps_moves)

lemma evolves_update:
  "(\<And>r. r \<in> set (db_releases d) \<Longrightarrow> W r \<Longrightarrow> row_move r (F r)) \<Longrightarrow> evolves test d (update_release d W F)"
  by (simp add: evolves_def moves_update counters_grow_same)

lemma same_core_evolves: "same_core d d' \<Longrightarrow> evolves test d d'"
  by (simp add: same_core_def evolves_keeps keeps_same counters_grow_same)

lemma evolves_core_right: "evolves test a b \<Longrightarrow> same_core b c \<Longrightarrow> evolves test a c"
  unfolding evolves_def
  by (metis counters_grow_same counters_grow_trans moves_same_right same_core_def)

lemma evolves_core_left: "same_core a b \<Longrightarrow> evolves test b c \<Longrightarrow> evolves test a c"
  unfolding evolves_def
  by (metis counters_grow_same counters_grow_trans moves_same_left same_core_def)

lemma evolves_refl [simp]: "evolves test d d"
  by (rule same_core_evolves) simp

end
