(* ===== verification/Evolve.thy ===== *)
theory Evolve
  imports Moves
begin

text \<open>
  Every operation moves the rows of the release table along the release's life and leaves the
  counters or raises them.
\<close>

section \<open>Releases\<close>

lemma start_release_evolves:
  assumes "db_ok d" and "start_release_record rq si d pk v auto expedited suffix = Inr (r, d')"
  shows "evolves test d d'"
proof -
  note st = start_release_inv [OF assms]
  have core: "same_core d (snd (ensure_cycle d pk (projr (si_cycle si))))"
    using ensure_cycle_core by (metis prod.collapse)
  have "counters_grow (snd (ensure_cycle d pk (projr (si_cycle si)))) d'"
    using st(2) by (intro counters_grow_same) (auto simp: insert_release_def split: if_splits)
  then show ?thesis
    using moves_insert [OF st(2)] st(3) by (intro evolves_core_left [OF core]) (simp add: evolves_def)
qed

text \<open>Tasks and events added at the end of an operation.\<close>

lemma core_steps:
  "same_core a b \<Longrightarrow> same_core a (queue_task b t)"
  "same_core a b \<Longrightarrow> same_core a (add_event b e)"
  "same_core a b \<Longrightarrow> same_core a (queue_svn_unpublish rq b uid r)"
  "same_core a b \<Longrightarrow> same_core a (queue_regeneration rq b uid k)"
  "same_core a b \<Longrightarrow> same_core a (queue_full_regeneration rq b uid)"
  "same_core a b \<Longrightarrow> same_core a (withdraw_prior rq b r prior)"
  by (auto simp: queue_full_regeneration_def withdraw_prior_def split: option.split intro: same_core_trans)

text \<open>The columns that the moves are about.\<close>

lemma row_keep_idle:
  assumes "lifecycle_view r' = lifecycle_view r" and "r_created r' = r_created r"
  shows "row_keep r r'"
  using assms by (simp add: row_keep_def row_move_def lifecycle_view_def phase_move_def)

lemma evolves_idle:
  assumes "\<And>r. lifecycle_view (F r) = lifecycle_view r \<and> r_created (F r) = r_created r"
  shows "evolves test d (update_release d W F)"
  by (rule evolves_keeps [OF keeps_update counters_grow_same]) (use assms row_keep_idle in \<open>blast, simp_all\<close>)

lemma publish_to_svn_evolves:
  assumes "publish_to_svn rq sec ok d pk v n sfx u = Inr (t, d')"
  shows "evolves test d d'"
proof -
  obtain W s t0 where "add_task (update_release d W (\<lambda>x. x \<lparr> r_download_path_suffix := s \<rparr>)) t0 = (t, d')"
    using assms unfolding publish_to_svn_def Let_def by (auto simp: bindE_Inr_iff)
  then show ?thesis
    by (intro evolves_core_right [OF evolves_idle add_task_core]) (auto simp: idle_columns)
qed

lemma bump_activity_evolves:
  assumes "bump_activity rq d pk v = Inr (u, d')"
  shows "evolves test d d'"
  using assms unfolding bump_activity_def Let_def
  by (auto simp: bindE_Inr_iff lifecycle_view_def split: if_splits intro: evolves_idle)

lemma row_keep_archive:
  "row_keep r (archive_values now src r)"
  "row_keep r (clear_archive r)"
  by (simp_all add: row_keep_def row_move_def phase_move_def archive_values_def clear_archive_def)

lemma evolves_archive_update:
  "evolves test d (update_release d W (archive_values now src))"
  "evolves test d (update_release d W clear_archive)"
  by (rule evolves_keeps [OF keeps_update counters_grow_same], simp_all add: row_keep_archive)+

lemma archive_release_core_evolves:
  assumes "archive_release_core rq d r src = (e, d')"
  shows "evolves test d d'"
proof (cases "d' = d")
  case False
  let ?d1 = "update_release d (\<lambda>x. r_key x = r_key r \<and> \<not> r_is_archived x) (archive_values (rq_now rq) src)"
  have "same_core ?d1 d'"
    using assms False
    by (auto simp: archive_release_core_def Let_def split: if_splits intro!: core_steps same_core_refl)
  then show ?thesis by (rule evolves_core_right [OF evolves_archive_update(1)])
qed simp

lemma archive_release_evolves:
  assumes "archive_release rq d pk v = Inr (u, d')"
  shows "evolves test d d'"
  using assms by (rule archive_release_core_Inr) (rule archive_release_core_evolves)

lemma archive_by_watcher_evolves:
  assumes "archive_by_watcher rq d pk v = (e, d')"
  shows "evolves test d d'"
  using assms by (auto simp: archive_by_watcher_def split: option.splits intro: archive_release_core_evolves)

lemma revert_failed_archive_evolves: "evolves test d (revert_failed_archive rq d pk v)"
  by (auto simp: revert_failed_archive_def split: option.split
      intro: evolves_core_right [OF evolves_archive_update(2)] core_steps same_core_refl)

lemma restore_catalogued_evolves: "evolves test d (restore_catalogued_release rq d r arts)"
  unfolding restore_catalogued_release_def Let_def
  by (rule evolves_core_right [OF evolves_archive_update(2) core_steps(4) [OF core_steps(6) [OF artifacts_core]]])

lemma catalogue_release_evolves:
  assumes cat: "catalogue_release rq cyc d pk v t arts = Inr (e, d')"
  shows "evolves test d d'"
proof (cases "project_get d pk")
  case None
  then show ?thesis using cat by (simp add: catalogue_release_def)
next
  case p: (Some p)
  show ?thesis
  proof (cases "release_get d (p_key p) v")
    case (Some r)
    then show ?thesis
      using cat p by (auto simp: catalogue_release_def intro: restore_catalogued_evolves split: if_splits)
  next
    case None
    obtain ck d1 where cyc: "ensure_cycle d (p_key p)
        (case cyc of Inl _ \<Rightarrow> ''default'' | Inr name \<Rightarrow> name) = (ck, d1)" by fastforce
    let ?r = "(new_release t (p_key p) v ck RELEASE) \<lparr> r_released := Some t, r_activity_at := rq_now rq \<rparr>"
    obtain d2 where ins: "insert_release d1 ?r = Inr d2"
      and d': "d' = queue_regeneration rq
          ((add_event d2 (event_row ?r EV_RELEASE t (rq_now rq) []))
             \<lparr> db_artifacts := db_artifacts (add_event d2 (event_row ?r EV_RELEASE t (rq_now rq) []))
                 @ catalogued_artifacts ?r arts \<rparr>) (rq_asf_uid rq) (Some (p_key p))"
      using cat p None cyc by (auto simp: catalogue_release_def Let_def bindE_Inr_iff)
    have "counters_grow d1 d2"
      using ins by (intro counters_grow_same) (auto simp: insert_release_def split: if_splits)
    then have "evolves test d1 d2"
      using moves_insert [OF ins] by (simp add: evolves_def new_release_def)
    then have "evolves test d d2" by (rule evolves_core_left [OF ensure_cycle_core [OF cyc]])
    moreover have "same_core d2 d'"
      unfolding d' by (intro core_steps same_core_trans [OF add_event_core artifacts_core])
    ultimately show ?thesis by (rule evolves_core_right)
  qed
qed

lemma delete_body_evolves:
  assumes "delete_body rq fs d r = (e, d')" and "is_test_mode (rq_admin rq) \<longrightarrow> test"
  shows "evolves test d d'"
proof -
  have "db_releases d' = del (\<lambda>x. r_key x = r_key r) (db_releases d)"
    using assms(1) by (auto simp: delete_body_def delete_release_def Let_def)
  then have "keeps d d'" by (auto simp: keeps_def del_set intro: row_keep_refl)
  moreover have "\<not> test \<Longrightarrow> counters_grow d d'"
    using assms by (intro counters_grow_same) (auto simp: delete_body_def delete_release_def Let_def is_test_release_def)
  ultimately show ?thesis by (simp add: evolves_def keeps_moves)
qed

lemma delete_evolves:
  assumes "is_test_mode (rq_admin rq) \<longrightarrow> test"
  shows "delete_by_participant rq fs d pk v ph = Inr (e, d') \<Longrightarrow> evolves test d d'"
    and "delete_by_admin rq fs d pk v = Inr (e, d') \<Longrightarrow> evolves test d d'"
    and "delete_inactive rq fs d pk v dry = Inr (e, d') \<Longrightarrow> evolves test d d'"
proof -
  show "delete_by_participant rq fs d pk v ph = Inr (e, d') \<Longrightarrow> evolves test d d'"
    using delete_body_evolves [OF _ assms] by (auto simp: delete_by_participant_def bindE_Inr_iff split: if_splits)
  show adm: "delete_by_admin rq fs d pk v = Inr (e, d') \<Longrightarrow> evolves test d d'"
    using delete_body_evolves [OF _ assms] by (auto simp: delete_by_admin_def bindE_Inr_iff)
  show "delete_inactive rq fs d pk v dry = Inr (e, d') \<Longrightarrow> evolves test d d'"
    using adm by (auto simp: delete_inactive_def bindE_Inr_iff split: option.splits if_splits)
qed

section \<open>Revisions and the quarantine\<close>

lemma evolves_same:
  "db_releases d' = db_releases d \<Longrightarrow> db_revision_counter d' = db_revision_counter d \<Longrightarrow>
     db_vote_counter d' = db_vote_counter d \<Longrightarrow> evolves test d d'"
  by (intro evolves_keeps keeps_same counters_grow_same)

lemma ensure_release_object_evolves:
  assumes "ensure_release_object_for_write now d pk v = Inr d'"
  shows "evolves test d d'"
  using assms
proof (cases rule: ensure_release_object_cases)
  case (kept r)
  then show ?thesis by (simp add: evolves_same)
next
  case made
  have "counters_grow d d'"
    using made(3) by (intro counters_grow_same) (auto simp: insert_release_def split: if_splits)
  then show ?thesis using moves_insert [OF made(3)] by (simp add: evolves_def new_release_def)
qed

lemma evolves_trans_keeps: "keeps a b \<Longrightarrow> counters_grow a b \<Longrightarrow> keeps b c \<Longrightarrow> counters_grow b c \<Longrightarrow> evolves test a c"
  by (rule evolves_keeps [OF keeps_trans counters_grow_trans])

lemma commit_new_revision_keeps:
  assumes "commit_new_revision rq u d uid r mb wq = Inr (new, d')"
  shows "keeps d d'" and "counters_grow d d'"
  using assms
proof (atomize (full), rule commit_new_revision_Inr)
  fix d1
  let ?d2 = "update_release d1 (\<lambda>x. r_key x = r_key r) (commit_columns (rq_now rq) (up_commit_hash u))"
  assume ins: "insert_revision d (new_revision (rq_now rq) uid r (up_description u) mb wq) = Inr (new, d1)"
    and d': "d' = queue_checks rq ?d2 uid r (rev_number new) (up_checks u)"
  have core: "same_core ?d2 d'" unfolding d' by (rule queue_checks_core)
  have "keeps d d1" by (rule keeps_same) (simp add: insert_revision_facts(5) [OF ins])
  moreover have "keeps d1 ?d2"
    by (rule keeps_update, rule row_keep_idle [OF idle_columns(1)]) (simp add: commit_columns_def Let_def)
  moreover have "keeps ?d2 d'" using core by (simp add: same_core_def keeps_same)
  ultimately have "keeps d d'" by (blast intro: keeps_trans)
  moreover have "counters_grow d1 d'" using core by (simp add: same_core_def counters_grow_same)
  then have "counters_grow d d'" by (rule counters_grow_trans [OF counters_grow_revision [OF ins]])
  ultimately show "keeps d d' \<and> counters_grow d d'" ..
qed

lemma create_revision_locked_evolves:
  assumes "create_revision_locked rq u d uid rk old = Inr (c, d')"
  shows "evolves test d d'"
proof -
  obtain r prior mb where cont: "(let d1 = update_release d (\<lambda>x. r_key x = r_key r) (cache_key_column u) in
       if up_archives u \<and> up_deduped u
       then bindE (quarantine_stage rq u d1 uid rk prior) (\<lambda>(qid, d2). Inr (IN_QUARANTINE qid, d2))
       else bindE (commit_new_revision rq u d1 uid (cache_key_column u r) mb False) (\<lambda>(new, d2).
              Inr (CREATED new, d2))) = Inr (c, d')"
    using assms unfolding create_revision_locked_def Let_def by (auto simp: bindE_Inr_iff)
  let ?d1 = "update_release d (\<lambda>x. r_key x = r_key r) (cache_key_column u)"
  have k: "keeps d ?d1" and c: "counters_grow d ?d1"
    by (rule keeps_update, rule row_keep_idle [OF idle_columns(2)])
      (simp_all add: cache_key_column_def counters_grow_same Let_def split: option.split)
  show ?thesis
  proof (cases "up_archives u \<and> up_deduped u")
    case True
    then have "db_releases d' = db_releases ?d1 \<and> counters_grow ?d1 d'"
      using cont by (auto simp: Let_def bindE_Inr_iff quarantine_stage_def intro: counters_grow_same)
    then show ?thesis using evolves_trans_keeps [OF k c] keeps_same by blast
  next
    case False
    then obtain new where "commit_new_revision rq u ?d1 uid (cache_key_column u r) mb False = Inr (new, d')"
      using cont by (auto simp: Let_def bindE_Inr_iff)
    then show ?thesis using evolves_trans_keeps [OF k c] commit_new_revision_keeps by blast
  qed
qed

lemma quarantine_evolves:
  "evolves test d (mark_failed rq d qid)"
  "evolves test d (quarantine_queue rq d uid pk v qid)"
  "evolves test d (quarantine_remove d qid)"
  by (rule evolves_same,
      simp_all add: mark_failed_def quarantine_queue_def quarantine_remove_def queue_task_def add_task_def Let_def)+

lemma finalise_revision_evolves:
  "finalise_revision rq u d q = Inr (new, d') \<Longrightarrow> evolves test d d'"
  unfolding finalise_revision_def
  by (auto simp: bindE_Inr_iff intro: evolves_keeps commit_new_revision_keeps)

lemma clear_quarantine_evolves:
  "clear_quarantine rq d ck pk v qid = Inr (u, d') \<Longrightarrow> evolves test d d'"
  unfolding clear_quarantine_def
  by (auto simp: bindE_Inr_iff intro!: evolves_same)

lemma set_tag_evolves: "set_tag rq d ck pk v n tag = Inr (u, d') \<Longrightarrow> evolves test d d'"
  unfolding set_tag_def Let_def
  by (auto simp: bindE_Inr_iff split: if_splits option.splits intro!: evolves_same)

section \<open>Votes\<close>

lemma cast_trusted_evolves:
  assumes cast: "cast_trusted rq receipt d pk v choice comment fullname eseq emode = Inr (x, d')"
  shows "evolves test d d'"
proof (cases "d' = d")
  case False
  obtain t b where d': "d' = add_ballot (queue_task d t) b"
    using cast_trusted_cases [OF cast False] unfolding ballot_cast_def by blast
  show ?thesis
    by (rule evolves_same) (simp_all add: d' add_ballot_def queue_task_def add_task_def Let_def)
qed simp

text \<open>A new vote takes the next number, which is above the one of the vote before.\<close>

lemma current_seq_less:
  assumes "linked d r" and "r_current_vote_seq r = Some s"
  shows "s < counter_next (db_vote_counter d) (r_key r)"
  using assms by (auto simp: linked_def counter_next_def)

lemma start_values_move:
  assumes "linked d r" and "s = counter_next (db_vote_counter d) (r_key r)"
    and "r_phase r = (if promote then RELEASE_CANDIDATE_DRAFT else RELEASE_CANDIDATE)"
  shows "row_move r (start_vote_values now s promote m n r)"
  using current_seq_less [OF assms(1)] assms(2,3)
  by (cases promote) (auto simp: row_move_def phase_move_def start_vote_values_def bump_columns_def Let_def)

lemma start_vote_no_commit_evolves:
  assumes inv: "db_ok d"
    and start: "start_vote_no_commit rq gate d rk er em promote ep ack = Inr ((r', s, m, n), d')"
  shows "evolves test d d'"
  using start
proof (rule start_vote_no_commit_Inr)
  fix r d1
  assume r: "release_by_key d rk = Some r"
    and ph: "r_phase r = (if promote then RELEASE_CANDIDATE_DRAFT else RELEASE_CANDIDATE)"
    and alloc: "vote_seq_allocate d (r_key r) = (s, d1)"
    and d': "d' = update_release d1
           (start_vote_where d1 (r_key r) (r_phase r) n promote ep) (start_vote_values (rq_now rq) s promote m n)"
  have s: "s = counter_next (db_vote_counter d) (r_key r)" using alloc by (simp add: vote_seq_allocate_eq)
  have rel: "db_releases d1 = db_releases d" using alloc by (auto simp: vote_seq_allocate_eq)
  have "moves d1 d'"
    unfolding d'
  proof (rule moves_update)
    fix x assume x: "x \<in> set (db_releases d1)"
      and W: "start_vote_where d1 (r_key r) (r_phase r) n promote ep x"
    then have k: "r_key x = r_key r" "r_phase x = r_phase r" by (simp_all add: start_vote_where_def)
    show "row_move x (start_vote_values (rq_now rq) s promote m n x)"
      by (rule start_values_move [OF invD(4) [OF inv]]) (use x k s ph rel in auto)
  qed
  moreover have "counters_grow d1 d'" by (simp add: d' counters_grow_same)
  ultimately show ?thesis
    using moves_same_left [OF rel] counters_grow_trans [OF counters_grow_vote [OF alloc]]
    by (simp add: evolves_def)
qed

lemma start_vote_task_evolves:
  assumes "start_vote_task rq rc d1 pk v form r s m = Inr (t, d')"
  shows "keeps d1 d'" and "counters_grow d1 d'"
proof -
  obtain d2 t0 where d2: "(\<exists>sfx. d2 = update_release d1 (\<lambda>x. r_key x = r_key r)
             (\<lambda>x. x \<lparr> r_download_path_suffix := sfx \<rparr>)) \<or> d2 = d1" and t0: "add_task d2 t0 = (t, d')"
    using start_vote_task_Inr [OF assms] by blast
  have "same_core d2 d'" by (rule add_task_core [OF t0])
  moreover have "keeps d1 d2 \<and> counters_grow d1 d2"
    using d2 by (auto intro!: keeps_update row_keep_idle counters_grow_same simp: idle_columns)
  ultimately show "keeps d1 d'" and "counters_grow d1 d'"
    by (auto simp: same_core_def intro: keeps_trans [OF _ keeps_same] counters_grow_trans [OF _ counters_grow_same])
qed

lemma start_vote_evolves:
  assumes inv: "db_ok d" and start: "start_vote rq gate rc d pk v form promote em er ack = Inr (t, d')"
  shows "evolves test d d'"
  using start
proof (rule start_vote_Inr)
  fix r0 r s m n d1
  assume no: "start_vote_no_commit rq gate d (r_key r0) er (if promote then em else None) promote
       (if promote then None else r_podling_thread_id r0) (if promote then ack else []) = Inr ((r, s, m, n), d1)"
    and task: "start_vote_task rq rc d1 pk v form r s m = Inr (t, d')"
  show ?thesis
    using start_vote_no_commit_evolves [OF inv no, of test] start_vote_task_evolves [OF task]
    by (auto simp: evolves_def intro: moves_then_keeps counters_grow_trans)
qed

lemma transition_row_move:
  assumes "r_phase r = RELEASE_CANDIDATE" and "ph \<noteq> RELEASE"
  shows "row_move r (transition_values now ph mode res pod url r)"
  using assms
  by (cases ph) (auto simp: row_move_def phase_move_def transition_values_def bump_columns_def Let_def)

lemma decide_transition_evolves:
  assumes "decide_transition rq env d p r result vt = Inr d'"
  shows "evolves test d d'"
proof -
  obtain ep ph mode res pod url where tr: "resolve_transition rq d r RELEASE_CANDIDATE ep ph mode res pod url = Inr d'"
    and ph: "ph \<noteq> RELEASE"
    using assms by (auto simp: decide_transition_def bindE_Inr_iff split: if_splits)
  have "evolves test d (update_release d (transition_where r RELEASE_CANDIDATE ep)
      (transition_values (rq_now rq) ph mode res pod url))"
    by (rule evolves_update) (simp add: transition_row_move ph transition_where_def)
  then show ?thesis using resolve_transition_Inr(1) [OF tr] by (rule evolves_core_right)
qed

text \<open>
  Between the transition of a first round and the start of the second the database does not keep
  the invariant, but the rows keep the number of the old vote, which is all that the second start
  needs to know of them.
\<close>

lemma start_no_commit_seq_moves:
  assumes linked: "\<And>x s. x \<in> set (db_releases d) \<Longrightarrow> r_current_vote_seq x = Some s \<Longrightarrow>
        \<exists>n. db_vote_counter d (r_key x) = Some n \<and> s \<le> n"
    and start: "start_vote_no_commit rq gate d rk er em False ep ack = Inr ((r', s, m, n), d')"
  shows "keeps d d'" and "counters_grow d d'"
  using start
proof (atomize (full), rule start_vote_no_commit_Inr)
  fix r d1
  assume r: "release_by_key d rk = Some r"
    and alloc: "vote_seq_allocate d (r_key r) = (s, d1)"
    and d': "d' = update_release d1
           (start_vote_where d1 (r_key r) (r_phase r) n False ep) (start_vote_values (rq_now rq) s False m n)"
  have s: "s = counter_next (db_vote_counter d) (r_key r)" using alloc by (simp add: vote_seq_allocate_eq)
  have rel: "db_releases d1 = db_releases d" using alloc by (auto simp: vote_seq_allocate_eq)
  have "keeps d1 d'"
    unfolding d'
  proof (rule keeps_update)
    fix x assume x: "x \<in> set (db_releases d1)"
      and W: "start_vote_where d1 (r_key r) (r_phase r) n False ep x"
    then have k: "r_key x = r_key r" by (simp add: start_vote_where_def)
    have "t \<le> s" if "r_current_vote_seq x = Some t" for t
      using linked [OF _ that] x that by (auto simp: rel s k counter_next_def)
    then show "row_keep x (start_vote_values (rq_now rq) s False m n x)"
      by (simp add: row_keep_def row_move_def phase_move_def start_vote_values_def bump_columns_def)
  qed
  moreover have "counters_grow d1 d'" by (simp add: d' counters_grow_same)
  moreover have "keeps d d1" by (rule keeps_same [OF rel])
  ultimately show "keeps d d' \<and> counters_grow d d'"
    using counters_grow_trans [OF counters_grow_vote [OF alloc]] by (blast intro: keeps_trans)
qed

lemma pass_round_one_evolves:
  assumes inv: "db_ok d" and pass: "pass_round_one rq env security f d p r vt th = Inr (t, d')"
  shows "evolves test d d'"
  using pass
proof (rule pass_round_one_Inr)
  fix mode da n sf
  assume tr: "resolve_transition rq d r RELEASE_CANDIDATE None RELEASE_CANDIDATE (Some mode) None (Some th) None = Inr da"
    and start: "start_vote rq (re_gate env) (re_recipients env) da (r_project_key r) (r_version r) sf False None
           (Some n) [] = Inr (t, d')"
  let ?W = "transition_where r RELEASE_CANDIDATE None"
  let ?F = "transition_values (rq_now rq) RELEASE_CANDIDATE (Some mode) None (Some th) None"
  have core: "same_core (update_release d ?W ?F) da" by (rule resolve_transition_Inr(1) [OF tr])
  have "keeps d (update_release d ?W ?F)"
    by (rule keeps_update) (simp add: row_keep_def transition_row_move transition_where_def)
  moreover have "keeps (update_release d ?W ?F) da" using core by (simp add: same_core_def keeps_same)
  ultimately have k1: "keeps d da" by (rule keeps_trans)
  have cnt: "db_vote_counter da = db_vote_counter d" "db_revision_counter da = db_revision_counter d"
    using core by (simp_all add: same_core_def)
  have seqs: "\<exists>n. db_vote_counter da (r_key x) = Some n \<and> s \<le> n"
    if x: "x \<in> set (db_releases da)" "r_current_vote_seq x = Some s" for x s
  proof -
    have "x \<in> set (upd ?W ?F (db_releases d))"
      using core x(1) by (simp add: same_core_def update_release_def)
    then obtain y where y: "y \<in> set (db_releases d)" "x = (if ?W y then ?F y else y)"
      unfolding upd_set by blast
    have "r_key x = r_key y" "r_current_vote_seq y = Some s" using y(2) x(2) by (cases "?W y"; simp)+
    then show ?thesis using invD(4) [OF inv y(1)] by (simp add: linked_def cnt)
  qed
  show ?thesis
    using start
  proof (rule start_vote_Inr)
    fix r0 q s m n' d1
    assume no: "start_vote_no_commit rq (re_gate env) da (r_key r0) (Some n) (if False then None else None) False
           (if False then None else r_podling_thread_id r0) (if False then [] else []) = Inr ((q, s, m, n'), d1)"
      and task: "start_vote_task rq (re_recipients env) d1 (r_project_key r) (r_version r) sf q s m = Inr (t, d')"
    note no' = start_no_commit_seq_moves [OF seqs no [unfolded if_False]]
    note task' = start_vote_task_evolves [OF task]
    show ?thesis
      by (rule evolves_keeps)
        (blast intro: k1 no' task' keeps_trans, blast intro: counters_grow_same cnt no' task' counters_grow_trans)
  qed
qed

lemma resolve_evolves:
  assumes inv: "db_ok d" and "resolve rq env security f0 d pk v = Inr (rs, d')"
  shows "evolves test d d'"
  using assms(2)
proof (rule resolve_resolved_by)
  fix r p f assume "resolved_by rq env security f d p r d'"
  then show ?thesis
    unfolding resolved_by_def
    by (auto split: if_splits intro: pass_round_one_evolves [OF inv] decide_transition_evolves)
qed

lemma enqueue_automatic_evolves:
  assumes "enqueue_automatic_svn_publish rq env security d pk v n vt = (x, d')"
  shows "evolves test d d'"
  using assms
  by (auto simp: enqueue_automatic_svn_publish_def bindE_Inr_iff
      split: option.splits task_args.splits if_splits sum.splits intro: publish_to_svn_evolves)

lemma after_resolution_evolves:
  assumes after: "after_resolution rq env security f d pk v rs = (x, d')"
  shows "evolves test d d'"
proof -
  consider "d' = d" | n vt y where "enqueue_automatic_svn_publish rq env security d pk v n vt = (y, d')"
    | n vt y d1 p r f' t extra early z where
        "enqueue_automatic_svn_publish rq env security d pk v n vt = (y, d1) \<or> d1 = d"
        "send_resolution rq d1 p r f' t extra early = Inr (z, d')"
    using after by (rule after_resolution_cases)
  then show ?thesis
    by cases (auto intro: enqueue_automatic_evolves evolves_core_right send_resolution_core same_core_evolves)
qed

section \<open>Announcements and the catalogue\<close>

lemma promote_evolves:
  assumes "promote_in_database d r n now = Inr d'"
  shows "evolves test d d'"
proof -
  let ?d1 = "update_release d (promote_where d (r_key r) n) (promote_values now)"
  have d': "d' = ?d1 \<lparr> db_revisions := del (\<lambda>x. rev_release_key x = r_key r) (db_revisions ?d1) \<rparr>"
    using assms by (auto simp: promote_in_database_def Let_def split: if_splits)
  have "moves d ?d1"
    by (rule moves_update) (simp add: row_move_def phase_move_def promote_where_def promote_values_def)
  then have "moves d d'" by (rule moves_same_right) (simp add: d')
  then show ?thesis by (simp add: evolves_def d' counters_grow_same)
qed

lemma announce_commit_evolves:
  assumes "announce_commit rq env f d pk v r latest subject t n = Inr d'"
  shows "evolves test d d'"
  using assms
  by (rule announce_commit_Inr)
    (metis evolves_core_left evolves_core_right promote_evolves add_event_core)

lemma archive_prior_evolves:
  "archive_prior_release rq env a d p r = (e, d') \<Longrightarrow> evolves test d d'"
  unfolding archive_prior_release_def
  by (auto split: if_splits option.splits prod.splits intro: archive_release_core_evolves)

lemma catalogue_archive_evolves:
  assumes "catalogue_archive_release rq d rk = Inr (u, d')"
  shows "evolves test d d'"
proof -
  let ?d1 = "update_release d (\<lambda>x. r_key x = rk)
      (\<lambda>x. x \<lparr> r_is_archived := True, r_archive_source := Some AS_CATALOG_ADMIN \<rparr>)"
  have "same_core ?d1 d'"
    using assms by (auto simp: catalogue_archive_release_def Let_def bindE_Inr_iff intro: core_steps same_core_refl)
  moreover have "evolves test d ?d1"
    by (rule evolves_update) (simp add: row_move_def phase_move_def)
  ultimately show ?thesis using evolves_core_right by blast
qed

lemma catalogue_restore_evolves:
  assumes "catalogue_restore_release rq d rk = Inr (u, d')"
  shows "evolves test d d'"
proof -
  have "same_core (update_release d (\<lambda>x. r_key x = rk) clear_archive) d'"
    using assms by (auto simp: catalogue_restore_release_def Let_def bindE_Inr_iff intro: core_steps same_core_refl)
  then show ?thesis by (rule evolves_core_right [OF evolves_archive_update(2)])
qed

end
