(* ===== verification/Lifecycle.thy ===== *)
theory Lifecycle
  imports Evolve
begin

text \<open>
  The release tables as a transition system: one step per transaction of the storage writers and of
  the workers' tasks, and a step for everything else that happens to the other tables.  Its
  reachable states keep the invariant of \<open>Invariant\<close>, and its steps move rows as \<open>Moves\<close> says.
\<close>

section \<open>Interfaces\<close>

text \<open>A transition system whose steps keep an invariant and, in a state that has it, obey a law.\<close>

locale step_system =
  fixes start :: "'s \<Rightarrow> bool" and trans :: "'s \<Rightarrow> 's \<Rightarrow> bool"
    and ok :: "'s \<Rightarrow> bool" and law :: "'s \<Rightarrow> 's \<Rightarrow> bool"
  assumes start_ok: "start s \<Longrightarrow> ok s"
    and trans_ok: "ok s \<Longrightarrow> trans s t \<Longrightarrow> ok t"
    and trans_law: "ok s \<Longrightarrow> trans s t \<Longrightarrow> law s t"
begin

lemma run_ok: "trans\<^sup>*\<^sup>* s t \<Longrightarrow> ok s \<Longrightarrow> ok t"
  by (induction rule: rtranclp_induct) (auto intro: trans_ok)

lemma reached_ok: "start s \<Longrightarrow> trans\<^sup>*\<^sup>* s t \<Longrightarrow> ok t"
  by (blast intro: run_ok start_ok)

end

text \<open>A law that is reflexive and transitive holds between the ends of a run.\<close>

locale monotone_system = step_system +
  assumes law_refl: "law s s" and law_trans: "law s t \<Longrightarrow> law t u \<Longrightarrow> law s u"
begin

lemma run_law: "trans\<^sup>*\<^sup>* s t \<Longrightarrow> ok s \<Longrightarrow> law s t"
proof (induction rule: rtranclp_induct)
  case base
  show ?case by (rule law_refl)
next
  case (step t u)
  have "ok t" by (rule run_ok [OF step.hyps(1) step.prems])
  then show ?case using law_trans step trans_law by blast
qed

end

section \<open>Steps\<close>

text \<open>
  A database without releases, whose committees, projects, tasks and counters may be anything.
\<close>

definition init_db :: "db \<Rightarrow> bool" where
  "init_db d =
     (db_releases d = [] \<and> db_revisions d = [] \<and> db_ballots d = [] \<and> db_quarantined d = [])"

text \<open>
  \<open>test\<close> says whether the deletion of the test committee's releases may reset counters, which the
  code does in test mode.  Creating a revision and leaving the quarantine run in several
  transactions, so their parts are steps of their own, with other steps in between; so are an
  announcement and the archiving of the prior release, and a resolution and its messages.

  \<open>Other\<close> covers the rest: the progress of tasks, edits of committees, projects and policies, cycles,
  artifacts and events.  It leaves the release tables alone, and no committee of an open vote
  becomes or stops being a podling.
\<close>

inductive step :: "bool \<Rightarrow> db \<Rightarrow> db \<Rightarrow> bool" for test :: bool where
  Start: "start_release_record rq si d pk v auto expedited suffix = Inr (r, d') \<Longrightarrow> step test d d'"
| Ssh_start: "ensure_release_object_for_write now d pk v = Inr d' \<Longrightarrow> step test d d'"
| Create_revision: "create_revision_locked rq u d uid rk old = Inr (c, d') \<Longrightarrow>
    up_allowed_phases u = [RELEASE_CANDIDATE_DRAFT] \<Longrightarrow> step test d d'"
| Quarantine_queue: "quarantined_get d qid = Some q \<Longrightarrow> q_status q = Q_STAGING \<Longrightarrow>
    step test d (quarantine_queue rq d uid pk v qid)"
| Quarantine_fail: "step test d (mark_failed rq d qid)"
| Quarantine_finalise: "quarantined_get d qid = Some q \<Longrightarrow> q_status q = Q_PENDING \<Longrightarrow>
    finalise_revision rq u d q = Inr (rv, d') \<Longrightarrow> step test d d'"
| Quarantine_remove: "step test d (quarantine_remove d qid)"
| Quarantine_clear: "clear_quarantine rq d ck pk v qid = Inr (x, d') \<Longrightarrow> step test d d'"
| Tag: "set_tag rq d ck pk v number tag = Inr (x, d') \<Longrightarrow> step test d d'"
| Start_vote: "start_vote rq gate rc d pk v form True em er ack = Inr (t, d') \<Longrightarrow> step test d d'"
| Cast: "cast_trusted rq receipt d pk v choice comment fullname eseq emode = Inr (x, d') \<Longrightarrow> step test d d'"
| Resolve: "resolve rq env security f d pk v = Inr (rs, d') \<Longrightarrow> step test d d'"
| After_resolution: "after_resolution rq env security f d pk v rs = (x, d') \<Longrightarrow> step test d d'"
| Publish: "publish_to_svn rq security url_ok d pk v number suffix publisher = Inr (t, d') \<Longrightarrow> step test d d'"
| Announce: "announce_guards rq an f d ck pk v = Inr (r, p, latest, subject, t, n) \<Longrightarrow>
    announce_commit rq an f d pk v r latest subject t n = Inr d' \<Longrightarrow> step test d d'"
| Archive_prior: "picks_candidate an \<Longrightarrow> archive_prior_release rq an auto d p r = (x, d') \<Longrightarrow> step test d d'"
| Archive: "archive_release rq d pk v = Inr (x, d') \<Longrightarrow> step test d d'"
| Archive_watcher: "archive_by_watcher rq d pk v = (e, d') \<Longrightarrow> step test d d'"
| Revert_archive: "step test d (revert_failed_archive rq d pk v)"
| Catalogue: "catalogue_release rq cycle d pk v released arts = Inr (e, d') \<Longrightarrow> step test d d'"
| Catalogue_archive: "catalogue_archive_release rq d rk = Inr (x, d') \<Longrightarrow> step test d d'"
| Catalogue_restore: "catalogue_restore_release rq d rk = Inr (x, d') \<Longrightarrow> step test d d'"
| Delete: "delete_by_participant rq fs d pk v phase = Inr (e, d') \<Longrightarrow>
    (is_test_mode (rq_admin rq) \<longrightarrow> test) \<Longrightarrow> step test d d'"
| Delete_admin: "delete_by_admin rq fs d pk v = Inr (e, d') \<Longrightarrow>
    (is_test_mode (rq_admin rq) \<longrightarrow> test) \<Longrightarrow> step test d d'"
| Delete_inactive: "delete_inactive rq fs d pk v dry = Inr (e, d') \<Longrightarrow>
    (is_test_mode (rq_admin rq) \<longrightarrow> test) \<Longrightarrow> step test d d'"
| Bump: "bump_activity rq d pk v = Inr (x, d') \<Longrightarrow> step test d d'"
| Other: "same_tables d d' \<Longrightarrow> step test d d'"

lemma init_ok: "init_db d \<Longrightarrow> db_ok d"
  by (simp add: init_db_def db_ok_def releases_keyed_def ballots_keyed_def quarantined_keyed_def
      one_round_per_vote_def)

lemma step_ok: "step test d d' \<Longrightarrow> db_ok d \<Longrightarrow> db_ok d'"
proof (induction rule: step.induct)
  case (Announce rq an f d ck pk v r p latest subject t n d')
  then show ?case by (blast intro: announce_commit_inv)
next
  case (Quarantine_finalise d qid q rq u rv d')
  then show ?case using finalise_revision_inv quarantined_get_in by blast
qed (blast intro: start_release_inv(1) ensure_release_object_inv create_revision_locked_inv quarantine_queue_inv mark_failed_inv
    quarantine_remove_inv clear_quarantine_inv set_tag_inv start_vote_inv cast_trusted_inv resolve_inv
    after_resolution_inv publish_to_svn_inv archive_prior_inv archive_release_inv archive_by_watcher_inv
    revert_failed_archive_inv catalogue_release_inv catalogue_archive_inv catalogue_restore_inv
    delete_inv bump_activity_inv inv_same_tables)+

lemma same_tables_evolves: "same_tables d d' \<Longrightarrow> evolves test d d'"
  by (simp add: same_tables_def evolves_same)

lemma step_evolves: "step test d d' \<Longrightarrow> db_ok d \<Longrightarrow> evolves test d d'"
proof (induction rule: step.induct)
  case (Announce rq an f d ck pk v r p latest subject t n d')
  then show ?case by (blast intro: announce_commit_evolves)
qed (blast intro: start_release_evolves ensure_release_object_evolves create_revision_locked_evolves quarantine_evolves
    finalise_revision_evolves clear_quarantine_evolves set_tag_evolves start_vote_evolves
    cast_trusted_evolves resolve_evolves after_resolution_evolves publish_to_svn_evolves
    archive_prior_evolves archive_release_evolves archive_by_watcher_evolves
    revert_failed_archive_evolves catalogue_release_evolves catalogue_archive_evolves
    catalogue_restore_evolves delete_evolves bump_activity_evolves same_tables_evolves)+

interpretation lifecycle: step_system init_db "step test" db_ok moves for test
  by unfold_locales (auto intro: init_ok step_ok dest: step_evolves simp: evolves_def)

interpretation counters: monotone_system init_db "step False" db_ok counters_grow
  by unfold_locales
    (auto intro: init_ok step_ok counters_grow_trans dest: step_evolves simp: evolves_def)

definition reachable :: "bool \<Rightarrow> db \<Rightarrow> bool" where
  "reachable test d = (\<exists>d0. init_db d0 \<and> (step test)\<^sup>*\<^sup>* d0 d)"

lemma reachable_inv: "reachable test d \<Longrightarrow> db_ok d"
  unfolding reachable_def using lifecycle.reached_ok by blast

lemma reachable_init: "init_db d \<Longrightarrow> reachable test d"
  unfolding reachable_def by blast

lemma reachable_step: "reachable test d \<Longrightarrow> step test d d' \<Longrightarrow> reachable test d'"
  unfolding reachable_def by (blast intro: rtranclp.rtrancl_into_rtrancl)

lemma reachable_run: "reachable test d \<Longrightarrow> (step test)\<^sup>*\<^sup>* d d' \<Longrightarrow> reachable test d'"
  unfolding reachable_def by (blast intro: rtranclp_trans)

end
