(* ===== verification/Run.thy ===== *)
theory Run
  imports Lifecycle
begin

text \<open>
  One concrete run of a release from its start to its announcement, on which the theorems about
  reachable states are applied.
\<close>

definition tlp :: committee where
  "tlp = \<lparr> c_key = ''tlp'', c_name = None, c_is_podling = False, c_is_archived = False,
     c_committee_members = [''ann'', ''bob'', ''cat''], c_committers = [''dan''], c_release_managers = [] \<rparr>"

definition alpha :: project where
  "alpha = \<lparr> p_key = ''alpha'', p_name = None, p_status = PS_ACTIVE, p_committee_key = Some ''tlp'',
     p_release_policy = None \<rparr>"

definition by_user :: "string \<Rightarrow> int \<Rightarrow> request" where
  "by_user uid t = \<lparr> rq_asf_uid = uid, rq_now = t, rq_member_of = [''tlp''],
     rq_admin = \<lparr> is_test_mode = False, session_downgraded = False, admin_users_additional = None,
                  admins_cached = [''root''] \<rparr>,
     rq_production = True, rq_app_host = ''release.apache.org'', rq_presentations_bypass = False,
     rq_svn_publish_url = Some ''https://dist.apache.org'' \<rparr>"

definition empty_db :: "committee list \<Rightarrow> project list \<Rightarrow> db" where
  "empty_db cs ps = \<lparr> db_committees = cs, db_projects = ps, db_cycles = [], db_releases = [],
     db_revisions = [], db_ballots = [], db_tasks = [], db_events = [], db_quarantined = [],
     db_artifacts = [], db_revision_counter = (\<lambda>_. None), db_vote_counter = (\<lambda>_. None) \<rparr>"

definition after :: "('a \<times> db) py \<Rightarrow> db" where
  "after m = snd (projr m)"

lemma after_Inr: "\<not> isl m \<Longrightarrow> m = Inr (fst (projr m), after m)"
  by (cases m) (simp_all add: after_def)

definition plain_start :: start_inputs where
  "plain_start = \<lparr> si_missing = [], si_pattern = None, si_cycle = Inr ''default'' \<rparr>"

definition plain_upload :: upload where
  "plain_upload = \<lparr> up_allowed_phases = [RELEASE_CANDIDATE_DRAFT], up_description = None,
     up_clone_from = None, up_expected_revision = None, up_set_local_cache = None,
     up_reset_to_global_cache = False, up_has_source_override = False, up_has_path_sources = False,
     up_has_modify = False, up_files = Inr (), up_merge = Inr (), up_provenance = Inr (),
     up_archives = False, up_deduped = False, up_token = ''t'', up_commit_hash = None,
     up_install = Inr (), up_checks = [] \<rparr>"

definition open_gate :: vote_gate where
  "open_gate = \<lparr> vg_blockers = False, vg_file_count = 1, vg_required_concerns = [] \<rparr>"

definition dev_list :: recipients where
  "dev_list = \<lparr> rc_first_round = [''dev@tlp''], rc_second_round = [''general@incubator''] \<rparr>"

definition vote_form :: start_form where
  "vote_form = \<lparr> sf_email_to = ''dev@tlp'', sf_vote_duration = 72, sf_subject = ''[VOTE]'',
     sf_body = ''vote'', sf_fullname = ''Ann'', sf_permitted_recipients = None, sf_email_cc = [],
     sf_email_bcc = [], sf_second_round_email_to = None, sf_notify_when_finished = False,
     sf_automatic_resolve_when_finished = False, sf_automatic_publish_when_resolved = False,
     sf_automatic_publish_asf_uid = None, sf_download_path_suffix = None \<rparr>"

text \<open>The operations of the run, for a project and a database.\<close>

definition starts :: "string \<Rightarrow> db \<Rightarrow> (release \<times> db) py" where
  "starts pk d = start_release_record (by_user ''ann'' 1) plain_start d pk ''1.0'' True False None"

definition uploads :: "string \<Rightarrow> db \<Rightarrow> (created \<times> db) py" where
  "uploads pk d = create_revision_locked (by_user ''ann'' 2) plain_upload d ''ann'' (release_key pk ''1.0'') None"

definition opens_vote :: "string \<Rightarrow> db \<Rightarrow> (task \<times> db) py" where
  "opens_vote pk d = start_vote (by_user ''ann'' 3) open_gate dev_list d pk ''1.0'' vote_form True None None []"

text \<open>A worker finishes the tasks of a type with a result.\<close>

definition task_done :: "TaskType \<Rightarrow> task_result \<Rightarrow> db \<Rightarrow> db" where
  "task_done ty res d =
     d \<lparr> db_tasks := upd (\<lambda>t. t_task_type t = ty) (\<lambda>t. t \<lparr> t_status := COMPLETED, t_result := Some res \<rparr>)
                       (db_tasks d) \<rparr>"

definition call_sent :: "db \<Rightarrow> db" where
  "call_sent = task_done VOTE_INITIATE (RS_VOTE_INITIATE \<lparr> vi_subject = ''[VOTE]'', vi_mid = Some ''mid'',
             vi_email_to = ''dev@tlp'', vi_vote_end = Some 100 \<rparr>)"

definition casts :: "string \<Rightarrow> VoteChoice \<Rightarrow> string \<Rightarrow> db \<Rightarrow> ((string list \<times> string) \<times> db) py" where
  "casts uid choice pk d = cast_trusted (by_user uid 5) (''receipt-'' @ uid) d pk ''1.0'' choice [] uid None None"

definition plain_env :: resolve_env where
  "plain_env = \<lparr> re_gate = open_gate, re_recipients = dev_list, re_second_round_body = Some ''vote'',
     re_second_round_subject = ''[VOTE]'', re_second_round_text = ''vote'',
     re_archive_url = (\<lambda>_ _. Some ''https://lists/thread''),
     re_tab_env = \<lparr> is_dev_environment = False, env_committees = [], email_uid_view = None \<rparr>,
     re_fetch = (\<lambda>_. Inr []), re_permitted_additions = [], re_url_ok = True,
     re_effective_suffix = Inr None, re_round_one_mail = (\<lambda>_. Inr ([], [])) \<rparr>"

definition passed_form :: resolve_form where
  "passed_form = \<lparr> rf_result = VR_PASSED, rf_fullname = ''Ann'', rf_body = ''passed'',
     rf_expected_vote_seq = None, rf_expected_vote_mode = None, rf_automatic_resolve_when_finished = False,
     rf_notify_when_finished = False, rf_additional_cc = [], rf_additional_bcc = [], rf_early_reason = [] \<rparr>"

definition passes :: "int \<Rightarrow> string \<Rightarrow> db \<Rightarrow> (resolution \<times> db) py" where
  "passes t pk d = resolve (by_user ''ann'' t) plain_env False passed_form d pk ''1.0''"

definition publishes :: "string \<Rightarrow> db \<Rightarrow> (task \<times> db) py" where
  "publishes pk d = publish_to_svn (by_user ''ann'' 210) False True d pk ''1.0'' ''00001'' None None"

definition publish_done :: "db \<Rightarrow> db" where
  "publish_done = task_done SVN_PUBLISH (RS_SVN_PUBLISH 77)"

definition plain_announce_env :: announce_env where
  "plain_announce_env = \<lparr> an_permitted = [''announce@a.o''], an_missing = [], an_template_hash = [],
     an_subject = Inr ''released'', an_publication = Inr (), an_relay = True,
     an_notification = \<lparr> sa_email_sender = [], sa_email_to = [], sa_subject = [], sa_body = [],
        sa_in_reply_to = None, sa_email_cc = [], sa_email_bcc = [], sa_message_id = None \<rparr>,
     an_artifacts = Inr [], an_prior = (\<lambda>_ _ _. None) \<rparr>"

definition plain_announce_form :: announce_form where
  "plain_announce_form = \<lparr> af_preview_revision = None, af_email_to = ''announce@a.o'', af_email_cc = [],
     af_email_bcc = [], af_body = ''released'', af_template_hash = None, af_auto_archive_prior = False \<rparr>"

definition announces :: "string \<Rightarrow> db \<Rightarrow> unit py \<times> db" where
  "announces pk d = announce (by_user ''ann'' 300) plain_announce_env plain_announce_form d ''tlp'' pk ''1.0''"

text \<open>A top-level project: draft, candidate, three votes, preview, publication, announcement.\<close>

definition run0 :: db where "run0 = empty_db [tlp] [alpha]"
definition run1 :: db where "run1 = after (starts ''alpha'' run0)"
definition run2 :: db where "run2 = after (uploads ''alpha'' run1)"
definition run3 :: db where "run3 = after (opens_vote ''alpha'' run2)"
definition run4 :: db where "run4 = call_sent run3"
definition run5 :: db where "run5 = after (casts ''ann'' CH_YES ''alpha'' run4)"
definition run6 :: db where "run6 = after (casts ''bob'' CH_YES ''alpha'' run5)"
definition run7 :: db where "run7 = after (casts ''cat'' CH_YES ''alpha'' run6)"
definition run8 :: db where "run8 = after (passes 200 ''alpha'' run7)"
definition run9 :: db where "run9 = publish_done (after (publishes ''alpha'' run8))"
definition run10 :: db where "run10 = snd (announces ''alpha'' run9)"

lemma run_succeeds:
  "\<not> isl (starts ''alpha'' run0)" "\<not> isl (uploads ''alpha'' run1)" "\<not> isl (opens_vote ''alpha'' run2)"
  "\<not> isl (casts ''ann'' CH_YES ''alpha'' run4)" "\<not> isl (casts ''bob'' CH_YES ''alpha'' run5)"
  "\<not> isl (casts ''cat'' CH_YES ''alpha'' run6)" "\<not> isl (passes 200 ''alpha'' run7)"
  "\<not> isl (publishes ''alpha'' run8)" "fst (announces ''alpha'' run9) = Inr ()"
  by code_simp+

lemma run_phases:
  "map r_phase (db_releases run2) = [RELEASE_CANDIDATE_DRAFT]"
  "map r_phase (db_releases run7) = [RELEASE_CANDIDATE]"
  "map r_phase (db_releases run8) = [RELEASE_PREVIEW]"
  "map r_phase (db_releases run10) = [RELEASE]"
  by code_simp+

lemma task_done_step: "step test d (task_done ty res d)"
proof (rule step.Other)
  have "trusted_vote_round (task_done ty res d) r = trusted_vote_round d r" for r
    by (rule trusted_vote_round_cong) (simp_all add: task_done_def)
  then show "same_tables d (task_done ty res d)" by (simp add: same_tables_def task_done_def)
qed

lemmas run_ops = starts_def uploads_def opens_vote_def casts_def passes_def publishes_def

lemma run_step:
  "\<not> isl (starts pk d) \<Longrightarrow> step test d (after (starts pk d))"
  "\<not> isl (uploads pk d) \<Longrightarrow> step test d (after (uploads pk d))"
  "\<not> isl (opens_vote pk d) \<Longrightarrow> step test d (after (opens_vote pk d))"
  "\<not> isl (casts uid c pk d) \<Longrightarrow> step test d (after (casts uid c pk d))"
  "\<not> isl (passes t pk d) \<Longrightarrow> step test d (after (passes t pk d))"
  "\<not> isl (publishes pk d) \<Longrightarrow> step test d (after (publishes pk d))"
proof -
  show "step test d (after (uploads pk d))" if "\<not> isl (uploads pk d)"
    by (rule step.Create_revision [OF after_Inr [OF that, unfolded uploads_def] , folded uploads_def])
      (simp add: plain_upload_def)
qed (unfold run_ops, (rule step.Start step.Start_vote step.Cast step.Resolve step.Publish, erule after_Inr)+)

lemma announces_Inr:
  assumes "fst (announces pk d) = Inr ()"
  obtains r p latest subject t n d1 where
    "announce_guards (by_user ''ann'' 300) plain_announce_env plain_announce_form d ''tlp'' pk ''1.0''
       = Inr (r, p, latest, subject, t, n)"
    and "announce_commit (by_user ''ann'' 300) plain_announce_env plain_announce_form d pk ''1.0'' r latest
           subject t n = Inr d1"
    and "snd (announces pk d) = d1"
  using assms unfolding announces_def announce_def
  by (fastforce simp: archive_prior_release_def plain_announce_form_def split: sum.splits prod.splits)

lemma announces_step: "fst (announces pk d) = Inr () \<Longrightarrow> step test d (snd (announces pk d))"
  by (erule announces_Inr) (metis step.Announce)

lemma run_reachable:
  "reachable test run0" "reachable test run1" "reachable test run2" "reachable test run3"
  "reachable test run4" "reachable test run5" "reachable test run6" "reachable test run7"
  "reachable test run8" "reachable test run9" "reachable test run10"
proof -
  show r0: "reachable test run0"
    by (rule reachable_init) (simp add: run0_def empty_db_def init_db_def)
  show r1: "reachable test run1"
    unfolding run1_def by (rule reachable_step [OF r0 run_step(1) [OF run_succeeds(1)]])
  show r2: "reachable test run2"
    unfolding run2_def by (rule reachable_step [OF r1 run_step(2) [OF run_succeeds(2)]])
  show r3: "reachable test run3"
    unfolding run3_def by (rule reachable_step [OF r2 run_step(3) [OF run_succeeds(3)]])
  show r4: "reachable test run4"
    unfolding run4_def call_sent_def by (rule reachable_step [OF r3 task_done_step])
  show r5: "reachable test run5"
    unfolding run5_def by (rule reachable_step [OF r4 run_step(4) [OF run_succeeds(4)]])
  show r6: "reachable test run6"
    unfolding run6_def by (rule reachable_step [OF r5 run_step(4) [OF run_succeeds(5)]])
  show r7: "reachable test run7"
    unfolding run7_def by (rule reachable_step [OF r6 run_step(4) [OF run_succeeds(6)]])
  show r8: "reachable test run8"
    unfolding run8_def by (rule reachable_step [OF r7 run_step(5) [OF run_succeeds(7)]])
  show r9: "reachable test run9"
    unfolding run9_def publish_done_def
    by (rule reachable_step [OF reachable_step [OF r8 run_step(6) [OF run_succeeds(8)]] task_done_step])
  show "reachable test run10"
    unfolding run10_def by (rule reachable_step [OF r9 announces_step [OF run_succeeds(9)]])
qed

end
