(* ===== verification/Safety.thy ===== *)
theory Safety
  imports Run
begin

text \<open>
  What the release tables promise: properties of the reachable states, of the steps between them
  and of the operations in them.
\<close>

section \<open>Reachable states\<close>




lemma run_keys: "map r_key (db_releases run7) = [''alpha-1.0'']" "map r_key (db_releases run8) = [''alpha-1.0'']"
  by code_simp+

lemma one_row: "map f t = [x] \<Longrightarrow> \<exists>r. t = [r] \<and> f r = x"
  by auto


text \<open>
  C8: Revision numbers are never reused: outside test mode, a revision created later for the same
  release key has a greater number, also when the release was deleted and started again in between.
\<close>

theorem revision_numbers_are_never_reused:
  assumes "reachable False d" and "(step False)\<^sup>*\<^sup>* d d'" and "v \<in> set (db_revisions d)"
    and "commit_new_revision rq u d' uid r mb wq = Inr (new, d'')" and "r_key r = rev_release_key v"
  shows "rev_seq v < rev_seq new \<and> rev_number v \<noteq> rev_number new \<and>
         db_revision_counter d'' (r_key r) = Some (rev_seq new)"
proof -
  have ok: "db_ok d" by (rule reachable_inv [OF assms(1)])
  obtain d1 where ins: "insert_revision d' (new_revision (rq_now rq) uid r (up_description u) mb wq) = Inr (new, d1)"
    and d'': "d'' = queue_checks rq (update_release d1 (\<lambda>x. r_key x = r_key r)
                (commit_columns (rq_now rq) (up_commit_hash u))) uid r (rev_number new) (up_checks u)"
    using assms(4) by (rule commit_new_revision_Inr)
  note new = insert_revision_facts [OF ins]
  have rk: "rev_release_key (new_revision (rq_now rq) uid r (up_description u) mb wq) = r_key r"
    by (simp add: new_revision_def)
  obtain n where n: "db_revision_counter d (r_key r) = Some n" "rev_seq v \<le> n"
    using invD(6) [OF ok assms(3)] assms(5) by (auto simp: revision_ok_def)
  have "counters_grow d d'" by (rule counters.run_law [OF assms(2) ok])
  then obtain m where m: "db_revision_counter d' (r_key r) = Some m" "n \<le> m"
    using n(1) unfolding counters_grow_def by blast
  have less: "rev_seq v < rev_seq new" using n(2) m new(2) rk by (simp add: counter_next_def)
  have "rev_number v = zfill 5 (str_nat (rev_seq v))"
    using invD(6) [OF ok assms(3)] by (simp add: revision_ok_def)
  moreover have "same_core (update_release d1 (\<lambda>x. r_key x = r_key r)
                (commit_columns (rq_now rq) (up_commit_hash u))) d''"
    unfolding d'' by (rule queue_checks_core)
  then have "db_revision_counter d'' (r_key r) = Some (rev_seq new)"
    by (simp add: same_core_def new(5) rk)
  ultimately show ?thesis using less new(3) by simp
qed

lemma run_revision: "map rev_release_key (db_revisions run2) = [''alpha-1.0'']"
  "map rev_number (db_revisions run2) = [''00001'']"
  by code_simp+

text \<open>The release is deleted and started again, and its next revision is number 2.\<close>

definition deleted2 :: db where
  "deleted2 = after (delete_by_participant (by_user ''ann'' 20) None run2 ''alpha'' ''1.0'' None)"

definition again2 :: db where "again2 = after (starts ''alpha'' deleted2)"

definition again_commit :: "(revision \<times> db) py" where
  "again_commit = commit_new_revision (by_user ''ann'' 21) plain_upload again2 ''ann''
     (hd (db_releases again2)) None False"

lemma again_facts:
  "\<not> isl (delete_by_participant (by_user ''ann'' 20) None run2 ''alpha'' ''1.0'' None)"
  "\<not> isl (starts ''alpha'' deleted2)" "\<not> isl again_commit"
  "r_key (hd (db_releases again2)) = ''alpha-1.0''"
  by code_simp+

theorem revision_numbers_are_never_reused_witness:
  "rev_number (fst (projr again_commit)) \<noteq> ''00001''"
proof -
  obtain v where v: "db_revisions run2 = [v]" "rev_release_key v = ''alpha-1.0''" "rev_number v = ''00001''"
    using one_row [OF run_revision(1)] run_revision(2) by auto
  have "step False run2 deleted2"
    unfolding deleted2_def
    by (rule step.Delete [OF after_Inr [OF again_facts(1)]]) (simp add: by_user_def)
  moreover have "step False deleted2 again2"
    unfolding again2_def by (rule run_step(1) [OF again_facts(2)])
  ultimately have run: "(step False)\<^sup>*\<^sup>* run2 again2" by auto
  have com: "commit_new_revision (by_user ''ann'' 21) plain_upload again2 ''ann''
      (hd (db_releases again2)) None False = Inr (fst (projr again_commit), after again_commit)"
    using after_Inr [OF again_facts(3)] by (simp add: again_commit_def)
  show ?thesis
    using revision_numbers_are_never_reused [OF run_reachable(3) run _ com] v again_facts(4) by auto
qed

end
