(* ===== verification/Outcomes.thy ===== *)
theory Outcomes
  imports Safety
begin

text \<open>
  What announcing, resolving, casting and starting a vote do in a reachable state.
\<close>

section \<open>Announcing\<close>

lemma announce_guards_Inr:
  assumes "announce_guards rq env f d ck pk v = Inr (r, p, latest, subject, t, n)"
  shows "release_get_phase d pk v RELEASE_PREVIEW = Some r" and "latest_revision_number d (r_key r) = Some latest"
    and "release_completed_svn_publish_task_for_revision d pk (r_version r) latest = Some t"
    and "svn_publish_result t = Some n" and "p_committee_key p = Some ck"
    and "set (all_recipients f) \<subseteq> set (an_permitted env)"
  using assms unfolding announce_guards_def
  by (auto simp: bindE_Inr_iff unwrap_revision_number_def split: option.splits)

lemma queue_task_tasks: "set (db_tasks d) \<subseteq> set (db_tasks (queue_task d t))"
  by (auto simp: queue_task_def add_task_def Let_def)

lemma kept_task:
  "x \<in> set (db_tasks d) \<Longrightarrow> x \<in> set (db_tasks (queue_task d t))"
  "x \<in> set (db_tasks d) \<Longrightarrow> x \<in> set (db_tasks (queue_regeneration rq d u k))"
  using queue_task_tasks by (auto simp: queue_regeneration_def)

lemma announce_queue_finalise:
  "\<exists>x fa. x \<in> set (db_tasks (announce_queue rq env f d pk v latest subject t n)) \<and> t_status x = QUEUED \<and>
     t_project_key x = Some pk \<and> t_version_key x = Some v \<and>
     t_task_args x = A_RELEASE_FINALISE fa \<and> fa_revision_number fa = latest \<and> fa_svn_revision fa = n"
proof -
  define fa where "fa = \<lparr> fa_asf_uid = rq_asf_uid rq, fa_revision_number = latest,
                       fa_svn_revision = n,
                       fa_download_path_suffix = download_path_suffix_from_task t,
                       fa_email_to = af_email_to f, fa_email_cc = af_email_cc f,
                       fa_email_bcc = af_email_bcc f \<rparr>"
  define t0 where "t0 = new_task rq RELEASE_FINALISE (A_RELEASE_FINALISE fa) (rq_asf_uid rq)
                 (Some pk) (Some v) (Some latest)"
  define x where "x = t0 \<lparr> t_id := next_id t_id (db_tasks d) \<rparr>"
  have x: "x \<in> set (db_tasks (queue_task d t0))" "t_status x = QUEUED" "t_project_key x = Some pk"
      "t_version_key x = Some v" "t_task_args x = A_RELEASE_FINALISE fa"
    by (simp_all add: x_def queue_task_def add_task_def Let_def t0_def new_task_def)
  have "x \<in> set (db_tasks (announce_queue rq env f d pk v latest subject t n))"
    unfolding announce_queue_def Let_def fa_def [symmetric] t0_def [symmetric]
    by (rule kept_task(2), rule kept_task(1), rule kept_task(1), rule x(1))
  then show ?thesis using x by (intro exI [of _ x] exI [of _ fa]) (simp add: fa_def)
qed



section \<open>Resolving\<close>

text \<open>Why a resolution could come before the end of the vote.\<close>

lemma early_completion_Inr:
  assumes "early_completion_reason rq cs c rnd result vote_end early = Inr reason"
  shows "result = VR_PASSED" and "reason = strip early" and "reason \<noteq> []" and "length reason \<le> 1000"
    and "binding_in cs c rnd (rq_asf_uid rq)"
  using assms
  by (auto simp: early_completion_reason_def Let_def bindE_Inr_iff binding_in_def
      EARLY_VOTE_REASON_MAX_LENGTH_def split: if_splits prod.splits)

text \<open>
  C2: A trusted vote passes only on its ballots: unless the resolver may bypass them, the effective
  ballots have at least three binding votes in favour and more of them than against; and unless the
  voting period has a known end that has passed, the resolver is a binding voter who gave a reason.
\<close>

theorem trusted_vote_passes_by_majority:
  assumes "resolve rq env False f d pk v = Inr (rs, d')" and "rf_result f = VR_PASSED"
    and "release_get_phase d pk v RELEASE_CANDIDATE = Some r" and "demand_project d r = Inr p"
    and "effective_vote_mode p r = Inr TRUSTED"
    and "\<not> vote_resolution_bypass rq p (Some (rq_asf_uid rq))"
  shows "\<exists>seq c bs. r_current_vote_seq r = Some seq \<and> release_committee d r = Some c \<and>
      effective_trusted_ballots d r seq = Inr bs \<and>
      (let binding = binding_in (db_committees d) c (trusted_vote_round d r) \<circ> b_voter_asf_uid;
           yes = choice_count binding CH_YES bs; no = choice_count binding CH_NO bs
       in 3 \<le> yes \<and> no < yes) \<and>
      (case vote_end_get (release_current_vote_task d r) of
         None \<Rightarrow> True
       | Some e \<Rightarrow> e \<le> rq_now rq \<or>
           binding_in (db_committees d) c (trusted_vote_round d r) (rq_asf_uid rq) \<and>
           strip (rf_early_reason f) \<noteq> [])"
  using assms(1)
proof (rule resolve_Inr)
  fix r1 p1 f1 mode
  assume get: "release_get_phase d pk v RELEASE_CANDIDATE = Some r1" and p1: "demand_project d r1 = Inr p1"
    and mode: "effective_vote_mode p1 r1 = Inr mode"
    and f1: "rf_result f1 = rf_result f" "rf_early_reason f1 = rf_early_reason f"
    and tr: "mode = TRUSTED \<Longrightarrow> \<exists>th. resolve_trusted rq env False f1 d pk v th = Inr (rs, d')"
  have r1: "r1 = r" "p1 = p" "mode = TRUSTED" using get p1 mode assms(3-5) by auto
  obtain th where "resolve_trusted rq env False f1 d pk v th = Inr (rs, d')" using tr [OF r1(3)] by blast
  then show ?thesis
  proof (rule resolve_trusted_Inr)
    fix r2 p2 c seq bs ts
    assume get2: "release_get_phase d pk v RELEASE_CANDIDATE = Some r2" and p2: "demand_project d r2 = Inr p2"
      and seq: "r_current_vote_seq r2 = Some seq" and c: "release_committee d r2 = Some c"
      and bs: "effective_trusted_ballots d r2 seq = Inr bs" and ts: "trusted_ballot_summary d r2 bs = Inr ts"
      and pass: "rf_result f1 = VR_PASSED \<Longrightarrow> binding_vote_passes (ts_binding_yes ts) (ts_binding_no ts) \<or>
           False \<or> vote_resolution_bypass rq p2 (Some (rq_asf_uid rq))"
      and time: "rf_result f1 = VR_CANCELLED \<or> vote_end_get (release_current_vote_task d r2) = None \<or>
           vote_pass_fail_allowed rq (release_current_vote_task d r2) \<or>
           False \<or> vote_resolution_bypass rq p2 (Some (rq_asf_uid rq)) \<or>
           early_completion_reason rq (db_committees d) c (trusted_vote_round d r2) (rf_result f1)
             (vote_end_get (release_current_vote_task d r2)) (rf_early_reason f1) = Inr (the (rs_early rs))"
    have r2: "r2 = r" "p2 = p" using get2 p2 assms(3,4) by auto
    have maj: "binding_vote_passes (ts_binding_yes ts) (ts_binding_no ts)"
      using pass f1 assms(2,6) r2 by simp
    obtain c' where c': "release_committee d r2 = Some c'"
      and cnt: "ts_binding_yes ts = choice_count (\<lambda>b. binding_in (db_committees d) c' (trusted_vote_round d r2)
            (b_voter_asf_uid b)) CH_YES bs"
        "ts_binding_no ts = choice_count (\<lambda>b. binding_in (db_committees d) c' (trusted_vote_round d r2)
            (b_voter_asf_uid b)) CH_NO bs"
      by (rule summary_counts [OF ts])
    have cc: "c' = c" using c c' by simp
    have ended: "case vote_end_get (release_current_vote_task d r) of None \<Rightarrow> True
       | Some e \<Rightarrow> e \<le> rq_now rq \<or>
           binding_in (db_committees d) c (trusted_vote_round d r) (rq_asf_uid rq) \<and>
           strip (rf_early_reason f) \<noteq> []"
      using time assms(2,6) f1 r2 early_completion_Inr
      by (fastforce simp: vote_pass_fail_allowed_def split: option.splits)
    show ?thesis
      using seq c bs maj cnt ended
      by (intro exI [of _ seq] exI [of _ c] exI [of _ bs])
        (simp add: r2 cc binding_vote_passes_def Let_def comp_def)
  qed
qed

lemma run7_facts:
  "case release_get_phase run7 ''alpha'' ''1.0'' RELEASE_CANDIDATE of None \<Rightarrow> False | Some r \<Rightarrow>
     (case demand_project run7 r of Inl _ \<Rightarrow> False | Inr p \<Rightarrow>
        effective_vote_mode p r = Inr TRUSTED \<and>
        \<not> vote_resolution_bypass (by_user ''ann'' 200) p (Some (rq_asf_uid (by_user ''ann'' 200))))"
  by code_simp

theorem trusted_vote_passes_by_majority_witness:
  "\<exists>r seq bs. effective_trusted_ballots run7 r seq = Inr bs \<and> r_phase r = RELEASE_CANDIDATE \<and>
     (\<exists>P. 3 \<le> choice_count P CH_YES bs \<and> choice_count P CH_NO bs < choice_count P CH_YES bs)"
proof -
  obtain r p where r: "release_get_phase run7 ''alpha'' ''1.0'' RELEASE_CANDIDATE = Some r"
      "demand_project run7 r = Inr p" "effective_vote_mode p r = Inr TRUSTED"
      "\<not> vote_resolution_bypass (by_user ''ann'' 200) p (Some (rq_asf_uid (by_user ''ann'' 200)))"
    using run7_facts by (auto split: option.splits sum.splits)
  have m: "resolve (by_user ''ann'' 200) plain_env False passed_form run7 ''alpha'' ''1.0''
      = Inr (fst (projr (passes 200 ''alpha'' run7)), run8)"
    unfolding run8_def passes_def by (rule after_Inr [OF run_succeeds(7) [unfolded passes_def]])
  have "rf_result passed_form = VR_PASSED" by (simp add: passed_form_def)
  then show ?thesis
    using trusted_vote_passes_by_majority [OF m _ r] release_get_phase_in [OF r(1)]
    by (auto simp: Let_def)
qed

end
