(* ===== verification/Resolution.thy ===== *)
theory Resolution
  imports Outcomes
begin

text \<open>
  What a resolution leaves: the row and the ballots after each outcome, and that a resolution that
  cancels a vote always goes through.
\<close>

section \<open>The row after a transition\<close>

lemma transition_row:
  assumes inv: "db_ok d" and r: "r \<in> set (db_releases d)"
    and tr: "resolve_transition rq d r eph ep ph mode res pod url = Inr d'"
  shows "r_phase r = eph" and "r_podling_thread_id r = ep"
    and "transition_values (rq_now rq) ph mode res pod url r \<in> set (db_releases d')"
    and "db_ballots d' = db_ballots d"
proof -
  let ?W = "transition_where r eph ep" and ?F = "transition_values (rq_now rq) ph mode res pod url"
  note one = resolve_transition_Inr [OF tr]
  obtain x where x: "x \<in> set (db_releases d)" "?W x" using rowcount_one [OF one(2)] by blast
  have "x = r" using same_release [OF inv x(1) r] x(2) by (simp add: transition_where_def)
  then have W: "?W r" using x(2) by simp
  show "r_phase r = eph" and "r_podling_thread_id r = ep" using W by (simp_all add: transition_where_def)
  have "?F r \<in> set (upd ?W ?F (db_releases d))" unfolding upd_set using r W by auto
  then show "?F r \<in> set (db_releases d')" using one(1) by (simp add: same_core_def update_release_def)
  show "db_ballots d' = db_ballots d" using one(1) by (simp add: same_core_def)
qed

lemma transition_only_row:
  assumes inv: "db_ok d" and r: "r \<in> set (db_releases d)"
    and tr: "resolve_transition rq d r eph ep ph mode res pod url = Inr d'"
    and x: "x \<in> set (db_releases d')" "r_key x = r_key r"
  shows "x = transition_values (rq_now rq) ph mode res pod url r"
proof -
  let ?W = "transition_where r eph ep" and ?F = "transition_values (rq_now rq) ph mode res pod url"
  have "x \<in> set (upd ?W ?F (db_releases d))"
    using resolve_transition_Inr(1) [OF tr] x(1) by (simp add: same_core_def update_release_def)
  then obtain y where y: "y \<in> set (db_releases d)" "x = (if ?W y then ?F y else y)" unfolding upd_set by blast
  have "r_key y = r_key r" using y(2) x(2) by (cases "?W y") simp_all
  then have yr: "y = r" using same_release [OF inv y(1) r] by simp
  obtain z where z: "z \<in> set (db_releases d)" "?W z"
    using rowcount_one [OF resolve_transition_Inr(2) [OF tr]] by blast
  have "z = r" using same_release [OF inv z(1) r] z(2) by (simp add: transition_where_def)
  then show ?thesis using y(2) yr z(2) by simp
qed

lemma start_vote_task_tables:
  assumes "start_vote_task rq rc d1 pk v form r s m = Inr (t, d')"
  shows "db_ballots d' = db_ballots d1" and "db_committees d' = db_committees d1"
    and "db_projects d' = db_projects d1"
    and "x \<in> set (db_releases d1) \<Longrightarrow> \<exists>y \<in> set (db_releases d'). lifecycle_view y = lifecycle_view x"
proof -
  obtain d2 t0 where d2: "(\<exists>sfx. d2 = update_release d1 (\<lambda>x. r_key x = r_key r)
             (\<lambda>x. x \<lparr> r_download_path_suffix := sfx \<rparr>)) \<or> d2 = d1" and t0: "add_task d2 t0 = (t, d')"
    using start_vote_task_Inr [OF assms(1)] by blast
  have core: "same_core d2 d'" by (rule add_task_core [OF t0])
  show "db_ballots d' = db_ballots d1" and "db_committees d' = db_committees d1"
    and "db_projects d' = db_projects d1"
    using d2 core by (auto simp: same_core_def)
  show "\<exists>y \<in> set (db_releases d'). lifecycle_view y = lifecycle_view x" if x: "x \<in> set (db_releases d1)"
  proof -
    have "\<exists>y \<in> set (db_releases d2). lifecycle_view y = lifecycle_view x"
      using d2
    proof
      assume "\<exists>sfx. d2 = update_release d1 (\<lambda>x. r_key x = r_key r) (\<lambda>x. x \<lparr> r_download_path_suffix := sfx \<rparr>)"
      then obtain sfx where d2: "d2 = update_release d1 (\<lambda>x. r_key x = r_key r) (\<lambda>x. x \<lparr> r_download_path_suffix := sfx \<rparr>)"
        by blast
      show ?thesis
        by (rule bexI [of _ "if r_key x = r_key r then x \<lparr> r_download_path_suffix := sfx \<rparr> else x"])
          (use x in \<open>simp_all add: idle_columns d2 update_release_set, blast?\<close>)
    qed (use x in blast)
    then show ?thesis using core by (simp add: same_core_def)
  qed
qed

text \<open>The row after the first round of a podling has passed.\<close>

lemma pass_round_one_row:
  assumes inv: "db_ok d" and r: "r \<in> set (db_releases d)"
    and pass: "pass_round_one rq env security f d p r vt th = Inr (t, d')"
  shows "\<exists>x \<in> set (db_releases d'). r_key x = r_key r \<and> r_phase x = RELEASE_CANDIDATE \<and>
     r_podling_thread_id x = Some th \<and> r_project_key x = r_project_key r \<and>
     r_voted_revision_number x = r_voted_revision_number r \<and>
     r_current_vote_seq x = Some (counter_next (db_vote_counter d) (r_key r))"
    and "db_ballots d' = db_ballots d" and "db_committees d' = db_committees d"
    and "db_projects d' = db_projects d"
proof -
  obtain mode da n sf where
    tr: "resolve_transition rq d r RELEASE_CANDIDATE None RELEASE_CANDIDATE (Some mode) None (Some th) None = Inr da"
    and start: "start_vote rq (re_gate env) (re_recipients env) da (r_project_key r) (r_version r) sf False None
           (Some n) [] = Inr (t, d')"
    using pass by (rule pass_round_one_Inr)
  let ?x = "transition_values (rq_now rq) RELEASE_CANDIDATE (Some mode) None (Some th) None r"
  note row = transition_row [OF inv r tr]
  have cnt: "db_vote_counter da = db_vote_counter d" "db_committees da = db_committees d"
      "db_projects da = db_projects d"
    using resolve_transition_Inr(1) [OF tr] by (simp_all add: same_core_def)
  obtain r0 q s m n' d1 where r0: "release_get da (r_project_key r) (r_version r) = Some r0"
    and no: "start_vote_no_commit rq (re_gate env) da (r_key r0) (Some n) (if False then None else None) False
           (if False then None else r_podling_thread_id r0) (if False then [] else []) = Inr ((q, s, m, n'), d1)"
    and task: "start_vote_task rq (re_recipients env) d1 (r_project_key r) (r_version r) sf q s m = Inr (t, d')"
    using start by (rule start_vote_Inr)
  have k0: "r_key r0 = r_key r" by (rule transition_release_key [OF inv r tr r0])
  obtain q0 db where q0: "release_by_key da (r_key r0) = Some q0"
    and alloc: "vote_seq_allocate da (r_key q0) = (s, db)"
    and d1: "d1 = update_release db (start_vote_where db (r_key q0) (r_phase q0) n' False
          (if False then None else r_podling_thread_id r0)) (start_vote_values (rq_now rq) s False m n')"
    and one: "rowcount (start_vote_where db (r_key q0) (r_phase q0) n' False
          (if False then None else r_podling_thread_id r0)) (db_releases db) = 1"
    using no by (rule start_vote_no_commit_Inr)
  have k: "r_key q0 = r_key r" using release_by_key_in [OF q0] k0 by simp
  have s: "s = counter_next (db_vote_counter d) (r_key r)"
    and db: "db_releases db = db_releases da" "db_ballots db = db_ballots da"
      "db_committees db = db_committees da" "db_projects db = db_projects da"
    using alloc by (auto simp: vote_seq_allocate_eq k cnt)
  obtain y where y: "y \<in> set (db_releases db)" "start_vote_where db (r_key q0) (r_phase q0) n' False
          (if False then None else r_podling_thread_id r0) y"
    using rowcount_one [OF one] by blast
  have "y = ?x"
    using transition_only_row [OF inv r tr] y db k by (simp add: start_vote_where_def)
  then have "start_vote_values (rq_now rq) s False m n' ?x \<in> set (db_releases d1)"
    using y unfolding d1 update_release_set by auto
  from start_vote_task_tables(4) [OF task this] obtain z where z: "z \<in> set (db_releases d')"
    "lifecycle_view z = lifecycle_view (start_vote_values (rq_now rq) s False m n' ?x)" by blast
  have "r_key z = r_key r \<and> r_phase z = RELEASE_CANDIDATE \<and>
       r_podling_thread_id z = Some th \<and> r_project_key z = r_project_key r \<and>
       r_voted_revision_number z = r_voted_revision_number r \<and> r_current_vote_seq z = Some s"
    using z(2) by (simp add: lifecycle_view_def)
  then show "\<exists>x \<in> set (db_releases d'). r_key x = r_key r \<and> r_phase x = RELEASE_CANDIDATE \<and>
     r_podling_thread_id x = Some th \<and> r_project_key x = r_project_key r \<and>
     r_voted_revision_number x = r_voted_revision_number r \<and>
     r_current_vote_seq x = Some (counter_next (db_vote_counter d) (r_key r))"
    using z(1) s by blast
  show "db_ballots d' = db_ballots d" and "db_committees d' = db_committees d"
    and "db_projects d' = db_projects d"
    using start_vote_task_tables(1-3) [OF task] row(4) cnt db by (simp_all add: d1)
qed

section \<open>Outcomes\<close>

text \<open>
  C4: A resolution has exactly these outcomes. Passing the first round of a podling keeps the
  candidate, records its thread and opens the second round under a number that no ballot carries;
  passing any other vote makes the voted revision a preview resolved now; a failed or cancelled vote
  goes back to a draft without a trace of the vote. No ballot is added or lost.
\<close>

theorem resolution_outcomes:
  assumes "reachable test d" and "resolve rq env security f d pk v = Inr (rs, d')"
    and "release_get_phase d pk v RELEASE_CANDIDATE = Some r"
  shows "db_ballots d' = db_ballots d \<and> (\<exists>x \<in> set (db_releases d'). r_key x = r_key r \<and>
     (if rf_result f = VR_PASSED \<and> trusted_vote_round d r = Some 1
      then r_phase x = RELEASE_CANDIDATE \<and> r_podling_thread_id x \<noteq> None \<and>
           r_voted_revision_number x = r_voted_revision_number r \<and> trusted_vote_round d' x = Some 2 \<and>
           (\<exists>s. r_current_vote_seq x = Some s \<and>
                (\<forall>b \<in> set (db_ballots d'). b_release_key b = r_key r \<longrightarrow> b_vote_seq b < s))
      else if rf_result f = VR_PASSED
      then r_phase x = RELEASE_PREVIEW \<and> r_vote_resolved x = Some (rq_now rq) \<and>
           r_voted_revision_number x = latest_revision_number d (r_key r)
      else r_phase x = RELEASE_CANDIDATE_DRAFT \<and> r_vote_mode x = None \<and>
           r_voted_revision_number x = None \<and> r_podling_thread_id x = None \<and> r_vote_resolved x = None))"
  using assms(2)
proof (rule resolve_resolved_by)
  fix r1 p f1
  assume get: "release_get_phase d pk v RELEASE_CANDIDATE = Some r1"
    and res: "rf_result f1 = rf_result f" and how: "resolved_by rq env security f1 d p r1 d'"
  have rr: "r1 = r" using get assms(3) by simp
  have inv: "db_ok d" by (rule reachable_inv [OF assms(1)])
  have r: "r \<in> set (db_releases d)" "r_phase r = RELEASE_CANDIDATE"
    using release_get_phase_in [OF assms(3)] by auto
  have voted: "r_voted_revision_number r = latest_revision_number d (r_key r)"
    using invD(4) [OF inv r(1)] r(2) by (simp add: linked_def)
  show ?thesis
  proof (cases "trusted_vote_round d r = Some 1 \<and> rf_result f = VR_PASSED")
    case True
    then obtain f' vt th t2 where pass: "pass_round_one rq env security f' d p r vt th = Inr (t2, d')"
      using how rr res unfolding resolved_by_def by auto
    note row = pass_round_one_row [OF inv r(1) pass]
    obtain x where x: "x \<in> set (db_releases d')" "r_key x = r_key r" "r_phase x = RELEASE_CANDIDATE"
      "r_podling_thread_id x = Some th" "r_project_key x = r_project_key r"
      "r_voted_revision_number x = r_voted_revision_number r"
      "r_current_vote_seq x = Some (counter_next (db_vote_counter d) (r_key r))"
      using row(1) by blast
    have "project_committee d' = project_committee d"
      by (intro ext) (simp add: project_committee_def row(3) split: option.split)
    then have "release_committee d' x = release_committee d r"
      by (simp add: release_committee_def release_project_def project_get_def row(4) x(5) split: option.split)
    then have "trusted_vote_round d' x = Some 2"
      using True x(4) unfolding trusted_vote_round_def vote_round_of_def
      by (auto split: option.splits if_splits)
    moreover have "b_vote_seq b < counter_next (db_vote_counter d) (r_key r)"
      if "b \<in> set (db_ballots d')" "b_release_key b = r_key r" for b
      using vote_seq_fresh [OF inv, of b] that row(2) by simp
    ultimately show ?thesis using True x row(2) by auto
  next
    case False
    then obtain vt where dec: "decide_transition rq env d p r (rf_result f) vt = Inr d'"
      using how rr res unfolding resolved_by_def by (auto split: if_splits)
    show ?thesis
    proof (cases "rf_result f = VR_PASSED")
      case True
      then obtain mode where "resolve_transition rq d r RELEASE_CANDIDATE (r_podling_thread_id r)
            RELEASE_PREVIEW (Some mode) (Some (rq_now rq)) (r_podling_thread_id r)
            (resolved_vote_thread_url env vt) = Inr d'"
        using dec by (auto simp: decide_transition_def bindE_Inr_iff)
      note row = transition_row [OF inv r(1) this]
      show ?thesis using row(3,4) False True voted by (intro conjI bexI [OF _ row(3)]) auto
    next
      case f: False
      then have "resolve_transition rq d r RELEASE_CANDIDATE (r_podling_thread_id r)
            RELEASE_CANDIDATE_DRAFT None None None None = Inr d'"
        using dec by (simp add: decide_transition_def)
      note row = transition_row [OF inv r(1) this]
      show ?thesis using row(3,4) f by (intro conjI bexI [OF _ row(3)]) auto
    qed
  qed
qed

text \<open>A podling's first round on record, passed into its second.\<close>

definition pod_committee :: committee where
  "pod_committee = tlp \<lparr> c_key := ''pod'', c_is_podling := True \<rparr>"

definition ipmc_committee :: committee where
  "ipmc_committee = tlp \<lparr> c_key := ''incubator'', c_committee_members := [''ann''] \<rparr>"

definition beta :: project where
  "beta = alpha \<lparr> p_key := ''beta'', p_committee_key := Some ''pod'' \<rparr>"

definition podrun0 :: db where "podrun0 = empty_db [pod_committee, ipmc_committee] [beta]"
definition podrun1 :: db where "podrun1 = after (starts ''beta'' podrun0)"
definition podrun2 :: db where "podrun2 = after (uploads ''beta'' podrun1)"
definition podrun3 :: db where "podrun3 = call_sent (after (opens_vote ''beta'' podrun2))"
definition podrun4 :: db where
  "podrun4 = after (casts ''cat'' CH_YES ''beta'' (after (casts ''bob'' CH_YES ''beta''
      (after (casts ''ann'' CH_YES ''beta'' podrun3)))))"

text \<open>The second round goes to the Incubator's list, which the first call for votes asked for.\<close>

definition pod_passes :: "(resolution \<times> db) py" where
  "pod_passes = resolve (by_user ''ann'' 200) (plain_env \<lparr> re_recipients :=
      \<lparr> rc_first_round = [], rc_second_round = [''general@incubator.apache.org''] \<rparr> \<rparr>)
      False passed_form podrun4 ''beta'' ''1.0''"

definition podrun5 :: db where "podrun5 = after pod_passes"

lemma podrun_succeeds:
  "\<not> isl (starts ''beta'' podrun0)" "\<not> isl (uploads ''beta'' podrun1)" "\<not> isl (opens_vote ''beta'' podrun2)"
  "\<not> isl (casts ''ann'' CH_YES ''beta'' podrun3)"
  "\<not> isl (casts ''bob'' CH_YES ''beta'' (after (casts ''ann'' CH_YES ''beta'' podrun3)))"
  "\<not> isl (casts ''cat'' CH_YES ''beta'' (after (casts ''bob'' CH_YES ''beta''
      (after (casts ''ann'' CH_YES ''beta'' podrun3)))))"
  "\<not> isl pod_passes"
  by code_simp+

lemma podrun_reachable: "reachable test podrun2" "reachable test podrun4"
proof -
  have r0: "reachable test podrun0"
    by (rule reachable_init) (simp add: podrun0_def empty_db_def init_db_def)
  have r1: "reachable test podrun1"
    unfolding podrun1_def by (rule reachable_step [OF r0 run_step(1) [OF podrun_succeeds(1)]])
  show r2: "reachable test podrun2"
    unfolding podrun2_def by (rule reachable_step [OF r1 run_step(2) [OF podrun_succeeds(2)]])
  have r3: "reachable test podrun3"
    unfolding podrun3_def call_sent_def
    by (rule reachable_step [OF reachable_step [OF r2 run_step(3) [OF podrun_succeeds(3)]] task_done_step])
  show "reachable test podrun4"
    unfolding podrun4_def
    by (rule reachable_step [OF reachable_step [OF reachable_step [OF r3
          run_step(4) [OF podrun_succeeds(4)]] run_step(4) [OF podrun_succeeds(5)]]
          run_step(4) [OF podrun_succeeds(6)]])
qed

lemma podrun4_round:
  "case release_get_phase podrun4 ''beta'' ''1.0'' RELEASE_CANDIDATE of None \<Rightarrow> False
   | Some r \<Rightarrow> trusted_vote_round podrun4 r = Some 1 \<and> r_current_vote_seq r = Some 1"
  by code_simp

theorem resolution_outcomes_witness:
  "db_ballots podrun5 = db_ballots podrun4 \<and>
   (\<exists>x \<in> set (db_releases podrun5). r_phase x = RELEASE_CANDIDATE \<and> trusted_vote_round podrun5 x = Some 2)"
proof -
  obtain r where r: "release_get_phase podrun4 ''beta'' ''1.0'' RELEASE_CANDIDATE = Some r"
      "trusted_vote_round podrun4 r = Some 1"
    using podrun4_round by (auto split: option.splits)
  have "pod_passes = Inr (fst (projr pod_passes), podrun5)"
    unfolding podrun5_def by (rule after_Inr [OF podrun_succeeds(7)])
  from resolution_outcomes [OF podrun_reachable(2) this [unfolded pod_passes_def] r(1)] r(2)
  show ?thesis by (auto simp: passed_form_def)
qed

end
