(* ===== verification/Voting.thy ===== *)
theory Voting
  imports Resolution
begin

text \<open>
  Starting a vote, casting ballots in it, and that a decided vote can be resolved.
\<close>

section \<open>Casting\<close>

lemma sel_append: "sel P (xs @ ys) = sel P xs @ sel P ys"
  by (simp add: sel_def)

lemma ballot_cast_latest:
  assumes "d' = add_ballot (queue_task d t) b" and "b_release_key b = rk" and "b_vote_seq b = s"
  shows "\<exists>i. latest_ballot_for_voter d' rk s (b_voter_asf_uid b) = Some (b \<lparr> b_id := i \<rparr>)"
    and "uid \<noteq> b_voter_asf_uid b \<Longrightarrow> latest_ballot_for_voter d' rk s uid = latest_ballot_for_voter d rk s uid"
    and "set (db_ballots d) \<subseteq> set (db_ballots d')"
proof -
  define i where "i = next_id b_id (db_ballots d)"
  have balls: "db_ballots d' = db_ballots d @ [b \<lparr> b_id := i \<rparr>]"
    by (simp add: assms(1) add_ballot_def queue_task_def add_task_def Let_def i_def)
  have less: "b_id x < i" if "x \<in> set (db_ballots d)" for x
    using next_id_greater [OF that, of b_id] by (simp add: i_def)
  have "latest_ballot_for_voter d' rk s (b_voter_asf_uid b) = Some (b \<lparr> b_id := i \<rparr>)"
    unfolding latest_ballot_for_voter_def balls sel_snoc using assms(2,3)
    by simp (rule max_by_key_snoc_greater, simp add: less sel_set)
  then show "\<exists>i. latest_ballot_for_voter d' rk s (b_voter_asf_uid b) = Some (b \<lparr> b_id := i \<rparr>)" by blast
  show "uid \<noteq> b_voter_asf_uid b \<Longrightarrow> latest_ballot_for_voter d' rk s uid = latest_ballot_for_voter d rk s uid"
    by (simp add: latest_ballot_for_voter_def balls sel_snoc)
  show "set (db_ballots d) \<subseteq> set (db_ballots d')" by (auto simp: balls)
qed

text \<open>
  C31: A ballot that was accepted is the voter's counting ballot from then on, in the open vote and
  its round; it replaces what the voter cast before, changes nobody else's ballot and removes none.
\<close>

theorem a_cast_ballot_counts:
  assumes "reachable test d" and "d' \<noteq> d"
    and "cast_trusted rq receipt d pk v choice comment fullname eseq emode = Inr (x, d')"
  shows "\<exists>r seq b. release_get_phase d pk v RELEASE_CANDIDATE = Some r \<and> r_current_vote_seq r = Some seq \<and>
     latest_ballot_for_voter d' (r_key r) seq (rq_asf_uid rq) = Some b \<and>
     b \<in> set (ballots_for_resolution d' (r_key r) seq) \<and> b_choice b = choice \<and>
     b_vote_round b = trusted_vote_round d r \<and>
     (\<forall>uid. uid \<noteq> rq_asf_uid rq \<longrightarrow>
        latest_ballot_for_voter d' (r_key r) seq uid = latest_ballot_for_voter d (r_key r) seq uid) \<and>
     set (db_ballots d) \<subseteq> set (db_ballots d')"
proof -
  have ok': "db_ok d'" by (rule cast_trusted_inv [OF reachable_inv [OF assms(1)] assms(3)])
  obtain r seq t b where r: "release_get_phase d pk v RELEASE_CANDIDATE = Some r" "r_current_vote_seq r = Some seq"
    and b: "d' = add_ballot (queue_task d t) b" "b_release_key b = r_key r" "b_vote_seq b = seq"
      "b_vote_round b = trusted_vote_round d r" "b_voter_asf_uid b = rq_asf_uid rq" "b_choice b = choice"
    using cast_trusted_cases [OF assms(3,2)] unfolding ballot_cast_def by blast
  note new = ballot_cast_latest [OF b(1-3)]
  obtain i where i: "latest_ballot_for_voter d' (r_key r) seq (rq_asf_uid rq) = Some (b \<lparr> b_id := i \<rparr>)"
    using new(1) b(5) by auto
  have "b \<lparr> b_id := i \<rparr> \<in> set (ballots_for_resolution d' (r_key r) seq)"
    using latest_for_voter_iff [OF invD(7,8) [OF ok'], of "b \<lparr> b_id := i \<rparr>" "r_key r" seq] i b(5) by simp
  then show ?thesis
    using r b i new(2,3) by (intro exI [of _ r] exI [of _ seq] exI [of _ "b \<lparr> b_id := i \<rparr>"]) simp
qed

lemma ballot_numbers: "map (\<lambda>x. length (db_ballots x)) [run4, run5, run6] = [0, 1, 2]"
  by code_simp

theorem a_cast_ballot_counts_witness:
  "\<exists>(r :: release) seq b. r_phase r = RELEASE_CANDIDATE \<and>
     latest_ballot_for_voter run6 (r_key r) seq ''bob'' = Some b \<and> b_choice b = CH_YES"
proof -
  have c: "cast_trusted (by_user ''bob'' 5) (''receipt-'' @ ''bob'') run5 ''alpha'' ''1.0'' CH_YES [] ''bob'' None None
      = Inr (fst (projr (casts ''bob'' CH_YES ''alpha'' run5)), run6)"
    unfolding run6_def casts_def by (rule after_Inr [OF run_succeeds(5) [unfolded casts_def]])
  have "run6 \<noteq> run5" using ballot_numbers by auto
  from a_cast_ballot_counts [OF run_reachable(6) this c]
  obtain r seq b where "release_get_phase run5 ''alpha'' ''1.0'' RELEASE_CANDIDATE = Some r"
    and b: "latest_ballot_for_voter run6 (r_key r) seq (rq_asf_uid (by_user ''bob'' 5)) = Some b" "b_choice b = CH_YES"
    by blast
  then have "r_phase r = RELEASE_CANDIDATE" by (simp add: release_get_phase_in)
  moreover have "rq_asf_uid (by_user ''bob'' 5) = ''bob''" by (simp add: by_user_def)
  ultimately show ?thesis
    using b by (intro exI [of _ r] exI [of _ seq] exI [of _ b]) simp
qed

text \<open>
  A ballot that is not accepted changes nothing: the result names no addressee exactly when the
  database is the one before, and the voter then gets a reason.
\<close>

theorem a_refused_ballot_changes_nothing:
  assumes "cast_trusted rq receipt d pk v choice comment fullname eseq emode = Inr ((to, reason), d')"
  shows "(to = [] \<longleftrightarrow> d' = d) \<and> (to = [] \<longleftrightarrow> reason \<noteq> [])"
proof -
  have grown: "add_ballot (queue_task d t) b \<noteq> d" for t b
  proof
    assume "add_ballot (queue_task d t) b = d"
    then have "length (db_ballots (add_ballot (queue_task d t) b)) = length (db_ballots d)" by simp
    then show False by (simp add: add_ballot_def queue_task_def add_task_def Let_def)
  qed
  show ?thesis
  proof (cases "refused to reason d d'")
    case False
    note ok = cast_trusted_split [OF assms False]
    obtain t b where "d' = add_ballot (queue_task d t) b" using ok unfolding ballot_cast_def by blast
    then have "d' \<noteq> d" using grown by simp
    then show ?thesis using ok by simp
  qed (simp add: refused_def)
qed

lemma closed_vote: "cast_trusted (by_user ''dan'' 1) ''m'' run8 ''alpha'' ''1.0'' CH_NO [] ''Dan'' None None
    = Inr (([], ''Vote is no longer open.''), run8)"
proof -
  have "release_get_phase run8 ''alpha'' ''1.0'' RELEASE_CANDIDATE = None" by code_simp
  then show ?thesis by (simp add: cast_trusted_def)
qed

theorem a_refused_ballot_changes_nothing_witness:
  "snd (projr (cast_trusted (by_user ''dan'' 1) ''m'' run8 ''alpha'' ''1.0'' CH_NO [] ''Dan'' None None)) = run8 \<and>
   ''Vote is no longer open.'' \<noteq> []"
  using a_refused_ballot_changes_nothing [OF closed_vote] closed_vote by simp

section \<open>Starting a vote\<close>

lemma start_vote_concerns:
  assumes "start_vote_no_commit rq gate d rk er em True ep ack = Inr x"
  shows "set (vg_required_concerns gate) \<subseteq> set ack"
  using assms unfolding start_vote_no_commit_def Let_def by (auto simp: bindE_Inr_iff)

text \<open>
  C29: A vote starts only on a draft at rest: a draft with a revision, with no task on that revision
  and nothing in quarantine, with files and no blocker, whose concerns the starter acknowledged. The
  release becomes a candidate for exactly that revision, under a number that no ballot carries.
\<close>

theorem a_vote_starts_on_a_draft_at_rest:
  assumes "reachable test d" and "start_vote rq gate rc d pk v form True em er ack = Inr (t, d')"
  shows "\<exists>r n. release_get d pk v = Some r \<and> r_phase r = RELEASE_CANDIDATE_DRAFT \<and>
      latest_revision_number d (r_key r) = Some n \<and> tasks_ongoing d (r_project_key r) (r_version r) n = 0 \<and>
      pending_quarantine_count d (r_key r) = 0 \<and> vg_file_count gate \<noteq> 0 \<and> \<not> vg_blockers gate \<and>
      set (vg_required_concerns gate) \<subseteq> set ack \<and>
      (\<exists>x \<in> set (db_releases d'). r_key x = r_key r \<and> r_phase x = RELEASE_CANDIDATE \<and>
         r_voted_revision_number x = Some n \<and> r_vote_mode x \<noteq> None \<and>
         (\<exists>s. r_current_vote_seq x = Some s \<and> ballots_in d' (r_key r) s = []))"
proof -
  have inv: "db_ok d" by (rule reachable_inv [OF assms(1)])
  obtain r0 q s m n d1 where r0: "release_get d pk v = Some r0"
    and no: "start_vote_no_commit rq gate d (r_key r0) er (if True then em else None) True
           (if True then None else r_podling_thread_id r0) (if True then ack else []) = Inr ((q, s, m, n), d1)"
    and task: "start_vote_task rq rc d1 pk v form q s m = Inr (t, d')"
    using assms(2) by (rule start_vote_Inr)
  obtain r db where r: "release_by_key d (r_key r0) = Some r" and n: "latest_revision_number d (r_key r) = Some n"
    and ph: "r_phase r = (if True then RELEASE_CANDIDATE_DRAFT else RELEASE_CANDIDATE)"
    and g: "True \<longrightarrow> pending_quarantine_count d (r_key r) = 0"
      "True \<longrightarrow> tasks_ongoing d (r_project_key r) (r_version r) n = 0"
      "True \<longrightarrow> vg_file_count gate \<noteq> 0" "\<not> vg_blockers gate"
    and alloc: "vote_seq_allocate d (r_key r) = (s, db)"
    and d1: "d1 = update_release db (start_vote_where db (r_key r) (r_phase r) n True
          (if True then None else r_podling_thread_id r0)) (start_vote_values (rq_now rq) s True m n)"
    and one: "rowcount (start_vote_where db (r_key r) (r_phase r) n True
          (if True then None else r_podling_thread_id r0)) (db_releases db) = 1"
    using no by (rule start_vote_no_commit_Inr)
  have rr: "r = r0"
    using same_release [OF inv, of r r0] release_by_key_in [OF r] release_get_in [OF r0] by simp
  have s: "s = counter_next (db_vote_counter d) (r_key r)"
    and db: "db_releases db = db_releases d" "db_ballots db = db_ballots d"
    using alloc by (auto simp: vote_seq_allocate_eq)
  obtain y where y: "y \<in> set (db_releases db)" "start_vote_where db (r_key r) (r_phase r) n True
          (if True then None else r_podling_thread_id r0) y"
    using rowcount_one [OF one] by blast
  have "start_vote_values (rq_now rq) s True m n y \<in> set (db_releases d1)"
    using y unfolding d1 update_release_set by auto
  from start_vote_task_tables(4) [OF task this] obtain x where x: "x \<in> set (db_releases d')"
    "lifecycle_view x = lifecycle_view (start_vote_values (rq_now rq) s True m n y)" by blast
  have row: "r_key x = r_key r \<and> r_phase x = RELEASE_CANDIDATE \<and> r_voted_revision_number x = Some n \<and>
      r_vote_mode x \<noteq> None \<and> r_current_vote_seq x = Some s"
    using x(2) y(2) by (simp add: lifecycle_view_def start_vote_where_def)
  have "db_ballots d' = db_ballots d" using start_vote_task_tables(1) [OF task] db by (simp add: d1)
  then have "ballots_in d' (r_key r) s = []"
    using vote_seq_fresh [OF inv] s by (fastforce simp: sel_def filter_empty_conv)
  then show ?thesis
    using r0 rr ph n g start_vote_concerns no row x(1)
    by (intro exI [of _ r] exI [of _ n]) (auto simp: rr)
qed

theorem a_vote_starts_on_a_draft_at_rest_witness:
  "\<exists>r n x s. release_get run2 ''alpha'' ''1.0'' = Some r \<and> latest_revision_number run2 (r_key r) = Some n \<and>
     x \<in> set (db_releases run3) \<and> r_voted_revision_number x = Some n \<and> r_current_vote_seq x = Some s"
proof -
  have m: "start_vote (by_user ''ann'' 3) open_gate dev_list run2 ''alpha'' ''1.0'' vote_form True None None []
      = Inr (fst (projr (opens_vote ''alpha'' run2)), run3)"
    unfolding run3_def opens_vote_def by (rule after_Inr [OF run_succeeds(3) [unfolded opens_vote_def]])
  show ?thesis using a_vote_starts_on_a_draft_at_rest [OF run_reachable(3) m] by blast
qed

end
