(* ===== verification/Progress.thy ===== *)
theory Progress
  imports Voting
begin

text \<open>
  Operations that cannot get stuck: a trusted vote that is decided can be resolved, and one that is
  open can be cancelled, in every reachable state.
\<close>

lemma binding_known:
  "release_committee d r = Some c \<Longrightarrow>
     \<exists>b n. is_binding_for_release (db_committees d) c uid (trusted_vote_round d r) = Inr (b, n)"
  by (auto simp: is_binding_for_release_ok trusted_vote_round_def vote_round_of_def)

lemma details_loop_total:
  assumes "\<And>uid. \<exists>b n. is_binding_for_release cs c uid rnd = Inr (b, n)"
  shows "\<exists>ds' s'. ballot_details_loop cs c rnd None bs ds s = Inr (ds', s')"
proof (induction bs arbitrary: ds s)
  case Nil
  show ?case by simp
next
  case (Cons b bs)
  obtain y n where "is_binding_for_release cs c (b_voter_asf_uid b) rnd = Inr (y, n)" using assms by blast
  then show ?case using Cons.IH by simp
qed

lemma summary_total:
  assumes "release_committee d r = Some c"
  shows "\<exists>s. trusted_ballot_summary d r bs = Inr s"
  using details_loop_total [OF binding_known [OF assms], of bs "[]" trusted_summary_zero] assms
  by (auto simp: trusted_ballot_summary_def trusted_ballot_details_from_ballots_def)

lemma transition_possible:
  assumes "db_ok d" and "r \<in> set (db_releases d)" and "r_phase r = ph" and "r_podling_thread_id r = ep"
  shows "\<exists>d'. resolve_transition rq d r ph ep ph' mode res pod url = Inr d'"
proof -
  let ?P = "\<lambda>x. r_phase x = ph \<and> r_current_vote_seq x = r_current_vote_seq r \<and> r_podling_thread_id x = ep"
  have "rowcount (\<lambda>x. r_key x = r_key r \<and> ?P x) (db_releases d) \<le> 1"
    by (rule releases.rowcount_key_le_one [OF invD(1) [OF assms(1)]])
  moreover have "rowcount (\<lambda>x. r_key x = r_key r \<and> ?P x) (db_releases d) > 0"
    unfolding rowcount_pos using assms(2-4) by blast
  ultimately have "rowcount (transition_where r ph ep) (db_releases d) = 1"
    by (simp add: transition_where_def [abs_def])
  then show ?thesis by (simp add: resolve_transition_def Let_def)
qed

lemma decide_possible:
  assumes "db_ok d" and "r \<in> set (db_releases d)" and "r_phase r = RELEASE_CANDIDATE"
    and "effective_vote_mode p r = Inr mode"
  shows "\<exists>d'. decide_transition rq env d p r result vt = Inr d'"
  using transition_possible [OF assms(1-3) refl] assms(4)
  by (auto simp: decide_transition_def)

text \<open>What the ballots must say for a result.\<close>

definition ballots_allow :: "db \<Rightarrow> release \<Rightarrow> vote_result \<Rightarrow> bool" where
  "ballots_allow d r result =
     (result = VR_PASSED \<longrightarrow>
        (case r_current_vote_seq r of None \<Rightarrow> False | Some seq \<Rightarrow>
           (case bindE (effective_trusted_ballots d r seq) (trusted_ballot_summary d r) of
              Inl _ \<Rightarrow> False
            | Inr s \<Rightarrow> binding_vote_passes (ts_binding_yes s) (ts_binding_no s))))"

lemma resolve_trusted_possible:
  assumes inv: "db_ok d" and r: "release_get_phase d pk v RELEASE_CANDIDATE = Some r"
    and p: "demand_project d r = Inr p" and mode: "effective_vote_mode p r = Inr TRUSTED"
    and c: "release_committee d r = Some c"
    and form: "rf_expected_vote_mode f = None" "rf_expected_vote_seq f = None"
    and round: "rf_result f = VR_PASSED \<longrightarrow> trusted_vote_round d r \<noteq> Some 1"
    and time: "rf_result f = VR_CANCELLED \<or> vote_pass_fail_allowed rq (release_current_vote_task d r)"
    and allow: "ballots_allow d r (rf_result f)"
  shows "\<exists>rs d'. resolve_trusted rq env sec f d pk v th = Inr (rs, d')"
proof -
  note rin = release_get_phase_in [OF r]
  obtain seq where seq: "r_current_vote_seq r = Some seq"
    using invD(3) [OF inv, of r] rin by (auto simp: row_ok_def)
  obtain bs where bs: "effective_trusted_ballots d r seq = Inr bs"
    using effective_ballots_eq [OF invD(7,8) [OF inv]] by blast
  obtain s where s: "trusted_ballot_summary d r bs = Inr s" using summary_total [OF c] by blast
  obtain d' where d': "decide_transition rq env d p r (rf_result f) (release_current_vote_task d r) = Inr d'"
    using decide_possible [OF inv _ _ mode] rin by blast
  have pass: "rf_result f = VR_PASSED \<longrightarrow> binding_vote_passes (ts_binding_yes s) (ts_binding_no s)"
    using allow by (simp add: ballots_allow_def seq bs s)
  have notfirst: "\<not> (trusted_vote_round d r = Some 1 \<and> rf_result f = VR_PASSED)" using round by blast
  have early: "\<not> (rf_result f \<noteq> VR_CANCELLED \<and> vote_end_get (release_current_vote_task d r) \<noteq> None
               \<and> \<not> vote_pass_fail_allowed rq (release_current_vote_task d r)
               \<and> \<not> (sec \<or> vote_resolution_bypass rq p (Some (rq_asf_uid rq))))"
    using time by blast
  have g: "rf_result f = VR_PASSED \<longrightarrow> binding_vote_passes (ts_binding_yes s) (ts_binding_no s) \<or>
      (sec \<or> vote_resolution_bypass rq p (Some (rq_asf_uid rq)))" using pass by blast
  have "\<exists>x. resolve_trusted rq env sec f d pk v th = Inr x"
    unfolding resolve_trusted_def Let_def r p mode form seq c bindE_simps demandE_Some
      if_not_P [OF early] bs s if_not_P [OF notfirst] d'
    using g by (simp add: bs s d')
  then show ?thesis by (metis prod.collapse)
qed

text \<open>
  C32: A decided vote can be resolved: on a reachable candidate of an active project under trusted
  voting, whoever may write to the release can cancel the vote at any time, and can record its
  result once the voting period has ended, where a pass (other than of a podling's first round)
  needs the majority.
\<close>

theorem a_decided_vote_can_be_resolved:
  assumes "reachable test d" and "release_get_phase d pk v RELEASE_CANDIDATE = Some r"
    and "demand_project d r = Inr p" and "project_is_active p" and "ensure_release_writable rq p r = Inr ()"
    and "release_committee d r = Some c" and "effective_vote_mode p r = Inr TRUSTED"
    and "rf_expected_vote_mode f = None" and "rf_expected_vote_seq f = None"
    and "rf_additional_cc f = []" and "rf_additional_bcc f = []"
    and "rf_result f = VR_CANCELLED \<or> vote_pass_fail_allowed rq (release_current_vote_task d r)"
    and "rf_result f = VR_PASSED \<longrightarrow> trusted_vote_round d r \<noteq> Some 1"
    and "ballots_allow d r (rf_result f)"
  shows "\<exists>rs d'. resolve rq env False f d pk v = Inr (rs, d') \<and> reachable test d'"
proof -
  have inv: "db_ok d" by (rule reachable_inv [OF assms(1)])
  let ?f = "(resolve_additions r f) \<lparr> rf_automatic_resolve_when_finished :=
                   (rf_automatic_resolve_when_finished f \<and> \<not> False) \<rparr>"
  have f: "rf_result ?f = rf_result f" "rf_expected_vote_mode ?f = None" "rf_expected_vote_seq ?f = None"
    "rf_additional_cc ?f = []" "rf_additional_bcc ?f = []"
    using assms(8-11) by (simp_all add: resolve_additions_def)
  have "\<exists>rs d'. resolve_trusted rq env False ?f d pk v th = Inr (rs, d')" for th
    by (rule resolve_trusted_possible [OF inv assms(2,3,7,6) f(2,3)]) (use assms(12-14) f(1) in simp_all)
  moreover have active: "ensure_project_active p = Inr ()" using assms(4) by simp
  have "\<exists>th. resolve rq env False f d pk v = resolve_trusted rq env False ?f d pk v th"
    unfolding resolve_def Let_def assms(2,3,5,7) active demandE_Some bindE_simps if_False f
    by (intro exI) simp
  ultimately obtain rs d' where "resolve rq env False f d pk v = Inr (rs, d')" by metis
  then show ?thesis using reachable_step [OF assms(1) step.Resolve] by blast
qed

definition cancelled_form :: resolve_form where
  "cancelled_form = passed_form \<lparr> rf_result := VR_CANCELLED \<rparr>"

lemma run3_facts:
  "case release_get_phase run3 ''alpha'' ''1.0'' RELEASE_CANDIDATE of None \<Rightarrow> False | Some r \<Rightarrow>
     (case demand_project run3 r of Inl _ \<Rightarrow> False | Inr p \<Rightarrow>
        effective_vote_mode p r = Inr TRUSTED \<and> project_is_active p \<and> \<not> is_embargoed r \<and>
        release_committee run3 r \<noteq> None)"
  by code_simp

theorem a_decided_vote_can_be_resolved_witness:
  "\<exists>rs d'. resolve (by_user ''dan'' 4) plain_env False cancelled_form run3 ''alpha'' ''1.0'' = Inr (rs, d')"
proof -
  obtain r p c where r: "release_get_phase run3 ''alpha'' ''1.0'' RELEASE_CANDIDATE = Some r"
      "demand_project run3 r = Inr p" "project_is_active p"
      "ensure_release_writable (by_user ''dan'' 4) p r = Inr ()" "release_committee run3 r = Some c"
      "effective_vote_mode p r = Inr TRUSTED"
    using run3_facts by (auto split: option.splits sum.splits)
  have "rf_expected_vote_mode cancelled_form = None" "rf_expected_vote_seq cancelled_form = None"
    "rf_additional_cc cancelled_form = []" "rf_additional_bcc cancelled_form = []"
    "rf_result cancelled_form = VR_CANCELLED"
    by (simp_all add: cancelled_form_def passed_form_def)
  then show ?thesis
    using a_decided_vote_can_be_resolved [OF run_reachable(4) [of False] r, of cancelled_form plain_env]
    by (auto simp: ballots_allow_def)
qed

end
