(* ===== verification/Merge.thy ===== *)
theory Merge
  imports PyStr "HOL-Library.List_Lexorder" "HOL-Library.Char_ord"
begin

text \<open>
  src/atr/merge.py: the three-way merge of a new revision (N) with the prior revision (P) that
  appeared since the base (B) it was made from.  Files are compared by inode first and by hash when
  the inodes differ, and the files of P are hard linked into the directory of N.

  A directory is an association list from relative paths to files; the directory that the merge
  changes is a map, with the list of the directories in it.  The hash function is a parameter.
\<close>

section \<open>Files and state\<close>

record disk_file =
  fi_ino :: nat
  fi_content :: string

record merge_env =
  me_hash :: "string \<Rightarrow> string"
  me_base_inodes :: "(string \<times> nat) list"
  me_base_hashes :: "(string \<times> string) list"
  me_prior :: "(string \<times> disk_file) list"
  me_db_hashes :: "(string \<times> string) list"
  me_n_inodes :: "(string \<times> nat) list"

record merge_state =
  ms_temp :: "string \<Rightarrow> disk_file option"
  ms_dirs :: "string list"
  ms_hashes :: "string \<Rightarrow> string option"
  ms_sizes :: "string \<Rightarrow> nat option"
  ms_prior_hashes :: "(string \<Rightarrow> string option) option"

definition paths_to_inodes :: "(string \<times> disk_file) list \<Rightarrow> (string \<times> nat) list" where
  "paths_to_inodes dir = map (\<lambda>(p, f). (p, fi_ino f)) dir"

text \<open>The proper ancestors of a path: \<open>"/".join(parts[:i]) for i in range(1, len(parts))\<close>.\<close>

definition ancestors :: "string \<Rightarrow> string list" where
  "ancestors path =
     (let parts = split_on (CHR ''/'') path in map (\<lambda>i. join ''/'' (take i parts)) [1..<length parts])"

definition implicit_dirs :: "(string \<times> nat) list \<Rightarrow> string list" where
  "implicit_dirs n_inodes = concat (map (ancestors \<circ> fst) n_inodes)"

definition has_type_conflict :: "string \<Rightarrow> (string \<times> nat) list \<Rightarrow> string list \<Rightarrow> bool" where
  "has_type_conflict path n_inodes n_dirs =
     (path \<in> set n_dirs \<or> list_ex (\<lambda>a. map_of n_inodes a \<noteq> None) (ancestors path))"

definition content_matches :: "nat \<Rightarrow> nat \<Rightarrow> string \<Rightarrow> string \<Rightarrow> bool" where
  "content_matches b_ino n_ino b_hash n_hash = (if b_ino = n_ino then True else b_hash = n_hash)"

section \<open>Linking and removing\<close>

definition prior_hashes_load :: "merge_env \<Rightarrow> string \<Rightarrow> string option" where
  "prior_hashes_load env =
     (if me_db_hashes env \<noteq> [] then map_of (me_db_hashes env)
      else map_of (map (\<lambda>(p, f). (p, me_hash env (fi_content f))) (me_prior env)))"

definition prior_hashes :: "merge_env \<Rightarrow> merge_state \<Rightarrow> string \<Rightarrow> string option" where
  "prior_hashes env st = (case ms_prior_hashes st of Some h \<Rightarrow> h | None \<Rightarrow> prior_hashes_load env)"

text \<open>\<open>os.link\<close> fails when the source is missing or the target exists, \<open>os.remove\<close> when the file is missing.\<close>

definition link_prior :: "merge_env \<Rightarrow> string \<Rightarrow> merge_state \<Rightarrow> merge_state py" where
  "link_prior env path st =
     (case map_of (me_prior env) path of
        None \<Rightarrow> Inl (OSError ''No such file or directory'')
      | Some f \<Rightarrow>
          if ms_temp st path \<noteq> None \<or> path \<in> set (ms_dirs st) then Inl (OSError ''File exists'')
          else Inr (st \<lparr> ms_temp := (ms_temp st)(path \<mapsto> f) \<rparr>))"

definition remove_file :: "string \<Rightarrow> merge_state \<Rightarrow> merge_state py" where
  "remove_file path st =
     (case ms_temp st path of
        None \<Rightarrow> Inl (OSError ''No such file or directory'')
      | Some _ \<Rightarrow> Inr (st \<lparr> ms_temp := (ms_temp st)(path := None) \<rparr>))"

text \<open>\<open>os.makedirs(parent, exist_ok=True)\<close>: an ancestor that is a file is an error.\<close>

definition makedirs_with_permissions :: "string \<Rightarrow> merge_state \<Rightarrow> merge_state py" where
  "makedirs_with_permissions path st =
     (if list_ex (\<lambda>a. ms_temp st a \<noteq> None) (ancestors path) then Inl (OSError ''Not a directory'')
      else Inr (st \<lparr> ms_dirs := ms_dirs st @ filter (\<lambda>a. a \<notin> set (ms_dirs st)) (ancestors path) \<rparr>))"

text \<open>The hash and the size of the file that was linked to \<open>path\<close>.\<close>

definition record_prior :: "merge_env \<Rightarrow> string \<Rightarrow> merge_state \<Rightarrow> merge_state py" where
  "record_prior env path st =
     (case ms_temp st path of
        None \<Rightarrow> Inl (OSError ''No such file or directory'')
      | Some f \<Rightarrow>
          (let hs = prior_hashes env st;
               h = (case hs path of Some h \<Rightarrow> h | None \<Rightarrow> me_hash env (fi_content f))
           in Inr (st \<lparr> ms_prior_hashes := Some hs, ms_hashes := (ms_hashes st)(path \<mapsto> h),
                        ms_sizes := (ms_sizes st)(path \<mapsto> length (fi_content f)) \<rparr>)))"

definition add_from_prior :: "merge_env \<Rightarrow> string \<Rightarrow> merge_state \<Rightarrow> merge_state py" where
  "add_from_prior env path st =
     bindE (makedirs_with_permissions path st) (\<lambda>st1.
     bindE (link_prior env path st1) (record_prior env path))"

definition replace_with_prior :: "merge_env \<Rightarrow> string \<Rightarrow> merge_state \<Rightarrow> merge_state py" where
  "replace_with_prior env path st =
     bindE (remove_file path st) (\<lambda>st1.
     bindE (link_prior env path st1) (record_prior env path))"

section \<open>One path\<close>

definition merge_all_present :: "merge_env \<Rightarrow> string \<Rightarrow> nat \<Rightarrow> nat \<Rightarrow> nat \<Rightarrow> merge_state \<Rightarrow> merge_state py" where
  "merge_all_present env path b_ino p_ino n_ino st =
     (if p_ino = n_ino then Inr st
      else if b_ino = p_ino then Inr st
      else if b_ino = n_ino then replace_with_prior env path st
      else
        bindE (demandE KeyError (map_of (me_base_hashes env) path)) (\<lambda>b_hash.
        bindE (demandE KeyError (ms_hashes st path)) (\<lambda>n_hash.
          if b_hash \<noteq> n_hash then Inr st
          else
            (let hs = prior_hashes env st;
                 st1 = st \<lparr> ms_prior_hashes := Some hs \<rparr> in
             bindE (case hs path of
                      Some h \<Rightarrow> Inr h
                    | None \<Rightarrow>
                        bindE (demandE (OSError ''No such file or directory'') (map_of (me_prior env) path))
                          (\<lambda>f. Inr (me_hash env (fi_content f)))) (\<lambda>p_hash.
               if p_hash \<noteq> b_hash then replace_with_prior env path st1 else Inr st1)))))"

definition merge_path :: "merge_env \<Rightarrow> string \<Rightarrow> merge_state \<Rightarrow> merge_state py" where
  "merge_path env path st =
     (case (map_of (me_base_inodes env) path, map_of (paths_to_inodes (me_prior env)) path,
            map_of (me_n_inodes env) path) of
        (None, Some p_ino, None) \<Rightarrow>
          if has_type_conflict path (me_n_inodes env) (implicit_dirs (me_n_inodes env)) then Inr st
          else if path \<in> set (ms_dirs st) then Inr st
          else add_from_prior env path st
      | (Some b_ino, None, Some n_ino) \<Rightarrow>
          bindE (demandE KeyError (map_of (me_base_hashes env) path)) (\<lambda>b_hash.
          bindE (demandE KeyError (ms_hashes st path)) (\<lambda>n_hash.
            if content_matches b_ino n_ino b_hash n_hash
            then bindE (remove_file path st) (\<lambda>st1.
                   Inr (st1 \<lparr> ms_hashes := (ms_hashes st1)(path := None),
                              ms_sizes := (ms_sizes st1)(path := None) \<rparr>))
            else Inr st))
      | (Some b_ino, Some p_ino, Some n_ino) \<Rightarrow> merge_all_present env path b_ino p_ino n_ino st
      | _ \<Rightarrow> Inr st)"

section \<open>The merge\<close>

definition all_paths :: "merge_env \<Rightarrow> string list" where
  "all_paths env =
     sort (remdups (map fst (me_base_inodes env) @ map fst (me_prior env) @ map fst (me_n_inodes env)))"

fun merge_paths :: "merge_env \<Rightarrow> string list \<Rightarrow> merge_state \<Rightarrow> merge_state py" where
  "merge_paths env [] st = Inr st"
| "merge_paths env (p # ps) st = bindE (merge_path env p st) (merge_paths env ps)"

text \<open>The state before the merge: the directory of N with its hashes and sizes.\<close>

definition merge_start :: "(string \<times> disk_file) list \<Rightarrow> string list \<Rightarrow> (string \<Rightarrow> string) \<Rightarrow> merge_state" where
  "merge_start new dirs hash =
     \<lparr> ms_temp = map_of new, ms_dirs = dirs,
       ms_hashes = (\<lambda>p. map_option (hash \<circ> fi_content) (map_of new p)),
       ms_sizes = (\<lambda>p. map_option (length \<circ> fi_content) (map_of new p)),
       ms_prior_hashes = None \<rparr>"

definition merge_revisions :: "merge_env \<Rightarrow> merge_state \<Rightarrow> merge_state py" where
  "merge_revisions env st = merge_paths env (all_paths env) st"


section \<open>The three-way merge\<close>

text \<open>
  The contract: a path is taken from P when N left it as it was in B, and from N otherwise.
  \<open>content\<close> is what a directory holds at a path.
\<close>

definition three_way :: "'a option \<Rightarrow> 'a option \<Rightarrow> 'a option \<Rightarrow> 'a option" where
  "three_way b p n = (if n = b then p else n)"

definition content :: "(string \<times> disk_file) list \<Rightarrow> string \<Rightarrow> string option" where
  "content dir p = map_option fi_content (map_of dir p)"

text \<open>What the caller passes for the directories \<open>base\<close>, \<open>prior\<close> and \<open>new\<close>.\<close>

definition merge_call ::
  "(string \<Rightarrow> string) \<Rightarrow> (string \<times> string) list \<Rightarrow> (string \<times> disk_file) list \<Rightarrow>
   (string \<times> disk_file) list \<Rightarrow> (string \<times> disk_file) list \<Rightarrow> merge_env" where
  "merge_call hash db base prior new =
     \<lparr> me_hash = hash, me_base_inodes = paths_to_inodes base,
       me_base_hashes = map (\<lambda>(p, f). (p, hash (fi_content f))) base,
       me_prior = prior, me_db_hashes = db, me_n_inodes = paths_to_inodes new \<rparr>"

text \<open>A path that only P has is not added where N has a directory or a file above it.\<close>

definition left_out ::
  "(string \<times> disk_file) list \<Rightarrow> (string \<times> disk_file) list \<Rightarrow> (string \<times> disk_file) list \<Rightarrow> string list \<Rightarrow> string \<Rightarrow> bool" where
  "left_out base prior new dirs p \<longleftrightarrow>
     map_of base p = None \<and> map_of prior p \<noteq> None \<and> map_of new p = None \<and>
     (has_type_conflict p (paths_to_inodes new) (implicit_dirs (paths_to_inodes new)) \<or> p \<in> set dirs)"

lemma map_of_paths_to_inodes [simp]:
  "map_of (paths_to_inodes dir) p = map_option fi_ino (map_of dir p)"
  by (induction dir) (auto simp: paths_to_inodes_def)

lemma map_of_hashes [simp]:
  "map_of (map (\<lambda>(p, f). (p, h (fi_content f))) dir) p = map_option (h \<circ> fi_content) (map_of dir p)"
  by (induction dir) auto

lemma length_join_take:
  assumes "0 < i" and "i < length ws"
  shows "length (join [c] (take i ws)) < length (join [c] ws)"
  using assms
proof (induction ws arbitrary: i)
  case Nil
  then show ?case by simp
next
  case (Cons w ws)
  have ws: "ws \<noteq> []" using Cons.prems by auto
  show ?case
  proof (cases "i = 1")
    case True
    then show ?thesis using ws by (simp add: join_Cons)
  next
    case False
    then obtain j where j: "i = Suc j" "0 < j" using Cons.prems by (cases i) auto
    then have "take j ws \<noteq> []" using ws by simp
    moreover have "length (join [c] (take j ws)) < length (join [c] ws)"
      using Cons.IH [of j] Cons.prems j by simp
    ultimately show ?thesis using j ws by (simp add: join_Cons)
  qed
qed

lemma path_not_ancestor: "p \<notin> set (ancestors p)"
proof
  assume "p \<in> set (ancestors p)"
  then obtain i where i: "0 < i" "i < length (split_on (CHR ''/'') p)"
    and p: "p = join ''/'' (take i (split_on (CHR ''/'') p))"
    by (auto simp: ancestors_def Let_def Suc_le_eq)
  have "length (join ''/'' (take i (split_on (CHR ''/'') p))) < length p"
    using length_join_take [OF i, of "CHR ''/''"] by simp
  then show False using p by simp
qed


definition files_of :: "(string \<times> disk_file) list \<Rightarrow> (string \<times> disk_file) list \<Rightarrow> (string \<times> disk_file) list \<Rightarrow> disk_file set" where
  "files_of base prior new = snd ` (set base \<union> set prior \<union> set new)"

text \<open>
  What the caller guarantees: files that share an inode have one content, and hashes do not collide;
  the hashes stored for P, if any, are those of its files; the files of P and of N are files.
\<close>

definition coherent ::
  "(string \<Rightarrow> string) \<Rightarrow> (string \<times> string) list \<Rightarrow> (string \<times> disk_file) list \<Rightarrow>
   (string \<times> disk_file) list \<Rightarrow> (string \<times> disk_file) list \<Rightarrow> string list \<Rightarrow> bool" where
  "coherent hash db base prior new dirs \<longleftrightarrow>
     (\<forall>f \<in> files_of base prior new. \<forall>g \<in> files_of base prior new.
        (fi_ino f = fi_ino g \<or> hash (fi_content f) = hash (fi_content g)) \<longrightarrow> fi_content f = fi_content g) \<and>
     (\<forall>(p, f) \<in> set prior. map_of db p = None \<or> map_of db p = Some (hash (fi_content f))) \<and>
     (\<forall>p \<in> fst ` set prior. \<forall>a \<in> set (ancestors p). a \<notin> fst ` set prior) \<and>
     (\<forall>p \<in> fst ` set new. p \<notin> set dirs)"

lemma files_of_base: "map_of base p = Some f \<Longrightarrow> f \<in> files_of base prior new"
  and files_of_prior: "map_of prior p = Some f \<Longrightarrow> f \<in> files_of base prior new"
  and files_of_new: "map_of new p = Some f \<Longrightarrow> f \<in> files_of base prior new"
  by (force simp: files_of_def dest: map_of_SomeD)+

lemma coherent_same:
  assumes "coherent hash db base prior new dirs"
    and "f \<in> files_of base prior new" and "g \<in> files_of base prior new"
  shows "fi_ino f = fi_ino g \<or> hash (fi_content f) = hash (fi_content g) \<Longrightarrow> fi_content f = fi_content g"
  using assms unfolding coherent_def by blast

lemma map_of_Some_dom: "map_of m p = Some f \<Longrightarrow> p \<in> fst ` set m"
  by (force dest: map_of_SomeD)

lemma coherent_prior_files:
  assumes "coherent hash db base prior new dirs" and "map_of prior p = Some f" and "a \<in> set (ancestors p)"
  shows "map_of prior a = None"
  using assms map_of_Some_dom [OF assms(2)] unfolding coherent_def map_of_eq_None_iff by blast

lemma coherent_new_file:
  "coherent hash db base prior new dirs \<Longrightarrow> map_of new p = Some f \<Longrightarrow> p \<notin> set dirs"
  using map_of_Some_dom [of new p f] unfolding coherent_def by blast

lemma prior_hash_right:
  assumes "coherent hash db base prior new dirs" and "map_of prior p = Some f"
  shows "prior_hashes_load (merge_call hash db base prior new) p = None \<or>
         prior_hashes_load (merge_call hash db base prior new) p = Some (hash (fi_content f))"
proof -
  have "(p, f) \<in> set prior" using assms(2) by (rule map_of_SomeD)
  then have "map_of db p = None \<or> map_of db p = Some (hash (fi_content f))"
    using assms(1) unfolding coherent_def by blast
  then show ?thesis using assms(2) by (auto simp: prior_hashes_load_def merge_call_def)
qed

text \<open>The state while the paths of \<open>done\<close> have been merged.\<close>

definition merging ::
  "merge_env \<Rightarrow> (string \<times> disk_file) list \<Rightarrow> (string \<Rightarrow> string option) \<Rightarrow> string list \<Rightarrow> string set \<Rightarrow> merge_state \<Rightarrow> bool" where
  "merging env new result dirs finished st \<longleftrightarrow>
     (\<forall>q \<in> finished. map_option fi_content (ms_temp st q) = result q) \<and>
     (\<forall>q. q \<notin> finished \<longrightarrow> ms_temp st q = map_of new q) \<and>
     (\<forall>q. ms_hashes st q = map_option (me_hash env \<circ> fi_content) (ms_temp st q)) \<and>
     (\<forall>q. ms_sizes st q = map_option (length \<circ> fi_content) (ms_temp st q)) \<and>
     (\<forall>q. ms_temp st q \<noteq> None \<longrightarrow> map_of new q \<noteq> None \<or> map_of (me_prior env) q \<noteq> None) \<and>
     set dirs \<subseteq> set (ms_dirs st) \<and>
     set (ms_dirs st) \<subseteq> set dirs \<union> {a. \<exists>q f. map_of (me_prior env) q = Some f \<and> a \<in> set (ancestors q)} \<and>
     (ms_prior_hashes st = None \<or> ms_prior_hashes st = Some (prior_hashes_load env))"

text \<open>The effect of taking the file \<open>f\<close> of P.\<close>

definition taken :: "merge_env \<Rightarrow> string \<Rightarrow> disk_file \<Rightarrow> merge_state \<Rightarrow> merge_state" where
  "taken env p f st =
     st \<lparr> ms_temp := (ms_temp st)(p \<mapsto> f), ms_hashes := (ms_hashes st)(p \<mapsto> me_hash env (fi_content f)),
          ms_sizes := (ms_sizes st)(p \<mapsto> length (fi_content f)),
          ms_prior_hashes := Some (prior_hashes_load env) \<rparr>"

lemma link_and_record:
  assumes "coherent hash db base prior new dirs" and env: "env = merge_call hash db base prior new"
    and p: "map_of prior p = Some f" and free: "ms_temp st p = None" "p \<notin> set (ms_dirs st)"
    and cached: "ms_prior_hashes st = None \<or> ms_prior_hashes st = Some (prior_hashes_load env)"
  shows "bindE (link_prior env p st) (record_prior env p) = Inr (taken env p f st)"
proof -
  have "prior_hashes env (st \<lparr> ms_temp := (ms_temp st)(p \<mapsto> f) \<rparr>) = prior_hashes_load env"
    using cached by (auto simp: prior_hashes_def)
  moreover have "me_prior env = prior" and "me_hash env = hash" using env by (simp_all add: merge_call_def)
  ultimately show ?thesis
    using prior_hash_right [OF assms(1) p] p free env
    by (auto simp: link_prior_def record_prior_def taken_def Let_def)
qed

lemma merging_taken:
  assumes "merging env new result dirs finished st" and "map_of (me_prior env) p = Some f"
    and "result p = Some (fi_content f)"
  shows "merging env new result dirs (insert p finished) (taken env p f st)"
  using assms by (simp add: merging_def taken_def)

lemma merging_same:
  assumes "merging env new result dirs finished st" and "p \<notin> finished" and "result p = content new p"
  shows "merging env new result dirs (insert p finished) st"
  using assms by (simp add: merging_def content_def)

lemma merging_cached:
  "merging env new result dirs finished st \<Longrightarrow>
   merging env new result dirs finished (st \<lparr> ms_prior_hashes := Some (prior_hashes_load env) \<rparr>)"
  by (simp add: merging_def)


definition merged_content ::
  "(string \<times> disk_file) list \<Rightarrow> (string \<times> disk_file) list \<Rightarrow> (string \<times> disk_file) list \<Rightarrow> string list \<Rightarrow> string \<Rightarrow> string option" where
  "merged_content base prior new dirs p =
     (if left_out base prior new dirs p then None
      else three_way (content base p) (content prior p) (content new p))"

lemma merge_call_simps [simp]:
  "me_hash (merge_call hash db base prior new) = hash"
  "me_base_inodes (merge_call hash db base prior new) = paths_to_inodes base"
  "me_base_hashes (merge_call hash db base prior new) = map (\<lambda>(p, f). (p, hash (fi_content f))) base"
  "me_prior (merge_call hash db base prior new) = prior"
  "me_n_inodes (merge_call hash db base prior new) = paths_to_inodes new"
  by (simp_all add: merge_call_def)

lemma not_left_out: "map_of base p \<noteq> None \<or> map_of new p \<noteq> None \<Longrightarrow> \<not> left_out base prior new dirs p"
  by (auto simp: left_out_def)

lemma merging_at:
  assumes "merging env new result dirs finished st" and "p \<notin> finished"
  shows "ms_temp st p = map_of new p"
    and "ms_hashes st p = map_option (me_hash env \<circ> fi_content) (map_of new p)"
  using assms by (auto simp: merging_def)

lemma merging_dirs_free:
  assumes ok: "coherent hash db base prior new dirs"
    and st: "merging (merge_call hash db base prior new) new result dirs finished st"
    and p: "map_of prior p \<noteq> None" and "p \<in> set (ms_dirs st)"
  shows "p \<in> set dirs"
proof (rule ccontr)
  assume "p \<notin> set dirs"
  then obtain q f where q: "map_of prior q = Some f" "p \<in> set (ancestors q)"
    using st assms(4) unfolding merging_def by auto
  then show False using coherent_prior_files [OF ok q] p by simp
qed

lemma merging_makedirs:
  assumes ok: "coherent hash db base prior new dirs" and env: "env = merge_call hash db base prior new"
    and st: "merging env new result dirs finished st"
    and p: "map_of prior p = Some f"
    and free: "\<not> has_type_conflict p (paths_to_inodes new) (implicit_dirs (paths_to_inodes new))"
  obtains st1 where "makedirs_with_permissions p st = Inr st1" and "merging env new result dirs finished st1"
    and "ms_temp st1 = ms_temp st" and "set (ms_dirs st1) = set (ms_dirs st) \<union> set (ancestors p)"
    and "ms_prior_hashes st1 = ms_prior_hashes st"
proof -
  let ?st1 = "st \<lparr> ms_dirs := ms_dirs st @ filter (\<lambda>a. a \<notin> set (ms_dirs st)) (ancestors p) \<rparr>"
  have "ms_temp st a = None" if a: "a \<in> set (ancestors p)" for a
  proof -
    have "map_of prior a = None" using ok p a by (rule coherent_prior_files)
    moreover have "map_of new a = None" using free a by (auto simp: has_type_conflict_def list_ex_iff)
    ultimately show ?thesis using st env unfolding merging_def by auto
  qed
  then have "makedirs_with_permissions p st = Inr ?st1"
    by (auto simp: makedirs_with_permissions_def list_ex_iff)
  moreover have "merging env new result dirs finished ?st1"
    using st p env unfolding merging_def by auto
  ultimately show thesis by (rule that) auto
qed

lemma add_step:
  assumes ok: "coherent hash db base prior new dirs" and env: "env = merge_call hash db base prior new"
    and st: "merging env new (merged_content base prior new dirs) dirs finished st" and fresh: "p \<notin> finished"
    and b: "map_of base p = None" and f: "map_of prior p = Some f" and n: "map_of new p = None"
  shows "\<exists>st'. merge_path env p st = Inr st' \<and>
               merging env new (merged_content base prior new dirs) dirs (insert p finished) st'"
proof (cases "left_out base prior new dirs p")
  case True
  then have "merge_path env p st = Inr st" using st b f n env
    by (auto simp: merge_path_def left_out_def merging_def)
  moreover have "merged_content base prior new dirs p = content new p"
    using True n by (simp add: merged_content_def content_def)
  ultimately show ?thesis using merging_same [OF st fresh] by blast
next
  case False
  then have free: "\<not> has_type_conflict p (paths_to_inodes new) (implicit_dirs (paths_to_inodes new))" "p \<notin> set dirs"
    using b f n by (auto simp: left_out_def)
  then have nodir: "p \<notin> set (ms_dirs st)" using merging_dirs_free [OF ok st [unfolded env]] f by auto
  obtain st1 where st1: "makedirs_with_permissions p st = Inr st1"
      "merging env new (merged_content base prior new dirs) dirs finished st1"
      "ms_temp st1 = ms_temp st" "set (ms_dirs st1) = set (ms_dirs st) \<union> set (ancestors p)"
    using merging_makedirs [OF ok env st f free(1)] by metis
  have "ms_temp st1 p = None" "p \<notin> set (ms_dirs st1)"
    using st1 merging_at(1) [OF st fresh] n nodir path_not_ancestor by auto
  moreover have "ms_prior_hashes st1 = None \<or> ms_prior_hashes st1 = Some (prior_hashes_load env)"
    using st1(2) by (simp add: merging_def)
  ultimately have "bindE (link_prior env p st1) (record_prior env p) = Inr (taken env p f st1)"
    by (rule link_and_record [OF ok env f])
  then have "merge_path env p st = Inr (taken env p f st1)"
    using b f n free nodir st1(1) env by (simp add: merge_path_def add_from_prior_def)
  moreover have "merged_content base prior new dirs p = Some (fi_content f)"
    using False b f n by (simp add: merged_content_def content_def three_way_def)
  ultimately show ?thesis using merging_taken [OF st1(2)] f env by auto
qed


lemma delete_step:
  assumes ok: "coherent hash db base prior new dirs" and env: "env = merge_call hash db base prior new"
    and st: "merging env new (merged_content base prior new dirs) dirs finished st" and fresh: "p \<notin> finished"
    and b: "map_of base p = Some fb" and f: "map_of prior p = None" and n: "map_of new p = Some fn"
  shows "\<exists>st'. merge_path env p st = Inr st' \<and>
               merging env new (merged_content base prior new dirs) dirs (insert p finished) st'"
proof -
  let ?st1 = "st \<lparr> ms_temp := (ms_temp st)(p := None), ms_hashes := (ms_hashes st)(p := None),
                   ms_sizes := (ms_sizes st)(p := None) \<rparr>"
  have same: "content_matches (fi_ino fb) (fi_ino fn) (hash (fi_content fb)) (hash (fi_content fn)) \<longleftrightarrow>
              fi_content fb = fi_content fn"
    using coherent_same [OF ok files_of_base [OF b] files_of_new [OF n]] by (auto simp: content_matches_def)
  have path: "merge_path env p st = (if fi_content fb = fi_content fn then Inr ?st1 else Inr st)"
    using b f n merging_at [OF st fresh] same env by (simp add: merge_path_def remove_file_def)
  have result: "merged_content base prior new dirs p = (if fi_content fb = fi_content fn then None else content new p)"
    using b f n by (auto simp: merged_content_def not_left_out three_way_def content_def)
  show ?thesis
  proof (cases "fi_content fb = fi_content fn")
    case True
    then have "merging env new (merged_content base prior new dirs) dirs (insert p finished) ?st1"
      using st result by (simp add: merging_def)
    then show ?thesis using path True by simp
  next
    case False
    then show ?thesis using path result merging_same [OF st fresh] by simp
  qed
qed

lemma replace_taken:
  assumes ok: "coherent hash db base prior new dirs" and env: "env = merge_call hash db base prior new"
    and st: "merging env new (merged_content base prior new dirs) dirs finished st" and fresh: "p \<notin> finished"
    and f: "map_of prior p = Some f" and n: "map_of new p = Some fn"
    and result: "merged_content base prior new dirs p = Some (fi_content f)"
  shows "\<exists>st'. replace_with_prior env p st = Inr st' \<and>
               merging env new (merged_content base prior new dirs) dirs (insert p finished) st'"
proof -
  let ?st1 = "st \<lparr> ms_temp := (ms_temp st)(p := None) \<rparr>"
  have "p \<notin> set (ms_dirs st)"
    using merging_dirs_free [OF ok st [unfolded env]] coherent_new_file [OF ok n] f by auto
  then have "bindE (link_prior env p ?st1) (record_prior env p) = Inr (taken env p f ?st1)"
    using st by (intro link_and_record [OF ok env f]) (auto simp: merging_def)
  moreover have "taken env p f ?st1 = taken env p f st" by (simp add: taken_def)
  moreover have "remove_file p st = Inr ?st1"
    using merging_at(1) [OF st fresh] n by (simp add: remove_file_def)
  ultimately have "replace_with_prior env p st = Inr (taken env p f st)"
    by (simp add: replace_with_prior_def)
  then show ?thesis using merging_taken [OF st] f result env by auto
qed

lemma present_step:
  assumes ok: "coherent hash db base prior new dirs" and env: "env = merge_call hash db base prior new"
    and st: "merging env new (merged_content base prior new dirs) dirs finished st" and fresh: "p \<notin> finished"
    and b: "map_of base p = Some fb" and f: "map_of prior p = Some f" and n: "map_of new p = Some fn"
  shows "\<exists>st'. merge_path env p st = Inr st' \<and>
               merging env new (merged_content base prior new dirs) dirs (insert p finished) st'"
proof -
  let ?st1 = "st \<lparr> ms_prior_hashes := Some (prior_hashes_load env) \<rparr>"
  let ?m = "merging env new (merged_content base prior new dirs) dirs"
  note files = files_of_base [OF b, of prior new] files_of_prior [OF f, of base new] files_of_new [OF n, of base prior]
  have pn: "fi_ino f = fi_ino fn \<Longrightarrow> fi_content f = fi_content fn"
    and bp: "fi_ino fb = fi_ino f \<Longrightarrow> fi_content fb = fi_content f"
    and bn: "fi_ino fb = fi_ino fn \<Longrightarrow> fi_content fb = fi_content fn"
    and hbn: "hash (fi_content fb) = hash (fi_content fn) \<longleftrightarrow> fi_content fb = fi_content fn"
    and hbp: "hash (fi_content f) = hash (fi_content fb) \<longleftrightarrow> fi_content f = fi_content fb"
    using coherent_same [OF ok files(2,3)] coherent_same [OF ok files(1,2)] coherent_same [OF ok files(1,3)]
    by metis+
  have result: "merged_content base prior new dirs p =
      (if fi_content fn = fi_content fb then Some (fi_content f) else content new p)"
    using b f n by (auto simp: merged_content_def not_left_out three_way_def content_def)
  have cache: "prior_hashes env st = prior_hashes_load env"
    using st by (auto simp: prior_hashes_def merging_def)
  have keep: ?thesis if "merge_path env p st = Inr st" and "fi_content fn = fi_content fb \<Longrightarrow> fi_content f = fi_content fn"
    using that result merging_same [OF st fresh] n by (auto simp: content_def)
  have path: "merge_path env p st = merge_all_present env p (fi_ino fb) (fi_ino f) (fi_ino fn) st"
    using b f n env by (simp add: merge_path_def)
  show ?thesis
  proof (cases "fi_ino f = fi_ino fn \<or> fi_ino fb = fi_ino f")
    case True
    then show ?thesis using keep pn bp path by (auto simp: merge_all_present_def)
  next
    case inodes: False
    show ?thesis
    proof (cases "fi_ino fb = fi_ino fn")
      case True
      then have "merge_path env p st = replace_with_prior env p st"
        using inodes path by (simp add: merge_all_present_def)
      then show ?thesis using replace_taken [OF ok env st fresh f n] result bn True by simp
    next
      case False
      have hashed: "merge_path env p st =
          (if fi_content fb \<noteq> fi_content fn then Inr st
           else if fi_content f \<noteq> fi_content fb then replace_with_prior env p ?st1 else Inr ?st1)"
        using inodes False path cache b f merging_at(2) [OF st fresh] n env hbn hbp
          prior_hash_right [OF ok f]
        by (auto simp: merge_all_present_def Let_def)
      consider "fi_content fb \<noteq> fi_content fn" | "fi_content fb = fi_content fn" "fi_content f \<noteq> fi_content fb"
        | "fi_content fb = fi_content fn" "fi_content f = fi_content fb" by blast
      then show ?thesis
      proof cases
        case 1
        then show ?thesis using keep hashed by auto
      next
        case 2
        then show ?thesis
          using replace_taken [OF ok env merging_cached [OF st] fresh f n] result hashed by simp
      next
        case 3
        then have "?m (insert p finished) ?st1"
          using result merging_same [OF merging_cached [OF st] fresh] n by (simp add: content_def)
        then show ?thesis using 3 hashed by simp
      qed
    qed
  qed
qed

lemma other_step:
  assumes env: "env = merge_call hash db base prior new"
    and st: "merging env new (merged_content base prior new dirs) dirs finished st" and fresh: "p \<notin> finished"
    and cases: "map_of base p = None \<and> (map_of prior p = None \<or> map_of new p \<noteq> None) \<or>
      map_of base p \<noteq> None \<and> map_of new p = None"
  shows "\<exists>st'. merge_path env p st = Inr st' \<and>
               merging env new (merged_content base prior new dirs) dirs (insert p finished) st'"
proof -
  have "merge_path env p st = Inr st"
    using cases env by (auto simp: merge_path_def split: option.splits)
  moreover have "merged_content base prior new dirs p = content new p"
    using cases by (auto simp: merged_content_def left_out_def three_way_def content_def)
  ultimately show ?thesis using merging_same [OF st fresh] by blast
qed

lemma path_step:
  assumes ok: "coherent hash db base prior new dirs" and env: "env = merge_call hash db base prior new"
    and st: "merging env new (merged_content base prior new dirs) dirs finished st" and fresh: "p \<notin> finished"
  shows "\<exists>st'. merge_path env p st = Inr st' \<and>
               merging env new (merged_content base prior new dirs) dirs (insert p finished) st'"
proof -
  note steps = add_step [OF ok env st fresh] delete_step [OF ok env st fresh]
    present_step [OF ok env st fresh] other_step [OF env st fresh]
  show ?thesis
    by (cases "map_of base p"; cases "map_of prior p"; cases "map_of new p") (auto intro: steps)
qed

lemma paths_steps:
  assumes ok: "coherent hash db base prior new dirs" and env: "env = merge_call hash db base prior new"
    and "merging env new (merged_content base prior new dirs) dirs finished st"
    and "distinct ps" and "set ps \<inter> finished = {}"
  shows "\<exists>st'. merge_paths env ps st = Inr st' \<and>
               merging env new (merged_content base prior new dirs) dirs (set ps \<union> finished) st'"
  using assms(3-)
proof (induction ps arbitrary: finished st)
  case Nil
  then show ?case by simp
next
  case (Cons p ps)
  obtain st1 where st1: "merge_path env p st = Inr st1"
      "merging env new (merged_content base prior new dirs) dirs (insert p finished) st1"
    using path_step [OF ok env Cons.prems(1)] Cons.prems(3) by auto
  then show ?case using Cons.IH [OF st1(2)] Cons.prems by auto
qed

text \<open>
  C15: the merge never fails and gives every path the content of the three-way merge of the base, prior
  and new revisions: the content of P where N kept the content of B (so additions, changes and deletions
  of P are taken over), and that of N otherwise; except that a path added by P is left out where N has a
  directory of that name or a file above it.  The hashes and sizes describe the files of the result.
\<close>

theorem merge_is_three_way:
  assumes "coherent hash db base prior new dirs"
  shows "\<exists>st. merge_revisions (merge_call hash db base prior new) (merge_start new dirs hash) = Inr st \<and>
    (\<forall>p. map_option fi_content (ms_temp st p) =
           (if left_out base prior new dirs p then None
            else three_way (content base p) (content prior p) (content new p)) \<and>
         ms_hashes st p = map_option (hash \<circ> fi_content) (ms_temp st p) \<and>
         ms_sizes st p = map_option (length \<circ> fi_content) (ms_temp st p))"
proof -
  let ?env = "merge_call hash db base prior new"
  have start: "merging ?env new (merged_content base prior new dirs) dirs {} (merge_start new dirs hash)"
    by (auto simp: merging_def merge_start_def)
  obtain st where st: "merge_paths ?env (all_paths ?env) (merge_start new dirs hash) = Inr st"
      "merging ?env new (merged_content base prior new dirs) dirs (set (all_paths ?env)) st"
    using paths_steps [OF assms refl start, of "all_paths ?env"] by (auto simp: all_paths_def)
  have "map_option fi_content (ms_temp st p) = merged_content base prior new dirs p" for p
  proof (cases "p \<in> set (all_paths ?env)")
    case True
    then show ?thesis using st(2) by (simp add: merging_def)
  next
    case False
    then have "map_of base p = None" "map_of prior p = None" "map_of new p = None"
      by (auto simp: all_paths_def paths_to_inodes_def map_of_eq_None_iff image_iff split: prod.splits)
    then show ?thesis using st(2) False
      by (simp add: merging_def merged_content_def left_out_def three_way_def content_def)
  qed
  then show ?thesis using st unfolding merge_revisions_def merging_def merged_content_def merge_call_simps
    by blast
qed


text \<open>A run: P changed \<open>a\<close>, deleted \<open>b\<close> and added \<open>d/x\<close>, while N changed \<open>c\<close> and added \<open>e\<close>.\<close>

definition run_base :: "(string \<times> disk_file) list" where
  "run_base = [(''a'', \<lparr> fi_ino = 1, fi_content = ''A'' \<rparr>), (''b'', \<lparr> fi_ino = 2, fi_content = ''B'' \<rparr>),
               (''c'', \<lparr> fi_ino = 3, fi_content = ''C'' \<rparr>)]"

definition run_prior :: "(string \<times> disk_file) list" where
  "run_prior = [(''a'', \<lparr> fi_ino = 4, fi_content = ''AA'' \<rparr>), (''c'', \<lparr> fi_ino = 3, fi_content = ''C'' \<rparr>),
                (''d/x'', \<lparr> fi_ino = 5, fi_content = ''D'' \<rparr>)]"

definition run_new :: "(string \<times> disk_file) list" where
  "run_new = [(''a'', \<lparr> fi_ino = 1, fi_content = ''A'' \<rparr>), (''b'', \<lparr> fi_ino = 6, fi_content = ''B'' \<rparr>),
              (''c'', \<lparr> fi_ino = 7, fi_content = ''CC'' \<rparr>), (''e'', \<lparr> fi_ino = 8, fi_content = ''E'' \<rparr>)]"

lemma run_coherent: "coherent (\<lambda>s. s) [] run_base run_prior run_new []"
  by code_simp

theorem merge_is_three_way_witness:
  "coherent (\<lambda>s. s) [] run_base run_prior run_new [] \<and>
   (\<exists>st. merge_revisions (merge_call (\<lambda>s. s) [] run_base run_prior run_new) (merge_start run_new [] (\<lambda>s. s)) = Inr st \<and>
     map (\<lambda>p. map_option fi_content (ms_temp st p)) [''a'', ''b'', ''c'', ''d/x'', ''e''] =
       [Some ''AA'', None, Some ''CC'', Some ''D'', Some ''E''])"
proof -
  obtain st where st: "merge_revisions (merge_call (\<lambda>s. s) [] run_base run_prior run_new) (merge_start run_new [] (\<lambda>s. s)) = Inr st"
    and at: "\<And>p. map_option fi_content (ms_temp st p) =
      (if left_out run_base run_prior run_new [] p then None
       else three_way (content run_base p) (content run_prior p) (content run_new p))"
    using merge_is_three_way [OF run_coherent] by blast
  have "map (\<lambda>p. if left_out run_base run_prior run_new [] p then None
       else three_way (content run_base p) (content run_prior p) (content run_new p))
     [''a'', ''b'', ''c'', ''d/x'', ''e''] = [Some ''AA'', None, Some ''CC'', Some ''D'', Some ''E'']"
    by code_simp
  then have run: "map (\<lambda>p. map_option fi_content (ms_temp st p)) [''a'', ''b'', ''c'', ''d/x'', ''e''] =
       [Some ''AA'', None, Some ''CC'', Some ''D'', Some ''E'']"
    by (simp only: at)
  show ?thesis by (intro conjI exI [of _ st]) (rule run_coherent st run)+
qed

text \<open>
  P replaced the file \<open>a\<close> by the directory \<open>a/\<close> with the file \<open>a/x\<close>, and N left \<open>a\<close> as it was.  The
  deletion of \<open>a\<close> is taken over and the addition of \<open>a/x\<close> is not, because the conflict check reads the
  files that N had before the merge: the result has neither.
\<close>

lemma replaced_file_is_lost:
  "map_option (\<lambda>st. (ms_temp st ''a'', ms_temp st ''a/x''))
     (case merge_revisions
        (merge_call (\<lambda>s. s) [] [(''a'', \<lparr> fi_ino = 1, fi_content = ''A'' \<rparr>)]
           [(''a/x'', \<lparr> fi_ino = 2, fi_content = ''X'' \<rparr>)] [(''a'', \<lparr> fi_ino = 1, fi_content = ''A'' \<rparr>)])
        (merge_start [(''a'', \<lparr> fi_ino = 1, fi_content = ''A'' \<rparr>)] [] (\<lambda>s. s)) of
      Inl e \<Rightarrow> None | Inr st \<Rightarrow> Some st) = Some (None, None)"
  by code_simp

end
