(* ===== verification/Calver.thy ===== *)
theory Calver
  imports PyStr
begin

text \<open>
  src/atr/models/calver.py: date formats of calendar-versioned projects, compiled to the regular
  expression of a cycle and to an ordering key.

  The code builds the text of its regular expressions; \<open>rx\<close> is their abstract syntax and \<open>render\<close>
  the text.  \<open>rx_match\<close> is how Python's \<open>re\<close> matches them: alternatives are tried in order, \<open>?\<close> and
  \<open>\d{1,2}\<close> take as much as they can, and the rest of the expression decides whether to back up.
\<close>

section \<open>Regular expressions\<close>

datatype rx =
    Eps
  | Lit char
  | Digits nat "nat option"
  | Seq rx rx
  | Opt rx
  | Group string rx

definition re_escape :: "char \<Rightarrow> string" where
  "re_escape c =
     (if c \<in> set ''()[]{}?*+-|^$.&~# '' \<or> (of_char c :: nat) \<in> {9, 10, 11, 12, 13, 92}
      then [char_of (92 :: nat), c] else [c])"

fun render :: "rx \<Rightarrow> string" where
  "render Eps = ''''"
| "render (Lit c) = re_escape c"
| "render (Digits lo None) = char_of (92 :: nat) # ''d+''"
| "render (Digits lo (Some hi)) =
     char_of (92 :: nat) # ''d{'' @ (if lo = hi then str_nat lo else str_nat lo @ '','' @ str_nat hi) @ ''}''"
| "render (Seq a b) = render a @ render b"
| "render (Opt a) = ''(?:'' @ render a @ '')?''"
| "render (Group name a) = ''('' @ (if name = '''' then '''' else ''?P<'' @ name @ ''>'') @ render a @ '')''"

type_synonym captures = "(string \<times> string) list"

text \<open>The lengths a run of digits may take at the head of a string, longest first.\<close>

definition digit_runs :: "nat \<Rightarrow> nat option \<Rightarrow> string \<Rightarrow> nat list" where
  "digit_runs lo hi s =
     (let m = length (takeWhile is_digit s); top = (case hi of None \<Rightarrow> m | Some h \<Rightarrow> min m h)
      in rev [lo..<Suc top])"

definition first_some :: "('a \<Rightarrow> 'b option) \<Rightarrow> 'a list \<Rightarrow> 'b option" where
  "first_some f xs = foldr (\<lambda>x r. case f x of None \<Rightarrow> r | Some y \<Rightarrow> Some y) xs None"

primrec rx_match :: "rx \<Rightarrow> string \<Rightarrow> captures \<Rightarrow> (string \<Rightarrow> captures \<Rightarrow> captures option) \<Rightarrow> captures option" where
  "rx_match Eps s c k = k s c"
| "rx_match (Lit x) s c k = (if s \<noteq> [] \<and> hd s = x then k (tl s) c else None)"
| "rx_match (Digits lo hi) s c k = first_some (\<lambda>n. k (drop n s) c) (digit_runs lo hi s)"
| "rx_match (Seq a b) s c k = rx_match a s c (\<lambda>s' c'. rx_match b s' c' k)"
| "rx_match (Opt a) s c k = (case rx_match a s c k of Some r \<Rightarrow> Some r | None \<Rightarrow> k s c)"
| "rx_match (Group name a) s c k =
     rx_match a s c (\<lambda>s' c'. k s' ((name, take (length s - length s') s) # c'))"

definition fullmatch :: "rx \<Rightarrow> string \<Rightarrow> captures option" where
  "fullmatch r s = rx_match r s [] (\<lambda>s' c. if s' = [] then Some c else None)"

section \<open>Formats\<close>

datatype role = Year | Month | Day | Serial

fun role_name :: "role \<Rightarrow> string" where
  "role_name Year = ''year''"
| "role_name Month = ''month''"
| "role_name Day = ''day''"
| "role_name Serial = ''serial''"

definition TOKENS :: "(string \<times> rx \<times> role) list" where
  "TOKENS =
     [(''YYYY'', Digits 4 (Some 4), Year), (''YY'', Digits 2 (Some 2), Year), (''MM'', Digits 2 (Some 2), Month),
      (''DD'', Digits 2 (Some 2), Day), (''M'', Digits 1 (Some 2), Month), (''D'', Digits 1 (Some 2), Day),
      (''N'', Digits 1 None, Serial)]"

definition CALENDAR_ROLES :: "role list" where
  "CALENDAR_ROLES = [Year, Month, Day]"

record atom =
  at_regex :: rx
  at_role :: "role option"
  at_in_cycle :: bool

definition match_token :: "string \<Rightarrow> (rx \<times> role \<times> nat) option" where
  "match_token s =
     map_option (\<lambda>(t, r, role). (r, role, length t)) (List.find (\<lambda>(t, r, role). startswith s t) TOKENS)"

text \<open>The loop of \<open>_parse\<close> on what is left of the format, with \<open>in_cycle\<close> and \<open>seen_cycle\<close>.\<close>

lemma match_token_length:
  assumes "match_token s = Some (r, role, n)"
  shows "0 < n"
  using assms by (auto simp: match_token_def TOKENS_def split: if_splits)

function parse_loop :: "string \<Rightarrow> bool \<Rightarrow> bool \<Rightarrow> atom list py" where
  "parse_loop [] in_cycle seen =
     (if in_cycle then Inl (ValueError ''Calver format has an unmatched ('') else Inr [])"
| "parse_loop (ch # rest) in_cycle seen =
     (if ch = CHR ''('' then
        (if seen then Inl (ValueError ''Calver format may contain at most one (cycle) span'')
         else parse_loop rest True True)
      else if ch = CHR '')'' then
        (if \<not> in_cycle then Inl (ValueError ''Calver format has an unmatched )'')
         else parse_loop rest False seen)
      else
        (case match_token (ch # rest) of
           Some (fragment, role, n) \<Rightarrow>
             bindE (parse_loop (drop n (ch # rest)) in_cycle seen)
               (\<lambda>as. Inr (\<lparr> at_regex = fragment, at_role = Some role, at_in_cycle = in_cycle \<rparr> # as))
         | None \<Rightarrow>
             bindE (parse_loop rest in_cycle seen)
               (\<lambda>as. Inr (\<lparr> at_regex = Lit ch, at_role = None, at_in_cycle = in_cycle \<rparr> # as))))"
  by pat_completeness auto
termination
  by (relation "measure (\<lambda>(s, _, _). length s)") (auto dest: match_token_length)

definition parse :: "string \<Rightarrow> atom list py" where
  "parse date_format = parse_loop date_format False False"

text \<open>A separator run is folded onto the token that follows it.\<close>

fun coalesce :: "rx \<Rightarrow> (atom \<Rightarrow> rx) \<Rightarrow> atom list \<Rightarrow> rx list" where
  "coalesce pending f [] = (if pending = Eps then [] else [pending])"
| "coalesce pending f (a # as) =
     (if at_role a = None then coalesce (Seq pending (at_regex a)) f as
      else Seq pending (f a) # coalesce Eps f as)"

fun nested_optional :: "rx list \<Rightarrow> rx" where
  "nested_optional [] = Eps"
| "nested_optional (c # cs) = Opt (Seq c (nested_optional cs))"

definition seq_all :: "rx list \<Rightarrow> rx" where
  "seq_all rs = foldr Seq rs Eps"

definition named :: "atom \<Rightarrow> rx" where
  "named a = (case at_role a of None \<Rightarrow> at_regex a | Some role \<Rightarrow> Group (role_name role) (at_regex a))"

definition order_regex :: "string \<Rightarrow> rx py" where
  "order_regex date_format =
     bindE (parse date_format) (\<lambda>atoms.
       case coalesce Eps named atoms of
         [] \<Rightarrow> Inl (ValueError ''Calver format has no fields'')
       | c # cs \<Rightarrow> Inr (Seq c (nested_optional cs)))"

definition order_key :: "string \<Rightarrow> string \<Rightarrow> (nat \<times> nat \<times> nat \<times> nat) option py" where
  "order_key date_format version =
     bindE (order_regex date_format) (\<lambda>r.
       case fullmatch r version of
         None \<Rightarrow> Inr None
       | Some groups \<Rightarrow>
           (let field = (\<lambda>role. case map_of groups (role_name role) of
                                  None \<Rightarrow> 0 | Some s \<Rightarrow> if s = '''' then 0 else int_digits s)
            in Inr (Some (field Year, field Month, field Day, field Serial))))"

text \<open>The atoms before the cycle span, those from the first to the last of the span, and the rest.\<close>

definition span_split :: "atom list \<Rightarrow> (atom list \<times> atom list \<times> atom list) option" where
  "span_split atoms =
     (let is = filter (\<lambda>i. at_in_cycle (atoms ! i)) [0..<length atoms] in
      if is = [] then None
      else Some (take (hd is) atoms, take (Suc (last is) - hd is) (drop (hd is) atoms), drop (Suc (last is)) atoms))"

definition cycle_regex :: "string \<Rightarrow> rx option py" where
  "cycle_regex date_format =
     bindE (parse date_format) (\<lambda>atoms.
       case span_split atoms of
         None \<Rightarrow> Inr None
       | Some (before, span, rest) \<Rightarrow>
           Inr (Some (Seq (seq_all (map at_regex before))
                       (Seq (Group '''' (seq_all (map at_regex span)))
                            (nested_optional (coalesce Eps at_regex rest))))))"

definition validate :: "string \<Rightarrow> unit py" where
  "validate date_format =
     bindE (guardE (strip date_format \<noteq> '''') (ValueError ''Calver format is empty'')) (\<lambda>_.
     bindE (parse date_format) (\<lambda>atoms.
       let roles = concat (map (\<lambda>a. case at_role a of None \<Rightarrow> [] | Some r \<Rightarrow> [r]) atoms) in
       bindE (guardE (list_ex (\<lambda>r. r \<in> set CALENDAR_ROLES) roles)
               (ValueError ''Calver format needs at least one of YYYY/YY, MM/M or DD/D'')) (\<lambda>_.
       bindE (guardE (distinct roles) (ValueError ''Calver format repeats a field'')) (\<lambda>_.
       bindE (order_regex date_format) (\<lambda>_.
       bindE (cycle_regex date_format) (\<lambda>_. Inr ()))))))"


section \<open>Versions written in a format\<close>

text \<open>
  The text of a version whose fields are the digit strings \<open>fld\<close>: a token is written as its field and
  a literal as itself.  \<open>chunks\<close> groups the atoms as \<open>coalesce\<close> does, so that a version may stop after
  any chunk.
\<close>

definition atom_text :: "(role \<Rightarrow> string) \<Rightarrow> atom \<Rightarrow> string" where
  "atom_text fld a =
     (case at_role a of Some r \<Rightarrow> fld r | None \<Rightarrow> (case at_regex a of Lit c \<Rightarrow> [c] | _ \<Rightarrow> []))"

definition text_of :: "(role \<Rightarrow> string) \<Rightarrow> atom list \<Rightarrow> string" where
  "text_of fld atoms = concat (map (atom_text fld) atoms)"

fun chunks :: "atom list \<Rightarrow> atom list \<Rightarrow> atom list list" where
  "chunks pending [] = (if pending = [] then [] else [pending])"
| "chunks pending (a # as) =
     (if at_role a = None then chunks (pending @ [a]) as else (pending @ [a]) # chunks [] as)"

text \<open>\<open>fits\<close>: the digits that a token takes.  A token of varying width has to be followed by a separator.\<close>

fun fits :: "rx \<Rightarrow> string \<Rightarrow> bool" where
  "fits (Digits lo hi) w =
     (list_all is_digit w \<and> lo \<le> length w \<and> (case hi of None \<Rightarrow> True | Some h \<Rightarrow> length w \<le> h))"
| "fits r w = False"

definition fixed_width :: "rx \<Rightarrow> bool" where
  "fixed_width r = (case r of Digits lo hi \<Rightarrow> hi = Some lo | _ \<Rightarrow> True)"

definition separator :: "atom \<Rightarrow> bool" where
  "separator a = (case at_regex a of Lit c \<Rightarrow> at_role a = None \<and> \<not> is_digit c | _ \<Rightarrow> False)"

fun separated :: "atom list \<Rightarrow> bool" where
  "separated (a # b # as) = ((fixed_width (at_regex a) \<or> separator b) \<and> separated (b # as))"
| "separated as = True"

definition roles_of :: "atom list \<Rightarrow> role list" where
  "roles_of atoms = concat (map (\<lambda>a. case at_role a of None \<Rightarrow> [] | Some r \<Rightarrow> [r]) atoms)"

definition fields_fit :: "(role \<Rightarrow> string) \<Rightarrow> atom list \<Rightarrow> bool" where
  "fields_fit fld atoms = list_all (\<lambda>a. case at_role a of None \<Rightarrow> True | Some r \<Rightarrow> fits (at_regex a) (fld r)) atoms"

text \<open>An atom of a parsed format is a literal or a token with its digits.\<close>

definition atom_ok :: "atom \<Rightarrow> bool" where
  "atom_ok a = (case at_role a of None \<Rightarrow> (\<exists>c. at_regex a = Lit c) | Some _ \<Rightarrow> (\<exists>lo hi. at_regex a = Digits lo hi \<and> 0 < lo))"

subsection \<open>Deterministic matches\<close>

text \<open>
  \<open>exactly r u d P\<close>: on \<open>u @ s\<close> with \<open>P s\<close> the expression \<open>r\<close> first tries to take \<open>u\<close>, with the captures
  \<open>d\<close>; so it takes \<open>u\<close> whenever the rest of the match succeeds after it.
\<close>

definition exactly :: "rx \<Rightarrow> string \<Rightarrow> captures \<Rightarrow> (string \<Rightarrow> bool) \<Rightarrow> bool" where
  "exactly r u d P \<longleftrightarrow>
     (\<forall>s c k. P s \<longrightarrow> k s (d @ c) \<noteq> None \<longrightarrow> rx_match r (u @ s) c k = k s (d @ c))"

lemma exactlyI:
  "(\<And>s c k. P s \<Longrightarrow> k s (d @ c) \<noteq> None \<Longrightarrow> rx_match r (u @ s) c k = k s (d @ c)) \<Longrightarrow> exactly r u d P"
  by (simp add: exactly_def)

lemma exactlyD:
  "exactly r u d P \<Longrightarrow> P s \<Longrightarrow> k s (d @ c) \<noteq> None \<Longrightarrow> rx_match r (u @ s) c k = k s (d @ c)"
  by (simp add: exactly_def)

lemma exactly_Eps: "exactly Eps [] [] (\<lambda>_. True)"
  by (simp add: exactly_def)

lemma exactly_Lit: "exactly (Lit x) [x] [] (\<lambda>_. True)"
  by (simp add: exactly_def)

lemma exactly_Seq:
  assumes a: "exactly a u d P" and b: "exactly b v e Q" and PQ: "\<And>s. R s \<Longrightarrow> Q s \<and> P (v @ s)"
  shows "exactly (Seq a b) (u @ v) (e @ d) R"
proof (rule exactlyI)
  fix s :: string and c :: captures and k :: "string \<Rightarrow> captures \<Rightarrow> captures option"
  assume R: "R s" and k: "k s ((e @ d) @ c) \<noteq> None"
  have "rx_match b (v @ s) (d @ c) k = k s (e @ d @ c)"
    using exactlyD [OF b, of s k "d @ c"] PQ [OF R] k by simp
  then show "rx_match (Seq a b) ((u @ v) @ s) c k = k s ((e @ d) @ c)"
    using exactlyD [OF a, of "v @ s" "\<lambda>s' c'. rx_match b s' c' k" c] PQ [OF R] k by simp
qed

lemma exactly_Group:
  assumes "exactly r u d P"
  shows "exactly (Group name r) u ((name, u) # d) P"
proof (rule exactlyI)
  fix s :: string and c :: captures and k :: "string \<Rightarrow> captures \<Rightarrow> captures option"
  assume "P s" and "k s (((name, u) # d) @ c) \<noteq> None"
  then show "rx_match (Group name r) (u @ s) c k = k s (((name, u) # d) @ c)"
    using exactlyD [OF assms, of s "\<lambda>s' c'. k s' ((name, take (length (u @ s) - length s') (u @ s)) # c')" c]
    by simp
qed

lemma exactly_Opt: "exactly r u d P \<Longrightarrow> exactly (Opt r) u d P"
  by (auto simp: exactly_def split: option.splits)

definition clear_after :: "rx \<Rightarrow> string \<Rightarrow> bool" where
  "clear_after r s = (fixed_width r \<or> s = [] \<or> \<not> is_digit (hd s))"

lemma first_some_Cons: "f x \<noteq> None \<Longrightarrow> first_some f (x # xs) = f x"
  by (auto simp: first_some_def)

lemma digit_runs_longest:
  assumes fit: "fits (Digits lo hi) w" and clear: "clear_after (Digits lo hi) s"
  shows "\<exists>ns. digit_runs lo hi (w @ s) = length w # ns"
proof -
  let ?m = "length (takeWhile is_digit (w @ s))"
  let ?top = "case hi of None \<Rightarrow> ?m | Some h \<Rightarrow> min ?m h"
  have w: "takeWhile is_digit (w @ s) = w @ takeWhile is_digit s"
    using fit by (simp add: list_all_iff)
  have "?top = length w"
  proof (cases "fixed_width (Digits lo hi)")
    case True
    then show ?thesis using fit w by (auto simp: fixed_width_def)
  next
    case False
    then have "takeWhile is_digit s = []" using clear by (cases s) (auto simp: clear_after_def)
    then show ?thesis using fit w by (auto split: option.splits)
  qed
  then show ?thesis using fit by (auto simp: digit_runs_def Let_def)
qed

lemma exactly_Digits:
  assumes "fits (Digits lo hi) w"
  shows "exactly (Digits lo hi) w [] (clear_after (Digits lo hi))"
proof (rule exactlyI)
  fix s :: string and c :: captures and k :: "string \<Rightarrow> captures \<Rightarrow> captures option"
  assume clear: "clear_after (Digits lo hi) s" and k: "k s ([] @ c) \<noteq> None"
  obtain ns where "digit_runs lo hi (w @ s) = length w # ns"
    using digit_runs_longest [OF assms clear] by blast
  then show "rx_match (Digits lo hi) (w @ s) c k = k s ([] @ c)"
    using k by (simp add: first_some_Cons)
qed


subsection \<open>Runs of atoms\<close>

text \<open>\<open>use\<close> is how an atom becomes a regular expression: bare in a cycle, as a named group in the ordering.\<close>

definition atom_caps :: "bool \<Rightarrow> (role \<Rightarrow> string) \<Rightarrow> atom \<Rightarrow> captures" where
  "atom_caps grp fld a =
     (case at_role a of None \<Rightarrow> [] | Some r \<Rightarrow> if grp then [(role_name r, fld r)] else [])"

definition atom_rx :: "bool \<Rightarrow> atom \<Rightarrow> rx" where
  "atom_rx grp a = (if grp then named a else at_regex a)"

definition caps_of :: "bool \<Rightarrow> (role \<Rightarrow> string) \<Rightarrow> atom list \<Rightarrow> captures" where
  "caps_of grp fld as = concat (rev (map (atom_caps grp fld) as))"

fun clear_run :: "(role \<Rightarrow> string) \<Rightarrow> atom list \<Rightarrow> string \<Rightarrow> bool" where
  "clear_run fld [] s = True"
| "clear_run fld (a # as) s = (clear_after (at_regex a) (text_of fld as @ s) \<and> clear_run fld as s)"

lemma text_of_simps [simp]:
  "text_of fld [] = []" "text_of fld (a # as) = atom_text fld a @ text_of fld as"
  "text_of fld (as @ bs) = text_of fld as @ text_of fld bs"
  by (simp_all add: text_of_def)

lemma caps_of_simps [simp]:
  "caps_of grp fld [] = []" "caps_of grp fld (a # as) = caps_of grp fld as @ atom_caps grp fld a"
  "caps_of grp fld (as @ bs) = caps_of grp fld bs @ caps_of grp fld as"
  by (simp_all add: caps_of_def)

lemma clear_run_append [simp]:
  "clear_run fld (as @ bs) s \<longleftrightarrow> clear_run fld as (text_of fld bs @ s) \<and> clear_run fld bs s"
  by (induction as) auto

lemma fields_fit_simps [simp]:
  "fields_fit fld []" "fields_fit fld (as @ bs) \<longleftrightarrow> fields_fit fld as \<and> fields_fit fld bs"
  by (simp_all add: fields_fit_def)

lemma fields_fit_Cons: "fields_fit fld (a # as) \<longleftrightarrow> fields_fit fld [a] \<and> fields_fit fld as"
  by (simp add: fields_fit_def)

lemma exactly_weaken: "exactly r u d P \<Longrightarrow> (\<And>s. Q s \<Longrightarrow> P s) \<Longrightarrow> exactly r u d Q"
  by (simp add: exactly_def)

lemma exactly_atom:
  assumes ok: "atom_ok a" and fit: "fields_fit fld [a]"
  shows "exactly (atom_rx grp a) (atom_text fld a) (atom_caps grp fld a) (clear_after (at_regex a))"
proof (cases "at_role a")
  case None
  then obtain x where "at_regex a = Lit x" using ok by (auto simp: atom_ok_def)
  then show ?thesis using None exactly_weaken [OF exactly_Lit]
    by (simp add: atom_rx_def named_def atom_text_def atom_caps_def)
next
  case (Some r)
  then obtain lo hi where dig: "at_regex a = Digits lo hi" using ok by (auto simp: atom_ok_def)
  have "exactly (Digits lo hi) (fld r) [] (clear_after (Digits lo hi))"
    using fit Some dig by (intro exactly_Digits) (simp add: fields_fit_def)
  then show ?thesis using Some dig exactly_Group
    by (simp add: atom_rx_def named_def atom_text_def atom_caps_def)
qed

lemma exactly_seq_all:
  "\<forall>a \<in> set as. atom_ok a \<Longrightarrow> fields_fit fld as \<Longrightarrow>
   exactly (seq_all (map (atom_rx grp) as)) (text_of fld as) (caps_of grp fld as) (clear_run fld as)"
proof (induction as)
  case Nil
  show ?case using exactly_weaken [OF exactly_Eps] by (simp add: seq_all_def)
next
  case (Cons a as)
  have a: "atom_ok a" "fields_fit fld [a]" and as: "\<forall>a \<in> set as. atom_ok a" "fields_fit fld as"
    using Cons.prems fields_fit_Cons [of fld a as] by auto
  have "exactly (Seq (atom_rx grp a) (seq_all (map (atom_rx grp) as))) (atom_text fld a @ text_of fld as)
      (caps_of grp fld as @ atom_caps grp fld a) (clear_run fld (a # as))"
    by (rule exactly_Seq [OF exactly_atom [OF a] Cons.IH [OF as]]) simp
  then show ?case by (simp add: seq_all_def del: clear_run.simps)
qed

definition chunk_rx :: "bool \<Rightarrow> atom list \<Rightarrow> rx" where
  "chunk_rx grp as = foldl (\<lambda>r a. Seq r (atom_rx grp a)) Eps as"

lemma chunk_rx_simps [simp]:
  "chunk_rx grp [] = Eps" "chunk_rx grp (as @ [a]) = Seq (chunk_rx grp as) (atom_rx grp a)"
  by (simp_all add: chunk_rx_def)

lemma chunk_rx_Eps: "chunk_rx grp as = Eps \<longleftrightarrow> as = []"
  by (cases as rule: rev_cases) auto

lemma coalesce_chunks:
  "coalesce (chunk_rx grp pending) (atom_rx grp) as = map (chunk_rx grp) (chunks pending as)"
proof (induction as arbitrary: pending)
  case Nil
  then show ?case by (simp add: chunk_rx_Eps)
next
  case (Cons a as)
  have lit: "at_role a = None \<Longrightarrow> at_regex a = atom_rx grp a" by (simp add: atom_rx_def named_def)
  show ?case using Cons.IH [of "pending @ [a]"] Cons.IH [of "[]"] lit by simp
qed

lemma exactly_chunk:
  "\<forall>a \<in> set as. atom_ok a \<Longrightarrow> fields_fit fld as \<Longrightarrow>
   exactly (chunk_rx grp as) (text_of fld as) (caps_of grp fld as) (clear_run fld as)"
proof (induction as rule: rev_induct)
  case Nil
  show ?case using exactly_weaken [OF exactly_Eps] by simp
next
  case (snoc a as)
  have "exactly (Seq (chunk_rx grp as) (atom_rx grp a)) (text_of fld as @ atom_text fld a)
      (atom_caps grp fld a @ caps_of grp fld as) (clear_run fld (as @ [a]))"
    using snoc by (intro exactly_Seq [OF snoc.IH exactly_atom]) auto
  then show ?case by (simp del: clear_run_append)
qed

lemma concat_chunks: "concat (chunks pending as) = pending @ as"
  by (induction pending as rule: chunks.induct) auto

lemma chunks_not_Nil: "ch \<in> set (chunks pending as) \<Longrightarrow> ch \<noteq> []"
  by (induction pending as rule: chunks.induct) (auto split: if_splits)


lemma atom_needs_text: "atom_ok a \<Longrightarrow> rx_match (atom_rx grp a) [] c k = None"
  by (auto simp: atom_ok_def atom_rx_def named_def digit_runs_def first_some_def split: option.splits)

lemma chunk_needs_text:
  "ch \<noteq> [] \<Longrightarrow> \<forall>a \<in> set ch. atom_ok a \<Longrightarrow> rx_match (chunk_rx grp ch) [] c k = None"
proof (induction ch arbitrary: k rule: rev_induct)
  case Nil
  then show ?case by simp
next
  case (snoc a as)
  show ?case
  proof (cases "as = []")
    case True
    then show ?thesis using snoc.prems by (simp add: chunk_rx_def atom_needs_text)
  next
    case False
    then show ?thesis using snoc by simp
  qed
qed

lemma nested_match:
  assumes "\<forall>ch \<in> set cs. ch \<noteq> [] \<and> (\<forall>a \<in> set ch. atom_ok a) \<and> fields_fit fld ch"
    and "clear_run fld (concat (take j cs)) []"
    and "k [] (caps_of grp fld (concat (take j cs)) @ c) \<noteq> None"
  shows "rx_match (nested_optional (map (chunk_rx grp) cs)) (text_of fld (concat (take j cs))) c k =
         k [] (caps_of grp fld (concat (take j cs)) @ c)"
  using assms
proof (induction cs arbitrary: j c)
  case Nil
  then show ?case by simp
next
  case (Cons ch cs)
  show ?case
  proof (cases j)
    case 0
    then show ?thesis using Cons.prems chunk_needs_text [of ch] by simp
  next
    case (Suc i)
    let ?rest = "concat (take i cs)"
    have ch: "exactly (chunk_rx grp ch) (text_of fld ch) (caps_of grp fld ch) (clear_run fld ch)"
      using Cons.prems(1) by (intro exactly_chunk) auto
    have tail: "rx_match (nested_optional (map (chunk_rx grp) cs)) (text_of fld ?rest) (caps_of grp fld ch @ c) k =
        k [] (caps_of grp fld ?rest @ caps_of grp fld ch @ c)"
      using Cons.IH [of i "caps_of grp fld ch @ c"] Cons.prems Suc by simp
    have "rx_match (chunk_rx grp ch) (text_of fld ch @ text_of fld ?rest) c
        (\<lambda>s' c'. rx_match (nested_optional (map (chunk_rx grp) cs)) s' c' k) =
        k [] (caps_of grp fld ?rest @ caps_of grp fld ch @ c)"
      using exactlyD [OF ch, of "text_of fld ?rest"
          "\<lambda>s' c'. rx_match (nested_optional (map (chunk_rx grp) cs)) s' c' k" c]
        tail Cons.prems Suc by simp
    then show ?thesis using Suc Cons.prems(3) by (auto split: option.splits)
  qed
qed

text \<open>A separated format is clear wherever a version of it stops.\<close>

lemma separated_clear:
  assumes "separated as" and "\<forall>a \<in> set as. atom_ok a"
  shows "clear_run fld (take m as) []"
  using assms
proof (induction as arbitrary: m rule: separated.induct)
  case (1 a b as)
  show ?case
  proof (cases m)
    case (Suc i)
    have "clear_after (at_regex a) (text_of fld (take i (b # as)))"
    proof (cases "fixed_width (at_regex a)")
      case False
      then have "separator b" using "1.prems" by simp
      then show ?thesis
        by (cases i) (auto simp: separator_def clear_after_def atom_text_def split: rx.splits)
    qed (simp add: clear_after_def)
    moreover have "clear_run fld (take i (b # as)) []" using "1.IH" "1.prems" by simp
    ultimately show ?thesis using Suc by simp
  qed simp
qed (auto simp: take_Cons' clear_after_def)

lemma concat_take: "\<exists>m. concat (take j xss) = take m (concat xss)"
proof (induction xss arbitrary: j)
  case Nil
  then show ?case by simp
next
  case (Cons xs xss)
  show ?case
  proof (cases j)
    case 0
    then have "concat (take j (xs # xss)) = take 0 (concat (xs # xss))" by simp
    then show ?thesis by blast
  next
    case (Suc i)
    then obtain m where "concat (take i xss) = take m (concat xss)" using Cons.IH by blast
    then have "concat (take j (xs # xss)) = take (length xs + m) (concat (xs # xss))" using Suc by simp
    then show ?thesis by blast
  qed
qed

lemma parse_loop_atoms:
  "parse_loop s b seen = Inr as \<Longrightarrow> a \<in> set as \<Longrightarrow> atom_ok a"
proof (induction s b seen arbitrary: as a rule: parse_loop.induct)
  case (1 b seen)
  then show ?case by (simp split: if_splits)
next
  case (2 ch rest b seen)
  show ?case
  proof (cases "match_token (ch # rest)")
    case None
    then show ?thesis using 2 by (auto simp: atom_ok_def split: if_splits)
  next
    case (Some t)
    obtain r role n where t: "t = (r, role, n)" by (cases t)
    have "\<exists>lo hi. r = Digits lo hi \<and> 0 < lo"
      using Some t by (auto simp: match_token_def TOKENS_def split: if_splits)
    then show ?thesis using 2 Some t by (auto simp: atom_ok_def split: if_splits)
  qed
qed

lemma parse_atoms: "parse f = Inr as \<Longrightarrow> \<forall>a \<in> set as. atom_ok a"
  by (auto simp: parse_def dest: parse_loop_atoms)


section \<open>Reading versions back\<close>

lemma chunks_wf:
  assumes "\<forall>a \<in> set as. atom_ok a" and "fields_fit fld as"
  shows "\<forall>ch \<in> set (chunks [] as). ch \<noteq> [] \<and> (\<forall>a \<in> set ch. atom_ok a) \<and> fields_fit fld ch"
proof
  fix ch assume ch: "ch \<in> set (chunks [] as)"
  then have "set ch \<subseteq> set as" using concat_chunks [of "[]" as] by (metis UN_upper append_Nil set_concat)
  then show "ch \<noteq> [] \<and> (\<forall>a \<in> set ch. atom_ok a) \<and> fields_fit fld ch"
    using assms chunks_not_Nil [OF ch] by (auto simp: fields_fit_def list_all_iff)
qed

lemma named_rx: "atom_rx True = named" "atom_rx False = at_regex"
  by (simp_all add: atom_rx_def fun_eq_iff)

lemma coalesce_named: "coalesce Eps named as = map (chunk_rx True) (chunks [] as)"
  and coalesce_bare: "coalesce Eps at_regex as = map (chunk_rx False) (chunks [] as)"
  using coalesce_chunks [of True "[]" as] coalesce_chunks [of False "[]" as] by (simp_all add: named_rx)

definition full :: "string \<Rightarrow> captures \<Rightarrow> captures option" where
  "full s c = (if s = [] then Some c else None)"

lemma order_match:
  assumes as: "\<forall>a \<in> set as. atom_ok a" "fields_fit fld as" "separated as"
    and cs: "chunks [] as = ch # cs" and w: "written = concat (take j (chunks [] as))" and j: "0 < j"
  shows "fullmatch (Seq (chunk_rx True ch) (nested_optional (map (chunk_rx True) cs))) (text_of fld written) =
         Some (caps_of True fld written)"
proof -
  obtain i where i: "j = Suc i" using j by (cases j) auto
  let ?rest = "concat (take i cs)"
  have written: "written = ch @ ?rest" using w cs i by simp
  obtain m where "written = take m as" using w concat_take [of j "chunks [] as"] concat_chunks [of "[]" as] by auto
  then have clear: "clear_run fld ch (text_of fld ?rest)" "clear_run fld ?rest []"
    using separated_clear [OF as(3,1)] written by (metis append_Nil2 clear_run_append)+
  have wf: "\<forall>ch \<in> set (ch # cs). ch \<noteq> [] \<and> (\<forall>a \<in> set ch. atom_ok a) \<and> fields_fit fld ch"
    using chunks_wf [OF as(1,2)] cs by simp
  have tail: "rx_match (nested_optional (map (chunk_rx True) cs)) (text_of fld ?rest) (caps_of True fld ch) full =
      Some (caps_of True fld ?rest @ caps_of True fld ch)"
    using nested_match [of cs fld i full True "caps_of True fld ch"] wf clear(2) by (simp add: full_def)
  have "exactly (chunk_rx True ch) (text_of fld ch) (caps_of True fld ch) (clear_run fld ch)"
    using wf by (intro exactly_chunk) auto
  then have "rx_match (chunk_rx True ch) (text_of fld ch @ text_of fld ?rest) []
      (\<lambda>s c. rx_match (nested_optional (map (chunk_rx True) cs)) s c full) =
      Some (caps_of True fld ?rest @ caps_of True fld ch)"
    using exactlyD [of _ _ _ _ "text_of fld ?rest"
        "\<lambda>s c. rx_match (nested_optional (map (chunk_rx True) cs)) s c full" "[]"] clear(1) tail by simp
  then show ?thesis using written by (simp add: fullmatch_def full_def [abs_def])
qed

lemma role_name_inject [simp]: "role_name r = role_name r' \<longleftrightarrow> r = r'"
  by (cases r; cases r') simp_all

lemma roles_of_simps [simp]:
  "roles_of [] = []" "roles_of (a # as) = (case at_role a of None \<Rightarrow> [] | Some r \<Rightarrow> [r]) @ roles_of as"
  by (simp_all add: roles_of_def)

lemma map_of_caps:
  "map_of (caps_of True fld as) (role_name r) = (if r \<in> set (roles_of as) then Some (fld r) else None)"
  by (induction as) (auto simp: atom_caps_def map_add_def split: option.splits)

lemma fields_nonempty:
  assumes "fields_fit fld as" and "\<forall>a \<in> set as. atom_ok a" and "r \<in> set (roles_of as)"
  shows "fld r \<noteq> []"
proof -
  obtain a where a: "a \<in> set as" "at_role a = Some r"
    using assms(3) by (auto simp: roles_of_def split: option.splits)
  then have "fits (at_regex a) (fld r)" "atom_ok a"
    using assms by (auto simp: fields_fit_def list_all_iff dest!: bspec split: option.splits)
  then show ?thesis using a(2) by (auto simp: atom_ok_def)
qed

text \<open>The field of a version that stops after \<open>written\<close>: 0 where it is absent.\<close>

definition field_value :: "(role \<Rightarrow> string) \<Rightarrow> atom list \<Rightarrow> role \<Rightarrow> nat" where
  "field_value fld written r = (if r \<in> set (roles_of written) then int_digits (fld r) else 0)"

lemma set_roles_of: "set as \<subseteq> set bs \<Longrightarrow> set (roles_of as) \<subseteq> set (roles_of bs)"
  by (auto simp: roles_of_def)

text \<open>
  C36: a version that is written in a separated format and stops after any of its fields is read back by
  \<open>order_key\<close>: every field it has with its number and every field it lacks as 0.
\<close>

theorem order_key_reads_back:
  assumes "validate date_format = Inr ()" and "parse date_format = Inr atoms" and "separated atoms"
    and "fields_fit fld atoms" and "0 < j" and "written = concat (take j (chunks [] atoms))"
  shows "order_key date_format (text_of fld written) =
    Inr (Some (field_value fld written Year, field_value fld written Month,
               field_value fld written Day, field_value fld written Serial))"
proof -
  have ok: "\<forall>a \<in> set atoms. atom_ok a" using assms(2) by (rule parse_atoms)
  have "roles_of atoms \<noteq> []" using assms(1,2) by (auto simp: validate_def roles_of_def [symmetric] Let_def)
  then have "atoms \<noteq> []" by auto
  then obtain ch cs where cs: "chunks [] atoms = ch # cs"
    using concat_chunks [of "[]" atoms] by (cases "chunks [] atoms") auto
  have rx: "order_regex date_format = Inr (Seq (chunk_rx True ch) (nested_optional (map (chunk_rx True) cs)))"
    using assms(2) cs by (simp add: order_regex_def coalesce_named)
  have hit: "fullmatch (Seq (chunk_rx True ch) (nested_optional (map (chunk_rx True) cs))) (text_of fld written) =
      Some (caps_of True fld written)"
    by (rule order_match [OF ok assms(4,3) cs assms(6,5)])
  obtain m where "written = take m atoms"
    using assms(6) concat_take [of j "chunks [] atoms"] concat_chunks [of "[]" atoms] by auto
  then have "set written \<subseteq> set atoms" by (simp add: set_take_subset)
  then have "fld r \<noteq> []" if "r \<in> set (roles_of written)" for r
    using that fields_nonempty [OF assms(4) ok] set_roles_of by blast
  then show ?thesis using rx hit by (simp add: order_key_def Let_def map_of_caps field_value_def)
qed


text \<open>A format with a cycle of year and month, and a serial.\<close>

definition sample_atoms :: "atom list" where
  "sample_atoms =
     [\<lparr> at_regex = Digits 2 (Some 2), at_role = Some Year, at_in_cycle = True \<rparr>,
      \<lparr> at_regex = Lit (CHR ''.''), at_role = None, at_in_cycle = True \<rparr>,
      \<lparr> at_regex = Digits 2 (Some 2), at_role = Some Month, at_in_cycle = True \<rparr>,
      \<lparr> at_regex = Lit (CHR ''.''), at_role = None, at_in_cycle = False \<rparr>,
      \<lparr> at_regex = Digits 1 None, at_role = Some Serial, at_in_cycle = False \<rparr>]"

fun sample_field :: "role \<Rightarrow> string" where
  "sample_field Year = ''09''"
| "sample_field Month = ''04''"
| "sample_field Day = ''1''"
| "sample_field Serial = ''012''"

lemma sample_format:
  "validate ''(YY.MM).N'' = Inr ()" "parse ''(YY.MM).N'' = Inr sample_atoms"
  "separated sample_atoms" "fields_fit sample_field sample_atoms"
  by code_simp+

lemma order_key_reads_back_witness:
  "order_key ''(YY.MM).N'' ''09.04.012'' = Inr (Some (9, 4, 0, 12)) \<and>
   order_key ''(YY.MM).N'' ''09.04'' = Inr (Some (9, 4, 0, 0))"
proof -
  let ?w3 = "concat (take 3 (chunks [] sample_atoms))" and ?w2 = "concat (take 2 (chunks [] sample_atoms))"
  have "text_of sample_field ?w3 = ''09.04.012''" "text_of sample_field ?w2 = ''09.04''"
    "map (field_value sample_field ?w3) [Year, Month, Day, Serial] = [9, 4, 0, 12]"
    "map (field_value sample_field ?w2) [Year, Month, Day, Serial] = [9, 4, 0, 0]"
    by code_simp+
  then show ?thesis
    using order_key_reads_back [OF sample_format, of 3 ?w3] order_key_reads_back [OF sample_format, of 2 ?w2]
    by simp
qed

subsection \<open>The cycle of a version\<close>

lemma split_at: "i \<le> j \<Longrightarrow> xs = take i xs @ take (j - i) (drop i xs) @ drop j xs"
  by (metis append_take_drop_id drop_drop le_add_diff_inverse2)

lemma sorted_hd_last: "sorted is \<Longrightarrow> is \<noteq> [] \<Longrightarrow> hd is \<le> (last is :: nat)"
  by (cases "is") auto

lemma span_split_append:
  assumes "span_split as = Some (before, span, rest)"
  shows "as = before @ span @ rest"
proof -
  let ?is = "filter (\<lambda>i. at_in_cycle (as ! i)) [0..<length as]"
  have ne: "?is \<noteq> []" using assms by (auto simp: span_split_def Let_def split: if_splits)
  have "hd ?is \<le> last ?is" using ne by (intro sorted_hd_last) (simp_all add: sorted_wrt_filter)
  then have "as = take (hd ?is) as @ take (Suc (last ?is) - hd ?is) (drop (hd ?is) as) @ drop (Suc (last ?is)) as"
    by (intro split_at) simp
  then show ?thesis using assms ne by (auto simp: span_split_def Let_def)
qed

lemma no_caps [simp]: "caps_of False fld as = []"
  by (induction as) (auto simp: atom_caps_def split: option.splits)

text \<open>
  on a version that is written in a separated format up to any field after its cycle span, the
  expression that is stored as \<open>cycle_match\<close> matches and captures the text of the span as its only group.
\<close>

theorem cycle_of_a_written_version:
  assumes "parse date_format = Inr atoms" and "separated atoms" and "fields_fit fld atoms"
    and "span_split atoms = Some (before, span, rest)"
  shows "\<exists>r. cycle_regex date_format = Inr (Some r) \<and>
    fullmatch r (text_of fld before @ text_of fld span @ text_of fld (concat (take j (chunks [] rest)))) =
      Some [('''', text_of fld span)]"
proof -
  have atoms: "atoms = before @ span @ rest" using assms(4) by (rule span_split_append)
  have ok: "\<forall>a \<in> set atoms. atom_ok a" using assms(1) by (rule parse_atoms)
  let ?tail = "concat (take j (chunks [] rest))"
  let ?opt = "nested_optional (map (chunk_rx False) (chunks [] rest))"
  let ?r = "Seq (seq_all (map (atom_rx False) before)) (Seq (Group '''' (seq_all (map (atom_rx False) span))) ?opt)"
  have rx: "cycle_regex date_format = Inr (Some ?r)"
    using assms(1,4) by (simp add: cycle_regex_def coalesce_bare named_rx)
  obtain m where m: "?tail = take m rest" using concat_take [of j "chunks [] rest"] concat_chunks [of "[]" rest] by auto
  have "clear_run fld (take (length before + (length span + m)) atoms) []"
    using assms(2) ok by (rule separated_clear)
  then have clear: "clear_run fld before (text_of fld span @ text_of fld ?tail)"
      "clear_run fld span (text_of fld ?tail)" "clear_run fld ?tail []"
    using m atoms by simp_all
  have b: "exactly (seq_all (map (atom_rx False) before)) (text_of fld before) [] (clear_run fld before)"
    and s: "exactly (seq_all (map (atom_rx False) span)) (text_of fld span) [] (clear_run fld span)"
    using exactly_seq_all [of before fld False] exactly_seq_all [of span fld False] ok atoms assms(3) by auto
  have wf: "\<forall>ch \<in> set (chunks [] rest). ch \<noteq> [] \<and> (\<forall>a \<in> set ch. atom_ok a) \<and> fields_fit fld ch"
    using ok atoms assms(3) by (intro chunks_wf) simp_all
  have tail: "rx_match ?opt (text_of fld ?tail) [('''', text_of fld span)] full = Some [('''', text_of fld span)]"
    using nested_match [OF wf clear(3), of full False "[('''', text_of fld span)]"] by (simp add: full_def)
  have "rx_match (Group '''' (seq_all (map (atom_rx False) span))) (text_of fld span @ text_of fld ?tail) []
      (\<lambda>s c. rx_match ?opt s c full) = Some [('''', text_of fld span)]"
    using exactlyD [OF exactly_Group [OF s], of "text_of fld ?tail" "\<lambda>s c. rx_match ?opt s c full" "[]"]
      clear(2) tail by simp
  then have "rx_match ?r (text_of fld before @ text_of fld span @ text_of fld ?tail) [] full =
      Some [('''', text_of fld span)]"
    using exactlyD [OF b, of "text_of fld span @ text_of fld ?tail"] clear(1) by simp
  then show ?thesis using rx by (simp add: fullmatch_def full_def [abs_def])
qed

lemma cycle_of_a_written_version_witness:
  "\<exists>r. cycle_regex ''(YY.MM).N'' = Inr (Some r) \<and> fullmatch r ''09.04.012'' = Some [('''', ''09.04'')]"
proof -
  let ?rest = "drop 3 sample_atoms"
  have split: "span_split sample_atoms = Some ([], take 3 sample_atoms, ?rest)" by code_simp
  have "text_of sample_field (take 3 sample_atoms) = ''09.04''"
    "text_of sample_field (concat (take 1 (chunks [] ?rest))) = ''.012''"
    by code_simp+
  then show ?thesis
    using cycle_of_a_written_version [OF sample_format(2-4) split, of 1] by simp
qed

text \<open>
  A cycle span that ends in a separator: the cycle expression accepts \<open>2024-\<close> and the ordering does
  not, so the version is placed in a cycle in which it cannot be ranked.
\<close>

lemma cycle_without_order:
  "map_option (\<lambda>r. fullmatch r ''2024-'') (case cycle_regex ''(YYYY-)MM'' of Inr x \<Rightarrow> x | Inl _ \<Rightarrow> None) =
     Some (Some [('''', ''2024-'')])"
  "order_key ''(YYYY-)MM'' ''2024-'' = Inr None"
  by code_simp+

text \<open>The text that is stored in the project.\<close>

definition cycle_pattern :: "rx \<Rightarrow> string" where
  "cycle_pattern r = ''^'' @ render r @ ''$''"

lemma rendered_example:
  "map_option cycle_pattern (case cycle_regex ''(YY.MM).N'' of Inr x \<Rightarrow> x | Inl _ \<Rightarrow> None) =
     Some (let b = char_of (92 :: nat) in
       ''^('' @ b # ''d{2}'' @ b # ''.'' @ b # ''d{2})(?:'' @ b # ''.'' @ b # ''d+)?$'')"
  by code_simp

end
