(* ===== verification/Cycles.thy ===== *)
theory Cycles
  imports Calver PreserveReleases "HOL-Library.List_Lexorder" "HOL-Library.Product_Lexorder" "HOL-Library.Char_ord"
begin

text \<open>
  src/atr/cycles.py: the cycle of a version, the order of the releases of a cycle, the release that a
  new one supersedes, and the order in which cycles are shown.

  Regular expressions of projects are compiled by \<open>re2\<close> and semantic versions parsed by \<open>semver\<close>: both
  are parameters.  \<open>'v\<close> is the precedence of a semantic version.
\<close>

section \<open>Projects and parameters\<close>

datatype VersionMethod = SIMPLE | SEMVER | CALVER

record cycle_project =
  cp_key :: string
  cp_cycle_match :: "string option"
  cp_version_method :: VersionMethod
  cp_calver_format :: "string option"

text \<open>
  \<open>ce_compile\<close> is \<open>re2.compile(pattern)\<close> with captures, \<open>None\<close> for \<open>re2.error\<close>; a compiled pattern maps a
  version to the groups of its full match.  \<open>ce_semver\<close> is \<open>semver.VersionInfo.parse\<close> with optional
  minor and patch, \<open>None\<close> for \<open>ValueError\<close>.
\<close>

record 'v cycle_env =
  ce_compile :: "string \<Rightarrow> (string \<Rightarrow> string option list option) option"
  ce_semver :: "string \<Rightarrow> 'v option"

definition DEFAULT_CYCLE :: string where
  "DEFAULT_CYCLE = ''default''"

definition MAX_PROJECT_PATTERN_LENGTH :: nat where
  "MAX_PROJECT_PATTERN_LENGTH = 128"

definition compile_project_pattern :: "'v cycle_env \<Rightarrow> string \<Rightarrow> (string \<Rightarrow> string option list option) py" where
  "compile_project_pattern env pattern =
     bindE (guardE (length pattern \<le> MAX_PROJECT_PATTERN_LENGTH) (ValueError ''Pattern exceeds 128 characters'')) (\<lambda>_.
       demandE (ValueError ''invalid pattern'') (ce_compile env pattern))"

definition cycle_name_for_version :: "'v cycle_env \<Rightarrow> cycle_project \<Rightarrow> string \<Rightarrow> string py" where
  "cycle_name_for_version env p version =
     (case cp_cycle_match p of
        None \<Rightarrow> Inr DEFAULT_CYCLE
      | Some pattern \<Rightarrow>
          bindE (compile_project_pattern env pattern) (\<lambda>match.
          bindE (demandE (ValueError ''Version does not match cycle_match'') (match version)) (\<lambda>groups.
            case groups of
              [] \<Rightarrow> Inl (ValueError ''cycle_match has no capture groups'')
            | g # _ \<Rightarrow>
                (case g of
                   Some (c # cs) \<Rightarrow> Inr (c # cs)
                 | _ \<Rightarrow> Inl (ValueError ''cycle_match captured empty string'')))))"

definition display_name :: "string \<Rightarrow> string" where
  "display_name cycle_name =
     (if cycle_name = DEFAULT_CYCLE then ''No lifecycle information'' else ''Version '' @ cycle_name)"

definition headings_needed :: "string list \<Rightarrow> bool" where
  "headings_needed names = (1 < length names \<or> list_ex (\<lambda>n. n \<noteq> DEFAULT_CYCLE) names)"

definition semver_parse :: "'v cycle_env \<Rightarrow> string \<Rightarrow> 'v option" where
  "semver_parse env version = ce_semver env (dropWhile (\<lambda>c. c = CHR ''v'') version)"

section \<open>Ranking\<close>

text \<open>\<open>sort(key, reverse=True)\<close>: descending and stable.\<close>

definition sort_desc :: "('a \<Rightarrow> 'k::linorder) \<Rightarrow> 'a list \<Rightarrow> 'a list" where
  "sort_desc k xs = rev (sort_key k (rev xs))"

definition same_cycle_candidates :: "'v cycle_env \<Rightarrow> cycle_project \<Rightarrow> string \<Rightarrow> release list \<Rightarrow> release list" where
  "same_cycle_candidates env p version releases =
     (case cycle_name_for_version env p version of
        Inl _ \<Rightarrow> []
      | Inr target \<Rightarrow> filter (\<lambda>r. cycle_name_for_version env p (r_version r) = Inr target) releases)"

definition ranked_semver :: "('v::linorder) cycle_env \<Rightarrow> release list \<Rightarrow> ('v \<times> release) list" where
  "ranked_semver env releases =
     sort_desc fst (List.map_filter (\<lambda>r. map_option (\<lambda>v. (v, r)) (semver_parse env (r_version r))) releases)"

type_synonym calver_key = "nat \<times> nat \<times> nat \<times> nat"

fun calver_pairs :: "string \<Rightarrow> release list \<Rightarrow> (calver_key \<times> release) list py" where
  "calver_pairs fmt [] = Inr []"
| "calver_pairs fmt (r # rs) =
     bindE (order_key fmt (r_version r)) (\<lambda>k.
     bindE (calver_pairs fmt rs) (\<lambda>ps. Inr (case k of None \<Rightarrow> ps | Some key \<Rightarrow> (key, r) # ps)))"

definition ranked_calver :: "string \<Rightarrow> release list \<Rightarrow> (calver_key \<times> release) list py" where
  "ranked_calver fmt releases = bindE (calver_pairs fmt releases) (\<lambda>ps. Inr (sort_desc fst ps))"

definition latest_release_by_released :: "release list \<Rightarrow> release option" where
  "latest_release_by_released releases =
     (case sort_desc fst (List.map_filter (\<lambda>r. map_option (\<lambda>t. (t, r)) (r_released r)) releases) of
        [] \<Rightarrow> None | (_, r) # _ \<Rightarrow> Some r)"

definition latest_by_released_date :: "string \<Rightarrow> release list \<Rightarrow> release option" where
  "latest_by_released_date version releases =
     (case List.find (\<lambda>r. r_version r = version) releases of
        None \<Rightarrow> None
      | Some target \<Rightarrow> if r_released target = None then None else latest_release_by_released releases)"

section \<open>The prior and the latest release\<close>

definition first_below :: "'k::linorder \<Rightarrow> ('k \<times> release) list \<Rightarrow> release option" where
  "first_below target rs = map_option snd (List.find (\<lambda>(k, _). k < target) rs)"

definition prior_release_semver :: "('v::linorder) cycle_env \<Rightarrow> string \<Rightarrow> release list \<Rightarrow> release option" where
  "prior_release_semver env version releases =
     (case semver_parse env version of
        None \<Rightarrow> None
      | Some target \<Rightarrow> first_below target (ranked_semver env releases))"

definition format_of :: "cycle_project \<Rightarrow> string option" where
  "format_of p = (case cp_calver_format p of Some (c # cs) \<Rightarrow> Some (c # cs) | _ \<Rightarrow> None)"

definition prior_release_calver :: "cycle_project \<Rightarrow> string \<Rightarrow> release list \<Rightarrow> release option py" where
  "prior_release_calver p version releases =
     (case format_of p of
        None \<Rightarrow> Inr (latest_release_by_released releases)
      | Some fmt \<Rightarrow>
          bindE (order_key fmt version) (\<lambda>t. case t of
             None \<Rightarrow> Inr None
           | Some target \<Rightarrow> bindE (ranked_calver fmt releases) (\<lambda>rs. Inr (first_below target rs))))"

definition prior_release_in_cycle ::
  "('v::linorder) cycle_env \<Rightarrow> cycle_project \<Rightarrow> string \<Rightarrow> release list \<Rightarrow> release option py" where
  "prior_release_in_cycle env p version releases =
     (let same = same_cycle_candidates env p version releases in
      if same = [] then Inr None
      else (case cp_version_method p of
              SIMPLE \<Rightarrow> Inr (latest_release_by_released same)
            | SEMVER \<Rightarrow> Inr (prior_release_semver env version same)
            | CALVER \<Rightarrow> prior_release_calver p version same))"

definition pick_latest :: "string \<Rightarrow> release list \<Rightarrow> ('k \<times> release) list \<Rightarrow> bool \<Rightarrow> release option" where
  "pick_latest version same ranked target_ranks =
     (case ranked of
        [] \<Rightarrow> latest_by_released_date version same
      | (_, r) # _ \<Rightarrow> if target_ranks then Some r else None)"

definition latest_release_in_cycle ::
  "('v::linorder) cycle_env \<Rightarrow> cycle_project \<Rightarrow> string \<Rightarrow> release list \<Rightarrow> release option py" where
  "latest_release_in_cycle env p version candidates =
     (let same = same_cycle_candidates env p version candidates in
      if same = [] then Inr None
      else (case cp_version_method p of
              SIMPLE \<Rightarrow> Inr (latest_by_released_date version same)
            | SEMVER \<Rightarrow> Inr (pick_latest version same (ranked_semver env same) (semver_parse env version \<noteq> None))
            | CALVER \<Rightarrow>
                (case format_of p of
                   None \<Rightarrow> Inr (latest_by_released_date version same)
                 | Some fmt \<Rightarrow>
                     bindE (ranked_calver fmt same) (\<lambda>ranked.
                     bindE (order_key fmt version) (\<lambda>t.
                       Inr (pick_latest version same ranked (t \<noteq> None)))))))"

definition is_latest_in_cycle ::
  "('v::linorder) cycle_env \<Rightarrow> cycle_project \<Rightarrow> release \<Rightarrow> release list \<Rightarrow> bool py" where
  "is_latest_in_cycle env p r candidates =
     (let active = filter (\<lambda>x. r_phase x = RELEASE \<and> \<not> r_is_archived x) candidates in
      bindE (latest_release_in_cycle env p (r_version r) active) (\<lambda>latest.
        Inr (case latest of None \<Rightarrow> True | Some l \<Rightarrow> r_key l = r_key r)))"

section \<open>Display order\<close>

text \<open>A part of a cycle name: \<open>(0, int)\<close> sorts ahead of \<open>(1, str)\<close>.\<close>

datatype name_part = PNum int | PStr string

text \<open>\<open>int(s)\<close>: optional white space and sign, digits with single underscores between them.\<close>

fun digits_tail :: "string \<Rightarrow> string option" where
  "digits_tail [] = Some []"
| "digits_tail (c # s) =
     (if is_digit c then map_option ((#) c) (digits_tail s)
      else if c = CHR ''_'' \<and> s \<noteq> [] \<and> is_digit (hd s) then digits_tail s else None)"

definition py_int :: "string \<Rightarrow> int option" where
  "py_int s =
     (let t = strip s;
          (neg, u) = (if t \<noteq> [] \<and> hd t = CHR ''-'' then (True, tl t)
                      else if t \<noteq> [] \<and> hd t = CHR ''+'' then (False, tl t) else (False, t)) in
      if u \<noteq> [] \<and> is_digit (hd u)
      then map_option (\<lambda>ds. (if neg then - int (int_digits ds) else int (int_digits ds))) (digits_tail u)
      else None)"

definition name_part_of :: "string \<Rightarrow> name_part" where
  "name_part_of s = (case py_int s of Some n \<Rightarrow> PNum n | None \<Rightarrow> PStr s)"

instantiation name_part :: linorder
begin

fun less_eq_name_part :: "name_part \<Rightarrow> name_part \<Rightarrow> bool" where
  "less_eq_name_part (PNum a) (PNum b) = (a \<le> b)"
| "less_eq_name_part (PNum a) (PStr t) = True"
| "less_eq_name_part (PStr s) (PNum b) = False"
| "less_eq_name_part (PStr s) (PStr t) = (s \<le> t)"

definition less_name_part :: "name_part \<Rightarrow> name_part \<Rightarrow> bool" where
  "less_name_part a b = (a \<le> b \<and> \<not> b \<le> a)"

instance
proof
  fix a b c :: name_part
  show "a < b \<longleftrightarrow> a \<le> b \<and> \<not> b \<le> a" by (rule less_name_part_def)
  show "a \<le> a" by (cases a) simp_all
  show "a \<le> b \<Longrightarrow> b \<le> c \<Longrightarrow> a \<le> c" by (cases a; cases b; cases c) auto
  show "a \<le> b \<Longrightarrow> b \<le> a \<Longrightarrow> a = b" by (cases a; cases b) auto
  show "a \<le> b \<or> b \<le> a" by (cases a; cases b) auto
qed

end

definition cycle_order_key :: "project_cycle \<Rightarrow> bool \<times> name_part list" where
  "cycle_order_key c =
     (cy_cycle c \<noteq> DEFAULT_CYCLE,
      map name_part_of (split_on (CHR ''.'') (map (\<lambda>x. if x = CHR ''+'' \<or> x = CHR ''-'' then CHR ''.'' else x) (cy_cycle c))))"

definition newest_first :: "project_cycle list \<Rightarrow> project_cycle list" where
  "newest_first cycles = sort_desc cycle_order_key cycles"

section \<open>Reassignment\<close>

definition reassigned_cycle :: "'v cycle_env \<Rightarrow> cycle_project \<Rightarrow> release \<Rightarrow> string" where
  "reassigned_cycle env p r =
     (case cycle_name_for_version env p (r_version r) of Inl _ \<Rightarrow> DEFAULT_CYCLE | Inr name \<Rightarrow> name)"

definition reassign_one :: "'v cycle_env \<Rightarrow> cycle_project \<Rightarrow> release \<Rightarrow> db \<Rightarrow> db" where
  "reassign_one env p r d =
     (let name = reassigned_cycle env p r; new_cycle_key = cp_key p @ ''-'' @ name in
      if r_cycle_key r = new_cycle_key then d
      else
        (let d1 = (if list_ex (\<lambda>c. cy_cycle_key c = new_cycle_key) (db_cycles d) then d
                   else d \<lparr> db_cycles := db_cycles d @
                          [\<lparr> cy_cycle_key = new_cycle_key, cy_cycle = name, cy_project_key = cp_key p, cy_lts = False \<rparr>] \<rparr>)
         in d1 \<lparr> db_releases := upd (\<lambda>x. r_key x = r_key r) (\<lambda>x. x \<lparr> r_cycle_key := new_cycle_key \<rparr>) (db_releases d1) \<rparr>))"

definition reassign_release_cycles :: "'v cycle_env \<Rightarrow> cycle_project \<Rightarrow> db \<Rightarrow> db" where
  "reassign_release_cycles env p d =
     fold (reassign_one env p) (sel (\<lambda>r. r_project_key r = cp_key p) (db_releases d)) d"

section \<open>What the rankings promise\<close>

lemma sort_desc_set [simp]: "set (sort_desc k xs) = set xs"
  by (simp add: sort_desc_def)

lemma sort_desc_mset [simp]: "mset (sort_desc k xs) = mset xs"
  by (simp add: sort_desc_def)

lemma sort_desc_sorted: "sorted_wrt (\<lambda>a b. k b \<le> k a) (sort_desc k xs)"
proof -
  have "sorted_wrt (\<lambda>a b. k a \<le> k b) (sort_key k (rev xs))"
    using sorted_sort_key [of k "rev xs"] by (simp add: sorted_map)
  then show ?thesis by (simp add: sort_desc_def sorted_wrt_rev)
qed

lemma sort_desc_hd:
  assumes "sort_desc k xs = y # ys" and "x \<in> set xs"
  shows "k x \<le> k y"
proof -
  have "x \<in> set (y # ys)" using assms sort_desc_set [of k xs] by metis
  then show ?thesis using sort_desc_sorted [of k xs] assms(1) by auto
qed

text \<open>The first pair below the target in a descending list is the greatest below it.\<close>

lemma find_first_below:
  assumes "sorted_wrt (\<lambda>a b. fst b \<le> fst a) ps"
  shows "case List.find (\<lambda>(k, _). k < t) ps of
           None \<Rightarrow> \<forall>q \<in> set ps. \<not> fst q < t
         | Some q \<Rightarrow> q \<in> set ps \<and> fst q < (t :: 'k::linorder) \<and> (\<forall>q' \<in> set ps. fst q' < t \<longrightarrow> fst q' \<le> fst q)"
  using assms
proof (induction ps)
  case Nil
  then show ?case by simp
next
  case (Cons q ps)
  then show ?case by (cases "fst q < t") (auto split: option.splits prod.splits)
qed

definition greatest_below :: "(release \<Rightarrow> 'k::linorder option) \<Rightarrow> 'k \<Rightarrow> release list \<Rightarrow> release option \<Rightarrow> bool" where
  "greatest_below key t rs x \<longleftrightarrow>
     (case x of
        None \<Rightarrow> (\<forall>r \<in> set rs. \<forall>k. key r = Some k \<longrightarrow> \<not> k < t)
      | Some r \<Rightarrow> r \<in> set rs \<and> (\<exists>k. key r = Some k \<and> k < t \<and>
                   (\<forall>r' \<in> set rs. \<forall>k'. key r' = Some k' \<and> k' < t \<longrightarrow> k' \<le> k)))"

lemma first_below_greatest:
  assumes "sorted_wrt (\<lambda>a b. fst b \<le> fst a) ps"
    and pairs: "set ps = {(k, r). r \<in> set rs \<and> key r = Some k}"
  shows "greatest_below key t rs (first_below t ps)"
proof (cases "List.find (\<lambda>(k, _). k < t) ps")
  case None
  then have "\<forall>q \<in> set ps. \<not> fst q < t" using find_first_below [OF assms(1), of t] by simp
  then show ?thesis using None pairs by (auto simp: greatest_below_def first_below_def)
next
  case (Some q)
  then have q: "q \<in> set ps" "fst q < t" "\<forall>q' \<in> set ps. fst q' < t \<longrightarrow> fst q' \<le> fst q"
    using find_first_below [OF assms(1), of t] by simp_all
  obtain k r where "q = (k, r)" by (cases q)
  then show ?thesis using Some q pairs by (auto simp: greatest_below_def first_below_def)
qed

lemma keyed_pairs:
  "set (List.map_filter (\<lambda>r. map_option (\<lambda>k. (k, r)) (key r)) rs) = {(k, r). r \<in> set rs \<and> key r = Some k}"
  by (induction rs) (auto simp: List.map_filter_simps split: option.splits)

lemma ranked_semver_pairs:
  "set (ranked_semver env rs) = {(k, r). r \<in> set rs \<and> semver_parse env (r_version r) = Some k}"
  by (simp add: ranked_semver_def keyed_pairs)

lemma ranked_semver_sorted: "sorted_wrt (\<lambda>a b. fst b \<le> fst a) (ranked_semver env rs)"
  by (simp add: ranked_semver_def sort_desc_sorted)

text \<open>The calendar key of a release, when the format can be compiled.\<close>

definition calver_rank :: "string \<Rightarrow> string \<Rightarrow> calver_key option" where
  "calver_rank fmt version = (case order_key fmt version of Inr k \<Rightarrow> k | Inl _ \<Rightarrow> None)"

lemma calver_pairs_set:
  "calver_pairs fmt rs = Inr ps \<Longrightarrow> set ps = {(k, r). r \<in> set rs \<and> calver_rank fmt (r_version r) = Some k}"
proof (induction rs arbitrary: ps)
  case Nil
  then show ?case by simp
next
  case (Cons r rs)
  then obtain k qs where k: "order_key fmt (r_version r) = Inr k" "calver_pairs fmt rs = Inr qs"
      "ps = (case k of None \<Rightarrow> qs | Some key \<Rightarrow> (key, r) # qs)"
    by auto
  then show ?case using Cons.IH [OF k(2)] by (auto simp: calver_rank_def split: option.splits)
qed

lemma ranked_calver_pairs:
  "ranked_calver fmt rs = Inr ps \<Longrightarrow> set ps = {(k, r). r \<in> set rs \<and> calver_rank fmt (r_version r) = Some k}"
  by (auto simp: ranked_calver_def dest: calver_pairs_set)

lemma ranked_calver_sorted: "ranked_calver fmt rs = Inr ps \<Longrightarrow> sorted_wrt (\<lambda>a b. fst b \<le> fst a) ps"
  by (auto simp: ranked_calver_def sort_desc_sorted)

lemma same_cycle_set:
  "r \<in> set (same_cycle_candidates env p version rs) \<longleftrightarrow>
   r \<in> set rs \<and> (\<exists>c. cycle_name_for_version env p version = Inr c \<and> cycle_name_for_version env p (r_version r) = Inr c)"
  by (cases "cycle_name_for_version env p version") (auto simp: same_cycle_candidates_def)

lemma latest_by_released_in:
  assumes "latest_release_by_released rs = Some x"
  shows "x \<in> set rs" and "\<exists>t. r_released x = Some t \<and> (\<forall>r \<in> set rs. \<forall>u. r_released r = Some u \<longrightarrow> u \<le> t)"
proof -
  let ?ps = "List.map_filter (\<lambda>r. map_option (\<lambda>t. (t, r)) (r_released r)) rs"
  have set_ps: "set ?ps = {(t, r). r \<in> set rs \<and> r_released r = Some t}"
    by (rule keyed_pairs)
  obtain t qs where ps: "sort_desc fst ?ps = (t, x) # qs"
    using assms by (auto simp: latest_release_by_released_def split: list.splits)
  have "(t, x) \<in> set ?ps" using ps sort_desc_set [of fst ?ps] by (metis list.set_intros(1))
  then show "x \<in> set rs" using set_ps by simp
  have "u \<le> t" if "r \<in> set rs" "r_released r = Some u" for r u
    using sort_desc_hd [OF ps, of "(u, r)"] that set_ps by simp
  then show "\<exists>t. r_released x = Some t \<and> (\<forall>r \<in> set rs. \<forall>u. r_released r = Some u \<longrightarrow> u \<le> t)"
    using \<open>(t, x) \<in> set ?ps\<close> set_ps by auto
qed

lemma find_in: "List.find P xs = Some x \<Longrightarrow> x \<in> set xs \<and> P x"
  by (induction xs) (auto split: if_splits)

lemma first_below_in: "first_below t ps = Some r \<Longrightarrow> \<exists>k. (k, r) \<in> set ps"
  by (auto simp: first_below_def dest!: find_in)

lemma prior_in_cycle:
  assumes "prior_release_in_cycle env p version rs = Inr (Some x)"
  shows "x \<in> set (same_cycle_candidates env p version rs)"
proof -
  let ?same = "same_cycle_candidates env p version rs"
  have ne: "?same \<noteq> []" using assms by (auto simp: prior_release_in_cycle_def Let_def split: if_splits)
  show ?thesis
  proof (cases "cp_version_method p")
    case SIMPLE
    then show ?thesis using assms ne latest_by_released_in(1)
      by (auto simp: prior_release_in_cycle_def Let_def)
  next
    case SEMVER
    then show ?thesis using assms ne first_below_in ranked_semver_pairs [of env ?same]
      by (fastforce simp: prior_release_in_cycle_def prior_release_semver_def Let_def split: option.splits)
  next
    case CALVER
    then have "prior_release_calver p version ?same = Inr (Some x)"
      using assms ne by (simp add: prior_release_in_cycle_def Let_def)
    then show ?thesis
      using latest_by_released_in(1) [of ?same x] ranked_calver_pairs [of _ ?same]
      by (auto simp: prior_release_calver_def split: option.splits dest!: first_below_in)
  qed
qed

lemma prior_semver:
  assumes "prior_release_in_cycle env p version rs = Inr x" and "cp_version_method p = SEMVER"
    and "semver_parse env version = Some t"
  shows "greatest_below (\<lambda>r. semver_parse env (r_version r)) t (same_cycle_candidates env p version rs) x"
proof (cases "same_cycle_candidates env p version rs = []")
  case True
  then show ?thesis using assms by (simp add: prior_release_in_cycle_def Let_def greatest_below_def)
next
  case False
  then have "x = first_below t (ranked_semver env (same_cycle_candidates env p version rs))"
    using assms by (simp add: prior_release_in_cycle_def Let_def prior_release_semver_def)
  then show ?thesis using first_below_greatest [OF ranked_semver_sorted ranked_semver_pairs] by simp
qed

lemma prior_calver:
  assumes "prior_release_in_cycle env p version rs = Inr x" and "cp_version_method p = CALVER"
    and "format_of p = Some fmt" and "calver_rank fmt version = Some t"
  shows "greatest_below (\<lambda>r. calver_rank fmt (r_version r)) t (same_cycle_candidates env p version rs) x"
proof (cases "same_cycle_candidates env p version rs = []")
  case True
  then show ?thesis using assms by (simp add: prior_release_in_cycle_def Let_def greatest_below_def)
next
  case False
  have "order_key fmt version = Inr (Some t)" using assms(4) by (auto simp: calver_rank_def split: sum.splits)
  then obtain ps where ps: "ranked_calver fmt (same_cycle_candidates env p version rs) = Inr ps"
      "x = first_below t ps"
    using assms(1-3) False by (auto simp: prior_release_in_cycle_def Let_def prior_release_calver_def)
  show ?thesis unfolding ps(2)
    by (rule first_below_greatest [OF ranked_calver_sorted [OF ps(1)] ranked_calver_pairs [OF ps(1)]])
qed

text \<open>
  C34: the prior release that an announcement archives is one of the candidates, in the cycle of the new
  version; by semantic or calendar versioning it is the greatest version below the new one, so it is
  never the new version or a later one, and there is none exactly when no candidate of the cycle is
  below it.
\<close>

theorem prior_release_is_the_next_below:
  assumes "prior_release_in_cycle env p version rs = Inr x"
  shows "(\<forall>r. x = Some r \<longrightarrow> r \<in> set rs \<and>
           (\<exists>c. cycle_name_for_version env p version = Inr c \<and> cycle_name_for_version env p (r_version r) = Inr c)) \<and>
    (\<forall>t. cp_version_method p = SEMVER \<and> semver_parse env version = Some t \<longrightarrow>
       greatest_below (\<lambda>r. semver_parse env (r_version r)) t (same_cycle_candidates env p version rs) x) \<and>
    (\<forall>fmt t. cp_version_method p = CALVER \<and> format_of p = Some fmt \<and> calver_rank fmt version = Some t \<longrightarrow>
       greatest_below (\<lambda>r. calver_rank fmt (r_version r)) t (same_cycle_candidates env p version rs) x)"
proof (intro conjI allI impI)
  fix r assume "x = Some r"
  then have r: "r \<in> set (same_cycle_candidates env p version rs)" using prior_in_cycle assms by blast
  then show "r \<in> set rs"
    and "\<exists>c. cycle_name_for_version env p version = Inr c \<and> cycle_name_for_version env p (r_version r) = Inr c"
    unfolding same_cycle_set by blast+
next
  fix t assume "cp_version_method p = SEMVER \<and> semver_parse env version = Some t"
  then show "greatest_below (\<lambda>r. semver_parse env (r_version r)) t (same_cycle_candidates env p version rs) x"
    using prior_semver [OF assms] by blast
next
  fix fmt t assume "cp_version_method p = CALVER \<and> format_of p = Some fmt \<and> calver_rank fmt version = Some t"
  then show "greatest_below (\<lambda>r. calver_rank fmt (r_version r)) t (same_cycle_candidates env p version rs) x"
    using prior_calver [OF assms] by blast
qed

text \<open>The choice of the code satisfies what the invariant of the announcement asks of it.\<close>

definition chosen_prior :: "('v::linorder) cycle_env \<Rightarrow> (project \<Rightarrow> cycle_project) \<Rightarrow> project \<Rightarrow> string \<Rightarrow> release list \<Rightarrow> release option" where
  "chosen_prior env columns p version rs =
     (case prior_release_in_cycle env (columns p) version rs of Inr x \<Rightarrow> x | Inl _ \<Rightarrow> None)"

lemma chosen_prior_picks: "picks_candidate (an \<lparr> an_prior := chosen_prior env columns \<rparr>)"
  by (auto simp: picks_candidate_def chosen_prior_def same_cycle_set split: sum.splits dest!: prior_in_cycle)

subsection \<open>The latest release\<close>

definition outranks :: "('v::linorder) cycle_env \<Rightarrow> cycle_project \<Rightarrow> release \<Rightarrow> release \<Rightarrow> bool" where
  "outranks env p x r \<longleftrightarrow>
     (cp_version_method p = SEMVER \<and>
        (\<exists>a b. semver_parse env (r_version x) = Some a \<and> semver_parse env (r_version r) = Some b \<and> b \<le> a)) \<or>
     (\<exists>fmt a b. cp_version_method p = CALVER \<and> format_of p = Some fmt \<and>
        calver_rank fmt (r_version x) = Some a \<and> calver_rank fmt (r_version r) = Some b \<and> b \<le> a) \<or>
     (\<exists>t u. r_released x = Some t \<and> r_released r = Some u \<and> u \<le> t)"

lemma latest_by_date:
  assumes "latest_by_released_date (r_version r) rs = Some x" and "r \<in> set rs" and "distinct (map r_version rs)"
  shows "x \<in> set rs" and "\<exists>t u. r_released x = Some t \<and> r_released r = Some u \<and> u \<le> t"
proof -
  obtain y where y: "List.find (\<lambda>x. r_version x = r_version r) rs = Some y" "r_released y \<noteq> None"
      "latest_release_by_released rs = Some x"
    using assms(1) by (auto simp: latest_by_released_date_def split: option.splits if_splits)
  then have "y = r" using assms(2,3) by (auto dest!: find_in dest: distinct_map_eq)
  then obtain u where u: "r_released r = Some u" using y(2) by auto
  show "x \<in> set rs" using latest_by_released_in(1) [OF y(3)] .
  show "\<exists>t u. r_released x = Some t \<and> r_released r = Some u \<and> u \<le> t"
    using latest_by_released_in(2) [OF y(3)] assms(2) u by blast
qed

lemma pick_latest_cases:
  assumes "pick_latest version same ranked ok = Some x"
  obtains "latest_by_released_date version same = Some x"
  | k rest where "ranked = (k, x) # rest" and ok
  using assms by (auto simp: pick_latest_def split: list.splits if_splits)

lemma ranked_head:
  assumes "sorted_wrt (\<lambda>a b. fst b \<le> fst a) ((k :: 'k::linorder, x) # rest)"
    and "set ((k, x) # rest) = {(k, r). r \<in> set rs \<and> key r = Some k}" and "r \<in> set rs" and "key r = Some j"
  shows "x \<in> set rs" and "key x = Some k" and "j \<le> k"
proof -
  have "(k, x) \<in> set ((k, x) # rest)" by simp
  then show "x \<in> set rs" "key x = Some k" unfolding assms(2) by simp_all
  have "(j, r) \<in> set ((k, x) # rest)" unfolding assms(2) using assms(3,4) by simp
  then show "j \<le> k" using assms(1) by auto
qed

lemma latest_outranks:
  assumes "latest_release_in_cycle env p (r_version r) rs = Inr (Some x)"
    and r: "r \<in> set (same_cycle_candidates env p (r_version r) rs)"
    and "distinct (map r_version rs)"
  shows "x \<in> set (same_cycle_candidates env p (r_version r) rs) \<and> outranks env p x r"
proof -
  let ?same = "same_cycle_candidates env p (r_version r) rs"
  have ne: "?same \<noteq> []" using r by auto
  have "distinct (map r_version ?same)"
    using assms(3) by (auto simp: same_cycle_candidates_def distinct_map_filter_key split: sum.splits)
  then have date: "x \<in> set ?same \<and> outranks env p x r" if "latest_by_released_date (r_version r) ?same = Some x"
    using latest_by_date [OF that r] by (auto simp: outranks_def)
  show ?thesis
  proof (cases "cp_version_method p")
    case SIMPLE
    then show ?thesis using assms(1) ne date by (simp add: latest_release_in_cycle_def Let_def)
  next
    case SEMVER
    then have "pick_latest (r_version r) ?same (ranked_semver env ?same) (semver_parse env (r_version r) \<noteq> None) = Some x"
      using assms(1) ne by (simp add: latest_release_in_cycle_def Let_def)
    then show ?thesis
    proof (cases rule: pick_latest_cases)
      case 1
      then show ?thesis by (rule date)
    next
      case (2 k rest)
      then obtain j where j: "semver_parse env (r_version r) = Some j" by auto
      show ?thesis
        using ranked_head [OF ranked_semver_sorted [of env ?same, unfolded 2(1)]
            ranked_semver_pairs [of env ?same, unfolded 2(1)] r j] SEMVER j
        by (auto simp: outranks_def)
    qed
  next
    case CALVER
    show ?thesis
    proof (cases "format_of p")
      case None
      then show ?thesis using CALVER assms(1) ne date by (simp add: latest_release_in_cycle_def Let_def)
    next
      case (Some fmt)
      then obtain ps t where ps: "ranked_calver fmt ?same = Inr ps" "order_key fmt (r_version r) = Inr t"
          "pick_latest (r_version r) ?same ps (t \<noteq> None) = Some x"
        using CALVER assms(1) ne by (auto simp: latest_release_in_cycle_def Let_def)
      from ps(3) show ?thesis
      proof (cases rule: pick_latest_cases)
        case 1
        then show ?thesis by (rule date)
      next
        case (2 k rest)
        then obtain j where j: "calver_rank fmt (r_version r) = Some j" using ps(2) by (auto simp: calver_rank_def)
        show ?thesis
          using ranked_head [OF ranked_calver_sorted [OF ps(1), unfolded 2(1)]
              ranked_calver_pairs [OF ps(1), unfolded 2(1)] r j] CALVER Some j
          unfolding outranks_def by blast
      qed
    qed
  qed
qed

text \<open>
  an announced release that is not archived is reported as superseded only if another such release
  of its cycle outranks it: both versions are ordered by the project's scheme, or both are dated, and
  the other one is at least as high.
\<close>

theorem superseded_only_by_a_higher_release:
  assumes "is_latest_in_cycle env p r rs = Inr False" and "r \<in> set rs"
    and "r_phase r = RELEASE" and "\<not> r_is_archived r" and "distinct (map r_version rs)"
  shows "\<exists>x \<in> set rs. r_key x \<noteq> r_key r \<and> r_phase x = RELEASE \<and> \<not> r_is_archived x \<and>
    cycle_name_for_version env p (r_version x) = cycle_name_for_version env p (r_version r) \<and> outranks env p x r"
proof -
  let ?active = "filter (\<lambda>x. r_phase x = RELEASE \<and> \<not> r_is_archived x) rs"
  obtain x where x: "latest_release_in_cycle env p (r_version r) ?active = Inr (Some x)" "r_key x \<noteq> r_key r"
    using assms(1) by (auto simp: is_latest_in_cycle_def Let_def split: option.splits)
  have "same_cycle_candidates env p (r_version r) ?active \<noteq> []"
    using x(1) by (auto simp: latest_release_in_cycle_def Let_def split: if_splits)
  then obtain c where "cycle_name_for_version env p (r_version r) = Inr c"
    by (auto simp: same_cycle_candidates_def split: sum.splits)
  then have "r \<in> set (same_cycle_candidates env p (r_version r) ?active)"
    using assms(2-4) by (simp add: same_cycle_set)
  moreover have "distinct (map r_version ?active)" using assms(5) by (rule distinct_map_filter_key)
  ultimately have "x \<in> set (same_cycle_candidates env p (r_version r) ?active)" "outranks env p x r"
    using latest_outranks [OF x(1)] by blast+
  then show ?thesis using x(2) by (auto simp: same_cycle_set)
qed

subsection \<open>A calendar project\<close>

definition plain_cycle_env :: "nat cycle_env" where
  "plain_cycle_env =
     \<lparr> ce_compile = (\<lambda>_. None),
       ce_semver = (\<lambda>s. if s \<noteq> [] \<and> list_all is_digit s then Some (int_digits s) else None) \<rparr>"

definition calendar_project :: cycle_project where
  "calendar_project =
     \<lparr> cp_key = ''alpha'', cp_cycle_match = None, cp_version_method = CALVER, cp_calver_format = Some ''YYYY.MM'' \<rparr>"

definition dated :: "string \<Rightarrow> release" where
  "dated v = new_release 0 ''alpha'' v ''alpha-default'' RELEASE \<lparr> r_key := release_key ''alpha'' v \<rparr>"

definition dated_releases :: "release list" where
  "dated_releases = [dated ''2024.03'', dated ''2023.11'', dated ''2024.07'']"

lemma prior_release_is_the_next_below_witness:
  "prior_release_in_cycle plain_cycle_env calendar_project ''2024.05'' dated_releases = Inr (Some (dated ''2024.03'')) \<and>
   greatest_below (\<lambda>r. calver_rank ''YYYY.MM'' (r_version r)) (2024, 5, 0, 0)
     (same_cycle_candidates plain_cycle_env calendar_project ''2024.05'' dated_releases) (Some (dated ''2024.03''))"
proof -
  have run: "prior_release_in_cycle plain_cycle_env calendar_project ''2024.05'' dated_releases = Inr (Some (dated ''2024.03''))"
    by code_simp
  have "cp_version_method calendar_project = CALVER \<and> format_of calendar_project = Some ''YYYY.MM'' \<and>
      calver_rank ''YYYY.MM'' ''2024.05'' = Some (2024, 5, 0, 0)"
    by code_simp
  then show ?thesis using prior_release_is_the_next_below [OF run] run by blast
qed

lemma superseded_only_by_a_higher_release_witness:
  "\<exists>x \<in> set dated_releases. r_key x \<noteq> r_key (dated ''2024.03'') \<and> r_phase x = RELEASE \<and> \<not> r_is_archived x \<and>
     cycle_name_for_version plain_cycle_env calendar_project (r_version x) =
       cycle_name_for_version plain_cycle_env calendar_project (r_version (dated ''2024.03'')) \<and>
     outranks plain_cycle_env calendar_project x (dated ''2024.03'')"
  by (rule superseded_only_by_a_higher_release) code_simp+

section \<open>What reassignment does\<close>

definition wanted_key :: "'v cycle_env \<Rightarrow> cycle_project \<Rightarrow> release \<Rightarrow> string" where
  "wanted_key env p r = cp_key p @ ''-'' @ reassigned_cycle env p r"

lemma reassign_one_releases:
  "db_releases (reassign_one env p r d) =
     (if r_cycle_key r = wanted_key env p r then db_releases d
      else upd (\<lambda>x. r_key x = r_key r) (\<lambda>x. x \<lparr> r_cycle_key := wanted_key env p r \<rparr>) (db_releases d))"
  by (simp add: reassign_one_def wanted_key_def Let_def)

lemma reassign_one_cycles:
  "set (map cy_cycle_key (db_cycles (reassign_one env p r d))) =
     (if r_cycle_key r = wanted_key env p r then {} else {wanted_key env p r}) \<union> set (map cy_cycle_key (db_cycles d))"
  by (auto simp: reassign_one_def wanted_key_def Let_def list_ex_iff image_iff) metis

lemma reassign_one_distinct_cycles:
  "distinct (map cy_cycle_key (db_cycles d)) \<Longrightarrow> distinct (map cy_cycle_key (db_cycles (reassign_one env p r d)))"
  by (auto simp: reassign_one_def Let_def list_ex_iff)

lemma fold_reassign_releases:
  assumes "distinct (map r_key rs)"
  shows "db_releases (fold (reassign_one env p) rs d) =
     map (\<lambda>x. case find (\<lambda>r. r_key r = r_key x) rs of
                None \<Rightarrow> x
              | Some r \<Rightarrow> if r_cycle_key r = wanted_key env p r then x
                          else x \<lparr> r_cycle_key := wanted_key env p r \<rparr>) (db_releases d)"
  using assms
proof (induction rs arbitrary: d)
  case Nil
  show ?case by simp
next
  case (Cons r rs)
  have none: "find (\<lambda>r'. r_key r' = r_key r) rs = None"
    using Cons.prems by (simp add: find_None_iff image_iff) metis
  have "fold (reassign_one env p) (r # rs) d = fold (reassign_one env p) rs (reassign_one env p r d)" by simp
  then show ?case using Cons none
    by (auto simp: reassign_one_releases upd_def comp_def split: option.splits)
qed

lemma fold_reassign_cycles:
  "set (map cy_cycle_key (db_cycles (fold (reassign_one env p) rs d))) =
     {wanted_key env p r | r. r \<in> set rs \<and> r_cycle_key r \<noteq> wanted_key env p r} \<union> set (map cy_cycle_key (db_cycles d))"
  by (induction rs arbitrary: d) (auto simp: reassign_one_cycles simp del: set_map)

lemma fold_reassign_distinct:
  "distinct (map cy_cycle_key (db_cycles d)) \<Longrightarrow>
   distinct (map cy_cycle_key (db_cycles (fold (reassign_one env p) rs d)))"
  by (induction rs arbitrary: d) (auto simp: reassign_one_distinct_cycles)

text \<open>
  C35: after a project's cycles were reassigned, each of its releases is in the cycle of its version, or
  in the default cycle when the version has none, every other release is as it was, every release is
  in a cycle that exists, and no cycle was created twice or removed.
\<close>

theorem reassignment_places_every_release:
  assumes keys: "distinct (map r_key (db_releases d))" and cycles: "distinct (map cy_cycle_key (db_cycles d))"
    and placed: "\<forall>r \<in> set (db_releases d). r_cycle_key r \<in> set (map cy_cycle_key (db_cycles d))"
  shows "db_releases (reassign_release_cycles env p d) =
      map (\<lambda>r. if r_project_key r = cp_key p then r \<lparr> r_cycle_key := cp_key p @ ''-'' @ reassigned_cycle env p r \<rparr> else r)
        (db_releases d) \<and>
    (\<forall>r \<in> set (db_releases (reassign_release_cycles env p d)).
       r_cycle_key r \<in> set (map cy_cycle_key (db_cycles (reassign_release_cycles env p d)))) \<and>
    distinct (map cy_cycle_key (db_cycles (reassign_release_cycles env p d))) \<and>
    set (map cy_cycle_key (db_cycles d)) \<subseteq> set (map cy_cycle_key (db_cycles (reassign_release_cycles env p d)))"
proof -
  let ?rs = "sel (\<lambda>r. r_project_key r = cp_key p) (db_releases d)"
  have dist: "distinct (map r_key ?rs)" using keys by (simp add: sel_def distinct_map_filter_key)
  have find: "find (\<lambda>r'. r_key r' = r_key r) ?rs = (if r_project_key r = cp_key p then Some r else None)"
    if "r \<in> set (db_releases d)" for r
  proof (cases "find (\<lambda>r'. r_key r' = r_key r) ?rs")
    case None
    then show ?thesis using that by (auto simp: find_None_iff sel_set)
  next
    case (Some r')
    then have "r' \<in> set ?rs" "r_key r' = r_key r" using find_in [OF Some] by auto
    then have "r' = r" "r_project_key r = cp_key p" using distinct_map_eq [OF keys _ that] by (auto simp: sel_set)
    then show ?thesis using Some by simp
  qed
  have releases: "db_releases (reassign_release_cycles env p d) =
      map (\<lambda>r. if r_project_key r = cp_key p then r \<lparr> r_cycle_key := wanted_key env p r \<rparr> else r) (db_releases d)"
    unfolding reassign_release_cycles_def fold_reassign_releases [OF dist]
    by (intro map_cong refl) (simp add: find)
  have cyc: "set (map cy_cycle_key (db_cycles (reassign_release_cycles env p d))) =
      {wanted_key env p r | r. r \<in> set ?rs \<and> r_cycle_key r \<noteq> wanted_key env p r} \<union> set (map cy_cycle_key (db_cycles d))"
    unfolding reassign_release_cycles_def by (rule fold_reassign_cycles)
  have "r_cycle_key r \<in> set (map cy_cycle_key (db_cycles (reassign_release_cycles env p d)))"
    if stored: "r \<in> set (db_releases (reassign_release_cycles env p d))" for r
  proof -
    obtain r0 :: release where r0: "r0 \<in> set (db_releases d)"
      "r = (if r_project_key r0 = cp_key p then r0 \<lparr> r_cycle_key := wanted_key env p r0 \<rparr> else r0)"
      using stored unfolding releases set_map by blast
    have old: "r_cycle_key r0 \<in> set (map cy_cycle_key (db_cycles d))" using placed r0(1) by blast
    show ?thesis
    proof (cases "r_project_key r0 = cp_key p \<and> r_cycle_key r0 \<noteq> wanted_key env p r0")
      case True
      then have "r_cycle_key r = wanted_key env p r0" "r0 \<in> set ?rs" using r0 by (simp_all add: sel_set)
      then show ?thesis using True unfolding cyc by blast
    next
      case False
      then have "r_cycle_key r = r_cycle_key r0" using r0(2) by auto
      then show ?thesis using old unfolding cyc by simp
    qed
  qed
  moreover have "distinct (map cy_cycle_key (db_cycles (reassign_release_cycles env p d)))"
    unfolding reassign_release_cycles_def by (rule fold_reassign_distinct [OF cycles])
  ultimately show ?thesis using releases cyc unfolding wanted_key_def by blast
qed

definition calendar_db :: db where
  "calendar_db =
     \<lparr> db_committees = [], db_projects = [],
       db_cycles = [\<lparr> cy_cycle_key = ''alpha-1'', cy_cycle = ''1'', cy_project_key = ''alpha'', cy_lts = False \<rparr>],
       db_releases = [dated ''2024.03'' \<lparr> r_cycle_key := ''alpha-1'' \<rparr>], db_revisions = [], db_ballots = [],
       db_tasks = [], db_events = [], db_quarantined = [], db_artifacts = [],
       db_revision_counter = (\<lambda>_. None), db_vote_counter = (\<lambda>_. None) \<rparr>"

lemma reassignment_places_every_release_witness:
  "map r_cycle_key (db_releases (reassign_release_cycles plain_cycle_env calendar_project calendar_db)) = [''alpha-default''] \<and>
   ''alpha-default'' \<in> set (map cy_cycle_key (db_cycles (reassign_release_cycles plain_cycle_env calendar_project calendar_db)))"
proof -
  have "distinct (map r_key (db_releases calendar_db))" "distinct (map cy_cycle_key (db_cycles calendar_db))"
    "\<forall>r \<in> set (db_releases calendar_db). r_cycle_key r \<in> set (map cy_cycle_key (db_cycles calendar_db))"
    by code_simp+
  from reassignment_places_every_release [OF this, of plain_cycle_env calendar_project]
  have eq: "db_releases (reassign_release_cycles plain_cycle_env calendar_project calendar_db) =
      map (\<lambda>r. if r_project_key r = cp_key calendar_project
               then r \<lparr> r_cycle_key := cp_key calendar_project @ ''-'' @ reassigned_cycle plain_cycle_env calendar_project r \<rparr> else r)
        (db_releases calendar_db)"
    and stored: "\<forall>r \<in> set (db_releases (reassign_release_cycles plain_cycle_env calendar_project calendar_db)).
       r_cycle_key r \<in> set (map cy_cycle_key (db_cycles (reassign_release_cycles plain_cycle_env calendar_project calendar_db)))"
    by blast+
  have keys: "map r_cycle_key (db_releases (reassign_release_cycles plain_cycle_env calendar_project calendar_db)) = [''alpha-default'']"
    unfolding eq by code_simp
  then have "\<exists>r \<in> set (db_releases (reassign_release_cycles plain_cycle_env calendar_project calendar_db)).
      r_cycle_key r = ''alpha-default''"
    by (auto simp: map_eq_Cons_conv)
  then show ?thesis using keys stored by metis
qed

section \<open>The order of display\<close>

lemma default_last:
  "sorted_wrt (\<lambda>a b. cycle_order_key b \<le> cycle_order_key a) cs \<Longrightarrow>
   \<exists>named rest. cs = named @ rest \<and>
      (\<forall>c \<in> set named. cy_cycle c \<noteq> DEFAULT_CYCLE) \<and> (\<forall>c \<in> set rest. cy_cycle c = DEFAULT_CYCLE)"
proof (induction cs)
  case Nil
  show ?case by simp
next
  case (Cons c cs)
  show ?case
  proof (cases "cy_cycle c = DEFAULT_CYCLE")
    case True
    then have "\<forall>x \<in> set (c # cs). cy_cycle x = DEFAULT_CYCLE"
      using Cons.prems by (auto simp: cycle_order_key_def)
    then have "c # cs = [] @ (c # cs) \<and> (\<forall>x \<in> set []. cy_cycle x \<noteq> DEFAULT_CYCLE) \<and>
        (\<forall>x \<in> set (c # cs). cy_cycle x = DEFAULT_CYCLE)" by simp
    then show ?thesis by blast
  next
    case False
    obtain named rest where parts: "cs = named @ rest" "\<forall>x \<in> set named. cy_cycle x \<noteq> DEFAULT_CYCLE"
        "\<forall>x \<in> set rest. cy_cycle x = DEFAULT_CYCLE"
      using Cons by auto
    then have "c # cs = (c # named) @ rest \<and> (\<forall>x \<in> set (c # named). cy_cycle x \<noteq> DEFAULT_CYCLE) \<and>
        (\<forall>x \<in> set rest. cy_cycle x = DEFAULT_CYCLE)" using False by simp
    then show ?thesis by blast
  qed
qed

text \<open>
  cycles are shown newest first: the list is a rearrangement of the project's cycles in descending
  order of their names read part by part, numbers by value and ahead of words, and the default cycle is
  last.
\<close>

theorem cycles_are_shown_newest_first:
  "mset (newest_first cs) = mset cs \<and>
   sorted_wrt (\<lambda>a b. cycle_order_key b \<le> cycle_order_key a) (newest_first cs) \<and>
   (\<exists>named rest. newest_first cs = named @ rest \<and>
      (\<forall>c \<in> set named. cy_cycle c \<noteq> DEFAULT_CYCLE) \<and> (\<forall>c \<in> set rest. cy_cycle c = DEFAULT_CYCLE))"
  using default_last [OF sort_desc_sorted [of cycle_order_key cs]] sort_desc_sorted [of cycle_order_key cs]
  by (simp add: newest_first_def)

definition named_cycle :: "string \<Rightarrow> project_cycle" where
  "named_cycle n = \<lparr> cy_cycle_key = ''alpha-'' @ n, cy_cycle = n, cy_project_key = ''alpha'', cy_lts = False \<rparr>"

lemma cycles_are_shown_newest_first_witness:
  "map cy_cycle (newest_first (map named_cycle [''1.9'', ''default'', ''1.10''])) = [''1.10'', ''1.9'', ''default''] \<and>
   sorted_wrt (\<lambda>a b. cycle_order_key b \<le> cycle_order_key a) (newest_first (map named_cycle [''1.9'', ''default'', ''1.10'']))"
proof
  show "map cy_cycle (newest_first (map named_cycle [''1.9'', ''default'', ''1.10''])) = [''1.10'', ''1.9'', ''default'']"
    by code_simp
  show "sorted_wrt (\<lambda>a b. cycle_order_key b \<le> cycle_order_key a) (newest_first (map named_cycle [''1.9'', ''default'', ''1.10'']))"
    using cycles_are_shown_newest_first [of "map named_cycle [''1.9'', ''default'', ''1.10'']"] by blast
qed

end
