(* ===== verification/TaskQueue.thy ===== *)
theory TaskQueue
  imports Store
begin

text \<open>
  The task queue: src/atr/worker.py (claiming, deferring, completing and processing a task),
  src/atr/tasks/task.py (kinds of tasks and the recording of failures) and the part of
  src/atr/manager.py that requeues or ends the tasks of workers that died or ran too long.

  A task row extends the row of Sql.thy by the columns only the workers use.  Each operation is one
  database transaction.  Times are seconds, except the creation time of a process, in hundredths.
\<close>

section \<open>Kinds of tasks\<close>

fun task_value :: "TaskType \<Rightarrow> string" where
  "task_value CATALOG_SITE_GENERATE = ''catalog_site_generate''"
| "task_value MESSAGE_SEND = ''message_send''"
| "task_value QUARANTINE_VALIDATE = ''quarantine_validate''"
| "task_value RELEASE_FINALISE = ''release_finalise''"
| "task_value SVN_PUBLISH = ''svn_publish''"
| "task_value SVN_UNPUBLISH = ''svn_unpublish''"
| "task_value VOTE_AUTO_RESOLVE = ''vote_auto_resolve''"
| "task_value VOTE_END_NOTIFY = ''vote_end_notify''"
| "task_value VOTE_INITIATE = ''vote_initiate''"
| "task_value (TT_OTHER s) = s"

definition TASK_LABELS :: "(string \<times> string) list" where
  "TASK_LABELS =
     [(''archive_comparison'', ''Archive comparison''),
      (''audit_seal'', ''Audit log sealing''),
      (''cap_approval_resolve'', ''CAP approval resolution''),
      (''catalog_site_generate'', ''Catalog site generation''),
      (''compare_source_trees'', ''Compare source trees''),
      (''distribution_status'', ''Distribution status''),
      (''distribution_workflow'', ''Distribution workflow''),
      (''downloads_check'', ''Download availability''),
      (''gate_decision'', ''Gate decision''),
      (''has_sbom'', ''SBOM check''),
      (''hashing_check'', ''Hashing check''),
      (''integrity_check'', ''Integrity check''),
      (''keys_import_file'', ''Key import''),
      (''license_files'', ''License files''),
      (''license_headers'', ''License headers''),
      (''maintenance'', ''Maintenance''),
      (''message_send'', ''Email send''),
      (''metadata_update'', ''Metadata update''),
      (''paths_check'', ''Paths check''),
      (''protection_check'', ''Protection check''),
      (''quarantine_validate'', ''Quarantine validation''),
      (''rat_check'', ''RAT check''),
      (''release_finalise'', ''Release finalisation''),
      (''sbom_augment'', ''SBOM augmentation''),
      (''sbom_convert'', ''SBOM conversion''),
      (''sbom_generate'', ''SBOM generation and augmentation''),
      (''sbom_generate_cyclonedx'', ''SBOM generation''),
      (''sbom_heatmap'', ''SBOM heatmap analysis''),
      (''sbom_osv_scan'', ''SBOM vulnerability scan''),
      (''sbom_qs_score'', ''SBOM QS score''),
      (''sbom_review'', ''SBOM review''),
      (''sbom_tool_score'', ''SBOM tool score''),
      (''signature_check'', ''Signature check''),
      (''svn_import_files'', ''SVN import''),
      (''svn_publish'', ''SVN publish''),
      (''svn_unpublish'', ''SVN unpublish''),
      (''sync_keys_from_svn'', ''Sync keys from SVN''),
      (''targz_integrity'', ''Targz integrity''),
      (''targz_structure'', ''Targz structure''),
      (''vote_auto_resolve'', ''Vote auto-resolution''),
      (''vote_end_notify'', ''Vote end notification''),
      (''vote_initiate'', ''Vote initiation''),
      (''workflow_status'', ''Workflow status''),
      (''zipformat_integrity'', ''Zipformat integrity''),
      (''zipformat_structure'', ''Zipformat structure'')]"

definition is_task_type :: "TaskType \<Rightarrow> bool" where
  "is_task_type t = (map_of TASK_LABELS (task_value t) \<noteq> None)"

definition task_label :: "TaskType \<Rightarrow> string" where
  "task_label t = (case map_of TASK_LABELS (task_value t) of Some l \<Rightarrow> l | None \<Rightarrow> task_value t)"

definition SBOM_HEATMAP :: TaskType where
  "SBOM_HEATMAP = TT_OTHER ''sbom_heatmap''"

definition CHECK_TASK_TYPES :: "TaskType list" where
  "CHECK_TASK_TYPES =
     [TT_OTHER ''archive_comparison'',
      TT_OTHER ''compare_source_trees'',
      TT_OTHER ''has_sbom'',
      TT_OTHER ''hashing_check'',
      TT_OTHER ''license_files'',
      TT_OTHER ''license_headers'',
      TT_OTHER ''paths_check'',
      TT_OTHER ''protection_check'',
      TT_OTHER ''rat_check'',
      TT_OTHER ''sbom_review'',
      TT_OTHER ''signature_check'',
      TT_OTHER ''targz_structure'',
      TT_OTHER ''zipformat_structure'']"

definition RECURRING_TASK_TYPES :: "TaskType list" where
  "RECURRING_TASK_TYPES =
     [TT_OTHER ''audit_seal'',
      CATALOG_SITE_GENERATE,
      TT_OTHER ''distribution_status'',
      TT_OTHER ''integrity_check'',
      TT_OTHER ''maintenance'',
      TT_OTHER ''metadata_update'',
      TT_OTHER ''workflow_status'']"

definition TASK_TYPE_TIMEOUT_SECONDS :: "(TaskType \<times> int) list" where
  "TASK_TYPE_TIMEOUT_SECONDS =
     [(CATALOG_SITE_GENERATE, 1800), (RELEASE_FINALISE, 600), (TT_OTHER ''sbom_heatmap'', 600), (TT_OTHER ''sbom_review'', 600)]"

section \<open>State\<close>

record queue_task = task +
  k_inputs_hash :: "string option"
  k_primary_rel_path :: "string option"
  k_scheduled :: "int option"
  k_started :: "int option"
  k_pid :: "nat option"
  k_pid_created :: "int option"

record check_exception =
  ce_release_key :: string
  ce_revision_number :: "string option"
  ce_checker :: string
  ce_primary_rel_path :: "string option"
  ce_created :: int
  ce_message :: string
  ce_data :: "string option"
  ce_inputs_hash :: "string option"

record notice =
  no_asf_uid :: string
  no_message :: string
  no_is_admin :: bool

text \<open>
  \<open>qu_next_start\<close> is the text value that holds back the next heatmap, \<open>qu_log\<close> the file in which
  completed recurring tasks are logged.
\<close>

record task_queue =
  qu_tasks :: "queue_task list"
  qu_next_start :: "int option"
  qu_checks :: "check_exception list"
  qu_notices :: "notice list"
  qu_log :: "(nat \<times> TaskType \<times> task_result option) list"

record queue_env =
  qe_now :: int
  qe_asf_distribution :: bool
  qe_checker :: "TaskType \<Rightarrow> string"
  qe_test_mode :: bool
  qe_production :: bool
  qe_ldap_configured :: bool

definition HEATMAP_START_INTERVAL :: int where
  "HEATMAP_START_INTERVAL = 300"

definition DEFER_SECONDS :: int where
  "DEFER_SECONDS = 120"

definition SYSTEM_SERVICE_UID :: string where
  "SYSTEM_SERVICE_UID = ''system''"

definition task_timeout :: "TaskType \<Rightarrow> int" where
  "task_timeout t = (case map_of TASK_TYPE_TIMEOUT_SECONDS t of Some s \<Rightarrow> s | None \<Rightarrow> 300)"

definition failed_status :: "TaskType \<Rightarrow> TaskStatus" where
  "failed_status t = (if t \<in> set CHECK_TASK_TYPES then BROKEN else FAILED)"

text \<open>A new row, with the primary key that SQLite gives it.\<close>

definition next_id :: "queue_task list \<Rightarrow> nat" where
  "next_id ts = Suc (fold max (map t_id ts) 0)"

definition enqueue_task ::
  "int \<Rightarrow> TaskType \<Rightarrow> string \<Rightarrow> string option \<Rightarrow> string option \<Rightarrow> string option \<Rightarrow> task_queue \<Rightarrow> task_queue" where
  "enqueue_task now kind uid pk v number q =
     q \<lparr> qu_tasks := qu_tasks q @
         [\<lparr> t_id = next_id (qu_tasks q), t_status = QUEUED, t_task_type = kind, t_task_args = A_OTHER, t_asf_uid = uid,
            t_added = now, t_completed = None, t_result = None, t_error = None, t_project_key = pk, t_version_key = v,
            t_revision_number = number, k_inputs_hash = None, k_primary_rel_path = None, k_scheduled = None,
            k_started = None, k_pid = None, k_pid_created = None \<rparr>] \<rparr>"

section \<open>Claiming\<close>

definition heatmap_active :: "task_queue \<Rightarrow> bool" where
  "heatmap_active q = list_ex (\<lambda>t. t_task_type t = SBOM_HEATMAP \<and> t_status t = ACTIVE) (qu_tasks q)"

definition heatmap_cooldown :: "int \<Rightarrow> task_queue \<Rightarrow> bool" where
  "heatmap_cooldown now q = (case qu_next_start q of None \<Rightarrow> False | Some n \<Rightarrow> now < n)"

definition claimable :: "int \<Rightarrow> task_queue \<Rightarrow> queue_task \<Rightarrow> bool" where
  "claimable now q t =
     (t_status t = QUEUED \<and>
      (t_task_type t \<noteq> SBOM_HEATMAP \<or> \<not> heatmap_active q \<and> \<not> heatmap_cooldown now q) \<and>
      (case k_scheduled t of None \<Rightarrow> True | Some s \<Rightarrow> s \<le> now))"

definition oldest_queued_task :: "int \<Rightarrow> task_queue \<Rightarrow> queue_task option" where
  "oldest_queued_task now q = max_by_key (\<lambda>t. - t_added t) (sel (claimable now q) (qu_tasks q))"

definition task_next_claim :: "int \<Rightarrow> nat \<Rightarrow> int \<Rightarrow> task_queue \<Rightarrow> queue_task option \<times> task_queue" where
  "task_next_claim now pid created q =
     (case oldest_queued_task now q of
        None \<Rightarrow> (None, q)
      | Some t \<Rightarrow>
          (let q1 = q \<lparr> qu_tasks := upd (\<lambda>x. t_id x = t_id t \<and> t_status x = QUEUED)
                 (\<lambda>x. x \<lparr> t_status := ACTIVE, k_started := Some now, k_pid := Some pid, k_pid_created := Some created \<rparr>)
                 (qu_tasks q) \<rparr>
           in (Some t, if t_task_type t = SBOM_HEATMAP then q1 \<lparr> qu_next_start := Some (now + HEATMAP_START_INTERVAL) \<rparr>
                       else q1)))"

section \<open>Deferring and failing\<close>

text \<open>The rows of the claimant: \<open>id == task_id, status == ACTIVE, pid == os.getpid()\<close>.\<close>

definition held :: "nat \<Rightarrow> nat \<Rightarrow> queue_task \<Rightarrow> bool" where
  "held task_id pid t = (t_id t = task_id \<and> t_status t = ACTIVE \<and> k_pid t = Some pid)"

definition task_defer ::
  "int \<Rightarrow> nat \<Rightarrow> nat \<Rightarrow> int option \<Rightarrow> task_result option \<Rightarrow> task_queue \<Rightarrow> task_queue" where
  "task_defer now pid task_id seconds checkpoint q =
     (let delay = (case seconds of None \<Rightarrow> DEFER_SECONDS | Some s \<Rightarrow> s) in
      q \<lparr> qu_tasks := upd (held task_id pid)
            (\<lambda>x. x \<lparr> t_status := QUEUED, k_started := None, k_pid := None, k_pid_created := None,
                     k_scheduled := Some (now + delay),
                     t_result := (case checkpoint of None \<Rightarrow> t_result x | Some r \<Rightarrow> Some r) \<rparr>)
            (qu_tasks q) \<rparr>)"

definition truncate_single_line :: "string option \<Rightarrow> nat \<Rightarrow> string" where
  "truncate_single_line text max_length =
     (let s = strip (case text of None \<Rightarrow> '''' | Some t \<Rightarrow> t);
          line = takeWhile (\<lambda>c. (of_char c :: nat) \<notin> {10, 11, 12, 13, 28, 29, 30}) s
      in if s = '''' then ''''
         else if max_length < length line then take (max_length - 3) line @ ''...'' else line)"

definition failure_message :: "queue_task \<Rightarrow> string \<Rightarrow> string" where
  "failure_message t error =
     (let part = (\<lambda>p x. case x of Some (c # cs) \<Rightarrow> [p @ c # cs] | _ \<Rightarrow> []);
          location = part '''' (t_project_key t) @ part '''' (t_version_key t) @ part ''r'' (t_revision_number t);
          path_text = truncate_single_line (k_primary_rel_path t) 180;
          parts = [task_label (t_task_type t) @ '' failed''] @
                  (if location \<noteq> [] then [''for '' @ join '' '' location] else []) @
                  (if path_text \<noteq> '''' then [''('' @ path_text @ '')''] else [])
      in join '' '' parts @ '': '' @ truncate_single_line (Some error) 500)"

text \<open>\<open>notification_insert\<close>: a second notification of the same text only updates \<open>is_admin\<close>.\<close>

definition notification_insert :: "string \<Rightarrow> string \<Rightarrow> bool \<Rightarrow> notice list \<Rightarrow> notice list" where
  "notification_insert uid message is_admin ns =
     (if list_ex (\<lambda>n. no_asf_uid n = uid \<and> no_message n = message) ns
      then upd (\<lambda>n. no_asf_uid n = uid \<and> no_message n = message) (\<lambda>n. n \<lparr> no_is_admin := is_admin \<rparr>) ns
      else ns @ [\<lparr> no_asf_uid = uid, no_message = message, no_is_admin = is_admin \<rparr>])"

definition checker_name :: "queue_env \<Rightarrow> TaskType \<Rightarrow> string option" where
  "checker_name env kind =
     (if is_task_type kind \<and> kind \<in> set CHECK_TASK_TYPES then Some (qe_checker env kind) else None)"

definition record_failure :: "queue_env \<Rightarrow> queue_task \<Rightarrow> string \<Rightarrow> string option \<Rightarrow> task_queue \<Rightarrow> task_queue" where
  "record_failure env t error error_data q =
     (case checker_name env (t_task_type t) of
        Some checker \<Rightarrow>
          (case (t_project_key t, t_version_key t) of
             (Some (p # pk), Some (v # vk)) \<Rightarrow>
               q \<lparr> qu_checks := qu_checks q @
                   [\<lparr> ce_release_key = release_key (p # pk) (v # vk), ce_revision_number = t_revision_number t,
                      ce_checker = checker, ce_primary_rel_path = k_primary_rel_path t, ce_created = qe_now env,
                      ce_message = error, ce_data = error_data, ce_inputs_hash = k_inputs_hash t \<rparr>] \<rparr>
           | _ \<Rightarrow> q)
      | None \<Rightarrow>
          if t_asf_uid t \<noteq> '''' \<and> t_asf_uid t \<noteq> SYSTEM_SERVICE_UID
          then q \<lparr> qu_notices := notification_insert (t_asf_uid t) (failure_message t error) False (qu_notices q) \<rparr>
          else q)"

definition finalise_failure ::
  "queue_env \<Rightarrow> nat \<Rightarrow> nat \<Rightarrow> string \<Rightarrow> TaskStatus \<Rightarrow> string option \<Rightarrow> task_queue \<Rightarrow> bool \<times> task_queue" where
  "finalise_failure env task_id pid error status error_data q =
     (let err = (if strip error = '''' then ''unknown error'' else strip error) in
      case sel_one (held task_id pid) (qu_tasks q) of
        None \<Rightarrow> (False, q)
      | Some t \<Rightarrow>
          (True, record_failure env t err error_data
             (q \<lparr> qu_tasks := upd (held task_id pid)
                    (\<lambda>x. x \<lparr> t_status := status, t_completed := Some (qe_now env), t_error := Some err, t_result := None \<rparr>)
                    (qu_tasks q) \<rparr>)))"

section \<open>Completing\<close>

text \<open>
  \<open>heatmap.complete\<close> and \<open>downloads.queue\<close>: the arguments of these tasks name the same project, version
  and revision as the columns of their rows.
\<close>

definition queue_catalog_regeneration :: "int \<Rightarrow> string \<Rightarrow> string option \<Rightarrow> task_queue \<Rightarrow> task_queue" where
  "queue_catalog_regeneration now uid pk q =
     (if list_ex (\<lambda>t. t_status t = QUEUED \<and> t_task_type t = CATALOG_SITE_GENERATE \<and> t_project_key t = pk) (qu_tasks q)
      then q else enqueue_task now CATALOG_SITE_GENERATE uid pk None None q)"

definition heatmap_complete :: "int \<Rightarrow> queue_task \<Rightarrow> task_queue \<Rightarrow> task_queue" where
  "heatmap_complete now t q =
     queue_catalog_regeneration now SYSTEM_SERVICE_UID (t_project_key t)
       (q \<lparr> qu_tasks := del (\<lambda>x. t_task_type x = SBOM_HEATMAP \<and> t_project_key x = t_project_key t \<and>
              t_version_key x = t_version_key t \<and> t_status x = COMPLETED \<and> t_id x \<noteq> t_id t) (qu_tasks q) \<rparr>)"

definition downloads_queue :: "queue_env \<Rightarrow> queue_task \<Rightarrow> task_queue \<Rightarrow> task_queue" where
  "downloads_queue env t q =
     (if \<not> qe_asf_distribution env then q
      else enqueue_task (qe_now env) (TT_OTHER ''downloads_check'') SYSTEM_SERVICE_UID (t_project_key t) (t_version_key t)
             (t_revision_number t) q)"

definition completion_effects :: "queue_env \<Rightarrow> queue_task \<Rightarrow> task_result option \<Rightarrow> task_queue \<Rightarrow> task_queue" where
  "completion_effects env t result q =
     (let q1 = (if t_task_type t = SBOM_HEATMAP then heatmap_complete (qe_now env) t q else q)
      in if t_task_type t = SVN_PUBLISH \<and> (case result of Some (RS_SVN_PUBLISH _) \<Rightarrow> True | _ \<Rightarrow> False)
         then downloads_queue env t q1 else q1)"

definition complete_task :: "queue_env \<Rightarrow> nat \<Rightarrow> nat \<Rightarrow> task_result option \<Rightarrow> task_queue \<Rightarrow> task_queue" where
  "complete_task env pid task_id result q =
     (case sel_one (held task_id pid) (qu_tasks q) of
        None \<Rightarrow> q
      | Some t \<Rightarrow>
          (let q1 = completion_effects env t result
                 (q \<lparr> qu_tasks := upd (held task_id pid)
                    (\<lambda>x. x \<lparr> t_status := COMPLETED, t_completed := Some (qe_now env), t_result := result \<rparr>) (qu_tasks q) \<rparr>)
           in if t_task_type t \<in> set RECURRING_TASK_TYPES
              then q1 \<lparr> qu_tasks := del (\<lambda>x. t_id x = task_id \<and> k_pid x = Some pid) (qu_tasks q1),
                        qu_log := qu_log q1 @ [(task_id, t_task_type t, result)] \<rparr>
              else q1))"

definition task_result_process ::
  "queue_env \<Rightarrow> nat \<Rightarrow> nat \<Rightarrow> task_result option \<Rightarrow> TaskStatus \<Rightarrow> string \<Rightarrow> string option \<Rightarrow> task_queue \<Rightarrow> task_queue" where
  "task_result_process env pid task_id result status error error_data q =
     (if status \<in> {FAILED, BROKEN} then snd (finalise_failure env task_id pid error status error_data q)
      else complete_task env pid task_id result q)"

section \<open>Processing a claimed task\<close>

text \<open>What LDAP says of the account, and how the handler of the task ended.\<close>

datatype account = Account_ok | Account_refused | Ldap_unavailable

datatype handler_outcome =
    Returned "task_result option"
  | Deferred "int option" "task_result option"
  | Retryable string "string option"
  | Raised string

definition account_checked :: "queue_env \<Rightarrow> TaskType \<Rightarrow> string \<Rightarrow> bool" where
  "account_checked env kind uid =
     (uid \<noteq> SYSTEM_SERVICE_UID \<and> kind \<noteq> RELEASE_FINALISE \<and> \<not> (qe_test_mode env \<and> uid = ''test'') \<and>
      (qe_production env \<or> qe_ldap_configured env))"

definition task_process ::
  "queue_env \<Rightarrow> nat \<Rightarrow> nat \<Rightarrow> TaskType \<Rightarrow> string \<Rightarrow> account \<Rightarrow> handler_outcome \<Rightarrow> task_queue \<Rightarrow> task_queue" where
  "task_process env pid task_id kind uid acc outcome q =
     (if \<not> is_task_type kind
      then task_result_process env pid task_id None FAILED (task_value kind @ '' is not a valid TaskType'') None q
      else if account_checked env kind uid \<and> acc = Ldap_unavailable then task_defer (qe_now env) pid task_id None None q
      else if account_checked env kind uid \<and> acc = Account_refused
      then task_result_process env pid task_id None FAILED (''Account '' @ uid @ '' is banned or does not exist'') None q
      else (case outcome of
              Returned r \<Rightarrow> task_result_process env pid task_id r COMPLETED '''' None q
            | Deferred secs cp \<Rightarrow> task_defer (qe_now env) pid task_id secs cp q
            | Retryable msg dat \<Rightarrow> task_result_process env pid task_id None BROKEN msg dat q
            | Raised msg \<Rightarrow> task_result_process env pid task_id None FAILED msg None q))"

section \<open>The manager and the claims of dead workers\<close>

definition unmanaged_claims :: "nat list \<Rightarrow> task_queue \<Rightarrow> queue_task list" where
  "unmanaged_claims workers q =
     sel (\<lambda>t. k_pid t \<noteq> None \<and> the (k_pid t) \<notin> set workers \<and> t_status t = ACTIVE) (qu_tasks q)"

definition CREATED_TOLERANCE :: int where
  "CREATED_TOLERANCE = 200"

definition claimant_alive :: "queue_task \<Rightarrow> int option \<Rightarrow> bool" where
  "claimant_alive claim observed =
     (case (k_pid_created claim, observed) of
        (Some c, Some ob) \<Rightarrow> \<bar>ob - c\<bar> \<le> CREATED_TOLERANCE
      | _ \<Rightarrow> False)"

definition requeue_claim :: "queue_task \<Rightarrow> task_queue \<Rightarrow> nat \<times> task_queue" where
  "requeue_claim claim q =
     (let P = (\<lambda>x. t_id x = t_id claim \<and> t_status x = ACTIVE \<and> k_pid x = k_pid claim \<and> k_pid_created x = k_pid_created claim)
      in (rowcount P (qu_tasks q),
          q \<lparr> qu_tasks := upd P (\<lambda>x. x \<lparr> t_status := QUEUED, k_started := None, k_pid := None, k_pid_created := None \<rparr>)
                 (qu_tasks q) \<rparr>))"

definition over_limit :: "int \<Rightarrow> queue_task \<Rightarrow> bool" where
  "over_limit now t = (case k_started t of None \<Rightarrow> False | Some s \<Rightarrow> task_timeout (t_task_type t) < now - s)"

text \<open>The second component tells whether the process group of the claimant is killed.\<close>

definition terminate_unmanaged_claim ::
  "queue_env \<Rightarrow> queue_task \<Rightarrow> int option \<Rightarrow> task_queue \<Rightarrow> bool \<times> task_queue" where
  "terminate_unmanaged_claim env claim observed q =
     (case k_pid claim of
        None \<Rightarrow> (False, q)
      | Some pid \<Rightarrow>
          if \<not> over_limit (qe_now env) claim then (False, q)
          else (case finalise_failure env (t_id claim) pid ''Task terminated after exceeding time limit''
                       (failed_status (t_task_type claim)) None q of
                  (ended, q1) \<Rightarrow> (ended \<and> claimant_alive claim observed, q1)))"

text \<open>
  \<open>observed\<close> is the creation time of the process with the pid of the claim, \<open>Inl\<close> a \<open>psutil\<close> error and
  \<open>Inr None\<close> no such process; \<open>survivors\<close> whether its process group had live members and was killed.
\<close>

definition reconcile_unmanaged_claim ::
  "queue_env \<Rightarrow> queue_task \<Rightarrow> int option py \<Rightarrow> bool \<Rightarrow> task_queue \<Rightarrow> nat \<times> task_queue" where
  "reconcile_unmanaged_claim env claim observed survivors q =
     (if k_pid claim = None then (0, q)
      else (case observed of
              Inl _ \<Rightarrow> (0, q)
            | Inr ob \<Rightarrow>
                if claimant_alive claim ob then (0, snd (terminate_unmanaged_claim env claim ob q))
                else if k_pid_created claim \<noteq> None \<and> ob = None \<and> survivors then (0, q)
                else requeue_claim claim q))"

fun reconcile_claims ::
  "queue_env \<Rightarrow> queue_task list \<Rightarrow> (nat \<Rightarrow> int option py) \<Rightarrow> (nat \<Rightarrow> bool) \<Rightarrow> task_queue \<Rightarrow> nat \<times> task_queue" where
  "reconcile_claims env [] observe survivors q = (0, q)"
| "reconcile_claims env (c # cs) observe survivors q =
     (let pid = (case k_pid c of Some p \<Rightarrow> p | None \<Rightarrow> 0);
          (n, q1) = reconcile_unmanaged_claim env c (observe pid) (survivors pid) q;
          (m, q2) = reconcile_claims env cs observe survivors q1
      in (n + m, q2))"

definition reset_broken_tasks ::
  "queue_env \<Rightarrow> nat list \<Rightarrow> (nat \<Rightarrow> int option py) \<Rightarrow> (nat \<Rightarrow> bool) \<Rightarrow> task_queue \<Rightarrow> nat \<times> task_queue" where
  "reset_broken_tasks env workers observe survivors q =
     reconcile_claims env (unmanaged_claims workers q) observe survivors q"

text \<open>The task of a managed worker that has run for too long; \<open>True\<close> when the worker is being stopped.\<close>

definition check_task_duration :: "queue_env \<Rightarrow> nat \<Rightarrow> task_queue \<Rightarrow> bool \<times> task_queue" where
  "check_task_duration env pid q =
     (case sel_one (\<lambda>t. k_pid t = Some pid \<and> t_status t = ACTIVE) (qu_tasks q) of
        None \<Rightarrow> (False, q)
      | Some t \<Rightarrow>
          if \<not> over_limit (qe_now env) t then (False, q)
          else finalise_failure env (t_id t) pid ''Task terminated after exceeding time limit''
                 (failed_status (t_task_type t)) None q)"

definition end_task_of_large_worker :: "queue_env \<Rightarrow> nat \<Rightarrow> task_queue \<Rightarrow> task_queue" where
  "end_task_of_large_worker env pid q =
     (case sel_one (\<lambda>t. k_pid t = Some pid \<and> t_status t = ACTIVE) (qu_tasks q) of
        None \<Rightarrow> q
      | Some t \<Rightarrow> snd (finalise_failure env (t_id t) pid ''Task terminated because of its resident memory''
                         (failed_status (t_task_type t)) None q))"

section \<open>What a claim takes\<close>

lemma fold_max_ge: "n \<in> set ns \<Longrightarrow> n \<le> fold max ns (m :: nat)" "m \<le> fold max ns (m :: nat)"
  by (induction ns arbitrary: m) (auto intro: order_trans dest: le_trans, (meson le_trans max.cobounded1 max.cobounded2)+)

lemma task_id_fresh: "t \<in> set ts \<Longrightarrow> t_id t < next_id ts"
  using fold_max_ge(1) [of "t_id t" "map t_id ts" 0] by (simp add: next_id_def less_Suc_eq_le)

abbreviation tasks_distinct :: "task_queue \<Rightarrow> bool" where
  "tasks_distinct q \<equiv> distinct (map t_id (qu_tasks q))"

definition claimed_row :: "int \<Rightarrow> nat \<Rightarrow> int \<Rightarrow> queue_task \<Rightarrow> queue_task" where
  "claimed_row now pid created t =
     t \<lparr> t_status := ACTIVE, k_started := Some now, k_pid := Some pid, k_pid_created := Some created \<rparr>"

lemma upd_one:
  assumes "distinct (map k ts)" and "t \<in> set ts" and "P t"
  shows "upd (\<lambda>x. k x = k t \<and> P x) f ts = map (\<lambda>u. if u = t then f t else u) ts"
  unfolding upd_def
proof (rule map_cong [OF refl])
  fix x assume "x \<in> set ts"
  then have "k x = k t \<Longrightarrow> x = t" using assms(1,2) by (auto dest: distinct_map_eq)
  then show "(if k x = k t \<and> P x then f x else x) = (if x = t then f t else x)" using assms(3) by auto
qed

lemma oldest_Some:
  assumes "oldest_queued_task now q = Some t"
  shows "t \<in> set (qu_tasks q)" and "claimable now q t"
    and "\<And>u. u \<in> set (qu_tasks q) \<Longrightarrow> claimable now q u \<Longrightarrow> t_added t \<le> t_added u"
proof -
  have "t \<in> set (sel (claimable now q) (qu_tasks q))"
    using assms unfolding oldest_queued_task_def by (rule max_by_key_in)
  then show "t \<in> set (qu_tasks q)" "claimable now q t" by (simp_all add: sel_set)
  fix u assume "u \<in> set (qu_tasks q)" "claimable now q u"
  then have "u \<in> set (sel (claimable now q) (qu_tasks q))" by (simp add: sel_set)
  then have "- t_added u \<le> - t_added t"
    using max_by_key_ge [OF assms [unfolded oldest_queued_task_def]] by simp
  then show "t_added t \<le> t_added u" by simp
qed

lemma claim_tasks:
  assumes "tasks_distinct q" and "task_next_claim now pid created q = (Some t, q')"
  shows "oldest_queued_task now q = Some t"
    and "qu_tasks q' = map (\<lambda>u. if u = t then claimed_row now pid created t else u) (qu_tasks q)"
    and "qu_next_start q' = (if t_task_type t = SBOM_HEATMAP then Some (now + HEATMAP_START_INTERVAL) else qu_next_start q)"
proof -
  show t: "oldest_queued_task now q = Some t"
    using assms(2) by (auto simp: task_next_claim_def Let_def split: option.splits)
  have q: "t_status t = QUEUED" using oldest_Some(2) [OF t] by (simp add: claimable_def)
  show "qu_tasks q' = map (\<lambda>u. if u = t then claimed_row now pid created t else u) (qu_tasks q)"
    using assms(2) t upd_one [OF assms(1) oldest_Some(1) [OF t], of "\<lambda>x. t_status x = QUEUED"
        "\<lambda>x. x \<lparr> t_status := ACTIVE, k_started := Some now, k_pid := Some pid, k_pid_created := Some created \<rparr>"] q
    by (auto simp: task_next_claim_def Let_def claimed_row_def split: if_splits)
  show "qu_next_start q' = (if t_task_type t = SBOM_HEATMAP then Some (now + HEATMAP_START_INTERVAL) else qu_next_start q)"
    using assms(2) t by (auto simp: task_next_claim_def Let_def split: if_splits)
qed


section \<open>What an operation may change\<close>

text \<open>
  \<open>frame P ts ts'\<close>: rows outside \<open>P\<close> are kept, unless they were completed, and no row becomes active.
\<close>

definition frame :: "(queue_task \<Rightarrow> bool) \<Rightarrow> queue_task list \<Rightarrow> queue_task list \<Rightarrow> bool" where
  "frame P ts ts' \<longleftrightarrow> distinct (map t_id ts) \<longrightarrow>
     distinct (map t_id ts') \<and>
     (\<forall>t \<in> set ts. \<not> P t \<and> t_status t \<noteq> COMPLETED \<longrightarrow> t \<in> set ts') \<and>
     (\<forall>t \<in> set ts'. t_status t = ACTIVE \<longrightarrow> t \<in> set ts)"

lemma frame_refl [simp]: "frame P ts ts"
  by (simp add: frame_def)

lemma frame_trans:
  assumes "frame P a b" and "frame P b c"
  shows "frame P a c"
  using assms unfolding frame_def by blast

lemma frame_upd:
  assumes "\<And>x. t_id (f x) = t_id x" and "\<And>x. P x \<Longrightarrow> t_status (f x) \<noteq> ACTIVE"
  shows "frame P ts (upd P f ts)"
proof -
  have "map t_id (upd P f ts) = map t_id ts" using assms(1) by (rule map_upd)
  then show ?thesis unfolding frame_def using assms(2) by (auto simp: upd_set split: if_splits)
qed

lemma frame_mono: "frame P a b \<Longrightarrow> (\<And>t. P t \<Longrightarrow> Q t) \<Longrightarrow> frame Q a b"
  unfolding frame_def by blast

lemma frame_enqueue: "frame P (qu_tasks q) (qu_tasks (enqueue_task now kind uid pk v number q))"
  by (auto simp: frame_def enqueue_task_def dest: task_id_fresh)

lemma frame_del:
  assumes "\<And>t. D t \<Longrightarrow> P t \<or> t_status t = COMPLETED"
  shows "frame P ts (del D ts)"
  unfolding frame_def using assms by (auto simp: del_set del_def distinct_map_filter_key)

lemma record_failure_tasks [simp]: "qu_tasks (record_failure env t err dat q) = qu_tasks q"
  by (simp add: record_failure_def split: option.splits list.splits)

lemma finalise_failure_tasks:
  "qu_tasks (snd (finalise_failure env i pid err st dat q)) =
     upd (held i pid) (\<lambda>x. x \<lparr> t_status := st, t_completed := Some (qe_now env),
       t_error := Some (if strip err = '''' then ''unknown error'' else strip err), t_result := None \<rparr>) (qu_tasks q)"
proof (cases "sel_one (held i pid) (qu_tasks q)")
  case None
  then have "rowcount (held i pid) (qu_tasks q) = 0" by (simp add: sel_one_None rowcount_zero)
  then show ?thesis using None by (simp add: finalise_failure_def Let_def upd_none)
qed (simp add: finalise_failure_def Let_def)

lemma finalise_failure_fst:
  "fst (finalise_failure env i pid err st dat q) \<longleftrightarrow> (\<exists>t \<in> set (qu_tasks q). held i pid t)"
  by (auto simp: finalise_failure_def Let_def sel_one_None split: option.splits dest: sel_one_Some_in)

lemma frame_finalise:
  assumes "st \<noteq> ACTIVE"
  shows "frame (held i pid) (qu_tasks q) (qu_tasks (snd (finalise_failure env i pid err st dat q)))"
  unfolding finalise_failure_tasks by (rule frame_upd) (use assms in simp_all)

lemma frame_defer: "frame (held i pid) (qu_tasks q) (qu_tasks (task_defer now pid i secs cp q))"
  unfolding task_defer_def Let_def by (simp add: frame_upd)

lemma frame_regenerate: "frame P (qu_tasks q) (qu_tasks (queue_catalog_regeneration now uid pk q))"
  by (simp add: queue_catalog_regeneration_def frame_enqueue)

lemma frame_heatmap: "frame P (qu_tasks q) (qu_tasks (heatmap_complete now t q))"
proof -
  let ?D = "\<lambda>x. t_task_type x = SBOM_HEATMAP \<and> t_project_key x = t_project_key t \<and>
    t_version_key x = t_version_key t \<and> t_status x = COMPLETED \<and> t_id x \<noteq> t_id t"
  have "frame P (qu_tasks q) (del ?D (qu_tasks q))" by (rule frame_del) simp
  then have "frame P (qu_tasks q) (qu_tasks (q \<lparr> qu_tasks := del ?D (qu_tasks q) \<rparr>))" by simp
  then show ?thesis unfolding heatmap_complete_def by (rule frame_trans) (rule frame_regenerate)
qed

lemma frame_downloads: "frame P (qu_tasks q) (qu_tasks (downloads_queue env t q))"
  by (simp add: downloads_queue_def frame_enqueue)

lemma frame_if:
  "frame P (qu_tasks q) (qu_tasks a) \<Longrightarrow> frame P (qu_tasks q) (qu_tasks b) \<Longrightarrow>
   frame P (qu_tasks q) (qu_tasks (if c then a else b))"
  by simp

lemma frame_drop_held:
  assumes "frame (held i pid) ts ts'" and "t0 \<in> set ts" and "held i pid t0"
  shows "frame (held i pid) ts (del (\<lambda>x. t_id x = i \<and> k_pid x = Some pid) ts')"
  unfolding frame_def
proof (intro impI conjI ballI)
  assume dist: "distinct (map t_id ts)"
  then have ts': "distinct (map t_id ts')" "\<forall>t \<in> set ts. \<not> held i pid t \<and> t_status t \<noteq> COMPLETED \<longrightarrow> t \<in> set ts'"
      "\<forall>t \<in> set ts'. t_status t = ACTIVE \<longrightarrow> t \<in> set ts"
    using assms(1) by (auto simp: frame_def)
  show "distinct (map t_id (del (\<lambda>x. t_id x = i \<and> k_pid x = Some pid) ts'))"
    using ts'(1) by (simp add: del_def distinct_map_filter_key)
  {
    fix t assume t: "t \<in> set ts" "\<not> held i pid t \<and> t_status t \<noteq> COMPLETED"
    have "t_id t \<noteq> i"
    proof
      assume "t_id t = i"
      then have "t = t0" using dist t(1) assms(2,3) by (auto simp: held_def dest: distinct_map_eq)
      then show False using t(2) assms(3) by simp
    qed
    then show "t \<in> set (del (\<lambda>x. t_id x = i \<and> k_pid x = Some pid) ts')" using ts'(2) t by (simp add: del_set)
  next
    fix t assume "t \<in> set (del (\<lambda>x. t_id x = i \<and> k_pid x = Some pid) ts')" "t_status t = ACTIVE"
    then show "t \<in> set ts" using ts'(3) by (simp add: del_set)
  }
qed

lemma frame_effects: "frame P (qu_tasks q) (qu_tasks (completion_effects env t r q))"
proof -
  let ?q1 = "if t_task_type t = SBOM_HEATMAP then heatmap_complete (qe_now env) t q else q"
  have "frame P (qu_tasks q) (qu_tasks ?q1)" by (rule frame_if [OF frame_heatmap frame_refl])
  then show ?thesis unfolding completion_effects_def Let_def
    by (rule frame_trans) (rule frame_if [OF frame_downloads frame_refl])
qed

lemma frame_complete: "frame (held i pid) (qu_tasks q) (qu_tasks (complete_task env pid i r q))"
proof (cases "sel_one (held i pid) (qu_tasks q)")
  case None
  then show ?thesis by (simp add: complete_task_def)
next
  case (Some t)
  let ?ts1 = "upd (held i pid) (\<lambda>x. x \<lparr> t_status := COMPLETED, t_completed := Some (qe_now env), t_result := r \<rparr>) (qu_tasks q)"
  let ?q1 = "completion_effects env t r (q \<lparr> qu_tasks := ?ts1 \<rparr>)"
  have "frame (held i pid) (qu_tasks q) ?ts1" by (rule frame_upd) simp_all
  moreover have "frame (held i pid) ?ts1 (qu_tasks ?q1)"
    using frame_effects [of "held i pid" "q \<lparr> qu_tasks := ?ts1 \<rparr>"] by simp
  ultimately have all: "frame (held i pid) (qu_tasks q) (qu_tasks ?q1)" by (rule frame_trans)
  have t: "t \<in> set (qu_tasks q)" "held i pid t" using Some by (auto dest: sel_one_Some_in)
  show ?thesis
    using all frame_drop_held [OF all t] by (simp add: complete_task_def Some Let_def)
qed

lemma frame_process: "frame (held i pid) (qu_tasks q) (qu_tasks (task_process env pid i kind uid acc outcome q))"
  by (simp add: task_process_def task_result_process_def frame_defer frame_complete frame_finalise
      split: handler_outcome.split)

lemma failed_status_cases: "failed_status k = FAILED \<or> failed_status k = BROKEN"
  by (simp add: failed_status_def)

lemma requeue_tasks:
  "qu_tasks (snd (requeue_claim c q)) =
     upd (\<lambda>x. t_id x = t_id c \<and> t_status x = ACTIVE \<and> k_pid x = k_pid c \<and> k_pid_created x = k_pid_created c)
       (\<lambda>x. x \<lparr> t_status := QUEUED, k_started := None, k_pid := None, k_pid_created := None \<rparr>) (qu_tasks q)"
  by (simp add: requeue_claim_def Let_def)

lemma frame_requeue:
  "frame (\<lambda>x. t_id x = t_id c \<and> t_status x = ACTIVE \<and> k_pid x = k_pid c \<and> k_pid_created x = k_pid_created c)
     (qu_tasks q) (qu_tasks (snd (requeue_claim c q)))"
  unfolding requeue_tasks by (rule frame_upd) simp_all

text \<open>The manager ends a task by recording a failure; the row stays, failed or broken.\<close>

definition ends :: "task_queue \<Rightarrow> task_queue \<Rightarrow> bool" where
  "ends q q' \<longleftrightarrow> (\<exists>i pid. frame (held i pid) (qu_tasks q) (qu_tasks q') \<and>
     (\<forall>t \<in> set (qu_tasks q). held i pid t \<longrightarrow>
        (\<exists>t' \<in> set (qu_tasks q'). t_id t' = t_id t \<and> t_status t' \<in> {FAILED, BROKEN})))"

lemma ends_refl: "ends q q"
proof -
  have "frame (held 0 0) (qu_tasks q) (qu_tasks q)" by simp
  have "\<exists>i pid. \<forall>t \<in> set (qu_tasks q). \<not> held i pid t"
  proof -
    have "\<forall>t \<in> set (qu_tasks q). \<not> held (next_id (qu_tasks q)) 0 t"
      by (auto simp: held_def dest: task_id_fresh)
    then show ?thesis by blast
  qed
  then show ?thesis unfolding ends_def using frame_refl by blast
qed

lemma ends_finalise:
  assumes "st = FAILED \<or> st = BROKEN"
  shows "ends q (snd (finalise_failure env i pid err st dat q))"
proof -
  have "frame (held i pid) (qu_tasks q) (qu_tasks (snd (finalise_failure env i pid err st dat q)))"
    by (rule frame_finalise) (use assms in auto)
  moreover have "\<exists>t' \<in> set (qu_tasks (snd (finalise_failure env i pid err st dat q))).
      t_id t' = t_id t \<and> t_status t' \<in> {FAILED, BROKEN}"
    if "t \<in> set (qu_tasks q)" "held i pid t" for t
    unfolding finalise_failure_tasks upd_def set_map using that assms
    by (intro bexI [OF _ imageI [OF that(1)]]) auto
  ultimately show ?thesis unfolding ends_def by blast
qed

lemma ends_terminate: "ends q (snd (terminate_unmanaged_claim env c ob q))"
  by (auto simp: terminate_unmanaged_claim_def ends_refl split: option.splits prod.splits)
    (metis ends_finalise failed_status_cases snd_conv)

lemma ends_duration: "ends q (snd (check_task_duration env pid q))"
  by (auto simp: check_task_duration_def ends_refl ends_finalise failed_status_cases split: option.splits)

lemma ends_memory: "ends q (end_task_of_large_worker env pid q)"
  by (auto simp: end_task_of_large_worker_def ends_refl ends_finalise failed_status_cases split: option.splits)

end
