(* ===== verification/Workers.thy ===== *)
theory Workers
  imports TaskQueue Lifecycle
begin

text \<open>
  The workers and their manager as concurrent processes on one task queue, and the pool of workers
  that the manager keeps (src/atr/worker.py, src/atr/manager.py).

  A step of the system is one database transaction or one event of the operating system, in any order:
  tasks are queued, workers start, claim, process and die at any time, and the manager reads the claims
  of workers it does not manage, looks whether the claimant is alive, and requeues, in three steps
  between which anything may happen.
\<close>

section \<open>The system\<close>

text \<open>
  \<open>sy_live\<close> maps the pids of live processes to their creation times and \<open>sy_used\<close> holds every process
  there has been: a pid may be used again, but not with the same creation time.  \<open>sy_cur\<close> is the task
  that a worker process is working on, \<open>sy_claims\<close> the claims the manager has read and \<open>sy_dead\<close> those
  whose claimant it did not find alive.
\<close>

record system =
  sy_q :: task_queue
  sy_live :: "nat \<Rightarrow> int option"
  sy_used :: "(nat \<times> int) set"
  sy_cur :: "nat \<Rightarrow> nat option"
  sy_claims :: "queue_task list"
  sy_dead :: "queue_task list"

inductive work :: "system \<Rightarrow> system \<Rightarrow> bool" where
  Queue: "work s (s \<lparr> sy_q := enqueue_task now kind uid pk v number (sy_q s) \<rparr>)"
| Start: "sy_live s pid = None \<Longrightarrow> (pid, c) \<notin> sy_used s \<Longrightarrow>
    work s (s \<lparr> sy_live := (sy_live s)(pid \<mapsto> c), sy_used := insert (pid, c) (sy_used s) \<rparr>)"
| Die: "work s (s \<lparr> sy_live := (sy_live s)(pid := None), sy_cur := (sy_cur s)(pid := None) \<rparr>)"
| Claim: "sy_live s pid = Some c \<Longrightarrow> sy_cur s pid = None \<Longrightarrow> task_next_claim now pid c (sy_q s) = (Some t, q') \<Longrightarrow>
    work s (s \<lparr> sy_q := q', sy_cur := (sy_cur s)(pid \<mapsto> t_id t) \<rparr>)"
| Process: "sy_cur s pid = Some i \<Longrightarrow>
    work s (s \<lparr> sy_q := task_process env pid i kind uid acc outcome (sy_q s), sy_cur := (sy_cur s)(pid := None) \<rparr>)"
| Read_claims: "work s (s \<lparr> sy_claims := unmanaged_claims managed (sy_q s), sy_dead := [] \<rparr>)"
| Judge: "claim \<in> set (sy_claims s) \<Longrightarrow> k_pid claim = Some pid \<Longrightarrow> \<not> claimant_alive claim (sy_live s pid) \<Longrightarrow>
    work s (s \<lparr> sy_dead := claim # sy_dead s \<rparr>)"
| Requeue: "claim \<in> set (sy_dead s) \<Longrightarrow> work s (s \<lparr> sy_q := snd (requeue_claim claim (sy_q s)) \<rparr>)"
| End_unmanaged: "work s (s \<lparr> sy_q := snd (terminate_unmanaged_claim env claim observed (sy_q s)) \<rparr>)"
| End_long: "work s (s \<lparr> sy_q := snd (check_task_duration env pid (sy_q s)) \<rparr>)"
| End_large: "work s (s \<lparr> sy_q := end_task_of_large_worker env pid (sy_q s) \<rparr>)"

inductive_cases workE: "work s s'"

text \<open>At the start nothing is active and no process runs.\<close>

definition initial :: "system \<Rightarrow> bool" where
  "initial s \<longleftrightarrow> tasks_distinct (sy_q s) \<and> (\<forall>t \<in> set (qu_tasks (sy_q s)). t_status t \<noteq> ACTIVE) \<and>
     sy_live s = (\<lambda>_. None) \<and> sy_cur s = (\<lambda>_. None) \<and> sy_used s = {} \<and> sy_claims s = [] \<and> sy_dead s = []"

section \<open>The invariant\<close>

definition row_of :: "nat \<Rightarrow> int \<Rightarrow> queue_task \<Rightarrow> bool" where
  "row_of pid c t \<longleftrightarrow> t_status t = ACTIVE \<and> k_pid t = Some pid \<and> k_pid_created t = Some c"

definition claimed_by_known :: "(nat \<times> int) set \<Rightarrow> queue_task \<Rightarrow> bool" where
  "claimed_by_known used t \<longleftrightarrow> (\<exists>p c. k_pid t = Some p \<and> k_pid_created t = Some c \<and> (p, c) \<in> used)"

text \<open>What process \<open>pid\<close> works on is its own active row, or one the manager has ended.\<close>

definition works_on :: "system \<Rightarrow> nat \<Rightarrow> nat \<Rightarrow> bool" where
  "works_on s pid i \<longleftrightarrow> (\<exists>c. sy_live s pid = Some c \<and>
     (\<exists>t \<in> set (qu_tasks (sy_q s)). t_id t = i \<and> (row_of pid c t \<or> t_status t = FAILED \<or> t_status t = BROKEN)))"

definition dead_claim :: "system \<Rightarrow> queue_task \<Rightarrow> bool" where
  "dead_claim s t \<longleftrightarrow> (\<exists>p c. k_pid t = Some p \<and> k_pid_created t = Some c \<and> (p, c) \<in> sy_used s \<and> sy_live s p \<noteq> Some c)"

definition queue_inv :: "system \<Rightarrow> bool" where
  "queue_inv s \<longleftrightarrow> tasks_distinct (sy_q s) \<and>
     (\<forall>t \<in> set (qu_tasks (sy_q s)). t_status t = ACTIVE \<longrightarrow> claimed_by_known (sy_used s) t) \<and>
     (\<forall>p c. sy_live s p = Some c \<longrightarrow> (p, c) \<in> sy_used s) \<and>
     (\<forall>p i. sy_cur s p = Some i \<longrightarrow> works_on s p i) \<and>
     (\<forall>p p' i. sy_cur s p = Some i \<longrightarrow> sy_cur s p' = Some i \<longrightarrow> p = p') \<and>
     (\<forall>t \<in> set (sy_claims s). claimed_by_known (sy_used s) t) \<and>
     (\<forall>t \<in> set (sy_dead s). dead_claim s t)"

lemma queue_invD:
  assumes "queue_inv s"
  shows "tasks_distinct (sy_q s)"
    and "\<And>t. t \<in> set (qu_tasks (sy_q s)) \<Longrightarrow> t_status t = ACTIVE \<Longrightarrow> claimed_by_known (sy_used s) t"
    and "\<And>p c. sy_live s p = Some c \<Longrightarrow> (p, c) \<in> sy_used s"
    and "\<And>p i. sy_cur s p = Some i \<Longrightarrow> works_on s p i"
    and "\<And>p p' i. sy_cur s p = Some i \<Longrightarrow> sy_cur s p' = Some i \<Longrightarrow> p = p'"
    and "\<And>t. t \<in> set (sy_claims s) \<Longrightarrow> claimed_by_known (sy_used s) t"
    and "\<And>t. t \<in> set (sy_dead s) \<Longrightarrow> dead_claim s t"
  using assms by (auto simp: queue_inv_def)

lemma queue_invI:
  assumes "tasks_distinct (sy_q s)"
    and "\<And>t. t \<in> set (qu_tasks (sy_q s)) \<Longrightarrow> t_status t = ACTIVE \<Longrightarrow> claimed_by_known (sy_used s) t"
    and "\<And>p c. sy_live s p = Some c \<Longrightarrow> (p, c) \<in> sy_used s"
    and "\<And>p i. sy_cur s p = Some i \<Longrightarrow> works_on s p i"
    and "\<And>p p' i. sy_cur s p = Some i \<Longrightarrow> sy_cur s p' = Some i \<Longrightarrow> p = p'"
    and "\<And>t. t \<in> set (sy_claims s) \<Longrightarrow> claimed_by_known (sy_used s) t"
    and "\<And>t. t \<in> set (sy_dead s) \<Longrightarrow> dead_claim s t"
  shows "queue_inv s"
  using assms by (auto simp: queue_inv_def)

lemma initial_inv: "initial s \<Longrightarrow> queue_inv s"
  by (simp add: initial_def queue_inv_def)

text \<open>
  A step on the queue alone keeps the invariant when it keeps, up to ending them, the rows on which
  the live workers of \<open>cur\<close> work.
\<close>

lemma queue_step:
  assumes inv: "queue_inv s" and fr: "frame P (qu_tasks (sy_q s)) (qu_tasks q')"
    and sub: "\<And>p i. cur p = Some i \<Longrightarrow> sy_cur s p = Some i"
    and keep: "\<And>p i c t. cur p = Some i \<Longrightarrow> sy_live s p = Some c \<Longrightarrow> t \<in> set (qu_tasks (sy_q s)) \<Longrightarrow> t_id t = i \<Longrightarrow>
      row_of p c t \<or> t_status t = FAILED \<or> t_status t = BROKEN \<Longrightarrow> P t \<Longrightarrow>
      (\<exists>t' \<in> set (qu_tasks q'). t_id t' = i \<and> (t_status t' = FAILED \<or> t_status t' = BROKEN))"
  shows "queue_inv (s \<lparr> sy_q := q', sy_cur := cur \<rparr>)"
proof -
  note inv' = queue_invD [OF inv]
  have fr': "tasks_distinct q'"
      "\<And>t. t \<in> set (qu_tasks (sy_q s)) \<Longrightarrow> \<not> P t \<Longrightarrow> t_status t \<noteq> COMPLETED \<Longrightarrow> t \<in> set (qu_tasks q')"
      "\<And>t. t \<in> set (qu_tasks q') \<Longrightarrow> t_status t = ACTIVE \<Longrightarrow> t \<in> set (qu_tasks (sy_q s))"
    using fr inv'(1) by (auto simp: frame_def)
  have works: "works_on (s \<lparr> sy_q := q', sy_cur := cur \<rparr>) p i" if p: "cur p = Some i" for p i
  proof -
    obtain c t where t: "sy_live s p = Some c" "t \<in> set (qu_tasks (sy_q s))" "t_id t = i"
        "row_of p c t \<or> t_status t = FAILED \<or> t_status t = BROKEN"
      using inv'(4) [OF sub [OF p]] unfolding works_on_def by blast
    show ?thesis
    proof (cases "P t")
      case True
      show ?thesis using keep [OF p t True] t(1) by (auto simp: works_on_def)
    next
      case False
      have "t_status t \<noteq> COMPLETED" using t(4) by (auto simp: row_of_def)
      then have "t \<in> set (qu_tasks q')" using fr'(2) t(2) False by blast
      then show ?thesis using t by (auto simp: works_on_def)
    qed
  qed
  have "\<And>t. dead_claim s t \<Longrightarrow> dead_claim (s \<lparr> sy_q := q', sy_cur := cur \<rparr>) t" by (simp add: dead_claim_def)
  then show ?thesis
    using fr'(1,3) inv'(2,3,6,7) works inv'(5) sub unfolding queue_inv_def by simp
qed

lemma queue_step_same:
  assumes "queue_inv s" and "frame P (qu_tasks (sy_q s)) (qu_tasks q')"
    and "\<And>p i c t. sy_cur s p = Some i \<Longrightarrow> sy_live s p = Some c \<Longrightarrow> t \<in> set (qu_tasks (sy_q s)) \<Longrightarrow> t_id t = i \<Longrightarrow>
      row_of p c t \<or> t_status t = FAILED \<or> t_status t = BROKEN \<Longrightarrow> P t \<Longrightarrow>
      (\<exists>t' \<in> set (qu_tasks q'). t_id t' = i \<and> (t_status t' = FAILED \<or> t_status t' = BROKEN))"
  shows "queue_inv (s \<lparr> sy_q := q' \<rparr>)"
  using queue_step [OF assms(1,2), of "sy_cur s"] assms(3) by simp

lemma queue_enqueue_inv: "queue_inv s \<Longrightarrow> queue_inv (s \<lparr> sy_q := enqueue_task now kind uid pk v number (sy_q s) \<rparr>)"
  by (rule queue_step_same [where P = "\<lambda>_. False", OF _ frame_enqueue]) simp_all

lemma inv_ends:
  assumes inv: "queue_inv s" and ends: "ends (sy_q s) q'"
  shows "queue_inv (s \<lparr> sy_q := q' \<rparr>)"
proof -
  obtain i pid where fr: "frame (held i pid) (qu_tasks (sy_q s)) (qu_tasks q')"
    and ended: "\<And>t. t \<in> set (qu_tasks (sy_q s)) \<Longrightarrow> held i pid t \<Longrightarrow>
      \<exists>t' \<in> set (qu_tasks q'). t_id t' = t_id t \<and> t_status t' \<in> {FAILED, BROKEN}"
    using ends unfolding ends_def by blast
  show ?thesis
  proof (rule queue_step_same [OF inv fr])
    fix p j c t
    assume "t \<in> set (qu_tasks (sy_q s))" "t_id t = j" "held i pid t"
    then show "\<exists>t' \<in> set (qu_tasks q'). t_id t' = j \<and> (t_status t' = FAILED \<or> t_status t' = BROKEN)"
      using ended [of t] by simp
  qed
qed

lemma inv_process:
  assumes inv: "queue_inv s" and pid: "sy_cur s pid = Some i"
  shows "queue_inv (s \<lparr> sy_q := task_process env pid i kind uid acc outcome (sy_q s), sy_cur := (sy_cur s)(pid := None) \<rparr>)"
proof (rule queue_step [OF inv frame_process])
  fix p j assume "((sy_cur s)(pid := None)) p = Some j"
  then show "sy_cur s p = Some j" by (simp split: if_splits)
next
  fix p j c t
  assume p: "((sy_cur s)(pid := None)) p = Some j" and t: "t_id t = j" "held i pid t"
  then have "sy_cur s p = Some i" "p \<noteq> pid" by (auto simp: held_def split: if_splits)
  then have False using queue_invD(5) [OF inv _ pid] by blast
  then show "\<exists>t' \<in> set (qu_tasks (task_process env pid i kind uid acc outcome (sy_q s))).
      t_id t' = j \<and> (t_status t' = FAILED \<or> t_status t' = BROKEN)" ..
qed

lemma inv_requeue:
  assumes inv: "queue_inv s" and claim: "claim \<in> set (sy_dead s)"
  shows "queue_inv (s \<lparr> sy_q := snd (requeue_claim claim (sy_q s)) \<rparr>)"
proof (rule queue_step_same [OF inv frame_requeue])
  fix p i c t
  assume live: "sy_live s p = Some c" and t: "row_of p c t \<or> t_status t = FAILED \<or> t_status t = BROKEN"
    and same: "t_id t = t_id claim \<and> t_status t = ACTIVE \<and> k_pid t = k_pid claim \<and> k_pid_created t = k_pid_created claim"
  have "k_pid claim = Some p" "k_pid_created claim = Some c" using t same by (auto simp: row_of_def)
  then have False using queue_invD(7) [OF inv claim] live by (auto simp: dead_claim_def)
  then show "\<exists>t' \<in> set (qu_tasks (snd (requeue_claim claim (sy_q s)))).
      t_id t' = i \<and> (t_status t' = FAILED \<or> t_status t' = BROKEN)" ..
qed

lemma inv_claim:
  assumes inv: "queue_inv s" and live: "sy_live s pid = Some c" and idle: "sy_cur s pid = None"
    and claim: "task_next_claim now pid c (sy_q s) = (Some t, q')"
  shows "queue_inv (s \<lparr> sy_q := q', sy_cur := (sy_cur s)(pid \<mapsto> t_id t) \<rparr>)"
proof -
  note inv' = queue_invD [OF inv]
  note cl = claim_tasks [OF inv'(1) claim]
  have t: "t \<in> set (qu_tasks (sy_q s))" "t_status t = QUEUED"
    using oldest_Some(1,2) [OF cl(1)] by (simp_all add: claimable_def)
  have ids: "map t_id (qu_tasks q') = map t_id (qu_tasks (sy_q s))"
    unfolding cl(2) by (simp add: claimed_row_def)
  have rows: "u \<in> set (qu_tasks q') \<longleftrightarrow> u = claimed_row now pid c t \<or> u \<in> set (qu_tasks (sy_q s)) \<and> u \<noteq> t" for u
    unfolding cl(2) using t(1) by auto
  have kept: "u \<in> set (qu_tasks q')" if "u \<in> set (qu_tasks (sy_q s))" "t_status u \<noteq> QUEUED" for u
    using that t(2) rows by auto
  have new: "claimed_row now pid c t \<in> set (qu_tasks q')" "row_of pid c (claimed_row now pid c t)"
    using rows by (auto simp: row_of_def claimed_row_def)
  have nobody: "sy_cur s p \<noteq> Some (t_id t)" for p
  proof
    assume "sy_cur s p = Some (t_id t)"
    then obtain d u where u: "u \<in> set (qu_tasks (sy_q s))" "t_id u = t_id t"
        "row_of p d u \<or> t_status u = FAILED \<or> t_status u = BROKEN"
      using inv'(4) unfolding works_on_def by blast
    then have "u = t" using inv'(1) t(1) by (auto dest: distinct_map_eq)
    then show False using u(3) t(2) by (auto simp: row_of_def)
  qed
  have works: "works_on (s \<lparr> sy_q := q', sy_cur := (sy_cur s)(pid \<mapsto> t_id t) \<rparr>) p i"
    if p: "((sy_cur s)(pid \<mapsto> t_id t)) p = Some i" for p i
  proof (cases "p = pid")
    case True
    then have "i = t_id t" using p by simp
    moreover have "t_id (claimed_row now pid c t) = t_id t" by (simp add: claimed_row_def)
    ultimately show ?thesis using True live new by (auto simp: works_on_def)
  next
    case False
    then have "sy_cur s p = Some i" using p by simp
    then obtain d u where u: "sy_live s p = Some d" "u \<in> set (qu_tasks (sy_q s))" "t_id u = i"
        "row_of p d u \<or> t_status u = FAILED \<or> t_status u = BROKEN"
      using inv'(4) unfolding works_on_def by blast
    then have "u \<in> set (qu_tasks q')" using kept by (auto simp: row_of_def)
    then show ?thesis using u by (auto simp: works_on_def)
  qed
  have "claimed_by_known (sy_used s) (claimed_row now pid c t)"
    using inv'(3) [OF live] by (simp add: claimed_by_known_def claimed_row_def)
  then have active: "claimed_by_known (sy_used s) u" if "u \<in> set (qu_tasks q')" "t_status u = ACTIVE" for u
    using that rows inv'(2) by auto
  have once: "p = p'" if "((sy_cur s)(pid \<mapsto> t_id t)) p = Some i" "((sy_cur s)(pid \<mapsto> t_id t)) p' = Some i" for p p' i
    using that nobody inv'(5) by (auto split: if_splits)
  let ?s = "s \<lparr> sy_q := q', sy_cur := (sy_cur s)(pid \<mapsto> t_id t) \<rparr>"
  show ?thesis
  proof (rule queue_invI)
    show "tasks_distinct (sy_q ?s)" using ids inv'(1) by simp
    show "claimed_by_known (sy_used ?s) u" if "u \<in> set (qu_tasks (sy_q ?s))" "t_status u = ACTIVE" for u
      using that active by simp
    show "(p, d) \<in> sy_used ?s" if "sy_live ?s p = Some d" for p d
      using that inv'(3) by simp
    show "works_on ?s p i" if "sy_cur ?s p = Some i" for p i
      using works [of p i] that by simp
    show "p = p'" if "sy_cur ?s p = Some i" "sy_cur ?s p' = Some i" for p p' i
      using once [of p i p'] that by simp
    show "claimed_by_known (sy_used ?s) u" if "u \<in> set (sy_claims ?s)" for u
      using that inv'(6) by simp
    show "dead_claim ?s u" if "u \<in> set (sy_dead ?s)" for u
      using inv'(7) [of u] that by (simp add: dead_claim_def)
  qed
qed

section \<open>No task is run twice at once\<close>

lemma inv_start:
  assumes inv: "queue_inv s" and free: "sy_live s pid = None" and fresh: "(pid, c) \<notin> sy_used s"
  shows "queue_inv (s \<lparr> sy_live := (sy_live s)(pid \<mapsto> c), sy_used := insert (pid, c) (sy_used s) \<rparr>)"
proof (rule queue_invI)
  note inv' = queue_invD [OF inv]
  let ?s = "s \<lparr> sy_live := (sy_live s)(pid \<mapsto> c), sy_used := insert (pid, c) (sy_used s) \<rparr>"
  have known: "claimed_by_known (insert (pid, c) (sy_used s)) t" if "claimed_by_known (sy_used s) t" for t
    using that by (auto simp: claimed_by_known_def)
  show "tasks_distinct (sy_q ?s)" using inv'(1) by simp
  show "claimed_by_known (sy_used ?s) t" if "t \<in> set (qu_tasks (sy_q ?s))" "t_status t = ACTIVE" for t
    using that inv'(2) known by simp
  show "(p, d) \<in> sy_used ?s" if "sy_live ?s p = Some d" for p d
    using that inv'(3) by (auto split: if_splits)
  show "works_on ?s p i" if "sy_cur ?s p = Some i" for p i
  proof -
    have old: "works_on s p i" using that inv'(4) by simp
    then have "p \<noteq> pid" using free by (auto simp: works_on_def)
    then show ?thesis using old by (simp add: works_on_def)
  qed
  show "p = p'" if "sy_cur ?s p = Some i" "sy_cur ?s p' = Some i" for p p' i
    using that inv'(5) by simp
  show "claimed_by_known (sy_used ?s) t" if "t \<in> set (sy_claims ?s)" for t
    using that inv'(6) known by simp
  show "dead_claim ?s t" if "t \<in> set (sy_dead ?s)" for t
    using inv'(7) [of t] that fresh by (auto simp: dead_claim_def)
qed

lemma inv_die:
  assumes inv: "queue_inv s"
  shows "queue_inv (s \<lparr> sy_live := (sy_live s)(pid := None), sy_cur := (sy_cur s)(pid := None) \<rparr>)"
proof (rule queue_invI)
  note inv' = queue_invD [OF inv]
  let ?s = "s \<lparr> sy_live := (sy_live s)(pid := None), sy_cur := (sy_cur s)(pid := None) \<rparr>"
  show "tasks_distinct (sy_q ?s)" using inv'(1) by simp
  show "claimed_by_known (sy_used ?s) t" if "t \<in> set (qu_tasks (sy_q ?s))" "t_status t = ACTIVE" for t
    using that inv'(2) by simp
  show "(p, d) \<in> sy_used ?s" if "sy_live ?s p = Some d" for p d
    using that inv'(3) by (auto split: if_splits)
  show "works_on ?s p i" if "sy_cur ?s p = Some i" for p i
    using that inv'(4) [of p i] by (auto simp: works_on_def split: if_splits)
  show "p = p'" if "sy_cur ?s p = Some i" "sy_cur ?s p' = Some i" for p p' i
    using that inv'(5) by (auto split: if_splits)
  show "claimed_by_known (sy_used ?s) t" if "t \<in> set (sy_claims ?s)" for t
    using that inv'(6) by simp
  show "dead_claim ?s t" if "t \<in> set (sy_dead ?s)" for t
    using inv'(7) [of t] that by (auto simp: dead_claim_def)
qed

lemma inv_read:
  assumes inv: "queue_inv s"
  shows "queue_inv (s \<lparr> sy_claims := unmanaged_claims managed (sy_q s), sy_dead := [] \<rparr>)"
proof (rule queue_invI)
  note inv' = queue_invD [OF inv]
  let ?s = "s \<lparr> sy_claims := unmanaged_claims managed (sy_q s), sy_dead := [] \<rparr>"
  show "claimed_by_known (sy_used ?s) t" if "t \<in> set (sy_claims ?s)" for t
    using that inv'(2) [of t] by (simp add: unmanaged_claims_def sel_set)
  show "works_on ?s p i" if "sy_cur ?s p = Some i" for p i
    using that inv'(4) by (simp add: works_on_def)
qed (use queue_invD [OF inv] in simp_all)

lemma inv_judge:
  assumes inv: "queue_inv s" and claim: "claim \<in> set (sy_claims s)" and pid: "k_pid claim = Some pid"
    and dead: "\<not> claimant_alive claim (sy_live s pid)"
  shows "queue_inv (s \<lparr> sy_dead := claim # sy_dead s \<rparr>)"
proof (rule queue_invI)
  note inv' = queue_invD [OF inv]
  let ?s = "s \<lparr> sy_dead := claim # sy_dead s \<rparr>"
  show "works_on ?s p i" if "sy_cur ?s p = Some i" for p i
    using that inv'(4) by (simp add: works_on_def)
  have "dead_claim s claim"
    using inv'(6) [OF claim] pid dead
    by (auto simp: claimed_by_known_def dead_claim_def claimant_alive_def CREATED_TOLERANCE_def)
  then show "dead_claim ?s t" if "t \<in> set (sy_dead ?s)" for t
    using that inv'(7) by (auto simp: dead_claim_def)
qed (use queue_invD [OF inv] in simp_all)

lemma work_inv: "work s s' \<Longrightarrow> queue_inv s \<Longrightarrow> queue_inv s'"
proof (induction rule: work.induct)
qed (simp_all add: queue_enqueue_inv inv_start inv_die inv_process inv_read inv_judge inv_requeue inv_ends
      ends_terminate ends_duration ends_memory inv_claim)

text \<open>Rows that failed or broke stay as they are.\<close>

definition ended_stays :: "system \<Rightarrow> system \<Rightarrow> bool" where
  "ended_stays s s' \<longleftrightarrow> (\<forall>t \<in> set (qu_tasks (sy_q s)). t_status t = FAILED \<or> t_status t = BROKEN \<longrightarrow> t \<in> set (qu_tasks (sy_q s')))"

lemma frame_ended:
  assumes "frame P (qu_tasks (sy_q s)) (qu_tasks q')" and "tasks_distinct (sy_q s)"
    and "\<And>t. P t \<Longrightarrow> t_status t = ACTIVE" and "sy_q s' = q'"
  shows "ended_stays s s'"
  unfolding ended_stays_def
proof (intro ballI impI)
  fix t assume t: "t \<in> set (qu_tasks (sy_q s))" "t_status t = FAILED \<or> t_status t = BROKEN"
  then have "\<not> P t" "t_status t \<noteq> COMPLETED" using assms(3) [of t] by auto
  then show "t \<in> set (qu_tasks (sy_q s'))" using assms(1,2,4) t(1) by (simp add: frame_def)
qed

lemma ends_ended:
  assumes "ends (sy_q s) (sy_q s')" and "tasks_distinct (sy_q s)"
  shows "ended_stays s s'"
proof -
  obtain i pid where "frame (held i pid) (qu_tasks (sy_q s)) (qu_tasks (sy_q s'))"
    using assms(1) unfolding ends_def by blast
  then show ?thesis by (rule frame_ended [OF _ assms(2)]) (simp_all add: held_def)
qed

lemma claim_ended:
  assumes "tasks_distinct (sy_q s)" and "task_next_claim now pid c (sy_q s) = (Some t, q')" and "sy_q s' = q'"
  shows "ended_stays s s'"
proof -
  note cl = claim_tasks [OF assms(1,2)]
  have "t_status t = QUEUED" using oldest_Some(2) [OF cl(1)] by (simp add: claimable_def)
  then show ?thesis using cl(2) assms(3) by (auto simp: ended_stays_def)
qed

lemma work_ended: "work s s' \<Longrightarrow> queue_inv s \<Longrightarrow> ended_stays s s'"
proof (induction rule: work.induct)
  case (Queue s now kind uid pk v number)
  then show ?case by (auto intro: frame_ended [OF frame_enqueue [where P = "\<lambda>_. False"]] dest: queue_invD(1))
next
  case (Claim s pid c now t q')
  then show ?case using claim_ended [OF queue_invD(1) [OF Claim.prems] Claim.hyps(3)] by simp
next
  case (Process s pid i env kind uid acc outcome)
  show ?case by (rule frame_ended [OF frame_process queue_invD(1) [OF Process.prems]]) (simp_all add: held_def)
next
  case (Requeue claim s)
  show ?case by (rule frame_ended [OF frame_requeue queue_invD(1) [OF Requeue.prems]]) simp_all
next
  case (End_unmanaged s env claim observed)
  show ?case by (rule ends_ended [OF _ queue_invD(1) [OF End_unmanaged.prems]]) (simp add: ends_terminate)
next
  case (End_long s env pid)
  show ?case by (rule ends_ended [OF _ queue_invD(1) [OF End_long.prems]]) (simp add: ends_duration)
next
  case (End_large s env pid)
  show ?case by (rule ends_ended [OF _ queue_invD(1) [OF End_large.prems]]) (simp add: ends_memory)
qed (simp_all add: ended_stays_def)

interpretation queue_system: monotone_system initial work queue_inv ended_stays
proof unfold_locales
  show "ended_stays s u" if "ended_stays s t" "ended_stays t u" for s t u
    using that unfolding ended_stays_def by blast
qed (auto simp: ended_stays_def intro: initial_inv work_inv dest: work_ended [unfolded ended_stays_def])

text \<open>
  C16: however the steps of workers and manager interleave, two live processes never work on the same
  task: a worker works on a row that is active under its own process, or that the manager has already
  ended as failed or broken.
\<close>

theorem no_task_runs_twice_at_once:
  assumes "initial s0" and "work\<^sup>*\<^sup>* s0 s"
  shows "(\<forall>p p' i. sy_cur s p = Some i \<and> sy_cur s p' = Some i \<longrightarrow> p = p') \<and>
    (\<forall>p i. sy_cur s p = Some i \<longrightarrow> (\<exists>c t. sy_live s p = Some c \<and> t \<in> set (qu_tasks (sy_q s)) \<and> t_id t = i \<and>
       (t_status t = ACTIVE \<and> k_pid t = Some p \<and> k_pid_created t = Some c \<or> t_status t = FAILED \<or> t_status t = BROKEN)))"
proof -
  have inv: "queue_inv s" using assms by (rule queue_system.reached_ok)
  show ?thesis using queue_invD(4,5) [OF inv] unfolding works_on_def row_of_def by blast
qed


section \<open>Tasks of dead workers\<close>

definition requeued_row :: "queue_task \<Rightarrow> queue_task" where
  "requeued_row t = t \<lparr> t_status := QUEUED, k_started := None, k_pid := None, k_pid_created := None \<rparr>"

lemma reconcile_other:
  assumes "t \<in> set (qu_tasks q)" and "t_id t \<noteq> t_id c"
  shows "t \<in> set (qu_tasks (snd (reconcile_unmanaged_claim env c ob sv q)))"
proof -
  have fin: "t \<in> set (qu_tasks (snd (finalise_failure env (t_id c) p e st dat q)))" for p e st dat
    unfolding finalise_failure_tasks using assms by (auto simp: upd_set held_def)
  have "t \<in> set (qu_tasks (snd (terminate_unmanaged_claim env c o' q)))" for o'
    using assms(1) fin by (auto simp: terminate_unmanaged_claim_def split: option.splits prod.splits) (metis snd_conv)
  moreover have "t \<in> set (qu_tasks (snd (requeue_claim c q)))"
    unfolding requeue_tasks using assms by (auto simp: upd_set)
  ultimately show ?thesis using assms(1) by (simp add: reconcile_unmanaged_claim_def split: sum.split)
qed

lemma reconcile_claims_other:
  "t \<in> set (qu_tasks q) \<Longrightarrow> t_id t \<notin> t_id ` set cs \<Longrightarrow> t \<in> set (qu_tasks (snd (reconcile_claims env cs ob sv q)))"
proof (induction cs arbitrary: q)
  case Nil
  then show ?case by simp
next
  case (Cons c cs)
  have "t \<in> set (qu_tasks (snd (reconcile_unmanaged_claim env c (ob p) (sv p) q)))" for p
    using Cons.prems by (intro reconcile_other) auto
  then show ?case using Cons.IH Cons.prems(2) by (simp add: Let_def split: prod.splits) (metis snd_conv)
qed

definition orphaned :: "nat list \<Rightarrow> (nat \<Rightarrow> int option py) \<Rightarrow> (nat \<Rightarrow> bool) \<Rightarrow> queue_task \<Rightarrow> bool" where
  "orphaned managed observe survivors t \<longleftrightarrow> t_status t = ACTIVE \<and>
     (\<exists>p ob. k_pid t = Some p \<and> p \<notin> set managed \<and> observe p = Inr ob \<and> \<not> claimant_alive t ob \<and> \<not> survivors p)"

lemma reconcile_own:
  assumes "t \<in> set (qu_tasks q)" and "orphaned managed observe survivors t" and "k_pid t = Some p"
  shows "requeued_row t \<in> set (qu_tasks (snd (reconcile_unmanaged_claim env t (observe p) (survivors p) q)))"
proof -
  have "requeued_row t \<in> set (qu_tasks (snd (requeue_claim t q)))"
    unfolding requeue_tasks upd_set using assms(1,2) by (auto simp: requeued_row_def orphaned_def intro!: bexI [of _ t])
  moreover have "reconcile_unmanaged_claim env t (observe p) (survivors p) q = requeue_claim t q"
    using assms(2,3) by (auto simp: reconcile_unmanaged_claim_def orphaned_def)
  ultimately show ?thesis by simp
qed

lemma reconcile_claims_own:
  assumes "t \<in> set (qu_tasks q)" and "orphaned managed observe survivors t" and "t \<in> set cs"
    and "distinct (map t_id cs)"
  shows "requeued_row t \<in> set (qu_tasks (snd (reconcile_claims env cs observe survivors q)))"
  using assms(1,3,4)
proof (induction cs arbitrary: q)
  case Nil
  then show ?case by simp
next
  case (Cons c cs)
  let ?p = "case k_pid c of Some p \<Rightarrow> p | None \<Rightarrow> 0"
  obtain n q1 where q1: "reconcile_unmanaged_claim env c (observe ?p) (survivors ?p) q = (n, q1)" by fastforce
  show ?case
  proof (cases "t = c")
    case True
    obtain p where p: "k_pid t = Some p" using assms(2) by (auto simp: orphaned_def)
    have "requeued_row t \<in> set (qu_tasks q1)"
      using reconcile_own [OF Cons.prems(1) assms(2) p, of env] q1 True p by simp
    moreover have "t_id (requeued_row t) \<notin> t_id ` set cs"
      using Cons.prems(3) True by (simp add: requeued_row_def)
    ultimately show ?thesis using reconcile_claims_other q1 by (simp add: Let_def split: prod.split) (metis snd_conv)
  next
    case False
    then have t: "t \<in> set cs" "t_id t \<noteq> t_id c" using Cons.prems(2,3) by (auto simp: image_iff)
    have "t \<in> set (qu_tasks q1)" using reconcile_other [OF Cons.prems(1) t(2)] q1 by (metis snd_conv)
    then show ?thesis using Cons.IH [OF _ t(1)] Cons.prems(3) q1 by (simp add: Let_def split: prod.split) (metis snd_conv)
  qed
qed

text \<open>
  C21: one pass of the manager gives every orphaned task back to the queue, free to be claimed: an active
  task of a process that the manager does not keep, that is no longer the process that claimed it and
  has no surviving children.  Tasks that are not active or whose worker is managed are left alone.
\<close>

theorem orphaned_tasks_return_to_the_queue:
  assumes "tasks_distinct q" and "t \<in> set (qu_tasks q)"
  shows "(orphaned managed observe survivors t \<longrightarrow>
            t \<lparr> t_status := QUEUED, k_started := None, k_pid := None, k_pid_created := None \<rparr>
              \<in> set (qu_tasks (snd (reset_broken_tasks env managed observe survivors q)))) \<and>
    (t_status t \<noteq> ACTIVE \<or> (\<exists>p \<in> set managed. k_pid t = Some p) \<longrightarrow>
            t \<in> set (qu_tasks (snd (reset_broken_tasks env managed observe survivors q))))"
proof (intro conjI impI)
  have dist: "distinct (map t_id (unmanaged_claims managed q))"
    using assms(1) by (simp add: unmanaged_claims_def sel_def distinct_map_filter_key)
  assume orphan: "orphaned managed observe survivors t"
  then have "t \<in> set (unmanaged_claims managed q)"
    using assms(2) by (auto simp: unmanaged_claims_def sel_set orphaned_def)
  then show "t \<lparr> t_status := QUEUED, k_started := None, k_pid := None, k_pid_created := None \<rparr>
      \<in> set (qu_tasks (snd (reset_broken_tasks env managed observe survivors q)))"
    using reconcile_claims_own [OF assms(2) orphan _ dist] unfolding reset_broken_tasks_def requeued_row_def by blast
next
  assume other: "t_status t \<noteq> ACTIVE \<or> (\<exists>p \<in> set managed. k_pid t = Some p)"
  have "t_id t \<notin> t_id ` set (unmanaged_claims managed q)"
  proof
    assume "t_id t \<in> t_id ` set (unmanaged_claims managed q)"
    then obtain u where u: "u \<in> set (qu_tasks q)" "t_status u = ACTIVE" "k_pid u \<noteq> None"
        "the (k_pid u) \<notin> set managed" "t_id u = t_id t"
      by (auto simp: unmanaged_claims_def sel_set)
    then have "u = t" using assms by (auto dest: distinct_map_eq)
    then show False using u other by auto
  qed
  then show "t \<in> set (qu_tasks (snd (reset_broken_tasks env managed observe survivors q)))"
    unfolding reset_broken_tasks_def by (rule reconcile_claims_other [OF assms(2)])
qed

section \<open>The pool of workers\<close>

text \<open>\<open>self.workers\<close> is a dictionary from pids to workers, in the order of insertion.\<close>

record worker_process =
  wp_pid :: nat
  wp_started :: int
  wp_budget :: nat
  wp_pre_spawned :: bool
  wp_stopping :: bool

record manager =
  mg_min_workers :: nat
  mg_workers :: "worker_process list"
  mg_budget_index :: nat

definition WORKER_TASK_BUDGETS :: "nat list" where
  "WORKER_TASK_BUDGETS = [8, 14, 10, 16, 12]"

definition max_workers :: "manager \<Rightarrow> nat" where
  "max_workers m = 2 * mg_min_workers m"

definition active_worker_count :: "manager \<Rightarrow> nat" where
  "active_worker_count m = length (filter (\<lambda>w. \<not> wp_stopping w) (mg_workers m))"

definition set_worker :: "worker_process \<Rightarrow> worker_process list \<Rightarrow> worker_process list" where
  "set_worker w ws =
     (if list_ex (\<lambda>x. wp_pid x = wp_pid w) ws then map (\<lambda>x. if wp_pid x = wp_pid w then w else x) ws else ws @ [w])"

text \<open>\<open>pid\<close> is the process that the operating system starts, \<open>None\<close> when it starts none.\<close>

definition spawn_worker :: "int \<Rightarrow> nat option \<Rightarrow> manager \<Rightarrow> manager" where
  "spawn_worker now pid m =
     (if max_workers m \<le> length (mg_workers m) then m
      else (let budget = WORKER_TASK_BUDGETS ! (mg_budget_index m mod length WORKER_TASK_BUDGETS);
                m1 = m \<lparr> mg_budget_index := mg_budget_index m + 1 \<rparr> in
            case pid of
              None \<Rightarrow> m1
            | Some p \<Rightarrow> m1 \<lparr> mg_workers := set_worker
                \<lparr> wp_pid = p, wp_started = now, wp_budget = budget, wp_pre_spawned = False, wp_stopping = False \<rparr>
                (mg_workers m1) \<rparr>))"

lemma spawn_worker_length:
  "length (mg_workers (spawn_worker now pid m)) \<noteq> length (mg_workers m) \<Longrightarrow>
   length (mg_workers (spawn_worker now pid m)) = Suc (length (mg_workers m)) \<and>
   length (mg_workers m) < max_workers m \<and> max_workers (spawn_worker now pid m) = max_workers m"
  by (auto simp: spawn_worker_def set_worker_def max_workers_def Let_def split: option.splits if_splits)

text \<open>\<open>fork\<close> is what the operating system answers to a start in a given state of the pool.\<close>

function maintain_worker_pool :: "int \<Rightarrow> (manager \<Rightarrow> nat option) \<Rightarrow> manager \<Rightarrow> manager" where
  "maintain_worker_pool now fork m =
     (if mg_min_workers m \<le> active_worker_count m then m
      else (let m1 = spawn_worker now (fork m) m in
            if length (mg_workers m1) = length (mg_workers m) then m1 else maintain_worker_pool now fork m1))"
  by pat_completeness auto
termination
  by (relation "measure (\<lambda>(now, fork, m). max_workers m - length (mg_workers m))")
    (auto dest: spawn_worker_length)

declare maintain_worker_pool.simps [simp del]

text \<open>A worker in the last of the tasks it may run is given a successor.\<close>

definition tasks_of_worker :: "worker_process \<Rightarrow> TaskStatus list \<Rightarrow> task_queue \<Rightarrow> nat" where
  "tasks_of_worker w sts q =
     rowcount (\<lambda>t. k_pid t = Some (wp_pid w) \<and> t_status t \<in> set sts \<and>
       (case k_started t of None \<Rightarrow> False | Some s \<Rightarrow> wp_started w \<le> s)) (qu_tasks q)"

definition pre_spawn_replacement :: "int \<Rightarrow> nat option \<Rightarrow> worker_process \<Rightarrow> task_queue \<Rightarrow> manager \<Rightarrow> manager" where
  "pre_spawn_replacement now fork w q m =
     (if wp_pre_spawned w \<or> tasks_of_worker w [ACTIVE] q = 0
         \<or> tasks_of_worker w [COMPLETED, FAILED, BROKEN] q + 1 < wp_budget w then m
      else spawn_worker now fork
             (m \<lparr> mg_workers := map (\<lambda>x. if wp_pid x = wp_pid w then x \<lparr> wp_pre_spawned := True \<rparr> else x) (mg_workers m) \<rparr>))"

definition stop_worker_in_background :: "nat \<Rightarrow> manager \<Rightarrow> manager" where
  "stop_worker_in_background pid m =
     m \<lparr> mg_workers := map (\<lambda>x. if wp_pid x = pid then x \<lparr> wp_stopping := True \<rparr> else x) (mg_workers m) \<rparr>"

text \<open>
  One round of \<open>check_workers\<close>.  The operating system reports for every worker whether it runs, whether
  its memory is over the limit, and whether it exited when it was killed; a worker that exited is dropped.
\<close>

record observation =
  ob_running :: bool
  ob_over_memory :: bool
  ob_killed :: bool
  ob_fork :: "nat option"

definition check_worker ::
  "queue_env \<Rightarrow> observation \<Rightarrow> worker_process \<Rightarrow> task_queue \<times> manager \<times> nat list \<Rightarrow> task_queue \<times> manager \<times> nat list" where
  "check_worker env ob w s =
     (case s of (q, m, exited) \<Rightarrow>
        if \<not> ob_running ob then (q, m, exited @ [wp_pid w])
        else if wp_stopping w then s
        else (let q1 = (if ob_over_memory ob then end_task_of_large_worker env (wp_pid w) q else q) in
              if ob_over_memory ob \<and> ob_killed ob then (q1, m, exited @ [wp_pid w])
              else (let (stopped, q2) = check_task_duration env (wp_pid w) q1 in
                    if stopped then (q2, stop_worker_in_background (wp_pid w) m, exited)
                    else (q2, pre_spawn_replacement (qe_now env) (ob_fork ob) w q2 m, exited))))"

definition check_workers ::
  "queue_env \<Rightarrow> (nat \<Rightarrow> observation) \<Rightarrow> (manager \<Rightarrow> nat option) \<Rightarrow> (nat \<Rightarrow> int option py) \<Rightarrow> (nat \<Rightarrow> bool) \<Rightarrow>
   task_queue \<Rightarrow> manager \<Rightarrow> task_queue \<times> manager" where
  "check_workers env observe fork created survivors q m =
     (let (q1, m1, exited) = fold (\<lambda>w. check_worker env (observe (wp_pid w)) w) (mg_workers m) (q, m, []);
          m2 = m1 \<lparr> mg_workers := filter (\<lambda>w. wp_pid w \<notin> set exited) (mg_workers m1) \<rparr>;
          m3 = maintain_worker_pool (qe_now env) fork m2
      in (snd (reset_broken_tasks env (map wp_pid (mg_workers m3)) created survivors q1), m3))"

definition pool_bounded :: "manager \<Rightarrow> bool" where
  "pool_bounded m \<longleftrightarrow> length (mg_workers m) \<le> max_workers m"

text \<open>The pool is full when enough workers run or every slot, stopping workers included, is taken.\<close>

definition pool_full :: "manager \<Rightarrow> bool" where
  "pool_full m \<longleftrightarrow> mg_min_workers m \<le> active_worker_count m \<or> length (mg_workers m) = max_workers m"

definition fork_works :: "(manager \<Rightarrow> nat option) \<Rightarrow> bool" where
  "fork_works fork \<longleftrightarrow> (\<forall>m. \<exists>p. fork m = Some p \<and> p \<notin> wp_pid ` set (mg_workers m))"

lemma set_worker_length: "length (set_worker w ws) \<le> Suc (length ws)"
  by (simp add: set_worker_def)

lemma spawn_worker_min [simp]: "mg_min_workers (spawn_worker now pid m) = mg_min_workers m"
  by (simp add: spawn_worker_def Let_def split: option.split)

lemma spawn_worker_bounded: "pool_bounded m \<Longrightarrow> pool_bounded (spawn_worker now pid m)"
  using set_worker_length
  by (fastforce simp: pool_bounded_def spawn_worker_def max_workers_def Let_def split: option.split
      intro: order_trans)

lemma maintain_bounded:
  "pool_bounded m \<Longrightarrow> pool_bounded (maintain_worker_pool now fork m) \<and>
   mg_min_workers (maintain_worker_pool now fork m) = mg_min_workers m"
proof (induction now fork m rule: maintain_worker_pool.induct)
  case (1 now fork m)
  show ?case
    using 1 spawn_worker_bounded [OF "1.prems"]
    by (subst (1 2) maintain_worker_pool.simps) (auto simp: Let_def)
qed

lemma spawn_stuck:
  assumes "fork_works fork" and "pool_bounded m"
    and "length (mg_workers (spawn_worker now (fork m) m)) = length (mg_workers m)"
  shows "length (mg_workers m) = max_workers m"
proof (rule ccontr)
  assume "length (mg_workers m) \<noteq> max_workers m"
  then have "\<not> max_workers m \<le> length (mg_workers m)" using assms(2) by (simp add: pool_bounded_def)
  moreover obtain p where "fork m = Some p" "p \<notin> wp_pid ` set (mg_workers m)"
    using assms(1) unfolding fork_works_def by blast
  ultimately show False using assms(3)
    by (auto simp: spawn_worker_def set_worker_def Let_def list_ex_iff image_iff split: if_splits)
qed

lemma maintain_full:
  "fork_works fork \<Longrightarrow> pool_bounded m \<Longrightarrow> pool_full (maintain_worker_pool now fork m)"
proof (induction now fork m rule: maintain_worker_pool.induct)
  case (1 now fork m)
  show ?case
  proof (cases "mg_min_workers m \<le> active_worker_count m")
    case True
    then show ?thesis by (subst maintain_worker_pool.simps) (simp add: pool_full_def)
  next
    case False
    let ?m1 = "spawn_worker now (fork m) m"
    show ?thesis
    proof (cases "length (mg_workers ?m1) = length (mg_workers m)")
      case True
      then have "length (mg_workers m) = max_workers m" using spawn_stuck "1.prems" by blast
      then have "length (mg_workers ?m1) = max_workers ?m1" using True by (simp add: max_workers_def)
      then show ?thesis using False True by (subst maintain_worker_pool.simps) (simp add: Let_def pool_full_def)
    next
      case grown: False
      then have "pool_full (maintain_worker_pool now fork ?m1)"
        using "1.IH" [OF False refl grown "1.prems"(1)] spawn_worker_bounded [OF "1.prems"(2)] by blast
      then show ?thesis using False grown by (subst maintain_worker_pool.simps) (simp add: Let_def)
    qed
  qed
qed

lemma pre_spawn_bounded:
  assumes "pool_bounded m"
  shows "pool_bounded (pre_spawn_replacement now fork w q m) \<and>
    mg_min_workers (pre_spawn_replacement now fork w q m) = mg_min_workers m"
proof -
  have "pool_bounded (m \<lparr> mg_workers := map g (mg_workers m) \<rparr>)" for g
    using assms by (simp add: pool_bounded_def max_workers_def)
  then show ?thesis using assms by (simp add: pre_spawn_replacement_def spawn_worker_bounded)
qed

lemma stop_worker_bounded:
  "pool_bounded m \<Longrightarrow> pool_bounded (stop_worker_in_background pid m) \<and>
     mg_min_workers (stop_worker_in_background pid m) = mg_min_workers m"
  by (simp add: stop_worker_in_background_def pool_bounded_def max_workers_def)

lemma check_worker_manager:
  assumes "check_worker env ob w (q, m, ex) = (q', m', ex')"
  shows "m' = m \<or> m' = stop_worker_in_background (wp_pid w) m \<or>
    (\<exists>q. m' = pre_spawn_replacement (qe_now env) (ob_fork ob) w q m)"
  using assms by (auto simp: check_worker_def Let_def split: if_splits prod.splits)

lemma check_worker_bounded:
  assumes "check_worker env ob w (q, m, ex) = (q', m', ex')" and "pool_bounded m"
  shows "pool_bounded m' \<and> mg_min_workers m' = mg_min_workers m"
  using check_worker_manager [OF assms(1)]
proof (elim disjE exE)
  fix x assume "m' = pre_spawn_replacement (qe_now env) (ob_fork ob) w x m"
  then show ?thesis using pre_spawn_bounded [OF assms(2)] by simp
qed (use assms(2) stop_worker_bounded [OF assms(2)] in simp_all)

lemma check_fold_bounded:
  assumes "fold (\<lambda>w. check_worker env (observe (wp_pid w)) w) ws (q, m, ex) = (q', m', ex')" and "pool_bounded m"
  shows "pool_bounded m' \<and> mg_min_workers m' = mg_min_workers m"
  using assms
proof (induction ws arbitrary: q m ex)
  case Nil
  then show ?case by simp
next
  case (Cons w ws)
  obtain q1 m1 ex1 where one: "check_worker env (observe (wp_pid w)) w (q, m, ex) = (q1, m1, ex1)"
    by (rule prod_cases3)
  have "pool_bounded m1 \<and> mg_min_workers m1 = mg_min_workers m"
    by (rule check_worker_bounded [OF one Cons.prems(2)])
  then show ?case using Cons.IH [of q1 m1 ex1] Cons.prems(1) one by simp
qed

text \<open>
  C24: a round of the manager ends, with at most twice the configured number of workers; and if the
  operating system starts the processes it is asked for, enough workers run again afterwards, unless
  workers that are still being stopped take up all the slots.
\<close>

theorem a_round_refills_the_pool_within_bounds:
  assumes "pool_bounded m" and "check_workers env observe fork created survivors q m = (q', m')"
  shows "length (mg_workers m') \<le> 2 * mg_min_workers m \<and>
    (fork_works fork \<longrightarrow> mg_min_workers m \<le> active_worker_count m' \<or> length (mg_workers m') = 2 * mg_min_workers m)"
proof -
  obtain q1 m1 ex where round: "fold (\<lambda>w. check_worker env (observe (wp_pid w)) w) (mg_workers m) (q, m, []) = (q1, m1, ex)"
    by (rule prod_cases3)
  let ?m2 = "m1 \<lparr> mg_workers := filter (\<lambda>w. wp_pid w \<notin> set ex) (mg_workers m1) \<rparr>"
  have m': "m' = maintain_worker_pool (qe_now env) fork ?m2"
    using assms(2) round by (simp add: check_workers_def Let_def)
  have "pool_bounded m1" and min1: "mg_min_workers m1 = mg_min_workers m"
    using check_fold_bounded [OF round assms(1)] by simp_all
  then have m2: "pool_bounded ?m2"
    by (auto simp: pool_bounded_def max_workers_def intro: le_trans [OF length_filter_le])
  have "pool_bounded m'" and min': "mg_min_workers m' = mg_min_workers m"
    using maintain_bounded [OF m2, of "qe_now env" fork] min1 m' by simp_all
  moreover have "fork_works fork \<Longrightarrow> pool_full m'" using maintain_full [OF _ m2] m' by simp
  ultimately show ?thesis by (auto simp: pool_bounded_def pool_full_def max_workers_def)
qed

section \<open>A run\<close>

text \<open>A queued task is claimed by a worker, fails and is followed by a second claim that finds nothing.\<close>

definition plain_queue_env :: queue_env where
  "plain_queue_env =
     \<lparr> qe_now = 1000, qe_asf_distribution = False, qe_checker = (\<lambda>_. ''check''), qe_test_mode = False,
       qe_production = False, qe_ldap_configured = False \<rparr>"

definition empty_queue :: task_queue where
  "empty_queue = \<lparr> qu_tasks = [], qu_next_start = None, qu_checks = [], qu_notices = [], qu_log = [] \<rparr>"

definition wq0 :: task_queue where
  "wq0 = enqueue_task 20 MESSAGE_SEND ''alice'' None None None
           (enqueue_task 10 (TT_OTHER ''rat_check'') ''alice'' (Some ''alpha'') (Some ''1.0'') (Some ''00001'') empty_queue)"

definition wq1 :: task_queue where
  "wq1 = snd (task_next_claim 100 7 55 wq0)"

definition wq2 :: task_queue where
  "wq2 = task_process plain_queue_env 7 1 (TT_OTHER ''rat_check'') ''alice'' Account_ok (Raised ''no report'') wq1"

definition ws0 :: system where
  "ws0 = \<lparr> sy_q = wq0, sy_live = (\<lambda>_. None), sy_used = {}, sy_cur = (\<lambda>_. None), sy_claims = [], sy_dead = [] \<rparr>"

definition ws1 :: system where
  "ws1 = ws0 \<lparr> sy_live := (sy_live ws0)(7 \<mapsto> 55), sy_used := insert (7, 55) (sy_used ws0) \<rparr>"

definition ws2 :: system where
  "ws2 = ws1 \<lparr> sy_q := wq1, sy_cur := (sy_cur ws1)(7 \<mapsto> 1) \<rparr>"

definition ws3 :: system where
  "ws3 = ws2 \<lparr> sy_q := wq2, sy_cur := (sy_cur ws2)(7 := None) \<rparr>"

definition ws4 :: system where
  "ws4 = ws3 \<lparr> sy_live := (sy_live ws3)(7 := None), sy_cur := (sy_cur ws3)(7 := None) \<rparr>"

lemma wq_distinct: "tasks_distinct wq0" "tasks_distinct wq1"
  by code_simp+

lemma wq_claim: "\<exists>t. task_next_claim 100 7 55 wq0 = (Some t, wq1) \<and> t_id t = 1"
proof -
  have "map_option t_id (fst (task_next_claim 100 7 55 wq0)) = Some 1" by code_simp
  then obtain t where "fst (task_next_claim 100 7 55 wq0) = Some t" "t_id t = 1" by auto
  then show ?thesis by (intro exI [of _ t]) (simp add: wq1_def prod_eq_iff)
qed


lemma ws_initial: "initial ws0"
proof -
  have "\<forall>t \<in> set (qu_tasks wq0). t_status t \<noteq> ACTIVE" by code_simp
  then show ?thesis using wq_distinct by (simp add: initial_def ws0_def)
qed

lemma ws_steps: "work ws0 ws1" "work ws1 ws2" "work ws2 ws3" "work ws3 ws4"
proof -
  show "work ws0 ws1" unfolding ws1_def by (rule Start) (simp_all add: ws0_def)
  obtain t where t: "task_next_claim 100 7 55 wq0 = (Some t, wq1)" "t_id t = 1" using wq_claim by blast
  have "work ws1 (ws1 \<lparr> sy_q := wq1, sy_cur := (sy_cur ws1)(7 \<mapsto> t_id t) \<rparr>)"
    by (rule Claim [where c = 55 and now = 100]) (simp_all add: ws1_def ws0_def t(1))
  then show "work ws1 ws2" using t(2) by (simp add: ws2_def)
  have "work ws2 (ws2 \<lparr> sy_q := task_process plain_queue_env 7 1 (TT_OTHER ''rat_check'') ''alice'' Account_ok
      (Raised ''no report'') (sy_q ws2), sy_cur := (sy_cur ws2)(7 := None) \<rparr>)"
    by (rule Process) (simp add: ws2_def)
  then show "work ws2 ws3" by (simp add: ws3_def ws2_def wq2_def)
  show "work ws3 ws4" unfolding ws4_def by (rule Die)
qed

lemma ws_runs: "work\<^sup>*\<^sup>* ws0 ws2" "work\<^sup>*\<^sup>* ws0 ws3" "work\<^sup>*\<^sup>* ws3 ws4"
  using ws_steps by (meson rtranclp.rtrancl_refl rtranclp.rtrancl_into_rtrancl)+

theorem no_task_runs_twice_at_once_witness:
  "sy_cur ws2 7 = Some 1 \<and> (\<exists>t \<in> set (qu_tasks wq1). t_id t = 1 \<and> k_pid t = Some 7 \<or> t_status t = FAILED \<or> t_status t = BROKEN)"
proof
  show cur: "sy_cur ws2 7 = Some 1" by (simp add: ws2_def)
  have "sy_q ws2 = wq1" by (simp add: ws2_def)
  then show "\<exists>t \<in> set (qu_tasks wq1). t_id t = 1 \<and> k_pid t = Some 7 \<or> t_status t = FAILED \<or> t_status t = BROKEN"
    using no_task_runs_twice_at_once [OF ws_initial ws_runs(1)] cur by metis
qed


theorem orphaned_tasks_return_to_the_queue_witness:
  "\<exists>t \<in> set (qu_tasks (snd (reset_broken_tasks plain_queue_env [] (\<lambda>_. Inr None) (\<lambda>_. False) wq1))).
     t_id t = 1 \<and> t_status t = QUEUED \<and> k_pid t = None"
proof -
  have "\<exists>t \<in> set (qu_tasks wq1). t_id t = 1 \<and> t_status t = ACTIVE \<and> k_pid t = Some 7" by code_simp
  then obtain t where t: "t \<in> set (qu_tasks wq1)" "t_id t = 1" "t_status t = ACTIVE" "k_pid t = Some 7" by blast
  have "orphaned [] (\<lambda>_. Inr None) (\<lambda>_. False) t" using t by (simp add: orphaned_def claimant_alive_def split: option.split)
  then have "t \<lparr> t_status := QUEUED, k_started := None, k_pid := None, k_pid_created := None \<rparr>
      \<in> set (qu_tasks (snd (reset_broken_tasks plain_queue_env [] (\<lambda>_. Inr None) (\<lambda>_. False) wq1)))"
    using orphaned_tasks_return_to_the_queue [OF wq_distinct(2) t(1)] by blast
  then show ?thesis using t(2) by (intro bexI) simp_all
qed

definition young_manager :: manager where
  "young_manager = \<lparr> mg_min_workers = 2, mg_workers = [], mg_budget_index = 0 \<rparr>"

definition next_pid :: "manager \<Rightarrow> nat option" where
  "next_pid m = Some (Suc (fold max (map wp_pid (mg_workers m)) 0))"

lemma next_pid_works: "fork_works next_pid"
proof -
  have "Suc (fold max (map wp_pid ws) 0) \<notin> wp_pid ` set ws" for ws :: "worker_process list"
    using fold_max_ge(1) [of _ "map wp_pid ws" 0] by (metis Suc_n_not_le_n list.set_map)
  then show ?thesis by (simp add: fork_works_def next_pid_def)
qed

definition calm :: observation where
  "calm = \<lparr> ob_running = True, ob_over_memory = False, ob_killed = False, ob_fork = None \<rparr>"

theorem a_round_refills_the_pool_within_bounds_witness:
  "\<exists>q' m'. check_workers plain_queue_env (\<lambda>_. calm) next_pid (\<lambda>_. Inr None) (\<lambda>_. False) wq0 young_manager = (q', m') \<and>
     length (mg_workers m') \<le> 4 \<and> (2 \<le> active_worker_count m' \<or> length (mg_workers m') = 4)"
proof -
  obtain q' m' where run: "check_workers plain_queue_env (\<lambda>_. calm) next_pid (\<lambda>_. Inr None) (\<lambda>_. False) wq0 young_manager = (q', m')"
    by fastforce
  have "pool_bounded young_manager" by (simp add: pool_bounded_def young_manager_def)
  from a_round_refills_the_pool_within_bounds [OF this run] next_pid_works run
  show ?thesis by (simp add: young_manager_def)
qed

end
