(* ===== verification/Safe.thy ===== *)
theory Safe
  imports PyStr "HOL-Library.List_Lexorder" "HOL-Library.Char_ord"
begin

text \<open>
  src/atr/models/safe.py: the validated string types and \<open>StatePath\<close>.

  The part of \<open>pathlib\<close> the code relies on (POSIX flavour) comes first: a pure path is its root and
  the list of its segments.  \<open>Path.resolve\<close> reads the file system, so it is a parameter \<open>rs\<close> of the
  operations that call it; \<open>lexical\<close> is what it does where no segment is a symbolic link.
  \<open>mk_safe\<close> is the constructor shared by the classes of validated strings, \<open>mk_state\<close> that of
  \<open>StatePath\<close>.  The second half shows what a validated value looks like and that no chain of derived
  paths leaves the managed root.
\<close>

section \<open>Pure paths\<close>

record pure_path =
  pp_root :: string
  pp_tail :: "string list"

definition path_parse :: "string \<Rightarrow> pure_path" where
  "path_parse s =
     \<lparr> pp_root = (if startswith s ''//'' \<and> \<not> startswith s ''///'' then ''//'' else if startswith s ''/'' then ''/'' else ''''),
       pp_tail = filter (\<lambda>w. w \<noteq> [] \<and> w \<noteq> ''.'') (split_on (CHR ''/'') s) \<rparr>"

definition path_str :: "pure_path \<Rightarrow> string" where
  "path_str p = (if pp_root p = [] \<and> pp_tail p = [] then ''.'' else pp_root p @ join ''/'' (pp_tail p))"

definition path_parts :: "pure_path \<Rightarrow> string list" where
  "path_parts p = (if pp_root p = [] then pp_tail p else pp_root p # pp_tail p)"

definition path_is_absolute :: "pure_path \<Rightarrow> bool" where
  "path_is_absolute p = (pp_root p \<noteq> [])"

definition path_name :: "pure_path \<Rightarrow> string" where
  "path_name p = (if pp_tail p = [] then [] else last (pp_tail p))"

definition path_parent :: "pure_path \<Rightarrow> pure_path" where
  "path_parent p = p \<lparr> pp_tail := butlast (pp_tail p) \<rparr>"

text \<open>\<open>p / q\<close>: an absolute right operand replaces the left one.\<close>

definition path_join :: "pure_path \<Rightarrow> pure_path \<Rightarrow> pure_path" where
  "path_join p q = (if path_is_absolute q then q else p \<lparr> pp_tail := pp_tail p @ pp_tail q \<rparr>)"

definition is_relative_to :: "pure_path \<Rightarrow> pure_path \<Rightarrow> bool" where
  "is_relative_to p q = (pp_root p = pp_root q \<and> take (length (pp_tail q)) (pp_tail p) = pp_tail q)"

text \<open>
  \<open>PureWindowsPath(s).is_absolute()\<close>: a share or device (two separators), or a drive and a root.
  The normalisation done before keeps a leading drive and root.
\<close>

definition windows_is_absolute :: "string \<Rightarrow> bool" where
  "windows_is_absolute s =
     (let bs = char_of (92 :: nat); t = map (\<lambda>c. if c = CHR ''/'' then bs else c) (take 3 s)
      in startswith (drop 1 t) [CHR '':'', bs] \<or> startswith t [bs, bs])"

text \<open>\<open>resolve\<close> without symbolic links: \<open>..\<close> drops the segment before it, at the root nothing.\<close>

definition collapse :: "string list \<Rightarrow> string list" where
  "collapse ws = fold (\<lambda>w acc. if w = ''..'' then butlast acc else acc @ [w]) ws []"

definition lexical :: "pure_path \<Rightarrow> pure_path" where
  "lexical p = p \<lparr> pp_tail := collapse (pp_tail p) \<rparr>"

section \<open>Validated strings\<close>

datatype safe_class =
    Alphanumeric | OwnerNamespace | AsfUid | CommitHash | CommitteeKey | Numeric | ProjectKey | ReleaseKey
  | RelPath | RelDirPath | RevisionNumber | VersionKey

record safe =
  s_class :: safe_class
  s_value :: string

definition ascii_lowercase :: string where
  "ascii_lowercase = ''abcdefghijklmnopqrstuvwxyz''"

definition ascii_letters :: string where
  "ascii_letters = ascii_lowercase @ ''ABCDEFGHIJKLMNOPQRSTUVWXYZ''"

definition digits :: string where
  "digits = ''0123456789''"

definition ALPHANUM :: string where
  "ALPHANUM = ascii_letters @ digits @ ''-''"

definition HEX_LOWER :: string where
  "HEX_LOWER = digits @ ''abcdef''"

definition ASF_UID_CHARS :: string where
  "ASF_UID_CHARS = ascii_lowercase @ digits @ ''-_''"

definition PATH_CHARS :: string where
  "PATH_CHARS = ascii_letters @ digits @ ''-._+~/()''"

definition OWNER_NAMESPACE_CHARS :: string where
  "OWNER_NAMESPACE_CHARS = ALPHANUM @ ''.''"

definition VERSION_CHARS :: string where
  "VERSION_CHARS = ALPHANUM @ ''.+''"

definition MAX_VERSION_LENGTH :: nat where
  "MAX_VERSION_LENGTH = 128"

fun valid_chars :: "safe_class \<Rightarrow> string" where
  "valid_chars Alphanumeric = ALPHANUM"
| "valid_chars OwnerNamespace = OWNER_NAMESPACE_CHARS"
| "valid_chars AsfUid = ASF_UID_CHARS"
| "valid_chars CommitHash = HEX_LOWER"
| "valid_chars CommitteeKey = ALPHANUM"
| "valid_chars Numeric = digits"
| "valid_chars ProjectKey = ALPHANUM"
| "valid_chars ReleaseKey = VERSION_CHARS"
| "valid_chars RelPath = PATH_CHARS"
| "valid_chars RelDirPath = PATH_CHARS"
| "valid_chars RevisionNumber = digits"
| "valid_chars VersionKey = VERSION_CHARS"

text \<open>
  \<open>unicodedata\<close> on characters below 256: every one is its own composed form, the control and format
  characters are 0 to 31, 127 to 159 and 173, and none is a combining mark.
\<close>

definition is_control :: "char \<Rightarrow> bool" where
  "is_control c = (let n = (of_char c :: nat) in n < 32 \<or> (127 \<le> n \<and> n \<le> 159) \<or> n = 173)"

definition assert_standard_safe_syntax :: "string \<Rightarrow> unit py" where
  "assert_standard_safe_syntax s =
     guardE (\<not> list_ex is_control s) (ValueError ''Value contains disallowed control/format character'')"

fun check_segments :: "string list \<Rightarrow> unit py" where
  "check_segments [] = Inr ()"
| "check_segments (w # ws) =
     (if w = ''.'' \<or> w = ''..'' then Inl (ValueError ''Path cannot contain directory traversal'')
      else if w = ''.git'' \<or> w = ''.svn'' then Inl (ValueError ''Path cannot contain SCM directories'')
      else if startswith w ''.'' \<and> \<not> startswith w ''.atr'' \<and> w \<noteq> ''.gitkeep''
      then Inl (ValueError ''Path cannot contain dotfiles'')
      else check_segments ws)"

definition check_rel_path :: "string \<Rightarrow> unit py" where
  "check_rel_path s =
     (if path_is_absolute (path_parse s) \<or> windows_is_absolute s
      then Inl (ValueError ''Absolute paths are not allowed'')
      else if occurs ''//'' s then Inl (ValueError ''Path cannot contain empty segments'')
      else if ''.'' \<in> set (split_on (CHR ''/'') s) then Inl (ValueError ''Path cannot contain directory traversal'')
      else check_segments (path_parts (path_parse s)))"

fun additional_validations :: "safe_class \<Rightarrow> string \<Rightarrow> unit py" where
  "additional_validations AsfUid s =
     (if length s < 3 then Inl (ValueError ''ASF UID must be at least 3 characters'')
      else guardE (hd s \<in> set ascii_lowercase) (ValueError ''ASF UID must start with a lowercase letter''))"
| "additional_validations CommitHash s =
     guardE (length s = 40) (ValueError ''A commit hash must be exactly 40 hexadecimal characters'')"
| "additional_validations ProjectKey s =
     guardE (s = lower s) (ValueError ''Project key must be lowercase'')"
| "additional_validations RelPath s = check_rel_path s"
| "additional_validations RelDirPath s = (if s = ''.'' then Inr () else check_rel_path s)"
| "additional_validations VersionKey s =
     (if MAX_VERSION_LENGTH < length s then Inl (ValueError ''A version should be at most 128 characters'')
      else if hd s \<notin> set ALPHANUM then Inl (ValueError ''A version should start with an alphanumeric character'')
      else guardE (last s \<in> set ALPHANUM) (ValueError ''A version should end with an alphanumeric character''))"
| "additional_validations _ s = Inr ()"

definition mk_safe :: "safe_class \<Rightarrow> string \<Rightarrow> safe py" where
  "mk_safe c s =
     (if s = [] then Inl (ValueError ''cannot be empty'')
      else bindE (assert_standard_safe_syntax s) (\<lambda>_.
        if \<not> set s \<subseteq> set (valid_chars c) then Inl (ValueError ''contains invalid characters'')
        else bindE (additional_validations c s) (\<lambda>_. Inr \<lparr> s_class = c, s_value = s \<rparr>)))"

section \<open>The operations of RelPath\<close>

definition as_path :: "safe \<Rightarrow> pure_path" where
  "as_path v = path_parse (s_value v)"

definition from_path :: "pure_path \<Rightarrow> safe py" where
  "from_path p = mk_safe RelPath (path_str p)"

definition rel_append :: "safe \<Rightarrow> string \<Rightarrow> safe py" where
  "rel_append v p = mk_safe RelPath (s_value v @ ''/'' @ p)"

definition rel_prepend :: "safe \<Rightarrow> string \<Rightarrow> safe py" where
  "rel_prepend v p = mk_safe RelPath (p @ ''/'' @ s_value v)"

definition rel_removeprefix :: "safe \<Rightarrow> string \<Rightarrow> safe py" where
  "rel_removeprefix v p = mk_safe RelPath (removeprefix (s_value v) p)"

text \<open>Pure paths compare by the segments of their text.\<close>

definition path_sort_key :: "pure_path \<Rightarrow> string list" where
  "path_sort_key p = split_on (CHR ''/'') (path_str p)"

definition rel_lt :: "safe \<Rightarrow> safe \<Rightarrow> bool" where
  "rel_lt v w = (path_sort_key (as_path v) < path_sort_key (as_path w))"

definition rel_le :: "safe \<Rightarrow> safe \<Rightarrow> bool" where
  "rel_le v w = (path_sort_key (as_path v) \<le> path_sort_key (as_path w))"

definition safe_eq :: "safe \<Rightarrow> safe \<Rightarrow> bool" where
  "safe_eq v w =
     ((s_class v = s_class w \<or> {s_class v, s_class w} \<in> {{RelPath, RelDirPath}, {Alphanumeric, CommitteeKey},
        {Alphanumeric, ReleaseKey}, {Alphanumeric, VersionKey}, {Numeric, RevisionNumber}})
      \<and> s_value v = s_value w)"

section \<open>Optional values\<close>

definition empty_to_none :: "string \<Rightarrow> string option" where
  "empty_to_none s = (if s = [] then None else Some s)"

definition lower_or_none :: "string \<Rightarrow> string option" where
  "lower_or_none s = (let t = lower (strip s) in if t = [] then None else Some t)"

definition strip_slashes_or_none :: "string \<Rightarrow> string option" where
  "strip_slashes_or_none s = (let t = strip_chars ''/'' s in if t = [] then None else Some t)"

definition optional_safe :: "(string \<Rightarrow> string option) \<Rightarrow> safe_class \<Rightarrow> string \<Rightarrow> safe option py" where
  "optional_safe before c s =
     (case before s of None \<Rightarrow> Inr None | Some t \<Rightarrow> bindE (mk_safe c t) (\<lambda>v. Inr (Some v)))"

definition OptionalAlphanumeric :: "string \<Rightarrow> safe option py" where
  "OptionalAlphanumeric = optional_safe strip_slashes_or_none Alphanumeric"

definition OptionalCommitHash :: "string \<Rightarrow> safe option py" where
  "OptionalCommitHash = optional_safe lower_or_none CommitHash"

definition OptionalOwnerNamespace :: "string \<Rightarrow> safe option py" where
  "OptionalOwnerNamespace = optional_safe strip_slashes_or_none OwnerNamespace"

definition OptionalRelPath :: "string \<Rightarrow> safe option py" where
  "OptionalRelPath = optional_safe strip_slashes_or_none RelPath"

definition OptionalRevisionNumber :: "string \<Rightarrow> safe option py" where
  "OptionalRevisionNumber = optional_safe empty_to_none RevisionNumber"

definition OptionalVersionKey :: "string \<Rightarrow> safe option py" where
  "OptionalVersionKey = optional_safe empty_to_none VersionKey"

section \<open>StatePath\<close>

record state_path =
  sp_path :: pure_path
  sp_root :: pure_path

definition mk_state :: "(pure_path \<Rightarrow> pure_path) \<Rightarrow> pure_path \<Rightarrow> pure_path option \<Rightarrow> state_path py" where
  "mk_state rs path root =
     (if \<not> path_is_absolute path then Inl (ValueError ''Path must be absolute'')
      else (let resolved = rs path; r = (case root of None \<Rightarrow> path | Some r \<Rightarrow> r) in
        if \<not> is_relative_to resolved (rs r) then Inl (ValueError ''Path is not within managed root'')
        else Inr \<lparr> sp_path = path, sp_root = r \<rparr>))"

datatype operand = Text string | Safe safe

definition state_div :: "(pure_path \<Rightarrow> pure_path) \<Rightarrow> state_path \<Rightarrow> operand \<Rightarrow> state_path py" where
  "state_div rs p x =
     bindE (case x of Safe v \<Rightarrow> Inr v | Text s \<Rightarrow> mk_safe RelPath s) (\<lambda>v.
       mk_state rs (path_join (sp_path p) (path_parse (s_value v))) (Some (sp_root p)))"

definition state_parent :: "(pure_path \<Rightarrow> pure_path) \<Rightarrow> state_path \<Rightarrow> state_path py" where
  "state_parent rs p = mk_state rs (path_parent (sp_path p)) (Some (sp_root p))"

definition state_name :: "state_path \<Rightarrow> string" where
  "state_name p = path_name (sp_path p)"

text \<open>The stored form: the object written by the serializer, or the text of a path.\<close>

datatype state_json = JText string | JPaths string string

definition state_serialize :: "state_path \<Rightarrow> state_json" where
  "state_serialize p = JPaths (path_str (sp_path p)) (path_str (sp_root p))"

fun state_validate :: "(pure_path \<Rightarrow> pure_path) \<Rightarrow> state_json \<Rightarrow> state_path py" where
  "state_validate rs (JText s) = mk_state rs (path_parse s) None"
| "state_validate rs (JPaths p r) = mk_state rs (path_parse p) (Some (path_parse r))"

text \<open>A path derived from \<open>p\<close> by a chain of \<open>/\<close> and \<open>.parent\<close>.\<close>

datatype path_step = Div operand | Parent

fun derive :: "(pure_path \<Rightarrow> pure_path) \<Rightarrow> state_path \<Rightarrow> path_step list \<Rightarrow> state_path py" where
  "derive rs p [] = Inr p"
| "derive rs p (Div x # xs) = bindE (state_div rs p x) (\<lambda>q. derive rs q xs)"
| "derive rs p (Parent # xs) = bindE (state_parent rs p) (\<lambda>q. derive rs q xs)"

section \<open>What a validated value is\<close>

lemma mk_safe_Inr:
  "mk_safe c s = Inr v \<longleftrightarrow>
     s \<noteq> [] \<and> \<not> list_ex is_control s \<and> set s \<subseteq> set (valid_chars c) \<and> additional_validations c s = Inr () \<and>
     v = \<lparr> s_class = c, s_value = s \<rparr>"
  by (auto simp: mk_safe_def assert_standard_safe_syntax_def bindE_Inr_iff split: if_splits)

definition good_segment :: "string \<Rightarrow> bool" where
  "good_segment w =
     (w \<notin> {'''', ''.'', ''..'', ''.git'', ''.svn''} \<and> CHR ''/'' \<notin> set w \<and>
      (startswith w ''.'' \<longrightarrow> startswith w ''.atr'' \<or> w = ''.gitkeep''))"

lemma check_segments_Inr:
  "check_segments ws = Inr () \<longleftrightarrow>
     (\<forall>w \<in> set ws. w \<notin> {''.'', ''..'', ''.git'', ''.svn''} \<and>
        (startswith w ''.'' \<longrightarrow> startswith w ''.atr'' \<or> w = ''.gitkeep''))"
  by (induction ws rule: check_segments.induct) auto

lemma path_parse_tail: "w \<in> set (pp_tail (path_parse s)) \<Longrightarrow> w \<noteq> [] \<and> w \<noteq> ''.'' \<and> CHR ''/'' \<notin> set w"
  by (auto simp: path_parse_def dest: split_on_parts)

lemma relative_root: "\<not> path_is_absolute (path_parse s) \<longleftrightarrow> pp_root (path_parse s) = []"
  by (simp add: path_is_absolute_def)

lemma check_rel_path_segments:
  assumes "check_rel_path s = Inr ()"
  shows "pp_root (path_parse s) = [] \<and> list_all good_segment (pp_tail (path_parse s))"
proof -
  have root: "pp_root (path_parse s) = []"
    using assms by (auto simp: check_rel_path_def relative_root split: if_splits)
  have "check_segments (pp_tail (path_parse s)) = Inr ()"
    using assms root by (auto simp: check_rel_path_def path_parts_def split: if_splits)
  then show ?thesis
    using root path_parse_tail [of _ s] by (auto simp: check_segments_Inr list_all_iff good_segment_def)
qed

lemma no_separator: "c \<notin> {RelPath, RelDirPath} \<Longrightarrow> CHR ''/'' \<notin> set (valid_chars c)"
  by (cases c)
    (simp_all add: ALPHANUM_def OWNER_NAMESPACE_CHARS_def ASF_UID_CHARS_def HEX_LOWER_def digits_def
      VERSION_CHARS_def ascii_letters_def ascii_lowercase_def)

lemma no_full_stop:
  "c \<in> {Alphanumeric, AsfUid, CommitHash, CommitteeKey, Numeric, ProjectKey, RevisionNumber} \<Longrightarrow>
     CHR ''.'' \<notin> set (valid_chars c)"
  by (cases c)
    (simp_all add: ALPHANUM_def ASF_UID_CHARS_def HEX_LOWER_def digits_def ascii_letters_def ascii_lowercase_def)

lemma full_stop_not_alphanum: "CHR ''.'' \<notin> set ALPHANUM"
  by (simp add: ALPHANUM_def digits_def ascii_letters_def ascii_lowercase_def)

text \<open>The classes whose values may be \<open>..\<close> are the two that allow full stops anywhere.\<close>

definition plain_class :: "safe_class \<Rightarrow> bool" where
  "plain_class c = (c \<notin> {ReleaseKey, OwnerNamespace})"

lemma key_parse:
  assumes "CHR ''/'' \<notin> set s" and "s \<noteq> []" and "s \<noteq> ''.''"
  shows "path_parse s = \<lparr> pp_root = [], pp_tail = [s] \<rparr>"
proof -
  have "\<not> startswith s ''/''" using assms(1,2) by (cases s) auto
  moreover from this have "\<not> startswith s ''//''" by (cases s) auto
  ultimately show ?thesis using assms by (simp add: path_parse_def split_on_no_sep)
qed

lemma key_first_char:
  assumes "mk_safe c s = Inr v" and "c \<notin> {RelPath, RelDirPath}" and "plain_class c"
  shows "hd s \<noteq> CHR ''.''"
proof (cases "c = VersionKey")
  case True
  then have "hd s \<in> set ALPHANUM" using assms(1) by (auto simp: mk_safe_Inr split: if_splits)
  then show ?thesis using full_stop_not_alphanum by metis
next
  case False
  then have "c \<in> {Alphanumeric, AsfUid, CommitHash, CommitteeKey, Numeric, ProjectKey, RevisionNumber}"
    using assms(2,3) by (cases c) (auto simp: plain_class_def)
  then have "CHR ''.'' \<notin> set s" using no_full_stop assms(1) unfolding mk_safe_Inr by blast
  moreover have "s \<noteq> []" using assms(1) by (simp add: mk_safe_Inr)
  ultimately show ?thesis by (metis list.set_sel(1))
qed

lemma key_is_one_segment:
  assumes "mk_safe c s = Inr v" and "c \<notin> {RelPath, RelDirPath}" and "plain_class c"
  shows "path_parse s = \<lparr> pp_root = [], pp_tail = [s] \<rparr> \<and> good_segment s"
proof -
  have s: "s \<noteq> []" "CHR ''/'' \<notin> set s"
    using assms(1) no_separator [OF assms(2)] unfolding mk_safe_Inr by blast+
  have h: "hd s \<noteq> CHR ''.''" by (rule key_first_char [OF assms])
  then have "path_parse s = \<lparr> pp_root = [], pp_tail = [s] \<rparr>" by (intro key_parse) (use s in auto)
  moreover have "good_segment s" using s h by (cases s) (auto simp: good_segment_def)
  ultimately show ?thesis by simp
qed

lemma safe_segments:
  assumes "mk_safe c s = Inr v" and "plain_class c"
  shows "pp_root (path_parse s) = [] \<and> list_all good_segment (pp_tail (path_parse s))"
proof (cases "c \<in> {RelPath, RelDirPath}")
  case True
  show ?thesis
  proof (cases "s = ''.''")
    case dot: True
    show ?thesis unfolding dot by (simp add: path_parse_def)
  next
    case False
    then have "check_rel_path s = Inr ()" using True assms(1) by (auto simp: mk_safe_Inr)
    then show ?thesis by (rule check_rel_path_segments)
  qed
next
  case False
  then show ?thesis using key_is_one_segment [OF assms(1) _ assms(2)] by simp
qed

section \<open>Derived paths\<close>

lemma collapse_snoc: "collapse (ws @ [w]) = (if w = ''..'' then butlast (collapse ws) else collapse ws @ [w])"
  by (simp add: collapse_def)

lemma collapse_id: "''..'' \<notin> set ws \<Longrightarrow> collapse ws = ws"
  by (induction ws rule: rev_induct) (auto simp: collapse_snoc, simp add: collapse_def)

lemma mk_state_Inr:
  "mk_state rs path root = Inr p \<longleftrightarrow>
     path_is_absolute path \<and> is_relative_to (rs path) (rs (case root of None \<Rightarrow> path | Some r \<Rightarrow> r)) \<and>
     p = \<lparr> sp_path = path, sp_root = (case root of None \<Rightarrow> path | Some r \<Rightarrow> r) \<rparr>"
  by (auto simp: mk_state_def Let_def)

lemma derive_resolved:
  assumes "derive rs p xs = Inr q"
    and "path_is_absolute (sp_path p)" and "is_relative_to (rs (sp_path p)) (rs (sp_root p))"
  shows "sp_root q = sp_root p \<and> path_is_absolute (sp_path q) \<and> is_relative_to (rs (sp_path q)) (rs (sp_root p))"
  using assms
proof (induction rs p xs rule: derive.induct)
  case (2 rs p x xs)
  then show ?case by (fastforce simp: state_div_def mk_state_Inr)
next
  case (3 rs p xs)
  then show ?case by (fastforce simp: state_parent_def mk_state_Inr)
qed simp

fun plain_step :: "path_step \<Rightarrow> bool" where
  "plain_step (Div (Safe v)) = (plain_class (s_class v) \<and> mk_safe (s_class v) (s_value v) = Inr v)"
| "plain_step (Div (Text s)) = True"
| "plain_step Parent = True"

text \<open>\<open>below r p\<close>: the path is the root followed by safe segments, with nothing to resolve.\<close>

definition below :: "pure_path \<Rightarrow> pure_path \<Rightarrow> bool" where
  "below r p = (\<exists>ws. p = r \<lparr> pp_tail := pp_tail r @ ws \<rparr> \<and> list_all good_segment ws)"

lemma below_refl: "below r r"
  unfolding below_def by (rule exI [of _ "[]"]) simp

lemma below_div:
  assumes "below (sp_root p) (sp_path p)" and "plain_step (Div x)" and "state_div lexical p x = Inr q"
  shows "sp_root q = sp_root p \<and> below (sp_root p) (sp_path q)"
proof -
  obtain v where v: "(case x of Safe v \<Rightarrow> Inr v | Text s \<Rightarrow> mk_safe RelPath s) = Inr v"
    and q: "q = \<lparr> sp_path = path_join (sp_path p) (path_parse (s_value v)), sp_root = sp_root p \<rparr>"
    using assms(3) by (auto simp: state_div_def mk_state_Inr)
  have "mk_safe (s_class v) (s_value v) = Inr v \<and> plain_class (s_class v)"
    using v assms(2) by (cases x) (auto simp: mk_safe_Inr plain_class_def)
  then have "pp_root (path_parse (s_value v)) = []" and "list_all good_segment (pp_tail (path_parse (s_value v)))"
    using safe_segments by blast+
  then show ?thesis using assms(1) by (auto simp: q below_def path_join_def path_is_absolute_def)
qed

lemma below_parent:
  assumes "below (sp_root s) (sp_path s)" and "''..'' \<notin> set (pp_tail (sp_root s))"
    and "state_parent lexical s = Inr q"
  shows "sp_root q = sp_root s \<and> below (sp_root s) (sp_path q)"
proof -
  let ?r = "sp_root s" and ?p = "sp_path s"
  obtain ws where p: "?p = ?r \<lparr> pp_tail := pp_tail ?r @ ws \<rparr>" and ws: "list_all good_segment ws"
    using assms(1) by (auto simp: below_def)
  have q: "q = \<lparr> sp_path = path_parent ?p, sp_root = ?r \<rparr>" and rel: "is_relative_to (lexical (path_parent ?p)) (lexical ?r)"
    using assms(3) by (auto simp: state_parent_def mk_state_Inr)
  show ?thesis
  proof (cases "ws = []")
    case False
    then have "path_parent ?p = ?r \<lparr> pp_tail := pp_tail ?r @ butlast ws \<rparr>" by (simp add: p path_parent_def butlast_append)
    moreover have "list_all good_segment (butlast ws)" using ws by (meson in_set_butlastD list_all_iff)
    ultimately show ?thesis by (auto simp: q below_def)
  next
    case True
    have "''..'' \<notin> set (butlast (pp_tail ?r))" using assms(2) by (meson in_set_butlastD)
    then have "length (pp_tail ?r) \<le> length (butlast (pp_tail ?r))"
      using rel assms(2) True
      by (auto simp: is_relative_to_def lexical_def path_parent_def p collapse_id dest: arg_cong [of _ _ length])
    then have "pp_tail ?r = []" by (cases "pp_tail ?r" rule: rev_cases) auto
    then have "path_parent ?p = ?r" using True by (simp add: p path_parent_def)
    then show ?thesis by (simp add: q below_refl)
  qed
qed

lemma derive_below:
  assumes "derive lexical p xs = Inr q" and "list_all plain_step xs"
    and "''..'' \<notin> set (pp_tail (sp_root p))" and "below (sp_root p) (sp_path p)"
  shows "sp_root q = sp_root p \<and> below (sp_root p) (sp_path q)"
  using assms
proof (induction lexical p xs rule: derive.induct)
  case (2 p x xs)
  obtain p1 where p1: "state_div lexical p x = Inr p1" "derive lexical p1 xs = Inr q" using 2(2) by auto
  then have "sp_root p1 = sp_root p \<and> below (sp_root p) (sp_path p1)"
    using below_div [of p x p1] 2(3,5) by simp
  then show ?case using 2(1) [OF p1(2)] 2(3,4) by auto
next
  case (3 p xs)
  obtain p1 where p1: "state_parent lexical p = Inr p1" "derive lexical p1 xs = Inr q" using 3(2) by auto
  then have "sp_root p1 = sp_root p \<and> below (sp_root p) (sp_path p1)"
    using below_parent [of p p1] 3(4,5) by simp
  then show ?case using 3(1) [OF p1(2)] 3(3,4) by auto
qed simp

text \<open>
  C26: A path derived from a managed directory by any chain of \<open>/\<close> and \<open>.parent\<close> keeps that directory
  as its root and, whatever the file system resolves it to, resolves inside the resolved root.
  Moreover, when nothing on the way is a symbolic link and every operand is a text or a validated
  value other than a release key or an owner namespace, the path is the directory followed by safe
  segments: none is \<open>..\<close>, an SCM directory or a dotfile outside the \<open>.atr\<close> family.
\<close>

theorem derived_paths_stay_inside:
  assumes "mk_state rs dir None = Inr p" and "derive rs p xs = Inr q"
  shows "sp_root q = dir \<and> is_relative_to (rs (sp_path q)) (rs dir) \<and>
    (rs = lexical \<and> ''..'' \<notin> set (pp_tail dir) \<and> list_all plain_step xs \<longrightarrow> below dir (sp_path q))"
proof -
  have p: "sp_path p = dir" "sp_root p = dir" "path_is_absolute dir" "is_relative_to (rs dir) (rs dir)"
    using assms(1) by (auto simp: mk_state_Inr)
  have "below dir (sp_path q)" if "rs = lexical" "''..'' \<notin> set (pp_tail dir)" "list_all plain_step xs"
    using derive_below [of p xs q] assms(2) that p(1,2) below_refl by auto
  then show ?thesis using derive_resolved [OF assms(2)] p by auto
qed

theorem derived_paths_stay_inside_witness:
  "below (path_parse ''/srv/atr'') (path_parse ''/srv/atr/example/1.0'')"
proof -
  let ?xs = "[Div (Safe \<lparr> s_class = ProjectKey, s_value = ''example'' \<rparr>), Div (Text ''1.0/example.zip''), Parent]"
  have m: "mk_state lexical (path_parse ''/srv/atr'') None =
      Inr \<lparr> sp_path = path_parse ''/srv/atr'', sp_root = path_parse ''/srv/atr'' \<rparr>"
    by code_simp
  have d: "derive lexical \<lparr> sp_path = path_parse ''/srv/atr'', sp_root = path_parse ''/srv/atr'' \<rparr> ?xs =
      Inr \<lparr> sp_path = path_parse ''/srv/atr/example/1.0'', sp_root = path_parse ''/srv/atr'' \<rparr>"
    by code_simp
  have s: "list_all plain_step ?xs" by code_simp
  have r: "''..'' \<notin> set (pp_tail (path_parse ''/srv/atr''))" by code_simp
  show ?thesis using derived_paths_stay_inside [OF m d] s r by simp
qed

section \<open>The stored form of a path\<close>

definition normal_path :: "pure_path \<Rightarrow> bool" where
  "normal_path p =
     (pp_root p \<in> {'''', ''/'', ''//''} \<and> (\<forall>w \<in> set (pp_tail p). w \<noteq> [] \<and> w \<noteq> ''.'' \<and> CHR ''/'' \<notin> set w))"

lemma normal_parse: "normal_path (path_parse s)"
proof -
  have "pp_root (path_parse s) \<in> {'''', ''/'', ''//''}" by (simp add: path_parse_def)
  then show ?thesis using path_parse_tail [of _ s] unfolding normal_path_def by blast
qed

lemma normal_parts: "normal_path p \<Longrightarrow> filter (\<lambda>w. w \<noteq> [] \<and> w \<noteq> ''.'') (pp_tail p) = pp_tail p"
  by (simp add: normal_path_def filter_id_conv)

lemma normal_split: "normal_path p \<Longrightarrow> pp_tail p \<noteq> [] \<Longrightarrow> split_on (CHR ''/'') (join ''/'' (pp_tail p)) = pp_tail p"
  by (intro split_on_join) (auto simp: normal_path_def)

lemma normal_head:
  assumes "normal_path p"
  shows "\<not> startswith (join ''/'' (pp_tail p)) ''/''"
proof (cases "pp_tail p")
  case Nil
  then show ?thesis by simp
next
  case (Cons w ws)
  then have "w \<noteq> []" "CHR ''/'' \<notin> set w" using assms by (auto simp: normal_path_def)
  then show ?thesis using Cons by (cases w; cases ws) auto
qed

lemma path_parse_str:
  assumes "normal_path p"
  shows "path_parse (path_str p) = p"
proof (cases "pp_tail p = []")
  case True
  have "pp_root p = '''' \<or> pp_root p = ''/'' \<or> pp_root p = ''//''" using assms by (simp add: normal_path_def)
  then show ?thesis using True by (elim disjE; cases p) (simp_all add: path_str_def path_parse_def)
next
  case False
  let ?s = "join ''/'' (pp_tail p)"
  have h: "\<not> startswith ?s ''/''" by (rule normal_head [OF assms])
  then have h2: "\<not> startswith ?s ''//''" by (cases ?s) auto
  have t: "filter (\<lambda>w. w \<noteq> [] \<and> w \<noteq> ''.'') (split_on (CHR ''/'') ?s) = pp_tail p"
    using normal_split [OF assms False] normal_parts [OF assms] by simp
  have "pp_root p = '''' \<or> pp_root p = ''/'' \<or> pp_root p = ''//''" using assms by (simp add: normal_path_def)
  then show ?thesis
    using False h h2 t by (elim disjE; cases p) (simp_all add: path_str_def path_parse_def)
qed

lemma state_json_roundtrip:
  assumes "mk_state rs path root = Inr p" and "normal_path path" and "\<And>r. root = Some r \<Longrightarrow> normal_path r"
  shows "state_validate rs (state_serialize p) = Inr p"
  using assms by (cases root) (auto simp: mk_state_Inr state_serialize_def path_parse_str)

section \<open>Corner cases\<close>

text \<open>A hyphen counts as alphanumeric at both ends of a version.\<close>

lemma hyphen_is_a_version: "mk_safe VersionKey ''-'' = Inr \<lparr> s_class = VersionKey, s_value = ''-'' \<rparr>"
  by code_simp

text \<open>Paths that differ by a trailing slash are below each other and yet not equal.\<close>

lemma order_ignores_trailing_slash:
  "\<exists>v w. mk_safe RelPath ''a'' = Inr v \<and> mk_safe RelPath ''a/'' = Inr w \<and> rel_le v w \<and> rel_le w v \<and> \<not> safe_eq v w"
proof (intro exI conjI)
  show "mk_safe RelPath ''a'' = Inr \<lparr> s_class = RelPath, s_value = ''a'' \<rparr>" by code_simp
  show "mk_safe RelPath ''a/'' = Inr \<lparr> s_class = RelPath, s_value = ''a/'' \<rparr>" by code_simp
  show "rel_le \<lparr> s_class = RelPath, s_value = ''a'' \<rparr> \<lparr> s_class = RelPath, s_value = ''a/'' \<rparr>" by code_simp
  show "rel_le \<lparr> s_class = RelPath, s_value = ''a/'' \<rparr> \<lparr> s_class = RelPath, s_value = ''a'' \<rparr>" by code_simp
  show "\<not> safe_eq \<lparr> s_class = RelPath, s_value = ''a'' \<rparr> \<lparr> s_class = RelPath, s_value = ''a/'' \<rparr>" by code_simp
qed

text \<open>A release key may be \<open>..\<close>; \<open>StatePath\<close> then relies on the resolved path alone.\<close>

lemma dots_are_a_release_key: "mk_safe ReleaseKey ''..'' = Inr \<lparr> s_class = ReleaseKey, s_value = ''..'' \<rparr>"
  by code_simp

end
