(* ===== verification/Paths.thy ===== *)
theory Paths
  imports Safe ReleaseOps
begin

text \<open>
  src/atr/paths.py: where the files of a release live, and the addresses they are downloaded from.

  \<open>st\<close> is the configured \<open>STATE_DIR\<close> and \<open>rs\<close> the \<open>resolve\<close> of the file system.  The theorem at the end
  says that the trees of two releases never overlap, although their primary keys may coincide.
\<close>

section \<open>The managed directories\<close>

text \<open>\<open>os.path.join(a, b)\<close>\<close>

definition os_path_join :: "string \<Rightarrow> string \<Rightarrow> string" where
  "os_path_join a b =
     (if startswith b ''/'' then b else if a = [] \<or> endswith a ''/'' then a @ b else a @ ''/'' @ b)"

definition storage_dir :: "(pure_path \<Rightarrow> pure_path) \<Rightarrow> string \<Rightarrow> string \<Rightarrow> state_path py" where
  "storage_dir rs st name = mk_state rs (path_parse (os_path_join st name)) None"

definition get_archives_dir :: "(pure_path \<Rightarrow> pure_path) \<Rightarrow> string \<Rightarrow> state_path py" where
  "get_archives_dir rs st = storage_dir rs st ''archives''"

definition get_attestable_dir :: "(pure_path \<Rightarrow> pure_path) \<Rightarrow> string \<Rightarrow> state_path py" where
  "get_attestable_dir rs st = storage_dir rs st ''attestable''"

definition get_catalog_site_dir :: "(pure_path \<Rightarrow> pure_path) \<Rightarrow> string \<Rightarrow> state_path py" where
  "get_catalog_site_dir rs st = storage_dir rs st ''catalog-site''"

definition get_embargoed_dir :: "(pure_path \<Rightarrow> pure_path) \<Rightarrow> string \<Rightarrow> state_path py" where
  "get_embargoed_dir rs st = storage_dir rs st ''embargoed''"

definition get_finished_dir :: "(pure_path \<Rightarrow> pure_path) \<Rightarrow> string \<Rightarrow> state_path py" where
  "get_finished_dir rs st = storage_dir rs st ''finished''"

definition get_unfinished_dir :: "(pure_path \<Rightarrow> pure_path) \<Rightarrow> string \<Rightarrow> state_path py" where
  "get_unfinished_dir rs st = storage_dir rs st ''unfinished''"

text \<open>The directories named by \<open>pathlib.Path(STATE_DIR) / ...\<close>.\<close>

definition state_subdir :: "(pure_path \<Rightarrow> pure_path) \<Rightarrow> string \<Rightarrow> string list \<Rightarrow> state_path py" where
  "state_subdir rs st names = mk_state rs (fold (\<lambda>w p. path_join p (path_parse w)) names (path_parse st)) None"

definition get_audit_log_dir :: "(pure_path \<Rightarrow> pure_path) \<Rightarrow> string \<Rightarrow> state_path py" where
  "get_audit_log_dir rs st = state_subdir rs st [''audit'', ''daily'']"

definition get_quarantined_dir :: "(pure_path \<Rightarrow> pure_path) \<Rightarrow> string \<Rightarrow> state_path py" where
  "get_quarantined_dir rs st = state_subdir rs st [''quarantined'']"

definition get_runtime_dir :: "(pure_path \<Rightarrow> pure_path) \<Rightarrow> string \<Rightarrow> state_path py" where
  "get_runtime_dir rs st = state_subdir rs st [''runtime'']"

definition get_sealing_dir :: pure_path where
  "get_sealing_dir = path_parse ''/opt/atr/sealing''"

definition get_tmp_dir :: "(pure_path \<Rightarrow> pure_path) \<Rightarrow> string \<Rightarrow> state_path py" where
  "get_tmp_dir rs st = state_subdir rs st [''temporary'']"

text \<open>\<open>base / x1 / x2 / ...\<close>\<close>

fun divs :: "(pure_path \<Rightarrow> pure_path) \<Rightarrow> state_path \<Rightarrow> operand list \<Rightarrow> state_path py" where
  "divs rs p [] = Inr p"
| "divs rs p (x # xs) = bindE (state_div rs p x) (\<lambda>q. divs rs q xs)"

section \<open>The directories of a release\<close>

definition unfinished_root :: "(pure_path \<Rightarrow> pure_path) \<Rightarrow> string \<Rightarrow> bool \<Rightarrow> state_path py" where
  "unfinished_root rs st embargoed = (if embargoed then get_embargoed_dir rs st else get_unfinished_dir rs st)"

fun phase_root :: "(pure_path \<Rightarrow> pure_path) \<Rightarrow> string \<Rightarrow> bool \<Rightarrow> ReleasePhase \<Rightarrow> state_path py" where
  "phase_root rs st e RELEASE_CANDIDATE_DRAFT = unfinished_root rs st e"
| "phase_root rs st e RELEASE_CANDIDATE = unfinished_root rs st e"
| "phase_root rs st e RELEASE_PREVIEW = unfinished_root rs st e"
| "phase_root rs st e RELEASE = get_finished_dir rs st"

definition release_root :: "(pure_path \<Rightarrow> pure_path) \<Rightarrow> string \<Rightarrow> release \<Rightarrow> state_path py" where
  "release_root rs st r = phase_root rs st (is_embargoed r) (r_phase r)"

definition release_directory_base :: "(pure_path \<Rightarrow> pure_path) \<Rightarrow> string \<Rightarrow> release \<Rightarrow> state_path py" where
  "release_directory_base rs st r =
     bindE (release_root rs st r) (\<lambda>p. divs rs p [Text (r_project_key r), Text (r_version r)])"

definition release_directory_version :: "(pure_path \<Rightarrow> pure_path) \<Rightarrow> string \<Rightarrow> release \<Rightarrow> state_path py" where
  "release_directory_version rs st r =
     bindE (release_root rs st r) (\<lambda>p. divs rs p [Text (r_project_key r), Text (r_version r)])"

definition release_directory :: "(pure_path \<Rightarrow> pure_path) \<Rightarrow> string \<Rightarrow> db \<Rightarrow> release \<Rightarrow> state_path py" where
  "release_directory rs st d r =
     (case latest_revision_number d (r_key r) of
        None \<Rightarrow> release_directory_base rs st r
      | Some n \<Rightarrow>
          if r_phase r = RELEASE then release_directory_base rs st r
          else bindE (release_directory_base rs st r) (\<lambda>p. state_div rs p (Text n)))"

definition release_directory_revision ::
    "(pure_path \<Rightarrow> pure_path) \<Rightarrow> string \<Rightarrow> db \<Rightarrow> release \<Rightarrow> state_path option py" where
  "release_directory_revision rs st d r =
     bindE (release_root rs st r) (\<lambda>root.
     bindE (divs rs root [Text (r_project_key r), Text (r_version r)]) (\<lambda>base.
       if r_phase r = RELEASE then Inr (Some base)
       else (case latest_revision_number d (r_key r) of
          None \<Rightarrow> Inr None
        | Some n \<Rightarrow> bindE (state_div rs base (Text n)) (\<lambda>p. Inr (Some p)))))"

definition base_path_for_revision ::
    "(pure_path \<Rightarrow> pure_path) \<Rightarrow> string \<Rightarrow> safe \<Rightarrow> safe \<Rightarrow> safe \<Rightarrow> bool \<Rightarrow> state_path py" where
  "base_path_for_revision rs st pk v n embargoed =
     bindE (unfinished_root rs st embargoed) (\<lambda>p. divs rs p [Safe pk, Safe v, Safe n])"

definition get_unfinished_dir_for ::
    "(pure_path \<Rightarrow> pure_path) \<Rightarrow> string \<Rightarrow> safe \<Rightarrow> safe \<Rightarrow> safe \<Rightarrow> bool \<Rightarrow> state_path py" where
  "get_unfinished_dir_for rs st pk v n embargoed = base_path_for_revision rs st pk v n embargoed"

definition revision_path_for_file ::
    "(pure_path \<Rightarrow> pure_path) \<Rightarrow> string \<Rightarrow> safe \<Rightarrow> safe \<Rightarrow> safe \<Rightarrow> string \<Rightarrow> bool \<Rightarrow> state_path py" where
  "revision_path_for_file rs st pk v n name embargoed =
     bindE (base_path_for_revision rs st pk v n embargoed) (\<lambda>p. state_div rs p (Text name))"

definition get_finished_dir_for :: "(pure_path \<Rightarrow> pure_path) \<Rightarrow> string \<Rightarrow> safe \<Rightarrow> safe \<Rightarrow> state_path py" where
  "get_finished_dir_for rs st pk v = bindE (get_finished_dir rs st) (\<lambda>p. divs rs p [Safe pk, Safe v])"

definition get_unfinished_tombstone_for :: "(pure_path \<Rightarrow> pure_path) \<Rightarrow> string \<Rightarrow> safe \<Rightarrow> safe \<Rightarrow> state_path py" where
  "get_unfinished_tombstone_for rs st pk v =
     bindE (get_unfinished_dir rs st) (\<lambda>p. divs rs p [Safe pk, Text (s_value v @ ''.deleting-'')])"

definition audit_release_log_file :: "(pure_path \<Rightarrow> pure_path) \<Rightarrow> string \<Rightarrow> safe \<Rightarrow> safe \<Rightarrow> state_path py" where
  "audit_release_log_file rs st pk v =
     bindE (state_subdir rs st [''audit'', ''releases'']) (\<lambda>p. divs rs p [Safe pk, Text (s_value v @ ''.jsonl'')])"

definition quarantine_directory :: "(pure_path \<Rightarrow> pure_path) \<Rightarrow> string \<Rightarrow> quarantined \<Rightarrow> release \<Rightarrow> state_path py" where
  "quarantine_directory rs st q r =
     (if \<not> (q_token q \<noteq> [] \<and> list_all is_alnum (q_token q)) then Inl (ValueError ''Invalid quarantine token'')
      else bindE (get_quarantined_dir rs st) (\<lambda>p.
        divs rs p [Text (r_project_key r), Text (r_version r), Text (q_token q)]))"

section \<open>Addresses\<close>

definition archive_download_url :: "string \<Rightarrow> string" where
  "archive_download_url path = ''https://archive.apache.org/dist'' @ ''/'' @ path"

definition closer_download_url :: "string \<Rightarrow> string" where
  "closer_download_url path = ''https://www.apache.org/dyn/closer.lua'' @ ''/'' @ path @ ''?action=download''"

definition downloads_url :: "string \<Rightarrow> string" where
  "downloads_url path = ''https://downloads.apache.org'' @ ''/'' @ path"

definition committee_dist_relpath :: "committee \<Rightarrow> safe option \<Rightarrow> string option \<Rightarrow> safe py" where
  "committee_dist_relpath c suffix filename =
     bindE (mk_safe RelPath ((if c_is_podling c then ''incubator/'' else '''') @ c_key c)) (\<lambda>p.
     bindE (case suffix of None \<Rightarrow> Inr p | Some s \<Rightarrow> rel_append p (path_str (as_path s))) (\<lambda>p.
       case filename of None \<Rightarrow> Inr p | Some f \<Rightarrow> rel_append p f))"

definition committee_keys_url :: "committee \<Rightarrow> string py" where
  "committee_keys_url c =
     bindE (committee_dist_relpath c None (Some ''KEYS'')) (\<lambda>p. Inr (downloads_url (s_value p)))"

section \<open>Segments of the directories\<close>

definition is_safe :: "safe_class \<Rightarrow> string \<Rightarrow> bool" where
  "is_safe c s = (mk_safe c s = Inr \<lparr> s_class = c, s_value = s \<rparr>)"

definition key_class :: "safe_class \<Rightarrow> bool" where
  "key_class c = (c \<notin> {RelPath, RelDirPath, ReleaseKey, OwnerNamespace})"

lemma key_segment: "is_safe c s \<Longrightarrow> key_class c \<Longrightarrow> path_parse s = \<lparr> pp_root = [], pp_tail = [s] \<rparr>"
  using key_is_one_segment [of c s] by (auto simp: is_safe_def key_class_def plain_class_def)

text \<open>An operand that is one segment, whether given as text or as a validated key.\<close>

fun operand_text :: "operand \<Rightarrow> string" where
  "operand_text (Text s) = s"
| "operand_text (Safe v) = s_value v"

definition one_segment :: "string \<Rightarrow> bool" where
  "one_segment s = (path_parse s = \<lparr> pp_root = [], pp_tail = [s] \<rparr>)"

lemma state_div_segment:
  assumes "state_div rs p x = Inr q" and "one_segment (operand_text x)"
  shows "sp_path q = sp_path p \<lparr> pp_tail := pp_tail (sp_path p) @ [operand_text x] \<rparr>"
  using assms
  by (cases x) (auto simp: state_div_def mk_safe_Inr mk_state_Inr path_join_def path_is_absolute_def one_segment_def)

lemma divs_segments:
  assumes "divs rs p xs = Inr q" and "\<And>x. x \<in> set xs \<Longrightarrow> one_segment (operand_text x)"
  shows "sp_path q = sp_path p \<lparr> pp_tail := pp_tail (sp_path p) @ map operand_text xs \<rparr>"
  using assms
proof (induction rs p xs rule: divs.induct)
  case (2 rs p x xs)
  obtain p1 where p1: "state_div rs p x = Inr p1" "divs rs p1 xs = Inr q" using 2(2) by auto
  have "sp_path p1 = sp_path p \<lparr> pp_tail := pp_tail (sp_path p) @ [operand_text x] \<rparr>"
    by (rule state_div_segment [OF p1(1)]) (simp add: 2(3))
  then show ?case using 2(1) [OF p1(2)] 2(3) by simp
qed simp

lemma split_on_two:
  assumes "CHR ''/'' \<notin> set b"
  shows "split_on (CHR ''/'') (a @ CHR ''/'' # b) = split_on (CHR ''/'') a @ [b]"
proof (induction a)
  case Nil
  then show ?case using assms by (simp add: split_on_no_sep)
next
  case (Cons c a)
  then show ?case by (auto split: list.splits)
qed

lemma storage_dir_path:
  assumes "storage_dir rs st name = Inr p" and "one_segment name" and "startswith st ''/''"
  shows "pp_tail (sp_path p) = pp_tail (path_parse st) @ [name]"
proof -
  have n: "CHR ''/'' \<notin> set name" "name \<noteq> []" "name \<noteq> ''.''" "\<not> startswith name ''/''"
  proof -
    have t: "pp_tail (path_parse name) = [name]" using assms(2) by (simp add: one_segment_def)
    then show "CHR ''/'' \<notin> set name" "name \<noteq> []" "name \<noteq> ''.''" using path_parse_tail [of name name] by auto
    then show "\<not> startswith name ''/''" by (cases name) auto
  qed
  have "sp_path p = path_parse (os_path_join st name)" using assms(1) by (auto simp: storage_dir_def mk_state_Inr)
  moreover have "pp_tail (path_parse (os_path_join st name)) = pp_tail (path_parse st) @ [name]"
  proof (cases "endswith st ''/''")
    case True
    then obtain a where a: "st = a @ ''/''" by (auto simp: endswith_iff)
    then show ?thesis using n split_on_two [of name a] split_on_two [of "[]" a] True
      by (simp add: os_path_join_def path_parse_def)
  next
    case False
    then show ?thesis using n assms(3) split_on_two [of name st] by (auto simp: os_path_join_def path_parse_def)
  qed
  ultimately show ?thesis by simp
qed

text \<open>The tree a release lives in and the three segments every directory of it starts with.\<close>

definition release_tree :: "release \<Rightarrow> string" where
  "release_tree r = (if r_phase r = RELEASE then ''finished'' else if is_embargoed r then ''embargoed'' else ''unfinished'')"

definition release_keys_valid :: "release \<Rightarrow> bool" where
  "release_keys_valid r = (is_safe ProjectKey (r_project_key r) \<and> is_safe VersionKey (r_version r))"

lemma release_keys_segments:
  assumes "release_keys_valid r"
  shows "one_segment (r_project_key r)" and "one_segment (r_version r)"
  using assms key_segment [of ProjectKey] key_segment [of VersionKey]
  by (simp_all add: release_keys_valid_def one_segment_def key_class_def)

lemma release_root_path:
  assumes "release_root rs st r = Inr p" and "startswith st ''/''"
  shows "pp_tail (sp_path p) = pp_tail (path_parse st) @ [release_tree r]"
proof -
  have "storage_dir rs st (release_tree r) = Inr p"
    using assms(1)
    by (cases "r_phase r")
      (auto simp: release_root_def release_tree_def unfinished_root_def get_embargoed_dir_def
        get_unfinished_dir_def get_finished_dir_def split: if_splits)
  moreover have "one_segment (release_tree r)" by (simp add: release_tree_def one_segment_def path_parse_def)
  ultimately show ?thesis using storage_dir_path assms(2) by blast
qed

lemma release_directory_base_path:
  assumes "release_directory_base rs st r = Inr p" and "release_keys_valid r" and "startswith st ''/''"
  shows "pp_tail (sp_path p) = pp_tail (path_parse st) @ [release_tree r, r_project_key r, r_version r]"
proof -
  obtain root where root: "release_root rs st r = Inr root"
    and p: "divs rs root [Text (r_project_key r), Text (r_version r)] = Inr p"
    using assms(1) by (auto simp: release_directory_base_def)
  have "sp_path p = sp_path root \<lparr> pp_tail := pp_tail (sp_path root) @ map operand_text [Text (r_project_key r), Text (r_version r)] \<rparr>"
    by (rule divs_segments [OF p]) (use release_keys_segments [OF assms(2)] in auto)
  then show ?thesis using release_root_path [OF root assms(3)] by simp
qed

lemma release_directory_path:
  assumes "release_directory rs st d r = Inr p" and "release_keys_valid r" and "startswith st ''/''"
  shows "\<exists>ws. pp_tail (sp_path p) = pp_tail (path_parse st) @ [release_tree r, r_project_key r, r_version r] @ ws"
proof (cases "release_directory_base rs st r")
  case (Inl e)
  then show ?thesis using assms(1) by (auto simp: release_directory_def split: option.splits if_splits)
next
  case (Inr b)
  note b = release_directory_base_path [OF Inr assms(2,3)]
  consider "p = b" | n where "state_div rs b (Text n) = Inr p"
    using assms(1) Inr by (auto simp: release_directory_def split: option.splits if_splits)
  then show ?thesis
  proof cases
    case 1
    then show ?thesis using b by simp
  next
    case 2
    then obtain v where v: "mk_safe RelPath n = Inr v" and p: "sp_path p = path_join (sp_path b) (path_parse (s_value v))"
      by (auto simp: state_div_def mk_state_Inr)
    have "pp_root (path_parse n) = []" using safe_segments [OF v] by (simp add: plain_class_def)
    then have "pp_tail (sp_path p) = pp_tail (sp_path b) @ pp_tail (path_parse n)"
      using v by (simp add: p mk_safe_Inr path_join_def path_is_absolute_def)
    then show ?thesis using b by simp
  qed
qed

lemma tombstone_path:
  assumes "get_unfinished_tombstone_for rs st \<lparr> s_class = ProjectKey, s_value = pk \<rparr> \<lparr> s_class = VersionKey, s_value = v \<rparr> = Inr q"
    and "is_safe ProjectKey pk" and "is_safe VersionKey v" and "startswith st ''/''"
  shows "pp_tail (sp_path q) = pp_tail (path_parse st) @ [''unfinished'', pk, v @ ''.deleting-'']"
proof -
  let ?xs = "[Safe \<lparr> s_class = ProjectKey, s_value = pk \<rparr>, Text (v @ ''.deleting-'')]"
  obtain root where root: "storage_dir rs st ''unfinished'' = Inr root" and q: "divs rs root ?xs = Inr q"
    using assms(1) by (auto simp: get_unfinished_tombstone_for_def get_unfinished_dir_def)
  have "one_segment pk" using key_segment [OF assms(2)] by (simp add: one_segment_def key_class_def)
  moreover have "one_segment (v @ ''.deleting-'')"
  proof -
    have "CHR ''/'' \<notin> set v" using assms(3) no_separator [of VersionKey] by (auto simp: is_safe_def mk_safe_Inr)
    then show ?thesis unfolding one_segment_def by (intro key_parse) auto
  qed
  ultimately have "sp_path q = sp_path root \<lparr> pp_tail := pp_tail (sp_path root) @ map operand_text ?xs \<rparr>"
    by (intro divs_segments [OF q]) auto
  moreover have "pp_tail (sp_path root) = pp_tail (path_parse st) @ [''unfinished'']"
    by (rule storage_dir_path [OF root _ assms(4)]) (simp add: one_segment_def path_parse_def)
  ultimately show ?thesis by simp
qed

lemma started_version_last:
  assumes "version_key_error v = None"
  shows "v \<noteq> [] \<and> last v \<noteq> CHR ''-''"
proof -
  have v: "v \<noteq> []" and a: "is_alnum (last v) \<or> (chomp v \<noteq> [] \<and> is_alnum (last (chomp v)))"
    using assms unfolding version_key_error_def by (metis option.distinct(1))+
  have "last v \<noteq> CHR ''-''"
  proof
    assume h: "last v = CHR ''-''"
    then have "chomp v = v" by (simp add: chomp_def)
    then have "is_alnum (CHR ''-'')" using a h by auto
    then show False by code_simp
  qed
  then show ?thesis using v by simp
qed

lemma relative_prefix:
  "is_relative_to p q \<Longrightarrow> pp_tail p = s @ a \<Longrightarrow> pp_tail q = s @ b \<Longrightarrow> take (length b) a = b"
  by (simp add: is_relative_to_def)

text \<open>
  C27: The directory of a release is never inside the directory of a release with another project or
  another version, in whatever phase, embargoed or not, the two are.  Nor does it ever meet the
  tombstone that a deletion renames an unfinished directory to, provided its version passed the check
  made when a release is started.
\<close>

theorem releases_do_not_share_files:
  assumes st: "startswith st ''/''" and r: "release_keys_valid r" and r': "release_keys_valid r'"
    and p: "release_directory rs st d r = Inr p" and p': "release_directory rs st d r' = Inr p'"
  shows "(is_relative_to (sp_path p') (sp_path p) \<longrightarrow> r_project_key r' = r_project_key r \<and> r_version r' = r_version r) \<and>
    (\<forall>q. get_unfinished_tombstone_for rs st \<lparr> s_class = ProjectKey, s_value = r_project_key r \<rparr>
             \<lparr> s_class = VersionKey, s_value = r_version r \<rparr> = Inr q \<and> version_key_error (r_version r') = None \<longrightarrow>
         \<not> is_relative_to (sp_path p') (sp_path q) \<and> \<not> is_relative_to (sp_path q) (sp_path p'))"
proof -
  let ?s = "pp_tail (path_parse st)"
  obtain ws where ws: "pp_tail (sp_path p) = ?s @ [release_tree r, r_project_key r, r_version r] @ ws"
    using release_directory_path [OF p r st] by blast
  obtain ws' where ws': "pp_tail (sp_path p') = ?s @ [release_tree r', r_project_key r', r_version r'] @ ws'"
    using release_directory_path [OF p' r' st] by blast
  have "r_project_key r' = r_project_key r \<and> r_version r' = r_version r" if "is_relative_to (sp_path p') (sp_path p)"
    using relative_prefix [OF that ws' ws] by simp
  moreover have "\<not> is_relative_to (sp_path p') (sp_path q) \<and> \<not> is_relative_to (sp_path q) (sp_path p')"
    if q: "get_unfinished_tombstone_for rs st \<lparr> s_class = ProjectKey, s_value = r_project_key r \<rparr>
             \<lparr> s_class = VersionKey, s_value = r_version r \<rparr> = Inr q" and e: "version_key_error (r_version r') = None" for q
  proof -
    have t: "pp_tail (sp_path q) = ?s @ [''unfinished'', r_project_key r, r_version r @ ''.deleting-'']"
      using tombstone_path [OF q] r st by (simp add: release_keys_valid_def)
    have "r_version r' \<noteq> r_version r @ ''.deleting-''" using started_version_last [OF e] by auto
    then show ?thesis using relative_prefix [OF _ ws' t] relative_prefix [OF _ t ws'] by auto
  qed
  ultimately show ?thesis by blast
qed

text \<open>Two releases with one primary key between them.\<close>

definition no_rows :: db where
  "no_rows = \<lparr> db_committees = [], db_projects = [], db_cycles = [], db_releases = [], db_revisions = [], db_ballots = [],
     db_tasks = [], db_events = [], db_quarantined = [], db_artifacts = [], db_revision_counter = (\<lambda>_. None),
     db_vote_counter = (\<lambda>_. None) \<rparr>"

definition hyphen_project :: release where
  "hyphen_project = new_release 0 ''a-b'' ''1'' ''a-b-default'' RELEASE_CANDIDATE_DRAFT"

definition hyphen_version :: release where
  "hyphen_version = new_release 0 ''a'' ''b-1'' ''a-default'' RELEASE"

lemma release_keys_collide: "release_key ''a-b'' ''1'' = release_key ''a'' ''b-1''"
  by code_simp

theorem releases_do_not_share_files_witness:
  "\<not> is_relative_to (path_parse ''/srv/atr/finished/a/b-1'') (path_parse ''/srv/atr/unfinished/a-b/1'') \<and>
   \<not> is_relative_to (path_parse ''/srv/atr/unfinished/a-b/1.deleting-'') (path_parse ''/srv/atr/finished/a/b-1'')"
proof -
  let ?st = "''/srv/atr''"
  let ?in = "\<lambda>tree path. \<lparr> sp_path = path_parse path, sp_root = path_parse tree \<rparr>"
  have 1: "startswith ?st ''/''" "release_keys_valid hyphen_project" "release_keys_valid hyphen_version" by code_simp+
  have 2: "release_directory lexical ?st no_rows hyphen_project =
      Inr (?in ''/srv/atr/unfinished'' ''/srv/atr/unfinished/a-b/1'')" by code_simp
  have 3: "release_directory lexical ?st no_rows hyphen_version =
      Inr (?in ''/srv/atr/finished'' ''/srv/atr/finished/a/b-1'')" by code_simp
  have 4: "get_unfinished_tombstone_for lexical ?st \<lparr> s_class = ProjectKey, s_value = r_project_key hyphen_project \<rparr>
      \<lparr> s_class = VersionKey, s_value = r_version hyphen_project \<rparr> =
      Inr (?in ''/srv/atr/unfinished'' ''/srv/atr/unfinished/a-b/1.deleting-'')" by code_simp
  have 5: "version_key_error (r_version hyphen_version) = None" "r_version hyphen_version \<noteq> r_version hyphen_project"
    by code_simp+
  show ?thesis using releases_do_not_share_files [OF 1 2 3] 4 5 by auto
qed

text \<open>
  Without the check made at the start the tombstone of one version is the directory of another:
  \<open>VersionKey\<close> accepts a hyphen at the end.
\<close>

lemma tombstone_is_a_version_directory:
  "is_safe VersionKey ''1.deleting-'' \<and>
   get_unfinished_tombstone_for lexical ''/srv'' \<lparr> s_class = ProjectKey, s_value = ''a'' \<rparr> \<lparr> s_class = VersionKey, s_value = ''1'' \<rparr> =
     release_directory lexical ''/srv'' no_rows (new_release 0 ''a'' ''1.deleting-'' ''a-default'' RELEASE_CANDIDATE_DRAFT)"
  by code_simp

end
