(* ===== verification/SortKey.thy ===== *)
theory SortKey
  imports Paths Cycles
begin

text \<open>
  \<open>version_sort_key\<close> of src/atr/util.py, a byte string that sorts versions, and the choice of the
  version a draft is compared with in src/atr/tasks/__init__.py.

  A key is the list of its bytes.  \<open>to_bytes(2)\<close> overflows on a run of 65536 digits and \<open>bytes\<close>
  refuses more than 255 leading zeros; the theorem shows that neither happens to a valid version, and
  that the bytes order versions the way their numbers do.
\<close>

section \<open>The key\<close>

datatype key_error = Overflow | ByteRange

text \<open>A character in UTF-8, for the characters below 256.\<close>

definition utf8 :: "char \<Rightarrow> nat list" where
  "utf8 c = (let n = (of_char c :: nat) in if n < 128 then [n] else [192 + n div 64, 128 + n mod 64])"

definition leading_zeros :: "string \<Rightarrow> nat" where
  "leading_zeros ds = length (takeWhile (\<lambda>c. c = CHR ''0'') ds)"

definition lstrip_zeros :: "string \<Rightarrow> string" where
  "lstrip_zeros ds = dropWhile (\<lambda>c. c = CHR ''0'') ds"

text \<open>\<open>n.to_bytes(2)\<close>: big-endian, two bytes.\<close>

definition to_bytes2 :: "nat \<Rightarrow> key_error + nat list" where
  "to_bytes2 n = (if n < 65536 then Inr [n div 256, n mod 256] else Inl Overflow)"

function key_loop :: "string \<Rightarrow> key_error + nat list" where
  "key_loop [] = Inr []"
| "key_loop (c # s) =
     (if is_digit c then
        (let digit_sequence = c # takeWhile is_digit s; stripped = lstrip_zeros digit_sequence in
          case to_bytes2 (length stripped) of
            Inl e \<Rightarrow> Inl e
          | Inr length_bytes \<Rightarrow>
              (case key_loop (dropWhile is_digit s) of
                 Inl e \<Rightarrow> Inl e
               | Inr rest \<Rightarrow>
                   Inr (length_bytes @ concat (map utf8 stripped) @ [leading_zeros digit_sequence] @ rest)))
      else (case key_loop s of Inl e \<Rightarrow> Inl e | Inr rest \<Rightarrow> Inr (utf8 c @ rest)))"
  by pat_completeness auto
termination
  by (relation "measure length") (auto simp: le_imp_less_Suc length_dropWhile_le)

definition version_sort_key :: "string \<Rightarrow> key_error + nat list" where
  "version_sort_key version =
     (case key_loop version of
        Inl e \<Rightarrow> Inl e
      | Inr result \<Rightarrow> if list_all (\<lambda>b. b < 256) result then Inr result else Inl ByteRange)"

section \<open>The natural order of versions\<close>

text \<open>
  A version read as numbers and other characters: \<open>Num n z\<close> is a run of digits of value \<open>n\<close> written
  with \<open>z\<close> leading zeros.  Numbers come before characters and compare by value.
\<close>

datatype version_token = Num nat nat | Ch char

instantiation version_token :: linorder
begin

fun less_version_token :: "version_token \<Rightarrow> version_token \<Rightarrow> bool" where
  "less_version_token (Num n z) (Num m y) = (n < m \<or> n = m \<and> z < y)"
| "less_version_token (Num n z) (Ch c) = True"
| "less_version_token (Ch c) (Num n z) = False"
| "less_version_token (Ch c) (Ch d) = ((of_char c :: nat) < of_char d)"

definition less_eq_version_token :: "version_token \<Rightarrow> version_token \<Rightarrow> bool" where
  "less_eq_version_token a b = (a = b \<or> a < b)"

instance
proof
  fix a b c :: version_token
  show "a < b \<longleftrightarrow> a \<le> b \<and> \<not> b \<le> a"
    by (cases a; cases b) (auto simp: less_eq_version_token_def)
  show "a \<le> a" by (simp add: less_eq_version_token_def)
  show "a \<le> b \<Longrightarrow> b \<le> c \<Longrightarrow> a \<le> c"
    by (cases a; cases b; cases c) (auto simp: less_eq_version_token_def)
  show "a \<le> b \<Longrightarrow> b \<le> a \<Longrightarrow> a = b"
    by (cases a; cases b) (auto simp: less_eq_version_token_def)
  show "a \<le> b \<or> b \<le> a"
    by (cases a; cases b) (auto simp: less_eq_version_token_def)
qed

end

function version_tokens :: "string \<Rightarrow> version_token list" where
  "version_tokens [] = []"
| "version_tokens (c # s) =
     (if is_digit c then
        Num (int_digits (c # takeWhile is_digit s)) (leading_zeros (c # takeWhile is_digit s)) #
          version_tokens (dropWhile is_digit s)
      else Ch c # version_tokens s)"
  by pat_completeness auto
termination
  by (relation "measure length") (auto simp: le_imp_less_Suc length_dropWhile_le)

text \<open>The bytes of one token.\<close>

fun token_bytes :: "version_token \<Rightarrow> nat list" where
  "token_bytes (Num n z) =
     (let ds = (if n = 0 then '''' else str_nat n) in [length ds div 256, length ds mod 256] @ map of_char ds @ [z])"
| "token_bytes (Ch c) = [of_char c]"

section \<open>Codes that decide at the first difference\<close>

definition strictly_before :: "nat list \<Rightarrow> nat list \<Rightarrow> bool" where
  "strictly_before a b = (\<exists>p x y a' b'. a = p @ x # a' \<and> b = p @ y # b' \<and> x < y)"

lemma strictly_before_hd: "x < y \<Longrightarrow> strictly_before (x # a) (y # b)"
  unfolding strictly_before_def by (rule exI [of _ "[]"]) auto

lemma strictly_before_tl: "strictly_before a b \<Longrightarrow> strictly_before (p @ a) (p @ b)"
  unfolding strictly_before_def by (metis append.assoc)

lemma strictly_before_append: "strictly_before a b \<Longrightarrow> strictly_before (a @ r) (b @ s)"
  unfolding strictly_before_def by force

lemma strictly_before_less: "strictly_before a b \<Longrightarrow> a < b"
  unfolding strictly_before_def list_less_def by (force simp: lexord_def)

lemma concat_less:
  fixes ts us :: "'a::linorder list"
  assumes "\<And>t u. t \<in> set ts \<Longrightarrow> u \<in> set us \<Longrightarrow> t < u \<Longrightarrow> strictly_before (f t) (f u)"
    and "\<And>t. t \<in> set us \<Longrightarrow> f t \<noteq> []" and "ts < us"
  shows "concat (map f ts) < concat (map f us)"
  using assms
proof (induction ts us rule: list_induct2')
  case 1
  then show ?case by simp
next
  case (2 t ts)
  then show ?case by simp
next
  case (3 u us)
  then have "f u \<noteq> []" by simp
  then show ?case by (cases "f u") auto
next
  case (4 t ts u us)
  show ?case
  proof (cases "t = u")
    case True
    then have "ts < us" using 4(4) by simp
    then have "concat (map f ts) < concat (map f us)" using 4(1) 4(2,3) by simp
    then have "f u @ concat (map f ts) < f u @ concat (map f us)"
      unfolding list_less_def by (rule lexord_append_leftI)
    then show ?thesis using True by simp
  next
    case False
    then have "t < u" using 4(4) by simp
    then have "strictly_before (f t) (f u)" using 4(2) by simp
    then show ?thesis by (auto intro!: strictly_before_less strictly_before_append)
  qed
qed

section \<open>Digits\<close>

text \<open>The digits of a number, none for 0.\<close>

definition dig :: "nat \<Rightarrow> string" where
  "dig n = (if n = 0 then '''' else str_nat n)"

lemma dig_step: "0 < n \<Longrightarrow> dig n = dig (n div 10) @ [char_of (48 + n mod 10)]"
  by (cases "n < 10") (auto simp: dig_def str_nat.simps [of n])

lemma dig_order:
  "n < m \<Longrightarrow> length (dig n) < length (dig m) \<or>
     length (dig n) = length (dig m) \<and> strictly_before (map of_char (dig n)) (map of_char (dig m))"
proof (induction m arbitrary: n rule: less_induct)
  case (less m)
  have m: "dig m = dig (m div 10) @ [char_of (48 + m mod 10)]" using less.prems by (intro dig_step) simp
  show ?case
  proof (cases "n = 0")
    case True
    then show ?thesis using m by (simp add: dig_def)
  next
    case False
    then have n: "dig n = dig (n div 10) @ [char_of (48 + n mod 10)]" by (intro dig_step) simp
    show ?thesis
    proof (cases "n div 10 = m div 10")
      case True
      then have "n mod 10 < m mod 10" using less.prems by (metis div_mult_mod_eq nat_add_left_cancel_less)
      then have "strictly_before (map of_char (dig (n div 10)) @ [48 + n mod 10]) (map of_char (dig (n div 10)) @ [48 + m mod 10])"
        by (intro strictly_before_tl strictly_before_hd) simp
      then show ?thesis using True by (simp add: n m)
    next
      case ne: False
      have "n div 10 \<le> m div 10" using less.prems by (simp add: div_le_mono)
      then have "n div 10 < m div 10" using ne by simp
      moreover have "m div 10 < m" using less.prems by simp
      ultimately have "length (dig (n div 10)) < length (dig (m div 10)) \<or>
          length (dig (n div 10)) = length (dig (m div 10)) \<and>
          strictly_before (map of_char (dig (n div 10))) (map of_char (dig (m div 10)))"
        by (rule less.IH [rotated])
      then show ?thesis by (auto simp: n m strictly_before_append)
    qed
  qed
qed

lemma digit_char: "is_digit c \<Longrightarrow> \<exists>d < (10 :: nat). c = char_of (48 + d)"
proof -
  assume "is_digit c"
  then have "(of_char c :: nat) = 48 + (of_char c - 48)" "(of_char c :: nat) - 48 < 10" by (auto simp: is_digit_def)
  moreover have "c = char_of (of_char c :: nat)" by simp
  ultimately show ?thesis by metis
qed

lemma lstrip_zeros_snoc:
  "lstrip_zeros (s @ [c]) = (if lstrip_zeros s = [] then lstrip_zeros [c] else lstrip_zeros s @ [c])"
  by (simp add: lstrip_zeros_def dropWhile_append)

lemma lstrip_zeros_dig: "list_all is_digit ds \<Longrightarrow> lstrip_zeros ds = dig (int_digits ds)"
proof (induction ds rule: rev_induct)
  case Nil
  then show ?case by (simp add: lstrip_zeros_def dig_def int_digits_def)
next
  case (snoc c ds)
  then obtain d :: nat where d: "d < 10" "c = char_of (48 + d)" using digit_char by auto
  have IH: "lstrip_zeros ds = dig (int_digits ds)" using snoc by simp
  have v: "int_digits (ds @ [c]) = 10 * int_digits ds + d" using d by (simp add: int_digits_snoc)
  show ?case
  proof (cases "int_digits ds = 0")
    case True
    have "str_nat d = [char_of (48 + d)]" using d by (subst str_nat.simps) simp
    moreover have "c = CHR ''0'' \<longleftrightarrow> d = 0"
    proof -
      have "CHR ''0'' = char_of (48 :: nat)" by code_simp
      moreover have "char_of (48 + d) = (char_of (48 :: nat) :: char) \<longleftrightarrow> d = 0"
        using of_char_digit [OF d(1)] of_char_digit [of 0] by (metis add_cancel_left_right zero_less_numeral)
      ultimately show ?thesis using d(2) by simp
    qed
    ultimately have "lstrip_zeros [c] = dig d" using d(2) by (simp add: lstrip_zeros_def dig_def)
    moreover have "lstrip_zeros ds = []" using True IH by (simp add: dig_def)
    ultimately show ?thesis using v True by (simp add: lstrip_zeros_snoc)
  next
    case False
    then have "dig (10 * int_digits ds + d) = dig (int_digits ds) @ [c]"
      using d by (subst dig_step) auto
    moreover have "dig (int_digits ds) \<noteq> []" using False by (simp add: dig_def)
    ultimately show ?thesis using IH v by (simp add: lstrip_zeros_snoc)
  qed
qed

section \<open>Keys of valid versions\<close>

fun small_token :: "version_token \<Rightarrow> bool" where
  "small_token (Num n z) = (length (dig n) < 256 \<and> z < 256)"
| "small_token (Ch c) = (0 < (of_char c :: nat) \<and> (of_char c :: nat) < 128)"

definition small_version :: "string \<Rightarrow> bool" where
  "small_version s = (length s < 256 \<and> (\<forall>c \<in> set s. 0 < (of_char c :: nat) \<and> (of_char c :: nat) < 128))"

lemma small_version_cut: "small_version (c # s) \<Longrightarrow> small_version (dropWhile P s) \<and> small_version s"
  using set_dropWhileD [of _ P s] length_dropWhile_le [of P s] by (force simp: small_version_def)

lemma digit_run: "is_digit c \<Longrightarrow> list_all is_digit (c # takeWhile is_digit s)"
  by (simp add: list_all_iff) (meson set_takeWhileD)

lemma run_bound:
  assumes "small_version (c # s)"
  shows "length (c # takeWhile is_digit s) < 256"
  using assms length_takeWhile_le [of is_digit s] by (simp add: small_version_def)

lemma run_small:
  assumes "small_version (c # s)" and "is_digit c"
  shows "small_token (Num (int_digits (c # takeWhile is_digit s)) (leading_zeros (c # takeWhile is_digit s)))"
proof -
  let ?ds = "c # takeWhile is_digit s"
  have "length (dig (int_digits ?ds)) \<le> length ?ds"
    unfolding lstrip_zeros_dig [OF digit_run [OF assms(2)], symmetric] lstrip_zeros_def by (rule length_dropWhile_le)
  moreover have "leading_zeros ?ds \<le> length ?ds" unfolding leading_zeros_def by (rule length_takeWhile_le)
  ultimately show ?thesis using run_bound [OF assms(1)] by simp
qed

lemma tokens_small: "small_version s \<Longrightarrow> list_all small_token (version_tokens s)"
proof (induction s rule: version_tokens.induct)
  case (2 c s)
  then show ?case
    using small_version_cut [OF 2(3)] run_small [OF 2(3)] by (auto simp: small_version_def)
qed simp

lemma utf8_ascii: "(\<And>c. c \<in> set s \<Longrightarrow> (of_char c :: nat) < 128) \<Longrightarrow> concat (map utf8 s) = map of_char s"
  by (induction s) (auto simp: utf8_def)

lemma token_bytes_dig:
  "token_bytes (Num n z) = [length (dig n) div 256, length (dig n) mod 256] @ map of_char (dig n) @ [z]"
  by (simp add: dig_def Let_def)

declare token_bytes.simps(1) [simp del]

lemma key_loop_tokens: "small_version s \<Longrightarrow> key_loop s = Inr (concat (map token_bytes (version_tokens s)))"
proof (induction s rule: key_loop.induct)
  case 1
  then show ?case by simp
next
  case (2 c s)
  note cut = small_version_cut [OF 2(3)]
  show ?case
  proof (cases "is_digit c")
    case True
    let ?ds = "c # takeWhile is_digit s"
    have dig: "lstrip_zeros ?ds = dig (int_digits ?ds)" by (rule lstrip_zeros_dig [OF digit_run [OF True]])
    have len: "length (dig (int_digits ?ds)) < 256" using run_small [OF 2(3) True] by simp
    have "concat (map utf8 (lstrip_zeros ?ds)) = map of_char (lstrip_zeros ?ds)"
    proof (rule utf8_ascii)
      fix x assume "x \<in> set (lstrip_zeros ?ds)"
      then have "x \<in> set (c # s)" unfolding lstrip_zeros_def
        by (metis set_dropWhileD set_takeWhileD set_ConsD list.set_intros)
      then show "(of_char x :: nat) < 128" using 2(3) by (auto simp: small_version_def)
    qed
    moreover have "key_loop (dropWhile is_digit s) = Inr (concat (map token_bytes (version_tokens (dropWhile is_digit s))))"
      by (rule 2(1) [OF True refl _ ]) (use len cut in \<open>auto simp: to_bytes2_def dig\<close>)
    ultimately show ?thesis using True len by (simp add: to_bytes2_def dig token_bytes_dig Let_def)
  next
    case False
    then show ?thesis using 2(2) cut 2(3) by (simp add: utf8_def small_version_def)
  qed
qed

lemma token_bytes_small: "small_token t \<Longrightarrow> list_all (\<lambda>b. b < 256) (token_bytes t)"
proof (cases t)
  case (Num n z)
  have "(of_char c :: nat) < 256" for c :: char by simp
  moreover assume "small_token t"
  ultimately show ?thesis using Num by (auto simp: token_bytes_dig list_all_iff)
qed simp

lemma version_sort_key_tokens:
  assumes "small_version s"
  shows "version_sort_key s = Inr (concat (map token_bytes (version_tokens s)))"
proof -
  have "list_all (\<lambda>b. b < 256) (concat (map token_bytes (version_tokens s)))"
    using tokens_small [OF assms] token_bytes_small by (fastforce simp: list_all_iff)
  then show ?thesis by (simp add: version_sort_key_def key_loop_tokens [OF assms])
qed

lemma token_bytes_order:
  assumes "small_token t" and "small_token u" and "t < u"
  shows "strictly_before (token_bytes t) (token_bytes u)"
proof (cases t; cases u)
  fix n z m y assume tu: "t = Num n z" "u = Num m y"
  show ?thesis
  proof (cases "n = m")
    case True
    then have "z < y" using assms(3) tu by simp
    then show ?thesis
      unfolding tu token_bytes_dig True by (intro strictly_before_tl strictly_before_hd)
  next
    case False
    then have "n < m" using assms(3) tu by simp
    then consider "length (dig n) < length (dig m)"
      | "length (dig n) = length (dig m)" "strictly_before (map of_char (dig n)) (map of_char (dig m))"
      using dig_order by blast
    then show ?thesis
    proof cases
      case 1
      then have "strictly_before ([0] @ length (dig n) # map of_char (dig n) @ [z]) ([0] @ length (dig m) # map of_char (dig m) @ [y])"
        by (intro strictly_before_tl strictly_before_hd)
      then show ?thesis using assms(1,2) tu by (simp add: token_bytes_dig)
    next
      case 2
      then show ?thesis
        unfolding tu token_bytes_dig 2(1) by (intro strictly_before_tl strictly_before_append)
    qed
  qed
next
  fix n z c assume "t = Num n z" "u = Ch c"
  then show ?thesis using assms(1,2) by (simp add: token_bytes_dig strictly_before_hd)
next
  fix c n z assume "t = Ch c" "u = Num n z"
  then show ?thesis using assms(3) by simp
next
  fix c d assume "t = Ch c" "u = Ch d"
  then show ?thesis using assms(3) by (simp add: strictly_before_hd)
qed

text \<open>The text of a token; a version is the text of its tokens, so they determine it.\<close>

fun token_text :: "version_token \<Rightarrow> string" where
  "token_text (Num n z) = replicate z (CHR ''0'') @ dig n"
| "token_text (Ch c) = [c]"

lemma run_text:
  assumes "list_all is_digit ds"
  shows "replicate (leading_zeros ds) (CHR ''0'') @ dig (int_digits ds) = ds"
proof -
  have "takeWhile (\<lambda>c. c = CHR ''0'') ds = replicate (leading_zeros ds) (CHR ''0'')"
    unfolding leading_zeros_def by (intro replicate_eqI) (auto dest: set_takeWhileD)
  then show ?thesis
    unfolding lstrip_zeros_dig [OF assms, symmetric] lstrip_zeros_def by (metis takeWhile_dropWhile_id)
qed

lemma tokens_text: "concat (map token_text (version_tokens s)) = s"
proof (induction s rule: version_tokens.induct)
  case (2 c s)
  then show ?case using run_text [OF digit_run [of c s]] by (auto simp del: append_assoc simp: append_assoc [symmetric])
qed simp

lemma version_tokens_inject: "version_tokens v = version_tokens w \<longleftrightarrow> v = w"
  by (metis tokens_text)

lemma version_key_small:
  assumes "is_safe VersionKey v"
  shows "small_version v"
proof -
  have "length v \<le> 128" using assms by (auto simp: is_safe_def mk_safe_Inr Safe.MAX_VERSION_LENGTH_def split: if_splits)
  moreover have "set v \<subseteq> set VERSION_CHARS" using assms by (simp add: is_safe_def mk_safe_Inr)
  moreover have "\<forall>c \<in> set VERSION_CHARS. 0 < (of_char c :: nat) \<and> (of_char c :: nat) < 128" by code_simp
  ultimately show ?thesis by (auto simp: small_version_def)
qed

lemma key_order:
  assumes "small_version v" and "small_version w" and "version_tokens v < version_tokens w"
  shows "concat (map token_bytes (version_tokens v)) < concat (map token_bytes (version_tokens w))"
proof (rule concat_less [OF _ _ assms(3)])
  show "strictly_before (token_bytes t) (token_bytes u)"
    if "t \<in> set (version_tokens v)" "u \<in> set (version_tokens w)" "t < u" for t u
    using that tokens_small [OF assms(1)] tokens_small [OF assms(2)] by (auto simp: list_all_iff intro: token_bytes_order)
  show "token_bytes t \<noteq> []" for t by (cases t) (simp_all add: token_bytes_dig)
qed

text \<open>
  C37: For valid versions the sort key is defined (neither the two bytes of a digit count nor the byte
  of a zero count overflow) and comparing keys byte by byte is comparing the versions naturally: runs
  of digits by value and then by leading zeros, other characters by their code, numbers first.
  Different versions have different keys.
\<close>

theorem sort_key_is_the_natural_order:
  assumes "is_safe VersionKey v" and "is_safe VersionKey w"
  shows "\<exists>kv kw. version_sort_key v = Inr kv \<and> version_sort_key w = Inr kw \<and>
    (kv < kw \<longleftrightarrow> version_tokens v < version_tokens w) \<and> (kv = kw \<longleftrightarrow> v = w)"
proof -
  note s = assms [THEN version_key_small]
  let ?k = "\<lambda>s. concat (map token_bytes (version_tokens s))"
  have lt: "version_tokens v < version_tokens w \<Longrightarrow> ?k v < ?k w" and gt: "version_tokens w < version_tokens v \<Longrightarrow> ?k w < ?k v"
    using key_order s by blast+
  have "?k v < ?k w \<longleftrightarrow> version_tokens v < version_tokens w"
    using lt gt by (metis less_asym less_irrefl linorder_neqE)
  moreover have "?k v = ?k w \<longleftrightarrow> v = w"
    using lt gt by (metis less_irrefl linorder_neqE version_tokens_inject)
  ultimately show ?thesis using version_sort_key_tokens s by blast
qed

theorem sort_key_is_the_natural_order_witness:
  "\<exists>kv kw. version_sort_key ''1.9-rc2'' = Inr kv \<and> version_sort_key ''1.10'' = Inr kw \<and> kv < kw"
proof -
  have v: "is_safe VersionKey ''1.9-rc2''" and w: "is_safe VersionKey ''1.10''" by code_simp+
  have "version_tokens ''1.9-rc2'' < version_tokens ''1.10''" by code_simp
  then show ?thesis using sort_key_is_the_natural_order [OF v w] by blast
qed

section \<open>The version a draft is compared with\<close>

fun key_pairs :: "release list \<Rightarrow> key_error + (nat list \<times> release) list" where
  "key_pairs [] = Inr []"
| "key_pairs (r # rs) =
     (case version_sort_key (r_version r) of
        Inl e \<Rightarrow> Inl e
      | Inr k \<Rightarrow> (case key_pairs rs of Inl e \<Rightarrow> Inl e | Inr ps \<Rightarrow> Inr ((k, r) # ps)))"

text \<open>\<open>ORDER BY released\<close>, absent dates first.\<close>

definition by_released :: "release list \<Rightarrow> release list" where
  "by_released rs = sort_key (\<lambda>r. case r_released r of None \<Rightarrow> (0 :: int, 0) | Some t \<Rightarrow> (1, t)) rs"

definition previous_version :: "db \<Rightarrow> string \<Rightarrow> string \<Rightarrow> key_error + release option" where
  "previous_version d pk version =
     (let other_releases = by_released (sel (\<lambda>r. r_project_key r = pk \<and> r_phase r = RELEASE) (db_releases d)) in
      case key_pairs other_releases of
        Inl e \<Rightarrow> Inl e
      | Inr ps \<Rightarrow>
          (case version_sort_key version of
             Inl e \<Rightarrow> Inl e
           | Inr sortable \<Rightarrow> Inr (first_below sortable (sort_desc fst ps))))"

lemma key_pairs_small:
  "(\<And>r. r \<in> set rs \<Longrightarrow> small_version (r_version r)) \<Longrightarrow>
   key_pairs rs = Inr (map (\<lambda>r. (concat (map token_bytes (version_tokens (r_version r))), r)) rs)"
  by (induction rs) (simp_all add: version_sort_key_tokens)

lemma key_order_iff:
  assumes "small_version v" and "small_version w"
  shows "concat (map token_bytes (version_tokens v)) < concat (map token_bytes (version_tokens w)) \<longleftrightarrow>
    version_tokens v < version_tokens w"
  using key_order [OF assms] key_order [OF assms(2,1)] by (metis less_asym less_irrefl linorder_neqE)

text \<open>
  A draft is compared with the published release of its project that is the greatest below it in the
  natural order, and with none only if there is none below.
\<close>

lemma previous_version_is_the_next_below:
  assumes "small_version v"
    and "\<And>r. r \<in> set (db_releases d) \<Longrightarrow> small_version (r_version r)"
  shows "\<exists>x. previous_version d pk v = Inr x \<and>
    greatest_below (\<lambda>r. Some (version_tokens (r_version r))) (version_tokens v)
      (sel (\<lambda>r. r_project_key r = pk \<and> r_phase r = RELEASE) (db_releases d)) x"
proof -
  let ?k = "\<lambda>r. concat (map token_bytes (version_tokens (r_version r)))"
  let ?t = "concat (map token_bytes (version_tokens v))"
  let ?rs = "by_released (sel (\<lambda>r. r_project_key r = pk \<and> r_phase r = RELEASE) (db_releases d))"
  let ?ps = "sort_desc fst (map (\<lambda>r. (?k r, r)) ?rs)"
  have rs: "set ?rs = {r \<in> set (db_releases d). r_project_key r = pk \<and> r_phase r = RELEASE}"
    by (auto simp: by_released_def sel_set)
  have pv: "previous_version d pk v = Inr (first_below ?t ?ps)"
  proof -
    have "key_pairs ?rs = Inr (map (\<lambda>r. (?k r, r)) ?rs)" by (rule key_pairs_small) (use assms(2) rs in auto)
    then show ?thesis by (simp add: previous_version_def version_sort_key_tokens [OF assms(1)])
  qed
  have "greatest_below (\<lambda>r. Some (?k r)) ?t ?rs (first_below ?t ?ps)"
    by (rule first_below_greatest [OF sort_desc_sorted]) auto
  moreover have lt: "?k r < ?t \<longleftrightarrow> version_tokens (r_version r) < version_tokens v" if "r \<in> set ?rs" for r
    using key_order_iff assms(1,2) that rs by simp
  moreover have le: "?k r \<le> ?k r' \<longleftrightarrow> version_tokens (r_version r) \<le> version_tokens (r_version r')"
    if "r \<in> set ?rs" "r' \<in> set ?rs" for r r'
    using key_order_iff [of "r_version r'" "r_version r"] assms(2) that rs by (simp add: not_less [symmetric])
  ultimately show ?thesis
    using rs by (cases "first_below ?t ?ps") (auto simp: pv greatest_below_def sel_set)
qed

end
