(* ===== verification/Principal.thy ===== *)
theory Principal
  imports Safe Writers
begin

text \<open>
  src/atr/principal.py: who a request comes from.  \<open>verify\<close> reads a committer from LDAP, the cache
  keeps the memberships of a user for ten minutes, and \<open>authorise\<close> is the constructor of
  \<open>Authorisation\<close>, which refreshes the cache from the session or from LDAP.

  A search of the directory is a parameter: it answers with entries, or fails because LDAP is
  unavailable or in some other way.  The cache is one global object, passed and returned here.
\<close>

section \<open>Committers in LDAP\<close>

record ldap_entry =
  le_cn :: "string list"
  le_mail :: "string list"
  le_asf_alt_email :: "string list"
  le_asf_banned :: "string list"
  le_member_uid :: "string list"
  le_member :: "string list"

datatype search_failure = Unavailable | OtherFailure

datatype scope = BASE | SUBTREE

type_synonym ldap_search = "string \<Rightarrow> scope \<Rightarrow> string \<Rightarrow> search_failure + ldap_entry list"

datatype auth_error = AuthenticationError | CommitterError | UnavailableError

type_synonym 'a auth = "auth_error + 'a"

definition bindA :: "'a auth \<Rightarrow> ('a \<Rightarrow> 'b auth) \<Rightarrow> 'b auth" where
  "bindA m f = (case m of Inl e \<Rightarrow> Inl e | Inr a \<Rightarrow> f a)"

lemma bindA_Inr [simp]: "bindA m f = Inr b \<longleftrightarrow> (\<exists>a. m = Inr a \<and> f a = Inr b)"
  by (cases m) (auto simp: bindA_def)

definition LDAP_CHAIRS_BASE :: string where
  "LDAP_CHAIRS_BASE = ''cn=pmc-chairs,ou=groups,ou=services,dc=apache,dc=org''"

definition LDAP_MEMBER_BASE :: string where
  "LDAP_MEMBER_BASE = ''cn=member,ou=groups,dc=apache,dc=org''"

definition LDAP_PMCS_BASE :: string where
  "LDAP_PMCS_BASE = ''ou=project,ou=groups,dc=apache,dc=org''"

definition LDAP_DN :: "string \<Rightarrow> string" where
  "LDAP_DN u = ''uid='' @ u @ '',ou=people,dc=apache,dc=org''"

definition LDAP_MEMBER_FILTER :: "string \<Rightarrow> string" where
  "LDAP_MEMBER_FILTER u = ''(member=uid='' @ u @ '',ou=people,dc=apache,dc=org)''"

definition LDAP_OWNER_FILTER :: "string \<Rightarrow> string" where
  "LDAP_OWNER_FILTER u = ''(owner=uid='' @ u @ '',ou=people,dc=apache,dc=org)''"

record committer =
  cm_user :: safe
  cm_fullname :: string
  cm_emails :: "string list"
  cm_altemails :: "string list"
  cm_is_member :: bool
  cm_is_chair :: bool
  cm_member_committees :: "string list"
  cm_participant_committees :: "string list"

text \<open>How the three readers of LDAP treat a failed search.\<close>

definition searched :: "search_failure + ldap_entry list \<Rightarrow> ldap_entry list auth" where
  "searched r =
     (case r of Inl Unavailable \<Rightarrow> Inl UnavailableError | Inl OtherFailure \<Rightarrow> Inl CommitterError | Inr es \<Rightarrow> Inr es)"

fun the_only :: "ldap_entry list \<Rightarrow> ldap_entry auth" where
  "the_only [e] = Inr e"
| "the_only _ = Inl CommitterError"

definition get_committer_details :: "ldap_search \<Rightarrow> committer \<Rightarrow> committer auth" where
  "get_committer_details search c =
     bindA (searched (search (LDAP_DN (s_value (cm_user c))) BASE ''(objectClass=*)'')) (\<lambda>es.
     bindA (the_only es) (\<lambda>data.
       if le_asf_banned data \<noteq> [] then Inl CommitterError
       else if length (le_cn data) \<noteq> 1 then Inl CommitterError
       else Inr (c \<lparr> cm_fullname := hd (le_cn data), cm_emails := remdups (le_mail data),
                    cm_altemails := remdups (le_asf_alt_email data) \<rparr>)))"

definition get_group_membership ::
    "ldap_search \<Rightarrow> string \<Rightarrow> (ldap_entry \<Rightarrow> string list) \<Rightarrow> nat \<Rightarrow> string list auth" where
  "get_group_membership search base attribute min_members =
     bindA (searched (search base BASE ''(objectClass=*)'')) (\<lambda>es.
     bindA (the_only es) (\<lambda>e.
       if length (attribute e) < min_members then Inl CommitterError else Inr (attribute e)))"

fun hit_names :: "ldap_entry list \<Rightarrow> string list auth" where
  "hit_names [] = Inr []"
| "hit_names (h # hs) =
     (if length (le_cn h) \<noteq> 1 then Inl CommitterError
      else if hd (le_cn h) = [] then Inl CommitterError
      else bindA (hit_names hs) (\<lambda>ns. Inr (hd (le_cn h) # ns)))"

definition get_project_memberships :: "ldap_search \<Rightarrow> string \<Rightarrow> string list auth" where
  "get_project_memberships search ldap_filter =
     bindA (searched (search LDAP_PMCS_BASE SUBTREE ldap_filter)) hit_names"

text \<open>
  \<open>user in member_list\<close>: the list holds texts and \<open>user\<close> is an \<open>AsfUid\<close>.  \<open>SafeType.__eq__\<close> is not
  implemented for a text, nor is \<open>str.__eq__\<close> for an \<open>AsfUid\<close>, so that no two are equal.
\<close>

definition safe_equals_text :: "safe \<Rightarrow> string \<Rightarrow> bool" where
  "safe_equals_text v s = False"

definition new_committer :: "safe \<Rightarrow> committer" where
  "new_committer u =
     \<lparr> cm_user = u, cm_fullname = '''', cm_emails = [], cm_altemails = [], cm_is_member = False, cm_is_chair = False,
       cm_member_committees = [], cm_participant_committees = [] \<rparr>"

definition verify :: "ldap_search \<Rightarrow> committer \<Rightarrow> committer auth" where
  "verify search c0 =
     (let u = s_value (cm_user c0) in
      bindA (get_committer_details search c0) (\<lambda>c1.
      bindA (get_group_membership search LDAP_MEMBER_BASE le_member_uid 100) (\<lambda>member_list.
      bindA (get_group_membership search LDAP_CHAIRS_BASE le_member 100) (\<lambda>chair_list.
      bindA (get_project_memberships search (LDAP_OWNER_FILTER u)) (\<lambda>owner.
      bindA (get_project_memberships search (LDAP_MEMBER_FILTER u)) (\<lambda>member.
        Inr (c1 \<lparr> cm_is_member := list_ex (safe_equals_text (cm_user c0)) member_list,
                 cm_is_chair := list_ex (\<lambda>x. x = LDAP_DN u) chair_list,
                 cm_member_committees := owner, cm_participant_committees := member \<rparr>)))))))"

section \<open>The cache\<close>

record cache =
  last_refreshed :: "string \<Rightarrow> int option"
  member_of :: "string \<Rightarrow> string set option"
  participant_of :: "string \<Rightarrow> string set option"

definition cache_for_at_most_seconds :: int where
  "cache_for_at_most_seconds = 600"

definition new_cache :: cache where
  "new_cache = \<lparr> last_refreshed = (\<lambda>_. None), member_of = (\<lambda>_. None), participant_of = (\<lambda>_. None) \<rparr>"

definition outdated :: "int \<Rightarrow> cache \<Rightarrow> string \<Rightarrow> bool" where
  "outdated now c uid =
     (case last_refreshed c uid of None \<Rightarrow> True | Some t \<Rightarrow> now - t > cache_for_at_most_seconds)"

definition remember :: "int \<Rightarrow> string \<Rightarrow> string set \<Rightarrow> string set \<Rightarrow> cache \<Rightarrow> cache" where
  "remember now uid committees projects c =
     c \<lparr> member_of := (member_of c)(uid \<mapsto> committees), participant_of := (participant_of c)(uid \<mapsto> projects),
         last_refreshed := (last_refreshed c)(uid \<mapsto> now) \<rparr>"

text \<open>
  The configuration and the services a refresh consults: \<open>ae_bind\<close> are the bind credentials, and
  \<open>ae_session_cache\<close> is the session cache file read in debug mode.
\<close>

record auth_env =
  ae_now :: int
  ae_admin :: admin_env
  ae_debug :: bool
  ae_session_cache :: "string \<Rightarrow> (string list \<times> string list) option"
  ae_bind :: "(string \<times> string) option"
  ae_search :: "string \<Rightarrow> string \<Rightarrow> ldap_search"

definition SYSTEM_SERVICE_UID :: string where
  "SYSTEM_SERVICE_UID = ''system''"

definition TEST_UIDS :: "string list" where
  "TEST_UIDS = [''test'', ''test-pmc'', ''test-rm'', ''test-committer'']"

definition TEST_PARTICIPANT_ONLY_UIDS :: "string list" where
  "TEST_PARTICIPANT_ONLY_UIDS = [''test-rm'', ''test-committer'']"

definition ae_test_mode :: "auth_env \<Rightarrow> bool" where
  "ae_test_mode e = is_test_mode (ae_admin e)"

definition augment_test_membership :: "auth_env \<Rightarrow> string set \<Rightarrow> string set \<Rightarrow> string set \<times> string set" where
  "augment_test_membership e committees projects =
     (if ae_test_mode e then (insert ''test'' committees, insert ''test'' projects) else (committees, projects))"

record user_session =
  us_uid :: string
  us_member_committees :: "string list"
  us_participant_committees :: "string list"

definition asfquart_cache_refresh :: "auth_env \<Rightarrow> string \<Rightarrow> user_session \<Rightarrow> cache \<Rightarrow> cache" where
  "asfquart_cache_refresh e uid s c =
     (if \<not> outdated (ae_now e) c uid then c
      else (let committees = set (us_member_committees s); projects = set (us_participant_committees s);
                (committees, projects) =
                  (if ae_test_mode e \<and> uid \<in> set TEST_PARTICIPANT_ONLY_UIDS then (committees, insert ''test'' projects)
                   else augment_test_membership e committees projects)
            in remember (ae_now e) uid committees projects c))"

definition get_ldap_bind_dn_and_password :: "auth_env \<Rightarrow> (string \<times> string) auth" where
  "get_ldap_bind_dn_and_password e =
     (case ae_bind e of
        None \<Rightarrow> Inl CommitterError
      | Some (dn, pw) \<Rightarrow> if dn = [] \<or> pw = [] then Inl CommitterError else Inr (dn, pw))"

text \<open>\<open>Committer(safe.AsfUid(uid))\<close> and its verification.\<close>

definition read_committer :: "auth_env \<Rightarrow> string \<Rightarrow> committer auth" where
  "read_committer e uid =
     (case mk_safe AsfUid uid of
        Inl _ \<Rightarrow> Inl CommitterError
      | Inr u \<Rightarrow> bindA (get_ldap_bind_dn_and_password e) (\<lambda>(dn, pw). verify (ae_search e dn pw) (new_committer u)))"

definition ldap_cache_refresh :: "auth_env \<Rightarrow> string \<Rightarrow> cache \<Rightarrow> cache auth" where
  "ldap_cache_refresh e uid c =
     (if \<not> outdated (ae_now e) c uid then Inr c
      else if uid = SYSTEM_SERVICE_UID then Inr (remember (ae_now e) uid {} {} c)
      else if ae_test_mode e \<and> uid \<in> set TEST_UIDS then
        Inr (remember (ae_now e) uid (if uid \<in> set TEST_PARTICIPANT_ONLY_UIDS then {} else {''test''}) {''test''} c)
      else if ae_debug e \<and> ae_session_cache e uid \<noteq> None then
        (case ae_session_cache e uid of
           Some (pmcs, projects) \<Rightarrow>
             (let (committees, projects) = augment_test_membership e (set pmcs) (set projects)
              in Inr (remember (ae_now e) uid committees projects c))
         | None \<Rightarrow> Inr c)
      else
        (case read_committer e uid of
           Inl UnavailableError \<Rightarrow> Inl UnavailableError
         | Inl _ \<Rightarrow> Inl AuthenticationError
         | Inr cm \<Rightarrow>
             (let (committees, projects) =
                    augment_test_membership e (set (cm_member_committees cm)) (set (cm_participant_committees cm))
              in Inr (remember (ae_now e) uid committees projects c))))"

section \<open>Authorisation\<close>

datatype authoriser = ASFQuart | LDAP

text \<open>
  The argument of the constructor: a session (that of a web committer, or the one of the request,
  which may be absent), a user id, or \<open>None\<close>.
\<close>

datatype uid_argument = FromSession "user_session option" | Uid string | Anonymous

record authorisation =
  au_authoriser :: authoriser
  au_asf_uid :: "string option"
  au_authenticated :: bool

fun authorise :: "auth_env \<Rightarrow> cache \<Rightarrow> uid_argument \<Rightarrow> (authorisation \<times> cache) auth" where
  "authorise e c (FromSession None) = Inl AuthenticationError"
| "authorise e c (FromSession (Some s)) =
     Inr (\<lparr> au_authoriser = ASFQuart, au_asf_uid = Some (us_uid s), au_authenticated = True \<rparr>,
          asfquart_cache_refresh e (us_uid s) s c)"
| "authorise e c (Uid u) =
     bindA (ldap_cache_refresh e u c) (\<lambda>c'.
       Inr (\<lparr> au_authoriser = LDAP, au_asf_uid = Some u, au_authenticated = False \<rparr>, c'))"
| "authorise e c Anonymous =
     Inr (\<lparr> au_authoriser = LDAP, au_asf_uid = None, au_authenticated = True \<rparr>, c)"

definition is_asfquart_session :: "authorisation \<Rightarrow> bool" where
  "is_asfquart_session a = (case au_authoriser a of ASFQuart \<Rightarrow> True | LDAP \<Rightarrow> False)"

definition au_is_committer :: "authorisation \<Rightarrow> bool" where
  "au_is_committer a = (au_asf_uid a \<noteq> None)"

text \<open>Both authorisers read the one cache; a user it does not know is a \<open>KeyError\<close>.\<close>

definition au_member_of :: "cache \<Rightarrow> authorisation \<Rightarrow> string set py" where
  "au_member_of c a = (case au_asf_uid a of None \<Rightarrow> Inr {} | Some u \<Rightarrow> demandE KeyError (member_of c u))"

definition au_participant_of :: "cache \<Rightarrow> authorisation \<Rightarrow> string set py" where
  "au_participant_of c a = (case au_asf_uid a of None \<Rightarrow> Inr {} | Some u \<Rightarrow> demandE KeyError (participant_of c u))"

definition au_is_member_of :: "cache \<Rightarrow> authorisation \<Rightarrow> string \<Rightarrow> bool py" where
  "au_is_member_of c a k = bindE (au_member_of c a) (\<lambda>s. Inr (k \<in> s))"

definition au_is_participant_of :: "cache \<Rightarrow> authorisation \<Rightarrow> string \<Rightarrow> bool py" where
  "au_is_participant_of c a k = bindE (au_participant_of c a) (\<lambda>s. Inr (k \<in> s))"

end
