(* ===== verification/Access.thy ===== *)
theory Access
  imports Principal
begin

text \<open>
  src/atr/storage/__init__.py: the roles in which the storage can be written, and who is given which.

  A request for a role is a \<open>role_request\<close>, one for each method of \<open>Write\<close>; \<open>write_as\<close> is the method.
  What \<open>as_..._outcome\<close> returns as an \<open>Error\<close> and \<open>as_...\<close> raises is the exception on the left.  The
  role objects only differ in the writers they offer, so a role is its name and its committee;
  \<open>construct\<close> is what their constructors check.
\<close>

datatype role =
    GeneralPublic
  | FoundationCommitter
  | CommitteeParticipant string
  | ReleaseManager string
  | CommitteeMember string
  | CommitteeAdmin string
  | FoundationAdmin
  | SecurityTeam string

datatype role_request =
    As_general_public
  | As_foundation_committer
  | As_foundation_admin
  | As_committee_participant string
  | As_committee_member string
  | As_committee_admin string
  | As_project_committee_participant string
  | As_project_committee_member string
  | As_project_release_manager string
  | As_project_committee_admin string
  | As_project_security_team string

definition SECURITY_COMMITTEE_KEY :: string where
  "SECURITY_COMMITTEE_KEY = ''security''"

text \<open>
  Every writer but those of the public refuses a principal without a user id, and the vote writer of
  the security team a principal outside its committee.
\<close>

definition construct :: "cache \<Rightarrow> authorisation \<Rightarrow> role \<Rightarrow> role py" where
  "construct c a r =
     (if r = GeneralPublic then Inr r
      else bindE (guardE (au_asf_uid a \<noteq> None) (access 403 ''Not authorized'')) (\<lambda>_.
        case r of
          SecurityTeam k \<Rightarrow>
            bindE (au_is_member_of c a SECURITY_COMMITTEE_KEY) (\<lambda>m.
            bindE (guardE m (access 403 ''Not a member of the ASF Security Team'')) (\<lambda>_. Inr r))
        | _ \<Rightarrow> Inr r))"

definition known :: "authorisation \<Rightarrow> unit py" where
  "known a = guardE (au_asf_uid a \<noteq> None) (access 403 ''Not authorized'')"

definition admin_only :: "auth_env \<Rightarrow> authorisation \<Rightarrow> unit py" where
  "admin_only e a = guardE (is_admin (ae_admin e) (au_asf_uid a)) (access 403 ''Not an admin'')"

definition member_only :: "cache \<Rightarrow> authorisation \<Rightarrow> string \<Rightarrow> unit py" where
  "member_only c a k =
     bindE (au_is_member_of c a k) (\<lambda>m. guardE m (access 403 (''Not a member of '' @ k)))"

definition participant_only :: "cache \<Rightarrow> authorisation \<Rightarrow> string \<Rightarrow> unit py" where
  "participant_only c a k =
     bindE (au_is_participant_of c a k) (\<lambda>m. guardE m (access 403 (''Not a participant of '' @ k)))"

text \<open>The committee of a project, which must exist and have one.\<close>

definition committee_of :: "db \<Rightarrow> string \<Rightarrow> committee py" where
  "committee_of d pk =
     bindE (demandE (access 404 (''Project not found: '' @ pk)) (project_get d pk)) (\<lambda>p.
       demandE (access 500 ''No committee found for project - Invalid state'') (project_committee d p))"

definition as_project_release_manager :: "db \<Rightarrow> cache \<Rightarrow> authorisation \<Rightarrow> string \<Rightarrow> role py" where
  "as_project_release_manager d c a pk =
     bindE (committee_of d pk) (\<lambda>k.
     bindE (demandE (access 403 ''Not authorized'') (au_asf_uid a)) (\<lambda>uid.
     bindE (au_is_member_of c a (c_key k)) (\<lambda>is_pmc_member.
       let is_designated_release_manager = is_release_manager (Some k) uid in
       bindE (guardE (is_pmc_member \<or> is_designated_release_manager) (access 403 (''Not a release manager for '' @ c_key k)))
         (\<lambda>_. construct c a (ReleaseManager (c_key k))))))"

definition as_project_security_team :: "db \<Rightarrow> cache \<Rightarrow> authorisation \<Rightarrow> string \<Rightarrow> role py" where
  "as_project_security_team d c a pk =
     bindE (committee_of d pk) (\<lambda>k. bindE (known a) (\<lambda>_. construct c a (SecurityTeam (c_key k))))"

fun write_as :: "auth_env \<Rightarrow> db \<Rightarrow> cache \<Rightarrow> authorisation \<Rightarrow> role_request \<Rightarrow> role py" where
  "write_as e d c a As_general_public = construct c a GeneralPublic"
| "write_as e d c a As_foundation_committer =
     bindE (known a) (\<lambda>_. construct c a FoundationCommitter)"
| "write_as e d c a As_foundation_admin =
     bindE (known a) (\<lambda>_. bindE (admin_only e a) (\<lambda>_. construct c a FoundationAdmin))"
| "write_as e d c a (As_committee_participant k) =
     bindE (known a) (\<lambda>_. bindE (participant_only c a k) (\<lambda>_. construct c a (CommitteeParticipant k)))"
| "write_as e d c a (As_committee_member k) =
     bindE (known a) (\<lambda>_. bindE (member_only c a k) (\<lambda>_. construct c a (CommitteeMember k)))"
| "write_as e d c a (As_committee_admin k) =
     bindE (known a) (\<lambda>_. bindE (admin_only e a) (\<lambda>_. construct c a (CommitteeAdmin k)))"
| "write_as e d c a (As_project_committee_participant pk) =
     bindE (committee_of d pk) (\<lambda>k. bindE (known a) (\<lambda>_.
     bindE (participant_only c a (c_key k)) (\<lambda>_. construct c a (CommitteeParticipant (c_key k)))))"
| "write_as e d c a (As_project_committee_member pk) =
     bindE (committee_of d pk) (\<lambda>k. bindE (known a) (\<lambda>_.
     bindE (member_only c a (c_key k)) (\<lambda>_. construct c a (CommitteeMember (c_key k)))))"
| "write_as e d c a (As_project_release_manager pk) =
     as_project_release_manager d c a pk"
| "write_as e d c a (As_project_committee_admin pk) =
     bindE (committee_of d pk) (\<lambda>k. bindE (known a) (\<lambda>_.
     bindE (admin_only e a) (\<lambda>_. construct c a (CommitteeAdmin (c_key k)))))"
| "write_as e d c a (As_project_security_team pk) =
     as_project_security_team d c a pk"

text \<open>\<open>member_of_committees\<close> and \<open>participant_of_committees\<close>: the standing committees of the principal.\<close>

definition committees_in :: "db \<Rightarrow> string set \<Rightarrow> committee list" where
  "committees_in d ks = sort_key c_key (sel (\<lambda>k. c_key k \<in> ks) (db_committees d))"

definition member_of_committees :: "db \<Rightarrow> cache \<Rightarrow> authorisation \<Rightarrow> committee list py" where
  "member_of_committees d c a = bindE (au_member_of c a) (\<lambda>ks. Inr (committees_in d ks))"

definition participant_of_committees :: "db \<Rightarrow> cache \<Rightarrow> authorisation \<Rightarrow> committee list py" where
  "participant_of_committees d c a = bindE (au_participant_of c a) (\<lambda>ks. Inr (committees_in d ks))"

section \<open>Services\<close>

text \<open>
  The services that act without a user take the identity of the system, and borrow the writers of an
  administrator or a committer; \<open>write_as_user_service\<close> acts for the user it is given.
\<close>

datatype service =
    AsfYamlService | CapResolveService | DistCatalogService | KeysReflectionService | InactivitySweepService
  | JwtMintService | ReleaseFinaliseService | ReleaseUnpublishService | AutomatedMailService
  | TrustedPublisherAlertService

definition system_service :: "authorisation \<Rightarrow> unit py" where
  "system_service a =
     guardE (au_asf_uid a = Some SYSTEM_SERVICE_UID)
       (access 401 ''System service writes require the system service identity'')"

definition borrowed_role :: "service \<Rightarrow> role option" where
  "borrowed_role s =
     (case s of KeysReflectionService \<Rightarrow> None | AutomatedMailService \<Rightarrow> Some FoundationCommitter | _ \<Rightarrow> Some FoundationAdmin)"

definition construct_service :: "cache \<Rightarrow> authorisation \<Rightarrow> service \<Rightarrow> service py" where
  "construct_service c a s =
     bindE (system_service a) (\<lambda>_.
       case borrowed_role s of None \<Rightarrow> Inr s | Some r \<Rightarrow> bindE (construct c a r) (\<lambda>_. Inr s))"

definition write_as_system :: "auth_env \<Rightarrow> cache \<Rightarrow> service \<Rightarrow> (service py \<times> cache) auth" where
  "write_as_system e c s =
     bindA (authorise e c (Uid SYSTEM_SERVICE_UID)) (\<lambda>(a, c'). Inr (construct_service c' a s, c'))"

definition write_as_user_service :: "string \<Rightarrow> string py" where
  "write_as_user_service uid =
     (let u = strip uid in
      if u = [] then Inl (access 500 ''User service writes require an ASF UID'') else Inr u)"

section \<open>What the cache remembers\<close>

text \<open>The three tables of the cache hold the same users.\<close>

definition cache_ok :: "cache \<Rightarrow> bool" where
  "cache_ok c = (\<forall>u. (last_refreshed c u = None) = (member_of c u = None) \<and>
                     (last_refreshed c u = None) = (participant_of c u = None))"

lemma cache_ok_new: "cache_ok new_cache"
  by (simp add: cache_ok_def new_cache_def)

lemma cache_ok_remember: "cache_ok c \<Longrightarrow> cache_ok (remember t u m p c)"
  by (auto simp: cache_ok_def remember_def)

text \<open>A refresh leaves a user's entry alone while it is recent, and otherwise writes it afresh.\<close>

definition refreshed :: "int \<Rightarrow> cache \<Rightarrow> string \<Rightarrow> cache \<Rightarrow> bool" where
  "refreshed now c u c' =
     (if outdated now c u then \<exists>m p. c' = remember now u m p c else c' = c)"

lemma asfquart_refreshed: "refreshed (ae_now e) c u (asfquart_cache_refresh e u s c)"
  by (auto simp: refreshed_def asfquart_cache_refresh_def Let_def split: prod.splits)

lemma ldap_refreshed: "ldap_cache_refresh e u c = Inr c' \<Longrightarrow> refreshed (ae_now e) c u c'"
  by (auto simp: refreshed_def ldap_cache_refresh_def Let_def
      split: if_splits prod.splits sum.splits auth_error.splits option.splits)

lemma authorise_refreshed:
  assumes "authorise e c arg = Inr (a, c')"
  shows "case au_asf_uid a of None \<Rightarrow> c' = c | Some u \<Rightarrow> refreshed (ae_now e) c u c'"
  using assms
  by (cases "(e, c, arg)" rule: authorise.cases) (auto simp: asfquart_refreshed ldap_refreshed)

lemma refreshed_recent:
  assumes "refreshed now c u c'" and "cache_ok c"
  obtains m p t where "member_of c' u = Some m" and "participant_of c' u = Some p"
    and "last_refreshed c' u = Some t" and "now - t \<le> 600" and "cache_ok c'"
proof (cases "outdated now c u")
  case True
  then obtain m p where "c' = remember now u m p c" using assms(1) by (auto simp: refreshed_def)
  then show ?thesis using that assms(2) by (auto simp: cache_ok_remember) (simp add: remember_def)
next
  case False
  then obtain t where t: "last_refreshed c u = Some t" "now - t \<le> 600"
    by (auto simp: outdated_def cache_for_at_most_seconds_def split: option.splits)
  moreover obtain m p where "member_of c u = Some m" "participant_of c u = Some p"
    using assms(2) t(1) unfolding cache_ok_def by (metis not_None_eq option.distinct(1))
  ultimately show ?thesis using that assms False by (auto simp: refreshed_def)
qed

section \<open>Who is granted a role\<close>

definition committee_of_project :: "db \<Rightarrow> string \<Rightarrow> committee option" where
  "committee_of_project d pk = (case project_get d pk of None \<Rightarrow> None | Some p \<Rightarrow> project_committee d p)"

lemma committee_of_Inr: "committee_of d pk = Inr k \<longleftrightarrow> committee_of_project d pk = Some k"
  by (auto simp: committee_of_def committee_of_project_def bindE_Inr_iff split: option.splits)

text \<open>
  The roles a principal is entitled to: \<open>M\<close> are the committees it is a member of and \<open>P\<close> those it
  participates in.
\<close>

fun entitled :: "auth_env \<Rightarrow> db \<Rightarrow> string set \<Rightarrow> string set \<Rightarrow> string \<Rightarrow> role_request \<Rightarrow> role \<Rightarrow> bool" where
  "entitled e d M P u As_general_public r = (r = GeneralPublic)"
| "entitled e d M P u As_foundation_committer r = (r = FoundationCommitter)"
| "entitled e d M P u As_foundation_admin r = (is_admin (ae_admin e) (Some u) \<and> r = FoundationAdmin)"
| "entitled e d M P u (As_committee_participant k) r = (k \<in> P \<and> r = CommitteeParticipant k)"
| "entitled e d M P u (As_committee_member k) r = (k \<in> M \<and> r = CommitteeMember k)"
| "entitled e d M P u (As_committee_admin k) r = (is_admin (ae_admin e) (Some u) \<and> r = CommitteeAdmin k)"
| "entitled e d M P u (As_project_committee_participant pk) r =
     (\<exists>k. committee_of_project d pk = Some k \<and> c_key k \<in> P \<and> r = CommitteeParticipant (c_key k))"
| "entitled e d M P u (As_project_committee_member pk) r =
     (\<exists>k. committee_of_project d pk = Some k \<and> c_key k \<in> M \<and> r = CommitteeMember (c_key k))"
| "entitled e d M P u (As_project_release_manager pk) r =
     (\<exists>k. committee_of_project d pk = Some k \<and> r = ReleaseManager (c_key k) \<and>
        (c_key k \<in> M \<or> u \<in> set (c_release_managers k) \<and> u \<in> set (c_committers k)))"
| "entitled e d M P u (As_project_committee_admin pk) r =
     (\<exists>k. committee_of_project d pk = Some k \<and> is_admin (ae_admin e) (Some u) \<and> r = CommitteeAdmin (c_key k))"
| "entitled e d M P u (As_project_security_team pk) r =
     (\<exists>k. committee_of_project d pk = Some k \<and> SECURITY_COMMITTEE_KEY \<in> M \<and> r = SecurityTeam (c_key k))"

lemma anonymous_public_only:
  assumes "au_asf_uid a = None"
  shows "write_as e d c a req = Inr r \<longleftrightarrow> req = As_general_public \<and> r = GeneralPublic"
  using assms by (cases req) (auto simp: construct_def known_def as_project_release_manager_def as_project_security_team_def)

lemma construct_known:
  assumes "au_asf_uid a = Some u" and "member_of c u = Some M"
  shows "construct c a r = Inr r' \<longleftrightarrow> r' = r \<and> ((\<exists>k. r = SecurityTeam k) \<longrightarrow> SECURITY_COMMITTEE_KEY \<in> M)"
  using assms
  by (cases r) (auto simp: construct_def au_is_member_of_def au_member_of_def)

lemma write_as_entitled:
  assumes "au_asf_uid a = Some u" and "member_of c u = Some M" and "participant_of c u = Some P"
  shows "write_as e d c a req = Inr r \<longleftrightarrow> entitled e d M P u req r"
proof -
  note uid = assms(1)
  note con = construct_known [OF assms(1,2)]
  have mem: "member_only c a k = Inr () \<longleftrightarrow> k \<in> M" for k
    using assms by (simp add: member_only_def au_is_member_of_def au_member_of_def)
  have part: "participant_only c a k = Inr () \<longleftrightarrow> k \<in> P" for k
    using assms by (simp add: participant_only_def au_is_participant_of_def au_participant_of_def)
  have ism: "au_is_member_of c a k = Inr (k \<in> M)" for k
    using assms by (simp add: au_is_member_of_def au_member_of_def)
  have kn: "known a = Inr ()" using assms by (simp add: known_def)
  have ad: "admin_only e a = Inr () \<longleftrightarrow> is_admin (ae_admin e) (Some u)"
    using assms by (simp add: admin_only_def)
  show ?thesis
    by (cases req)
      (auto simp: bindE_Inr_iff con mem part ism kn ad committee_of_Inr uid is_release_manager_def
        as_project_release_manager_def as_project_security_team_def)
qed


section \<open>What a refresh from LDAP has verified\<close>

lemma hit_names_Inr: "hit_names hs = Inr ns \<Longrightarrow> map le_cn hs = map (\<lambda>n. [n]) ns \<and> [] \<notin> set ns"
proof (induction hs arbitrary: ns)
  case (Cons h hs)
  then obtain ms where ms: "hit_names hs = Inr ms" "ns = hd (le_cn h) # ms" and h: "length (le_cn h) = 1" "hd (le_cn h) \<noteq> []"
    by (auto split: if_splits)
  have "le_cn h = [hd (le_cn h)]" using h(1) by (cases "le_cn h") auto
  then show ?case using Cons.IH [OF ms(1)] ms(2) h(2) by auto
qed simp

lemma the_only_Inr: "the_only es = Inr e \<longleftrightarrow> es = [e]"
  by (cases es rule: the_only.cases) auto

text \<open>
  A refresh that consults LDAP succeeds only for a user with one entry that is not banned; what it
  remembers is which committees the directory says the user owns and belongs to.
\<close>

lemma ldap_refresh_verifies:
  assumes "ldap_cache_refresh e u c = Inr c'" and "outdated (ae_now e) c u"
    and "u \<noteq> SYSTEM_SERVICE_UID" and "\<not> ae_test_mode e" and "\<not> ae_debug e"
  shows "\<exists>dn pw entry owner member. ae_bind e = Some (dn, pw) \<and>
    ae_search e dn pw (LDAP_DN u) BASE ''(objectClass=*)'' = Inr [entry] \<and> le_asf_banned entry = [] \<and>
    ae_search e dn pw LDAP_PMCS_BASE SUBTREE (LDAP_OWNER_FILTER u) = Inr owner \<and>
    ae_search e dn pw LDAP_PMCS_BASE SUBTREE (LDAP_MEMBER_FILTER u) = Inr member \<and>
    member_of c' u = Some (set (concat (map le_cn owner))) \<and>
    participant_of c' u = Some (set (concat (map le_cn member)))"
proof -
  obtain cm where cm: "read_committer e u = Inr cm"
    and c': "c' = remember (ae_now e) u (set (cm_member_committees cm)) (set (cm_participant_committees cm)) c"
    using assms
    by (auto simp: ldap_cache_refresh_def augment_test_membership_def split: sum.splits auth_error.splits)
  obtain v dn pw where v: "mk_safe AsfUid u = Inr v" and b: "ae_bind e = Some (dn, pw)"
    and ver: "verify (ae_search e dn pw) (new_committer v) = Inr cm"
    using cm by (auto simp: read_committer_def get_ldap_bind_dn_and_password_def split: sum.splits option.splits if_splits)
  have uv: "s_value v = u" using v by (simp add: mk_safe_Inr)
  obtain c1 owner member where
      det: "get_committer_details (ae_search e dn pw) (new_committer v) = Inr c1"
    and ow: "get_project_memberships (ae_search e dn pw) (LDAP_OWNER_FILTER u) = Inr owner"
    and me: "get_project_memberships (ae_search e dn pw) (LDAP_MEMBER_FILTER u) = Inr member"
    and mem: "cm_member_committees cm = owner" "cm_participant_committees cm = member"
    using ver by (auto simp: verify_def new_committer_def uv)
  obtain entry where entry: "ae_search e dn pw (LDAP_DN u) BASE ''(objectClass=*)'' = Inr [entry]" "le_asf_banned entry = []"
    using det by (auto simp: get_committer_details_def new_committer_def uv the_only_Inr searched_def
        split: sum.splits search_failure.splits if_splits)
  obtain os where os: "ae_search e dn pw LDAP_PMCS_BASE SUBTREE (LDAP_OWNER_FILTER u) = Inr os" "hit_names os = Inr owner"
    using ow by (auto simp: get_project_memberships_def searched_def split: sum.splits search_failure.splits)
  obtain ms where ms: "ae_search e dn pw LDAP_PMCS_BASE SUBTREE (LDAP_MEMBER_FILTER u) = Inr ms" "hit_names ms = Inr member"
    using me by (auto simp: get_project_memberships_def searched_def split: sum.splits search_failure.splits)
  have "concat (map le_cn os) = owner" "concat (map le_cn ms) = member"
    using hit_names_Inr [OF os(2)] hit_names_Inr [OF ms(2)] by (simp_all add: concat_map_singleton)
  then show ?thesis
    by (intro exI [of _ dn] exI [of _ pw] exI [of _ entry] exI [of _ os] exI [of _ ms])
      (use b entry os(1) ms(1) mem in \<open>simp add: c' remember_def\<close>)
qed

text \<open>No committer read from LDAP is ever a member of the foundation.\<close>

lemma no_foundation_members:
  assumes "verify search c0 = Inr c" shows "\<not> cm_is_member c"
  using assms by (auto simp: verify_def Let_def safe_equals_text_def list_ex_iff)

definition quiet_env :: auth_env where
  "quiet_env =
     \<lparr> ae_now = 1000,
       ae_admin = \<lparr> is_test_mode = False, session_downgraded = False, admin_users_additional = None, admins_cached = [''root''] \<rparr>,
       ae_debug = False, ae_session_cache = (\<lambda>_. None), ae_bind = None, ae_search = (\<lambda>_ _ _ _ _. Inl Unavailable) \<rparr>"

definition ann_session :: user_session where
  "ann_session = \<lparr> us_uid = ''ann'', us_member_committees = [''tlp''], us_participant_committees = [''tlp'', ''pod''] \<rparr>"

definition ann_cache :: cache where
  "ann_cache = remember 1000 ''ann'' {''tlp''} {''tlp'', ''pod''} new_cache"


text \<open>An authorisation without a user is marked as authenticated, one for a user id is not.\<close>

lemma who_is_authenticated:
  "authorise e c Anonymous = Inr (a, c') \<Longrightarrow> au_authenticated a"
  "authorise e c (Uid u) = Inr (a, c') \<Longrightarrow> \<not> au_authenticated a"
  by auto

end
