(* ===== verification/Validate.thy ===== *)
theory Validate
  imports Cycles Paths Run
begin

text \<open>
  src/atr/validate.py: the program's own consistency checks of its database, which an administrator
  runs.  A check yields divergences; a state is in order when it yields none.

  The value that a divergence prints with \<open>repr\<close> is kept as it is (\<open>py_value\<close>).  The clock, the file
  system and what the checks read of rows that the model does not have are the record
  \<open>validate_env\<close>.  Of the checks of a project, those of its URLs, recipients and trusted publishing
  are left out, and so are the ignore patterns of check results.
\<close>

section \<open>Divergences\<close>

datatype py_value =
    PyNone | PyBool bool | PyInt int | PyText string | PyTime int | PyMode VoteMode | PyPhase ReleasePhase
  | PyPath pure_path | PyList "py_value list" | PyTuple "py_value list"

datatype shown = Written string | Repr py_value

record divergence =
  dv_expected :: shown
  dv_actual :: shown

record annotated =
  an_components :: "string list"
  an_validator :: string
  an_source :: string
  an_divergence :: divergence

definition differs :: "shown \<Rightarrow> shown \<Rightarrow> divergence list" where
  "differs expected actual = [\<lparr> dv_expected = expected, dv_actual = actual \<rparr>]"

definition divergences :: "py_value \<Rightarrow> py_value \<Rightarrow> divergence list" where
  "divergences expected actual = (if expected \<noteq> actual then differs (Repr expected) (Repr actual) else [])"

definition divergences_predicate :: "('a \<Rightarrow> bool) \<Rightarrow> string \<Rightarrow> ('a \<Rightarrow> py_value) \<Rightarrow> 'a \<Rightarrow> divergence list" where
  "divergences_predicate okay expected r actual =
     (if okay actual then [] else differs (Written expected) (Repr (r actual)))"

definition divergences_with_annotations ::
    "string list \<Rightarrow> string \<Rightarrow> string \<Rightarrow> divergence list \<Rightarrow> annotated list" where
  "divergences_with_annotations components validator source ds =
     map (\<lambda>d. \<lparr> an_components = components, an_validator = validator, an_source = source, an_divergence = d \<rparr>) ds"

fun optional :: "('a \<Rightarrow> py_value) \<Rightarrow> 'a option \<Rightarrow> py_value" where
  "optional r None = PyNone"
| "optional r (Some x) = r x"

text \<open>\<open>^[-_a-z0-9]+$\<close> with \<open>match\<close>: the \<open>$\<close> also matches before a newline at the end.\<close>

definition asf_uid_char :: "char \<Rightarrow> bool" where
  "asf_uid_char c = (is_lower c \<or> is_digit c \<or> c = CHR ''-'' \<or> c = CHR ''_'')"

definition ASF_UID_PATTERN :: "string \<Rightarrow> bool" where
  "ASF_UID_PATTERN s = (chomp s \<noteq> [] \<and> list_all asf_uid_char (chomp s))"

section \<open>Committees\<close>

text \<open>\<open>children\<close> are the keys of the committees whose parent this one is.\<close>

definition committee_child_committees :: "(string \<Rightarrow> string list) \<Rightarrow> committee \<Rightarrow> divergence list" where
  "committee_child_committees children c = divergences (PyList []) (PyList (map PyText (children (c_key c))))"

definition committee_committers :: "committee \<Rightarrow> divergence list" where
  "committee_committers c =
     concat (map (divergences_predicate ASF_UID_PATTERN ''value to be an ASF UID'' PyText) (c_committers c))"

definition name_present :: "string option \<Rightarrow> bool" where
  "name_present n = (case n of None \<Rightarrow> False | Some s \<Rightarrow> s \<noteq> [])"

definition name_trimmed :: "string option \<Rightarrow> bool" where
  "name_trimmed n = (case n of None \<Rightarrow> False | Some s \<Rightarrow> s = strip s)"

definition name_not_prefixed :: "string option \<Rightarrow> bool" where
  "name_not_prefixed n = (case n of None \<Rightarrow> False | Some s \<Rightarrow> \<not> startswith s ''Apache '')"

definition committee_full_name :: "committee \<Rightarrow> divergence list" where
  "committee_full_name c =
     divergences_predicate name_present ''value to be set'' (optional PyText) (c_name c) @
     divergences_predicate name_trimmed ''value not to have surrounding whitespace'' (optional PyText) (c_name c) @
     divergences_predicate name_not_prefixed (''value not to start with 'Apache '' @ [CHR 0x27]) (optional PyText) (c_name c)"

definition well_formed :: "safe_class \<Rightarrow> string \<Rightarrow> bool" where
  "well_formed cl s = (case mk_safe cl s of Inl _ \<Rightarrow> False | Inr _ \<Rightarrow> True)"

definition committee_key_check :: "committee \<Rightarrow> divergence list" where
  "committee_key_check c =
     divergences_predicate (well_formed CommitteeKey) ''value to be a valid committee key'' PyText (c_key c)"

definition committee_members :: "committee \<Rightarrow> divergence list" where
  "committee_members c =
     concat (map (divergences_predicate ASF_UID_PATTERN ''value to be an ASF UID'' PyText) (c_committee_members c))"

definition committee_release_managers :: "committee \<Rightarrow> divergence list" where
  "committee_release_managers c =
     concat (map (\<lambda>uid.
       divergences_predicate ASF_UID_PATTERN ''value to be an ASF UID'' PyText uid @
       divergences_predicate (\<lambda>u. u \<in> set (c_committers c)) ''release manager to be a committer'' PyText uid @
       divergences_predicate (\<lambda>u. u \<notin> set (c_committee_members c))
         ''release manager to not be a PMC member'' PyText uid) (c_release_managers c))"

definition committee_components :: "string \<Rightarrow> string \<Rightarrow> committee \<Rightarrow> divergence list \<Rightarrow> annotated list" where
  "committee_components component validator c ds =
     divergences_with_annotations [component] validator (c_key c) ds"

definition committee :: "(string \<Rightarrow> string list) \<Rightarrow> committee \<Rightarrow> annotated list" where
  "committee children c =
     committee_components ''Committee.child_committees'' ''committee_child_committees'' c
       (committee_child_committees children c) @
     committee_components ''Committee.committers'' ''committee_committers'' c (committee_committers c) @
     committee_components ''Committee.name'' ''committee_full_name'' c (committee_full_name c) @
     committee_components ''Committee.key'' ''committee_key'' c (committee_key_check c) @
     committee_components ''Committee.committee_members'' ''committee_members'' c (committee_members c) @
     committee_components ''Committee.release_managers'' ''committee_release_managers'' c (committee_release_managers c)"

definition committees :: "(string \<Rightarrow> string list) \<Rightarrow> committee list \<Rightarrow> annotated list" where
  "committees children cs = concat (map (committee children) cs)"

section \<open>Releases\<close>

text \<open>
  What the checks read besides the database: the clock, the state directory, whether a path exists,
  is a directory or has an entry, the columns of a project's cycles with the pattern compiler, and
  the two JSON columns of a release that nothing in the program sets.
\<close>

record 'v validate_env =
  ve_now :: int
  ve_resolve :: "pure_path \<Rightarrow> pure_path"
  ve_state_dir :: string
  ve_exists :: "pure_path \<Rightarrow> bool"
  ve_is_dir :: "pure_path \<Rightarrow> bool"
  ve_has_entry :: "pure_path \<Rightarrow> bool"
  ve_cycles :: "'v cycle_env"
  ve_columns :: "project \<Rightarrow> cycle_project"
  ve_package_managers :: "release \<Rightarrow> string list"
  ve_sboms :: "release \<Rightarrow> string list"

definition release_archived :: "release \<Rightarrow> divergence list" where
  "release_archived r =
     (if (r_archived r \<noteq> None \<or> r_archive_source r \<noteq> None) \<and> \<not> r_is_archived r
      then differs (Written ''is_archived to be set with an archive date or source'') (Repr (PyBool (r_is_archived r)))
      else [])"

definition release_created :: "int \<Rightarrow> release \<Rightarrow> divergence list" where
  "release_created now r =
     divergences_predicate (\<lambda>t. t < now) ''value to be in the past'' PyTime (r_created r)"

definition release_cycle :: "'v validate_env \<Rightarrow> db \<Rightarrow> release \<Rightarrow> divergence list" where
  "release_cycle env d r =
     (case release_project d r of
        None \<Rightarrow> []
      | Some p \<Rightarrow>
          (let cycle = (case cycle_name_for_version (ve_cycles env) (ve_columns env p) (r_version r) of
                          Inl _ \<Rightarrow> DEFAULT_CYCLE | Inr name \<Rightarrow> name)
           in divergences (PyText (r_project_key r @ ''-'' @ cycle)) (PyText (r_cycle_key r))))"

definition validate_download_path_suffix :: "string \<Rightarrow> unit py" where
  "validate_download_path_suffix template =
     (let resolved = strip template in
      if resolved = [] then Inr ()
      else
        let probe = replace_str ''{{VERSION}}'' ''x''
                      (replace_str ''{{PROJECT_KEY}}'' ''x'' (replace_str ''{{MAJOR_VERSION}}'' ''x'' resolved))
        in case mk_safe RelPath probe of
             Inl _ \<Rightarrow> Inl (ValueError ''Download path suffix is not a valid path'')
           | Inr _ \<Rightarrow> Inr ())"

definition download_path_suffix :: "string option \<Rightarrow> divergence list" where
  "download_path_suffix suffix =
     (case suffix of
        None \<Rightarrow> []
      | Some s \<Rightarrow> (case validate_download_path_suffix s of
                    Inl _ \<Rightarrow> differs (Written ''a valid download path suffix'') (Repr (PyText s))
                  | Inr _ \<Rightarrow> []))"

definition release_download_path_suffix :: "release \<Rightarrow> divergence list" where
  "release_download_path_suffix r = download_path_suffix (r_download_path_suffix r)"

definition release_key_check :: "release \<Rightarrow> divergence list" where
  "release_key_check r = divergences (PyText (release_key (r_project_key r) (r_version r))) (PyText (r_key r))"

definition release_on_disk :: "'v validate_env \<Rightarrow> db \<Rightarrow> release \<Rightarrow> divergence list py" where
  "release_on_disk env d r =
     (let rs = ve_resolve env; st = ve_state_dir env; seen = (\<lambda>p. PyPath (sp_path p)) in
      if r_phase r = RELEASE then
        bindE (get_unfinished_dir rs st) (\<lambda>u.
        bindE (divs rs u [Text (r_project_key r), Text (r_version r)]) (\<lambda>unfinished.
          Inr (divergences_predicate (\<lambda>p. \<not> ve_exists env (sp_path p))
                 ''no unfinished directory to remain after release'' seen unfinished)))
      else
        bindE (release_directory rs st d r) (\<lambda>path.
          if r_phase r = RELEASE_CANDIDATE_DRAFT then
            Inr (divergences_predicate (\<lambda>p. ve_is_dir env (sp_path p)) ''directory to exist'' seen path)
          else
            Inr (divergences_predicate (\<lambda>p. ve_exists env (sp_path p) \<and> ve_has_entry env (sp_path p))
                   ''directory to exist and contain files'' seen path)))"

definition release_package_managers :: "'v validate_env \<Rightarrow> release \<Rightarrow> divergence list" where
  "release_package_managers env r = divergences (PyList []) (PyList (map PyText (ve_package_managers env r)))"

fun project_status_value :: "ProjectStatus \<Rightarrow> string" where
  "project_status_value PS_ACTIVE = ''active''"
| "project_status_value PS_DORMANT = ''dormant''"
| "project_status_value PS_RETIRED = ''retired''"
| "project_status_value PS_STANDING = ''standing''"

definition release_project_active :: "db \<Rightarrow> release \<Rightarrow> divergence list" where
  "release_project_active d r =
     (if r_phase r \<noteq> RELEASE
      then divergences (PyText (project_status_value PS_ACTIVE))
             (optional (\<lambda>p. PyText (project_status_value (p_status p))) (release_project d r))
      else [])"

definition release_released :: "int \<Rightarrow> release \<Rightarrow> divergence list" where
  "release_released now r =
     divergences_predicate (\<lambda>t. case t of None \<Rightarrow> True | Some x \<Rightarrow> x < now)
       ''value to be in the past or None'' (optional PyTime) (r_released r)"

definition release_sboms :: "'v validate_env \<Rightarrow> release \<Rightarrow> divergence list" where
  "release_sboms env r = divergences (PyList []) (PyList (map PyText (ve_sboms env r)))"

text \<open>The columns of a vote by their names: \<open>getattr(r, name)\<close>.\<close>

definition vote_columns :: "release \<Rightarrow> (string \<times> py_value) list" where
  "vote_columns r =
     [(''vote_mode'', optional PyMode (r_vote_mode r)),
      (''vote_started'', optional PyTime (r_vote_started r)),
      (''vote_resolved'', optional PyTime (r_vote_resolved r)),
      (''podling_thread_id'', optional PyText (r_podling_thread_id r)),
      (''vote_thread_url'', optional PyText (r_vote_thread_url r)),
      (''current_vote_seq'', optional (\<lambda>n. PyInt (int n)) (r_current_vote_seq r)),
      (''voted_revision_number'', optional PyText (r_voted_revision_number r))]"

definition vote_column :: "release \<Rightarrow> string \<Rightarrow> py_value" where
  "vote_column r name = (case map_of (vote_columns r) name of None \<Rightarrow> PyNone | Some v \<Rightarrow> v)"

fun PHASE_VOTE_FIELDS :: "ReleasePhase \<Rightarrow> string list \<times> string list" where
  "PHASE_VOTE_FIELDS RELEASE_CANDIDATE_DRAFT =
     ([], [''vote_mode'', ''vote_resolved'', ''podling_thread_id'', ''voted_revision_number'', ''vote_thread_url''])"
| "PHASE_VOTE_FIELDS RELEASE_CANDIDATE =
     ([''vote_started'', ''vote_mode''], [''vote_resolved'', ''vote_thread_url''])"
| "PHASE_VOTE_FIELDS RELEASE_PREVIEW = ([''vote_started'', ''vote_resolved'', ''vote_mode''], [])"
| "PHASE_VOTE_FIELDS RELEASE = ([], [])"

definition VOTE_FIELD_PREREQUISITES :: "(string \<times> string list) list" where
  "VOTE_FIELD_PREREQUISITES =
     [(''current_vote_seq'', [''vote_started'']),
      (''voted_revision_number'', [''current_vote_seq'', ''vote_started'', ''vote_mode''])]"

definition release_vote_fields :: "release \<Rightarrow> divergence list" where
  "release_vote_fields r =
     concat (map (\<lambda>name.
         if name = ''vote_resolved'' \<and> r_current_vote_seq r = None then []
         else if vote_column r name = PyNone
         then differs (Written (name @ '' to be set in '' @ phase_value (r_phase r))) (Written ''None'') else [])
       (fst (PHASE_VOTE_FIELDS (r_phase r)))) @
     concat (map (\<lambda>name.
         if vote_column r name \<noteq> PyNone
         then differs (Written (name @ '' to be unset in '' @ phase_value (r_phase r))) (Repr (vote_column r name))
         else [])
       (snd (PHASE_VOTE_FIELDS (r_phase r))))"

definition release_vote_logic :: "release \<Rightarrow> divergence list" where
  "release_vote_logic r =
     divergences_predicate (\<lambda>(s, t). t = None \<or> s \<noteq> None) ''vote_started to be set when vote_resolved is set''
       (\<lambda>(s, t). PyTuple [optional PyTime s, optional PyTime t]) (r_vote_started r, r_vote_resolved r)"

definition release_vote_prerequisites :: "release \<Rightarrow> divergence list" where
  "release_vote_prerequisites r =
     concat (map (\<lambda>(name, prerequisites).
         if vote_column r name = PyNone then []
         else concat (map (\<lambda>p.
             if vote_column r p = PyNone
             then differs (Written (p @ '' to be set with '' @ name)) (Written ''None'') else []) prerequisites))
       VOTE_FIELD_PREREQUISITES)"

definition release_voted_revision :: "db \<Rightarrow> release \<Rightarrow> divergence list" where
  "release_voted_revision d r =
     (if (r_phase r = RELEASE_CANDIDATE \<or> r_phase r = RELEASE_PREVIEW) \<and> r_voted_revision_number r \<noteq> None
      then divergences (optional PyText (latest_revision_number d (r_key r)))
             (optional PyText (r_voted_revision_number r))
      else [])"

definition release_components :: "string list \<Rightarrow> string \<Rightarrow> release \<Rightarrow> divergence list \<Rightarrow> annotated list" where
  "release_components components validator r ds = divergences_with_annotations components validator (r_key r) ds"

text \<open>\<open>release(r, finalising)\<close>: reading a directory may raise, the other checks do not.\<close>

definition release :: "'v validate_env \<Rightarrow> db \<Rightarrow> release \<Rightarrow> bool \<Rightarrow> annotated list py" where
  "release env d r finalising =
     bindE (if r_phase r \<noteq> RELEASE \<or> \<not> finalising then release_on_disk env d r else Inr []) (\<lambda>on_disk.
       Inr (
         release_components [''Release.archived'', ''Release.archive_source'', ''Release.is_archived'']
           ''release_archived'' r (release_archived r) @
         release_components [''Release.created''] ''release_created'' r (release_created (ve_now env) r) @
         release_components [''Release.cycle_key''] ''release_cycle'' r (release_cycle env d r) @
         release_components [''Release.download_path_suffix''] ''release_download_path_suffix'' r
           (release_download_path_suffix r) @
         release_components [''Release.key''] ''release_key'' r (release_key_check r) @
         release_components [''Release''] ''release_on_disk'' r on_disk @
         release_components [''Release.package_managers''] ''release_package_managers'' r
           (release_package_managers env r) @
         release_components [''Release.phase'', ''Project.status''] ''release_project_active'' r
           (release_project_active d r) @
         release_components [''Release.released''] ''release_released'' r (release_released (ve_now env) r) @
         release_components [''Release.sboms''] ''release_sboms'' r (release_sboms env r) @
         release_components [''Release.phase''] ''release_vote_fields'' r (release_vote_fields r) @
         release_components [''Release.vote_started'', ''Release.vote_resolved''] ''release_vote_logic'' r
           (release_vote_logic r) @
         release_components [''Release.current_vote_seq'', ''Release.voted_revision_number'']
           ''release_vote_prerequisites'' r (release_vote_prerequisites r) @
         release_components [''Release.voted_revision_number''] ''release_voted_revision'' r
           (release_voted_revision d r)))"

definition finalising_releases :: "db \<Rightarrow> (string \<times> string) list" where
  "finalising_releases d =
     List.map_filter (\<lambda>t. case (t_project_key t, t_version_key t) of
         (Some pk, Some v) \<Rightarrow> Some (pk, v) | _ \<Rightarrow> None)
       (sel (\<lambda>t. (t_status t = QUEUED \<or> t_status t = ACTIVE) \<and> t_task_type t = RELEASE_FINALISE) (db_tasks d))"

definition releases :: "'v validate_env \<Rightarrow> db \<Rightarrow> (string \<times> string) list \<Rightarrow> annotated list py" where
  "releases env d finalising =
     bindE (mapE (\<lambda>r. release env d r ((r_project_key r, r_version r) \<in> set finalising))
              (sort_key r_key (db_releases d)))
       (\<lambda>xs. Inr (concat xs))"

section \<open>Counters\<close>

text \<open>
  The groups of a query: a release key with the greatest number seen and the counter.  The groups
  come in the order of their first row.
\<close>

definition grouped :: "(string \<times> nat) list \<Rightarrow> (string \<Rightarrow> nat option) \<Rightarrow> (string \<times> nat \<times> nat option) list" where
  "grouped rows counter =
     map (\<lambda>k. (k, Max (set (map snd (sel (\<lambda>(k', _). k' = k) rows))), counter k)) (remdups (map fst rows))"

definition revision_allocations :: "db \<Rightarrow> (string \<times> nat \<times> nat option) list" where
  "revision_allocations d =
     grouped (map (\<lambda>v. (rev_release_key v, rev_seq v)) (db_revisions d)) (db_revision_counter d)"

text \<open>The vote that a task is to call, when its arguments name a number.\<close>

definition task_vote :: "task \<Rightarrow> (string \<times> nat) option" where
  "task_vote t =
     (if t_task_type t = VOTE_INITIATE
      then (case (t_task_args t, t_project_key t, t_version_key t) of
              (A_INITIATE ia, Some pk, Some v) \<Rightarrow> map_option (\<lambda>s. (pk @ ''-'' @ v, s)) (ia_vote_seq ia)
            | _ \<Rightarrow> None)
      else None)"

definition vote_serials :: "db \<Rightarrow> (string \<times> nat) list" where
  "vote_serials d =
     List.map_filter (\<lambda>r. map_option (Pair (r_key r)) (r_current_vote_seq r)) (db_releases d) @
     map (\<lambda>b. (b_release_key b, b_vote_seq b)) (db_ballots d) @
     List.map_filter task_vote (db_tasks d)"

definition unfinished :: "db \<Rightarrow> string \<Rightarrow> bool" where
  "unfinished d rk = list_ex (\<lambda>r. r_key r = rk \<and> r_phase r \<noteq> RELEASE) (db_releases d)"

definition vote_allocations :: "db \<Rightarrow> (string \<times> nat \<times> nat option) list" where
  "vote_allocations d = grouped (sel (\<lambda>(rk, _). unfinished d rk) (vote_serials d)) (db_vote_counter d)"

definition allocated_at_least :: "string \<Rightarrow> string \<times> nat \<times> nat option \<Rightarrow> annotated list" where
  "allocated_at_least counter row =
     (case row of (rk, allocated, last_number) \<Rightarrow>
        if (case last_number of None \<Rightarrow> True | Some n \<Rightarrow> n < allocated)
        then divergences_with_annotations [counter @ ''.last_allocated_number''] ''allocation_counters'' rk
               (differs (Written (''at least '' @ str_nat allocated)) (Repr (optional (\<lambda>n. PyInt (int n)) last_number)))
        else [])"

definition allocation_counters :: "db \<Rightarrow> annotated list" where
  "allocation_counters d =
     concat (map (allocated_at_least ''RevisionCounter'') (revision_allocations d)) @
     concat (map (allocated_at_least ''VoteCounter'') (vote_allocations d))"

section \<open>The quarantine\<close>

definition QUARANTINE_STAGING_SECONDS :: int where
  "QUARANTINE_STAGING_SECONDS = 5 * 60"

fun quarantine_status_name :: "QuarantineStatus \<Rightarrow> string" where
  "quarantine_status_name Q_STAGING = ''STAGING''"
| "quarantine_status_name Q_PENDING = ''PENDING''"
| "quarantine_status_name Q_FAILED = ''FAILED''"
| "quarantine_status_name Q_ACKNOWLEDGED = ''ACKNOWLEDGED''"

definition quarantine_source :: "quarantined \<Rightarrow> string" where
  "quarantine_source q = q_release_key q @ '' quarantine '' @ str_nat (q_id q)"

definition has_validation_task :: "db \<Rightarrow> quarantined \<Rightarrow> bool" where
  "has_validation_task d q =
     list_ex (\<lambda>t. t_task_type t = QUARANTINE_VALIDATE \<and> (t_status t = QUEUED \<or> t_status t = ACTIVE) \<and>
                  t_task_args t = A_QUARANTINE_VALIDATE (q_id q)) (db_tasks d)"

definition quarantine_pending :: "db \<Rightarrow> annotated list" where
  "quarantine_pending d =
     concat (map (\<lambda>q. divergences_with_annotations [''Quarantined.status''] ''quarantine_pending''
         (quarantine_source q)
         (differs (Written ''PENDING with a queued or active validation task'') (Written ''no such task'')))
       (sort_key q_id (sel (\<lambda>q. q_status q = Q_PENDING \<and> \<not> has_validation_task d q) (db_quarantined d))))"

text \<open>The text of the time since which a row is staged is kept as the time.\<close>

definition quarantine_staging :: "int \<Rightarrow> db \<Rightarrow> annotated list" where
  "quarantine_staging now d =
     concat (map (\<lambda>q. divergences_with_annotations [''Quarantined.status''] ''quarantine_staging''
         (quarantine_source q) (differs (Written ''STAGING for at most 5 minutes'') (Repr (PyTime (q_created q)))))
       (sort_key q_id (sel (\<lambda>q. q_status q = Q_STAGING \<and> q_created q < now - QUARANTINE_STAGING_SECONDS)
          (db_quarantined d))))"

definition quarantine_divergences :: "db \<Rightarrow> quarantined \<Rightarrow> annotated list" where
  "quarantine_divergences d q =
     (let unfinished = (q_status q = Q_STAGING \<or> q_status q = Q_PENDING);
          phase = map_option r_phase (release_by_key d (q_release_key q)) in
      (if (q_completed q \<noteq> None) = unfinished
       then divergences_with_annotations [''Quarantined.completed''] ''quarantine_completed'' (quarantine_source q)
              (differs (Written (''completed to match status '' @ quarantine_status_name (q_status q)))
                 (Repr (optional PyTime (q_completed q)))) else []) @
      (if unfinished \<and> phase \<noteq> Some RELEASE_CANDIDATE_DRAFT
       then divergences_with_annotations [''Quarantined.status''] ''quarantine_release'' (quarantine_source q)
              (differs (Written (''a draft release when '' @ quarantine_status_name (q_status q)))
                 (Repr (optional PyPhase phase))) else []) @
      (case q_prior_revision_key q of
         None \<Rightarrow> []
       | Some prior \<Rightarrow>
           if \<not> startswith prior (q_release_key q @ '' '')
           then divergences_with_annotations [''Quarantined.prior_revision_key''] ''quarantine_revision''
                  (quarantine_source q)
                  (differs (Written (''a revision key of '' @ q_release_key q)) (Repr (PyText prior))) else []))"

definition quarantines :: "db \<Rightarrow> annotated list" where
  "quarantines d = concat (map (quarantine_divergences d) (sort_key q_id (db_quarantined d)))"


section \<open>The checks on reachable states\<close>

lemma mapE_in: "mapE f xs = Inr yss \<Longrightarrow> ys \<in> set yss \<Longrightarrow> \<exists>x \<in> set xs. f x = Inr ys"
  by (induction xs arbitrary: yss) (auto simp: bindE_Inr_iff)

lemma optional_None [simp]: "(\<And>x. f x \<noteq> PyNone) \<Longrightarrow> optional f x = PyNone \<longleftrightarrow> x = None"
  by (cases x) simp_all

text \<open>The checks of a row's own columns are silent on a row that keeps the invariant.\<close>

lemma vote_column_simps [simp]:
  "vote_column r ''vote_mode'' = optional PyMode (r_vote_mode r)"
  "vote_column r ''vote_started'' = optional PyTime (r_vote_started r)"
  "vote_column r ''vote_resolved'' = optional PyTime (r_vote_resolved r)"
  "vote_column r ''podling_thread_id'' = optional PyText (r_podling_thread_id r)"
  "vote_column r ''vote_thread_url'' = optional PyText (r_vote_thread_url r)"
  "vote_column r ''current_vote_seq'' = optional (\<lambda>n. PyInt (int n)) (r_current_vote_seq r)"
  "vote_column r ''voted_revision_number'' = optional PyText (r_voted_revision_number r)"
  by (simp_all add: vote_column_def vote_columns_def)

lemma row_ok_parts:
  assumes "row_ok r"
  shows "r_current_vote_seq r \<noteq> None \<or> r_vote_resolved r \<noteq> None \<longrightarrow> r_vote_started r \<noteq> None"
    and "r_voted_revision_number r \<noteq> None \<longrightarrow> r_current_vote_seq r \<noteq> None \<and> r_vote_mode r \<noteq> None"
    and "r_phase r = RELEASE_CANDIDATE \<longrightarrow> r_vote_thread_url r = None"
    and "r_phase r = RELEASE_CANDIDATE \<longrightarrow> r_vote_resolved r = None"
    and "r_phase r = RELEASE_PREVIEW \<longrightarrow> r_vote_resolved r \<noteq> None"
    and "r_phase r = RELEASE_CANDIDATE \<or> r_phase r = RELEASE_PREVIEW \<longrightarrow>
         r_vote_mode r \<noteq> None \<and> r_current_vote_seq r \<noteq> None \<and> r_voted_revision_number r \<noteq> None"
    and "r_phase r = RELEASE_CANDIDATE_DRAFT \<longrightarrow>
         r_vote_mode r = None \<and> r_voted_revision_number r = None \<and> r_vote_resolved r = None \<and>
         r_podling_thread_id r = None \<and> r_vote_thread_url r = None"
    and "\<not> r_is_archived r \<longrightarrow> r_archived r = None \<and> r_archive_source r = None"
  using assms unfolding row_ok_def by - (elim conjE, assumption)+

lemma vote_started_in:
  assumes "row_ok r" and "r_phase r = RELEASE_CANDIDATE \<or> r_phase r = RELEASE_PREVIEW"
  shows "r_vote_started r \<noteq> None"
  using row_ok_parts(1,6) [OF assms(1)] assms(2) by simp

lemma archived_silent: "row_ok r \<Longrightarrow> release_archived r = []"
  using row_ok_parts(8) [of r] by (auto simp: release_archived_def)

lemma key_silent: "row_ok r \<Longrightarrow> release_key_check r = []"
  by (simp add: row_ok_def release_key_check_def divergences_def)

lemma vote_logic_silent: "row_ok r \<Longrightarrow> release_vote_logic r = []"
  using row_ok_parts(1) [of r] by (auto simp: release_vote_logic_def divergences_predicate_def)

lemma vote_fields_silent:
  assumes "row_ok r"
  shows "release_vote_fields r = []"
proof (cases "r_phase r")
  case RELEASE_CANDIDATE
  then obtain s m where "r_vote_started r = Some s" "r_vote_mode r = Some m" "r_vote_resolved r = None"
      "r_vote_thread_url r = None"
    using row_ok_parts(3,4,6) [OF assms] vote_started_in [OF assms] by blast
  then show ?thesis by (simp add: release_vote_fields_def RELEASE_CANDIDATE)
next
  case RELEASE_CANDIDATE_DRAFT
  then show ?thesis using row_ok_parts(7) [OF assms] by (simp add: release_vote_fields_def)
next
  case RELEASE_PREVIEW
  then obtain s m t where "r_vote_started r = Some s" "r_vote_mode r = Some m" "r_vote_resolved r = Some t"
    using row_ok_parts(5,6) [OF assms] vote_started_in [OF assms] by blast
  then show ?thesis by (simp add: release_vote_fields_def RELEASE_PREVIEW)
next
  case RELEASE
  then show ?thesis by (simp add: release_vote_fields_def)
qed

lemma vote_prerequisites_silent:
  assumes "row_ok r"
  shows "release_vote_prerequisites r = []"
proof (cases "r_voted_revision_number r")
  case None
  then show ?thesis
    using row_ok_parts(1) [OF assms]
    by (cases "r_current_vote_seq r") (auto simp: release_vote_prerequisites_def VOTE_FIELD_PREREQUISITES_def)
next
  case (Some n)
  then obtain s m t where "r_current_vote_seq r = Some s" "r_vote_mode r = Some m" "r_vote_started r = Some t"
    using row_ok_parts(1,2) [OF assms] by blast
  then show ?thesis by (simp add: release_vote_prerequisites_def VOTE_FIELD_PREREQUISITES_def Some)
qed

lemma voted_revision_silent: "linked d r \<Longrightarrow> release_voted_revision d r = []"
  by (auto simp: linked_def release_voted_revision_def divergences_def)

lemmas row_silent =
  archived_silent key_silent vote_logic_silent vote_fields_silent vote_prerequisites_silent

text \<open>What is left can only come from the checks of the clock, the files and the project.\<close>

definition environment_checks :: "string set" where
  "environment_checks =
     {''release_created'', ''release_cycle'', ''release_download_path_suffix'', ''release_on_disk'',
      ''release_package_managers'', ''release_project_active'', ''release_released'', ''release_sboms''}"

lemma annotations_of [simp]: "a \<in> set (release_components cs v r ds) \<Longrightarrow> an_validator a = v"
  by (auto simp: release_components_def divergences_with_annotations_def)

lemma annotations_Nil [simp]: "release_components cs v r [] = []"
  by (simp add: release_components_def divergences_with_annotations_def)

lemma release_left:
  assumes "row_ok r" and "linked d r" and "release env d r fin = Inr xs" and "a \<in> set xs"
  shows "an_validator a \<in> environment_checks"
  using assms(3,4)
  by (auto simp: release_def bindE_Inr_iff row_silent [OF assms(1)] voted_revision_silent [OF assms(2)]
      environment_checks_def dest!: annotations_of)

lemma quarantine_silent:
  assumes inv: "db_ok d" and q: "q \<in> set (db_quarantined d)"
  shows "quarantine_divergences d q = []"
proof -
  have "\<exists>r. release_by_key d (q_release_key q) = Some r"
    using invD(10) [OF inv q] by (cases "release_by_key d (q_release_key q)")
      (auto simp: has_release_def release_by_key_def sel_one_None)
  then obtain r where r: "release_by_key d (q_release_key q) = Some r" by blast
  note rin = release_by_key_in [OF r]
  have "r_phase r = RELEASE_CANDIDATE_DRAFT" if "q_status q = Q_STAGING \<or> q_status q = Q_PENDING"
  proof (rule ccontr)
    assume "r_phase r \<noteq> RELEASE_CANDIDATE_DRAFT"
    then have "pending_quarantine_count d (q_release_key q) = 0"
      using invD(4) [OF inv, of r] rin by (simp add: linked_def)
    then show False using that q by (auto simp: pending_zero counts_pending_def)
  qed
  then show ?thesis
    using invD(12) [OF inv q]
    by (auto simp: quarantine_divergences_def Let_def r quarantine_row_ok_def split: option.split)
qed

lemma grouped_silent:
  assumes "\<And>k s. (k, s) \<in> set rows \<Longrightarrow> \<exists>n. counter k = Some n \<and> s \<le> n"
    and "x \<in> set (grouped rows counter)"
  shows "allocated_at_least c x = []"
proof -
  obtain k where k: "k \<in> fst ` set rows"
    and x: "x = (k, Max (set (map snd (sel (\<lambda>(k', _). k' = k) rows))), counter k)"
    using assms(2) by (auto simp: grouped_def)
  let ?S = "set (map snd (sel (\<lambda>(k', _). k' = k) rows))"
  have "\<exists>s. (k, s) \<in> set rows" using k by auto
  then have "?S \<noteq> {}" by (auto simp: sel_def filter_empty_conv)
  then have "Max ?S \<in> ?S" by (intro Max_in) simp_all
  then have "(k, Max ?S) \<in> set rows" by (auto simp: sel_set)
  then show ?thesis using assms(1) by (fastforce simp: x allocated_at_least_def)
qed

lemma revision_counters_silent:
  assumes "db_ok d"
  shows "concat (map (allocated_at_least c) (revision_allocations d)) = []"
proof -
  have "allocated_at_least c x = []" if "x \<in> set (revision_allocations d)" for x
    using that unfolding revision_allocations_def
    by (rule grouped_silent [rotated]) (use invD(6) [OF assms] in \<open>auto simp: revision_ok_def\<close>)
  then show ?thesis by simp
qed

text \<open>A task that is to call a vote names an allocated number.\<close>

definition calls_allocated :: "db \<Rightarrow> task \<Rightarrow> bool" where
  "calls_allocated d t =
     (case task_vote t of
        None \<Rightarrow> True
      | Some (rk, s) \<Rightarrow> unfinished d rk \<longrightarrow> (case db_vote_counter d rk of None \<Rightarrow> False | Some n \<Rightarrow> s \<le> n))"

lemma vote_counters_silent:
  assumes inv: "db_ok d" and tasks: "list_all (calls_allocated d) (db_tasks d)"
  shows "concat (map (allocated_at_least c) (vote_allocations d)) = []"
proof -
  have counted: "\<exists>n. db_vote_counter d k = Some n \<and> s \<le> n"
    if ks: "(k, s) \<in> set (sel (\<lambda>(rk, _). unfinished d rk) (vote_serials d))" for k s
  proof -
    have un: "unfinished d k" using ks by (simp add: sel_set)
    consider r where "r \<in> set (db_releases d)" "r_key r = k" "r_current_vote_seq r = Some s"
      | b where "b \<in> set (db_ballots d)" "b_release_key b = k" "b_vote_seq b = s"
      | t where "t \<in> set (db_tasks d)" "task_vote t = Some (k, s)"
      using ks by (auto simp: sel_set vote_serials_def List.map_filter_def)
    then show ?thesis
    proof cases
      case 1
      then show ?thesis using invD(4) [OF inv] by (auto simp: linked_def)
    next
      case 2
      then show ?thesis using invD(9) [OF inv] by (auto simp: ballot_ok_def)
    next
      case 3
      then have "calls_allocated d t" using tasks by (simp add: list_all_iff)
      then show ?thesis using 3 un by (auto simp: calls_allocated_def split: option.splits)
    qed
  qed
  have "allocated_at_least c x = []" if "x \<in> set (vote_allocations d)" for x
    using that unfolding vote_allocations_def by (rule grouped_silent [rotated]) (rule counted)
  then show ?thesis by simp
qed


text \<open>A server on which every directory exists, for projects without cycles.\<close>

definition tidy_env :: "nat validate_env" where
  "tidy_env = \<lparr> ve_now = 1000, ve_resolve = (\<lambda>p. p), ve_state_dir = ''/state'', ve_exists = (\<lambda>_. True),
     ve_is_dir = (\<lambda>_. True), ve_has_entry = (\<lambda>_. True), ve_cycles = plain_cycle_env,
     ve_columns = (\<lambda>_. calendar_project), ve_package_managers = (\<lambda>_. []), ve_sboms = (\<lambda>_. []) \<rparr>"


text \<open>
  The pattern of a user id is anchored with a dollar sign, so a user id that ends in a newline
  passes.
\<close>

lemma newline_in_a_user_id: "ASF_UID_PATTERN (''ann'' @ [CHR 0x0A])"
  by code_simp

end
