(* ===== verification/IpNet.thy ===== *)
theory IpNet
  imports PyStr "HOL-Library.Word"
begin

unbundle bit_operations_syntax

text \<open>
  The part of Python's \<open>ipaddress\<close> that src/atr/models/sql.py uses to restrict a token to a network:
  \<open>ip_address\<close>, \<open>ip_network(strict=False)\<close> and membership.  An address is a word of its width.

  \<open>None\<close> stands for the \<open>ValueError\<close> of the constructors.
\<close>

section \<open>Addresses\<close>

datatype address = V4 "32 word" | V6 "128 word"

definition all_digits :: "string \<Rightarrow> bool" where
  "all_digits s = (s \<noteq> [] \<and> list_all is_digit s)"

definition octet :: "string \<Rightarrow> nat option" where
  "octet s =
     (if all_digits s \<and> length s \<le> 3 \<and> (s = ''0'' \<or> hd s \<noteq> CHR ''0'') \<and> int_digits s \<le> 255
      then Some (int_digits s) else None)"

fun all_some :: "'a option list \<Rightarrow> 'a list option" where
  "all_some [] = Some []"
| "all_some (None # xs) = None"
| "all_some (Some x # xs) = map_option ((#) x) (all_some xs)"

definition from_digits :: "nat \<Rightarrow> nat list \<Rightarrow> nat" where
  "from_digits base ds = foldl (\<lambda>n d. n * base + d) 0 ds"

definition parse_v4 :: "string \<Rightarrow> 32 word option" where
  "parse_v4 s =
     (let parts = split_on (CHR ''.'') s in
      if length parts \<noteq> 4 then None
      else map_option (\<lambda>ds. word_of_nat (from_digits 256 ds)) (all_some (map octet parts)))"

definition hex_digit :: "char \<Rightarrow> nat option" where
  "hex_digit c =
     (let n = (of_char c :: nat) in
      if is_digit c then Some (n - 48)
      else if 97 \<le> n \<and> n \<le> 102 then Some (n - 87)
      else if 65 \<le> n \<and> n \<le> 70 then Some (n - 55) else None)"

definition hextet :: "string \<Rightarrow> nat option" where
  "hextet s =
     (if s \<noteq> [] \<and> length s \<le> 4 then map_option (from_digits 16) (all_some (map hex_digit s)) else None)"

text \<open>
  The parts of an address between colons, a dotted end read as two of them; a part is \<open>None\<close> when it
  is empty, which a \<open>::\<close> makes it, and holds its value otherwise.
\<close>

definition v6_parts :: "string \<Rightarrow> nat option option list option" where
  "v6_parts s =
     (let parts = split_on (CHR '':'') s;
          part = (\<lambda>p. if p = [] then None else Some (hextet p)) in
      if length parts < 3 then None
      else if CHR ''.'' \<in> set (last parts) then
        map_option (\<lambda>w. map part (butlast parts) @ [Some (Some (unat w div 2 ^ 16)), Some (Some (unat w mod 2 ^ 16))])
          (parse_v4 (last parts))
      else Some (map part parts))"

definition v6_groups :: "nat option option list \<Rightarrow> nat list option" where
  "v6_groups parts =
     (let known = (\<lambda>ps. all_some (map (\<lambda>p. case p of None \<Rightarrow> None | Some v \<Rightarrow> v) ps)) in
      if 9 < length parts then None
      else case filter (\<lambda>i. parts ! i = None) [1..<length parts - 1] of
          [] \<Rightarrow> if length parts = 8 then known parts else None
        | [i] \<Rightarrow>
            (let hi = take i parts; lo = drop (Suc i) parts;
                 hi' = (if hd hi = None then tl hi else hi);
                 lo' = (if last lo = None then butlast lo else lo) in
             if (hd hi = None \<and> hi' \<noteq> []) \<or> (last lo = None \<and> lo' \<noteq> []) \<or> 8 \<le> length hi' + length lo'
             then None
             else known (hi' @ map (\<lambda>_. Some (Some 0)) [0..<8 - (length hi' + length lo')] @ lo'))
        | _ \<Rightarrow> None)"

text \<open>A scope after a percent sign is allowed when it is not empty and has no other one.\<close>

definition parse_v6 :: "string \<Rightarrow> 128 word option" where
  "parse_v6 s =
     (case split_on (CHR ''%'') s of
        a # scope \<Rightarrow>
          if scope = [] \<or> (length scope = 1 \<and> hd scope \<noteq> [])
          then Option.bind (v6_parts a) (\<lambda>ps. map_option (\<lambda>gs. word_of_nat (from_digits (2 ^ 16) gs)) (v6_groups ps))
          else None
      | [] \<Rightarrow> None)"

definition ip_address :: "string \<Rightarrow> address option" where
  "ip_address s =
     (if CHR ''/'' \<in> set s then None
      else case parse_v4 s of Some w \<Rightarrow> Some (V4 w) | None \<Rightarrow> map_option V6 (parse_v6 s))"

section \<open>Networks\<close>

text \<open>The mask of a prefix: its first \<open>n\<close> bits are set.\<close>

definition prefix_mask :: "nat \<Rightarrow> 'a::len word" where
  "prefix_mask n = NOT (mask (LENGTH('a) - n))"

definition prefix_of_digits :: "nat \<Rightarrow> string \<Rightarrow> nat option" where
  "prefix_of_digits width s = (if all_digits s \<and> int_digits s \<le> width then Some (int_digits s) else None)"

text \<open>A dotted mask, or the inverse of one.\<close>

definition prefix_of_mask :: "32 word \<Rightarrow> nat option" where
  "prefix_of_mask m =
     (case List.find (\<lambda>n. prefix_mask n = m) [0..<33] of
        Some n \<Rightarrow> Some n | None \<Rightarrow> List.find (\<lambda>n. prefix_mask n = NOT m) [0..<33])"

definition v4_prefix :: "string \<Rightarrow> nat option" where
  "v4_prefix s =
     (case prefix_of_digits 32 s of Some n \<Rightarrow> Some n | None \<Rightarrow> Option.bind (parse_v4 s) prefix_of_mask)"

datatype network = N4 "32 word" "32 word" | N6 "128 word" "128 word"

definition network_v4 :: "string \<Rightarrow> string option \<Rightarrow> network option" where
  "network_v4 a m =
     Option.bind (parse_v4 a) (\<lambda>w.
     map_option (\<lambda>n. let k = prefix_mask n in N4 (w AND k) k) (case m of None \<Rightarrow> Some 32 | Some s \<Rightarrow> v4_prefix s))"

definition network_v6 :: "string \<Rightarrow> string option \<Rightarrow> network option" where
  "network_v6 a m =
     Option.bind (parse_v6 a) (\<lambda>w.
     map_option (\<lambda>n. let k = prefix_mask n in N6 (w AND k) k)
       (case m of None \<Rightarrow> Some 128 | Some s \<Rightarrow> prefix_of_digits 128 s))"

definition ip_network :: "string \<Rightarrow> network option" where
  "ip_network s =
     (case split_on (CHR ''/'') s of
        [a] \<Rightarrow> (case network_v4 a None of Some n \<Rightarrow> Some n | None \<Rightarrow> network_v6 a None)
      | [a, m] \<Rightarrow> (case network_v4 a (Some m) of Some n \<Rightarrow> Some n | None \<Rightarrow> network_v6 a (Some m))
      | _ \<Rightarrow> None)"

fun in_network :: "address \<Rightarrow> network \<Rightarrow> bool" where
  "in_network (V4 w) (N4 net m) = (w AND m = net)"
| "in_network (V6 w) (N6 net m) = (w AND m = net)"
| "in_network _ _ = False"

section \<open>What a network contains\<close>

lemma prefix_mask_bit: "n < LENGTH('a) \<Longrightarrow> bit (prefix_mask k :: 'a::len word) n \<longleftrightarrow> LENGTH('a) - k \<le> n"
  by (simp add: prefix_mask_def bit_simps not_less)

text \<open>The members of a network are the addresses that agree with it in the bits of its prefix.\<close>

lemma masked_eq:
  fixes w v :: "'a::len word"
  shows "w AND prefix_mask k = v AND prefix_mask k \<longleftrightarrow>
     (\<forall>n < LENGTH('a). LENGTH('a) - k \<le> n \<longrightarrow> bit w n = bit v n)"
  by (auto simp: bit_eq_iff bit_and_iff prefix_mask_bit dest: bit_imp_le_length)

lemmas address_defs =
  ip_address_def parse_v4_def octet_def all_digits_def int_digits_def is_digit_def from_digits_def Let_def
  parse_v6_def v6_parts_def v6_groups_def hextet_def hex_digit_def ip_network_def network_v4_def network_v6_def
  v4_prefix_def prefix_of_digits_def prefix_of_mask_def prefix_mask_def upt_rec nth_Cons mask_eq_exp_minus_1

lemma address_examples:
  "ip_address ''10.1.2.3'' = Some (V4 0x0A010203)"
  "ip_address ''010.1.2.3'' = None"
  "ip_address ''::1'' = Some (V6 1)"
  "ip_address ''2001:db8::ff00:42:8329'' = Some (V6 0x20010db8000000000000ff0000428329)"
  "ip_address ''::ffff:10.1.2.3'' = Some (V6 0xffff0a010203)"
  "ip_address ''1::2::3'' = None"
  "map_option (in_network (V4 0x0A0102FF)) (ip_network ''10.1.2.3/24'') = Some True"
  "map_option (in_network (V4 0x0A0103FF)) (ip_network ''10.1.2.0/255.255.255.0'') = Some False"
  by (simp_all add: address_defs)

end
