(* ===== verification/Tokens.thy ===== *)
theory Tokens
  imports Validate IpNet Principal
begin

text \<open>
  Personal access tokens and the bearer tokens made from them: src/atr/storage/writers/tokens.py and
  src/atr/jwtoken.py.

  A bearer token is signed by PyJWT: \<open>jwt_env\<close> has its \<open>encode\<close> and \<open>decode\<close> (with the algorithm, issuer,
  audience, leeway and required claims of the code), and what LDAP says of an account.  The hash of
  a token's text is a parameter.  The email about a new or deleted token, which is sent after the
  commit, and the log are left out; the tokens of GitHub are not modelled.
\<close>

section \<open>Rows\<close>

record pat =
  pt_id :: nat
  pt_asfuid :: "string option"
  pt_created_by :: string
  pt_token_hash :: string
  pt_created :: int
  pt_expires :: int
  pt_last_used :: "int option"
  pt_label :: "string option"
  pt_is_system :: bool
  pt_allowed_ip :: "string option"

record pat_revocation =
  rv_actor :: string
  rv_revoked :: int
  rv_count :: nat
  rv_owners :: "string list"

text \<open>A queued notice to the owners of revoked tokens: sender and recipient, blind copies, subject, body.\<close>

record notice =
  no_sender :: string
  no_bcc :: "string list"
  no_subject :: string
  no_body :: string

record token_db =
  td_pats :: "pat list"
  td_revocations :: "(string \<times> pat_revocation) list"
  td_notices :: "notice list"
  td_signing_key :: string

definition pats_keyed :: "pat list \<Rightarrow> bool" where
  "pats_keyed t = distinct (map pt_id t)"

interpretation pats: keyed_table pt_id pats_keyed
  by unfold_locales (simp add: pats_keyed_def)

definition is_expired :: "int \<Rightarrow> pat \<Rightarrow> bool" where
  "is_expired now p = (pt_expires p < now)"

definition allows_ip :: "pat \<Rightarrow> string option \<Rightarrow> bool" where
  "allows_ip p client_ip =
     (case pt_allowed_ip p of
        None \<Rightarrow> True
      | Some net \<Rightarrow>
          (case client_ip of
             None \<Rightarrow> False
           | Some ip \<Rightarrow>
               (case (ip_address ip, ip_network net) of (Some a, Some n) \<Rightarrow> in_network a n | _ \<Rightarrow> False)))"

definition personal_access_token :: "string \<Rightarrow> string option \<Rightarrow> bool option \<Rightarrow> pat list \<Rightarrow> pat option" where
  "personal_access_token h owner system t =
     sel_one (\<lambda>p. pt_token_hash p = h \<and> (owner = None \<or> pt_asfuid p = owner) \<and>
                  (case system of None \<Rightarrow> True | Some b \<Rightarrow> pt_is_system p = b)) t"

section \<open>Creating and deleting tokens\<close>

text \<open>The hash has a unique index.\<close>

definition insert_pat :: "pat \<Rightarrow> token_db \<Rightarrow> (pat \<times> token_db) py" where
  "insert_pat p s =
     (if list_ex (\<lambda>q. pt_token_hash q = pt_token_hash p) (td_pats s) then Inl IntegrityError
      else let new = p \<lparr> pt_id := next_id pt_id (td_pats s) \<rparr>
           in Inr (new, s \<lparr> td_pats := td_pats s @ [new] \<rparr>))"

definition no_label :: "string option \<Rightarrow> bool" where
  "no_label l = (l = None \<or> l = Some [])"

definition user_pat :: "string \<Rightarrow> string \<Rightarrow> int \<Rightarrow> int \<Rightarrow> string option \<Rightarrow> pat" where
  "user_pat uid token_hash created expires label =
     \<lparr> pt_id = 0, pt_asfuid = Some uid, pt_created_by = uid, pt_token_hash = token_hash,
       pt_created = created, pt_expires = expires, pt_last_used = None, pt_label = label,
       pt_is_system = False, pt_allowed_ip = None \<rparr>"

definition add_token ::
    "string \<Rightarrow> string \<Rightarrow> int \<Rightarrow> int \<Rightarrow> string option \<Rightarrow> token_db \<Rightarrow> (pat \<times> token_db) py" where
  "add_token uid token_hash created expires label s =
     bindE (guardE (\<not> no_label label) (ValueError ''Label is required'')) (\<lambda>_.
       insert_pat (user_pat uid token_hash created expires label) s)"

definition system_pat :: "string \<Rightarrow> string \<Rightarrow> int \<Rightarrow> int \<Rightarrow> string \<Rightarrow> string option \<Rightarrow> pat" where
  "system_pat uid token_hash created expires label allowed_ip =
     \<lparr> pt_id = 0, pt_asfuid = None, pt_created_by = uid, pt_token_hash = token_hash,
       pt_created = created, pt_expires = expires, pt_last_used = None, pt_label = Some label,
       pt_is_system = True, pt_allowed_ip = allowed_ip \<rparr>"

definition add_system_token ::
    "string \<Rightarrow> string \<Rightarrow> int \<Rightarrow> int \<Rightarrow> string \<Rightarrow> string option \<Rightarrow> token_db \<Rightarrow> (pat \<times> token_db) py" where
  "add_system_token uid token_hash created expires label allowed_ip s =
     bindE (guardE (label \<noteq> []) (ValueError ''Label is required'')) (\<lambda>_.
       insert_pat (system_pat uid token_hash created expires label allowed_ip) s)"

definition delete_pats :: "(pat \<Rightarrow> bool) \<Rightarrow> token_db \<Rightarrow> token_db" where
  "delete_pats W s = s \<lparr> td_pats := del W (td_pats s) \<rparr>"

definition delete_token :: "string \<Rightarrow> nat \<Rightarrow> token_db \<Rightarrow> token_db" where
  "delete_token uid token_id s =
     (case sel_one (\<lambda>p. pt_id p = token_id \<and> pt_asfuid p = Some uid \<and> \<not> pt_is_system p) (td_pats s) of
        None \<Rightarrow> s
      | Some p \<Rightarrow> delete_pats (\<lambda>q. pt_id q = pt_id p) s)"

definition revoke_system_token :: "nat \<Rightarrow> token_db \<Rightarrow> bool \<times> token_db" where
  "revoke_system_token token_id s =
     (case sel_one (\<lambda>p. pt_id p = token_id \<and> pt_is_system p) (td_pats s) of
        None \<Rightarrow> (False, s)
      | Some p \<Rightarrow> (True, delete_pats (\<lambda>q. pt_id q = pt_id p) s))"

definition belongs_to :: "string \<Rightarrow> pat \<Rightarrow> bool" where
  "belongs_to uid p = (pt_asfuid p = Some uid \<or> pt_created_by p = uid)"

definition revoke_all_user_tokens :: "string \<Rightarrow> token_db \<Rightarrow> nat \<times> token_db" where
  "revoke_all_user_tokens target s =
     (let tokens = sel (belongs_to target) (td_pats s) in
      (length tokens, delete_pats (\<lambda>q. pt_id q \<in> set (map pt_id tokens)) s))"

definition list_system_tokens :: "token_db \<Rightarrow> pat list" where
  "list_system_tokens s = sort_key pt_created (sel pt_is_system (td_pats s))"

text \<open>\<open>rid\<close> is the random id of the revocation; \<open>distinct_sorted\<close> is \<open>sorted\<close> of a set.\<close>

definition distinct_sorted :: "string list \<Rightarrow> string list" where
  "distinct_sorted xs = sort (remdups xs)"

definition revoke_all_users_tokens ::
    "string \<Rightarrow> string \<Rightarrow> int \<Rightarrow> token_db \<Rightarrow> pat_revocation option \<times> token_db" where
  "revoke_all_users_tokens uid rid now s =
     (let owners = map pt_asfuid (sel (\<lambda>p. \<not> pt_is_system p) (td_pats s));
          s' = delete_pats (\<lambda>p. \<not> pt_is_system p) s in
      if owners = [] then (None, s')
      else
        let r = \<lparr> rv_actor = uid, rv_revoked = now, rv_count = length owners,
                  rv_owners = distinct_sorted (List.map_filter (\<lambda>x. x) owners) \<rparr>
        in (Some r, s' \<lparr> td_revocations := (rid, r) # filter (\<lambda>(k, _). k \<noteq> rid) (td_revocations s') \<rparr>))"

definition pat_revocation_of :: "string \<Rightarrow> string \<Rightarrow> token_db \<Rightarrow> pat_revocation option py" where
  "pat_revocation_of uid rid s =
     (case map_of (td_revocations s) rid of
        None \<Rightarrow> Inr None
      | Some r \<Rightarrow>
          if rv_actor r \<noteq> uid then Inl (access 403 ''This PAT revocation belongs to another administrator'')
          else Inr (Some r))"

definition at_apache :: "string \<Rightarrow> string" where
  "at_apache uid = uid @ ''@apache.org''"

definition notify_revoked_pat_owners ::
    "string \<Rightarrow> string \<Rightarrow> string \<Rightarrow> string \<Rightarrow> token_db \<Rightarrow> (nat option \<times> token_db) py" where
  "notify_revoked_pat_owners uid rid subject body s =
     (case map_of (td_revocations s) rid of
        None \<Rightarrow> Inr (None, s)
      | Some r \<Rightarrow>
          if rv_actor r \<noteq> uid then Inl (access 403 ''This PAT revocation belongs to another administrator'')
          else
            let n = \<lparr> no_sender = at_apache uid, no_bcc = map at_apache (filter (\<lambda>u. u \<noteq> uid) (rv_owners r)),
                      no_subject = subject, no_body = body \<rparr>
            in Inr (Some (length (rv_owners r)),
                 s \<lparr> td_revocations := filter (\<lambda>(k, _). k \<noteq> rid) (td_revocations s),
                     td_notices := td_notices s @ [n] \<rparr>))"

section \<open>Bearer tokens\<close>

datatype claim = CText string | CFlag bool | CNumber int | CNull

record claims =
  cl_sub :: claim
  cl_iat :: int
  cl_nbf :: int
  cl_exp :: int
  cl_jti :: string
  cl_atr_th :: claim
  cl_atr_sys :: claim

fun truthy :: "claim \<Rightarrow> bool" where
  "truthy (CText s) = (s \<noteq> [])"
| "truthy (CFlag b) = b"
| "truthy (CNumber n) = (n \<noteq> 0)"
| "truthy CNull = False"

datatype jwt_error = ExpiredSignature | InvalidSignature | InvalidToken string | OtherJwtError

datatype bearer_error = Jwt jwt_error | Http int string | LdapUnavailable

text \<open>
  \<open>je_peek\<close> decodes without the signature; \<open>je_decode token key now\<close> verifies; \<open>je_active\<close> is
  \<open>ldap.is_active\<close>, \<open>None\<close> when LDAP is unavailable.
\<close>

record jwt_env =
  je_encode :: "claims \<Rightarrow> string \<Rightarrow> string"
  je_peek :: "string \<Rightarrow> jwt_error + claims"
  je_decode :: "string \<Rightarrow> string \<Rightarrow> int \<Rightarrow> jwt_error + claims"
  je_active :: "string \<Rightarrow> bool option"

definition bindB :: "'e + 'a \<Rightarrow> ('a \<Rightarrow> 'e + 'b) \<Rightarrow> 'e + 'b" where
  "bindB m f = (case m of Inl e \<Rightarrow> Inl e | Inr a \<Rightarrow> f a)"

lemma bindB_Inr_iff [simp]: "bindB m f = Inr b \<longleftrightarrow> (\<exists>a. m = Inr a \<and> f a = Inr b)"
  by (cases m) (auto simp: bindB_def)

definition requireB :: "bool \<Rightarrow> 'e \<Rightarrow> 'e + unit" where
  "requireB P e = (if P then Inr () else Inl e)"

lemma requireB_Inr [simp]: "requireB P e = Inr u \<longleftrightarrow> P"
  by (simp add: requireB_def)

definition ATR_JWT_TTL :: int where
  "ATR_JWT_TTL = 30 * 60"

definition issued_claims :: "string \<Rightarrow> int \<Rightarrow> string \<Rightarrow> string option \<Rightarrow> bool \<Rightarrow> claims" where
  "issued_claims uid now jti pat_hash system =
     \<lparr> cl_sub = CText uid, cl_iat = now, cl_nbf = now, cl_exp = now + ATR_JWT_TTL, cl_jti = jti,
       cl_atr_th = (case pat_hash of None \<Rightarrow> CNull | Some h \<Rightarrow> if h \<noteq> [] then CText h else CNull),
       cl_atr_sys = (if system then CFlag True else CNull) \<rparr>"

definition issue :: "jwt_env \<Rightarrow> string \<Rightarrow> string \<Rightarrow> int \<Rightarrow> string \<Rightarrow> string option \<Rightarrow> bool \<Rightarrow> string" where
  "issue env key uid now jti pat_hash system = je_encode env (issued_claims uid now jti pat_hash system) key"

definition touch :: "int \<Rightarrow> pat \<Rightarrow> token_db \<Rightarrow> token_db" where
  "touch now p s =
     s \<lparr> td_pats := upd (\<lambda>q. pt_id q = pt_id p) (\<lambda>q. q \<lparr> pt_last_used := Some now \<rparr>) (td_pats s) \<rparr>"

definition issue_jwt ::
    "jwt_env \<Rightarrow> (string \<Rightarrow> string) \<Rightarrow> string \<Rightarrow> int \<Rightarrow> string \<Rightarrow> string \<Rightarrow> string option \<Rightarrow> token_db \<Rightarrow>
       bearer_error + (string \<times> token_db)" where
  "issue_jwt env hash_pat uid now jti pat_text client_ip s =
     (case personal_access_token (hash_pat pat_text) (Some uid) (Some False) (td_pats s) of
        None \<Rightarrow> Inl (Http 401 ''Authentication failed'')
      | Some p \<Rightarrow>
          if is_expired now p \<or> \<not> allows_ip p client_ip then Inl (Http 401 ''Authentication failed'')
          else (case je_active env uid of
                  None \<Rightarrow> Inl LdapUnavailable
                | Some False \<Rightarrow> Inl (Http 401 ''Authentication failed'')
                | Some True \<Rightarrow>
                    Inr (issue env (td_signing_key s) uid now jti (Some (hash_pat pat_text)) False, touch now p s)))"

definition issue_system_jwt ::
    "jwt_env \<Rightarrow> (string \<Rightarrow> string) \<Rightarrow> int \<Rightarrow> string \<Rightarrow> string \<Rightarrow> string option \<Rightarrow> token_db \<Rightarrow>
       bearer_error + (string \<times> token_db)" where
  "issue_system_jwt env hash_pat now jti pat_text client_ip s =
     (case personal_access_token (hash_pat pat_text) None (Some True) (td_pats s) of
        None \<Rightarrow> Inl (Http 401 ''Authentication failed'')
      | Some p \<Rightarrow>
          if is_expired now p \<or> \<not> allows_ip p client_ip then Inl (Http 401 ''Authentication failed'')
          else Inr (issue env (td_signing_key s) SYSTEM_SERVICE_UID now jti (Some (hash_pat pat_text)) True,
                 touch now p s))"

definition rotate_jwt_signing_key :: "string \<Rightarrow> token_db \<Rightarrow> token_db" where
  "rotate_jwt_signing_key key s = s \<lparr> td_signing_key := key \<rparr>"

definition pat_invalid :: bearer_error where
  "pat_invalid = Http 401 ''Personal Access Token invalid''"

text \<open>A claim that is not a text is the hash of no token.\<close>

fun hash_claim :: "claim \<Rightarrow> pat list \<Rightarrow> pat option" where
  "hash_claim (CText h) t = personal_access_token h None None t"
| "hash_claim _ t = None"

definition revalidate_pat ::
    "claims \<Rightarrow> bool \<Rightarrow> int \<Rightarrow> string option \<Rightarrow> token_db \<Rightarrow> bearer_error + unit" where
  "revalidate_pat c system now remote_addr s =
     (if system \<and> \<not> truthy (cl_atr_th c) then Inl pat_invalid
      else if \<not> truthy (cl_atr_th c) then Inr ()
      else
        case hash_claim (cl_atr_th c) (td_pats s) of
          None \<Rightarrow> Inl pat_invalid
        | Some p \<Rightarrow>
            bindB (requireB (pt_is_system p = system) pat_invalid) (\<lambda>_.
            bindB (if system \<and> pt_is_system p
                   then requireB (\<not> (cl_sub c \<noteq> CText SYSTEM_SERVICE_UID \<or>
                                    (pt_allowed_ip p \<noteq> None \<and> \<not> allows_ip p remote_addr))) pat_invalid
                   else bindB (requireB (pt_asfuid p \<noteq> None) pat_invalid) (\<lambda>_.
                        requireB (cl_sub c = CText (the (pt_asfuid p))) pat_invalid)) (\<lambda>_.
              requireB (\<not> is_expired now p) (Http 401 ''Personal Access Token expired''))))"

fun lift_jwt :: "jwt_error + 'a \<Rightarrow> bearer_error + 'a" where
  "lift_jwt (Inl e) = Inl (Jwt e)"
| "lift_jwt (Inr x) = Inr x"

definition verify_bearer :: "jwt_env \<Rightarrow> int \<Rightarrow> string option \<Rightarrow> string \<Rightarrow> token_db \<Rightarrow> bearer_error + claims" where
  "verify_bearer env now remote_addr token s =
     bindB (lift_jwt (je_peek env token)) (\<lambda>peeked.
     bindB (lift_jwt (je_decode env token (td_signing_key s) now)) (\<lambda>c.
       case cl_sub peeked of
         CText uid \<Rightarrow>
           (let system = truthy (cl_atr_sys c) in
            bindB (if system then Inr ()
                   else case je_active env uid of
                          None \<Rightarrow> Inl LdapUnavailable
                        | Some a \<Rightarrow> requireB a (Http 401 ''Account is disabled'')) (\<lambda>_.
            bindB (revalidate_pat c system now remote_addr s) (\<lambda>_. Inr c)))
       | _ \<Rightarrow> Inl (Jwt (InvalidToken ''Invalid Bearer JWT subject''))))"

text \<open>\<open>header.partition(" ")\<close> of the Authorization header.\<close>

definition extract_bearer_token :: "string \<Rightarrow> bearer_error + string" where
  "extract_bearer_token header =
     (let scheme = takeWhile (\<lambda>c. c \<noteq> CHR '' '') header;
          token = drop (Suc (length scheme)) header in
      if lower scheme \<noteq> ''bearer'' \<or> token = []
      then Inl (Http 401 ''Authentication required'') else Inr token)"

definition http_of_jwt :: "bearer_error \<Rightarrow> bearer_error" where
  "http_of_jwt e =
     (case e of
        Jwt ExpiredSignature \<Rightarrow> Http 401 ''Token has expired''
      | Jwt InvalidSignature \<Rightarrow> Http 401 ''Token signature verification failed''
      | Jwt (InvalidToken m) \<Rightarrow> Http 401 ''Invalid Bearer JWT format''
      | Jwt OtherJwtError \<Rightarrow> Http 401 ''Invalid Bearer JWT''
      | _ \<Rightarrow> e)"

definition authenticate ::
    "jwt_env \<Rightarrow> admin_env \<Rightarrow> bool \<Rightarrow> int \<Rightarrow> string option \<Rightarrow> string \<Rightarrow> token_db \<Rightarrow> bearer_error + claims" where
  "authenticate env admins admin_only now remote_addr header s =
     bindB (extract_bearer_token header) (\<lambda>token.
     bindB (case verify_bearer env now remote_addr token s of Inl e \<Rightarrow> Inl (http_of_jwt e) | Inr c \<Rightarrow> Inr c) (\<lambda>c.
       if admin_only \<and> \<not> truthy (cl_atr_sys c) \<and>
          \<not> is_admin admins (case cl_sub c of CText u \<Rightarrow> Some u | _ \<Rightarrow> None)
       then Inl (Http 403 ''ATR is currently available to administrators only'')
       else Inr c))"

definition bearer_subject :: "jwt_env \<Rightarrow> int \<Rightarrow> string \<Rightarrow> token_db \<Rightarrow> string option" where
  "bearer_subject env now header s =
     (case extract_bearer_token header of
        Inl _ \<Rightarrow> None
      | Inr token \<Rightarrow>
          (case je_decode env token (td_signing_key s) now of
             Inl _ \<Rightarrow> None
           | Inr c \<Rightarrow> (case cl_sub c of CText u \<Rightarrow> Some u | _ \<Rightarrow> None)))"

section \<open>The consistency check\<close>

definition personal_access_tokens :: "pat list \<Rightarrow> annotated list" where
  "personal_access_tokens rows =
     concat (map (\<lambda>t.
       let expected = (if pt_is_system t then None else Some (pt_created_by t)) in
       if pt_asfuid t \<noteq> expected
       then divergences_with_annotations [''PersonalAccessToken.asfuid'', ''PersonalAccessToken.is_system'']
              ''personal_access_token_owner'' (''token '' @ str_nat (pt_id t))
              (differs (Repr (optional PyText expected)) (Repr (optional PyText (pt_asfuid t))))
       else []) (sort_key pt_id rows))"

section \<open>Steps\<close>

text \<open>The writers in any order.  \<open>h\<close> is a hash of which no token is created.\<close>

inductive token_step :: "string \<Rightarrow> token_db \<Rightarrow> token_db \<Rightarrow> bool" for h :: string where
  Add: "add_token uid th created expires label s = Inr (p, s') \<Longrightarrow> th \<noteq> h \<Longrightarrow> token_step h s s'"
| Add_system: "add_system_token uid th created expires sl ip s = Inr (p, s') \<Longrightarrow> th \<noteq> h \<Longrightarrow> token_step h s s'"
| Delete: "token_step h s (delete_token uid i s)"
| Revoke_system: "token_step h s (snd (revoke_system_token i s))"
| Revoke_user: "token_step h s (snd (revoke_all_user_tokens uid s))"
| Revoke_all: "token_step h s (snd (revoke_all_users_tokens uid rid now s))"
| Notify: "notify_revoked_pat_owners uid rid subject body s = Inr (n, s') \<Longrightarrow> token_step h s s'"
| Issue: "issue_jwt env hash_pat uid now jti pat_text ip s = Inr (j, s') \<Longrightarrow> token_step h s s'"
| Issue_system: "issue_system_jwt env hash_pat now jti text ip s = Inr (j, s') \<Longrightarrow> token_step h s s'"
| Rotate: "token_step h s (rotate_jwt_signing_key key s)"

text \<open>A user's token is owned by the user who made it, and a system token by nobody.\<close>

definition pat_ok :: "pat \<Rightarrow> bool" where
  "pat_ok p = (pt_asfuid p = (if pt_is_system p then None else Some (pt_created_by p)))"

definition tokens_ok :: "token_db \<Rightarrow> bool" where
  "tokens_ok s =
     (pats_keyed (td_pats s) \<and> distinct (map pt_token_hash (td_pats s)) \<and> list_all pat_ok (td_pats s))"

definition no_tokens :: "token_db \<Rightarrow> bool" where
  "no_tokens s = (td_pats s = [])"

definition has_hash :: "string \<Rightarrow> token_db \<Rightarrow> bool" where
  "has_hash h s = (h \<in> pt_token_hash ` set (td_pats s))"

text \<open>What a step does to the table: a new row of another hash, fewer rows, or a date of use.\<close>

lemma insert_pat_Inr:
  assumes "insert_pat p s = Inr (q, s')"
  shows "td_pats s' = td_pats s @ [p \<lparr> pt_id := next_id pt_id (td_pats s) \<rparr>]" and "\<not> has_hash (pt_token_hash p) s"
  using assms by (auto simp: insert_pat_def Let_def has_hash_def list_ex_iff split: if_splits)

lemma step_pats:
  assumes "token_step h s t"
  obtains (added) p where "td_pats t = td_pats s @ [p]" "pt_id p = next_id pt_id (td_pats s)" "pat_ok p"
      "pt_token_hash p \<noteq> h" "\<not> has_hash (pt_token_hash p) s"
  | (removed) W where "td_pats t = del W (td_pats s)"
  | (used) now W where "td_pats t = upd W (\<lambda>q. q \<lparr> pt_last_used := Some now \<rparr>) (td_pats s)"
  using assms
proof cases
  case (Add uid th created expires label p)
  have ins: "insert_pat (user_pat uid th created expires label) s = Inr (p, t)"
    using Add(1) by (auto simp: add_token_def)
  show ?thesis
    by (rule added [OF insert_pat_Inr(1) [OF ins]])
      (use insert_pat_Inr(2) [OF ins] Add(2) in \<open>simp_all add: user_pat_def pat_ok_def\<close>)
next
  case (Add_system uid th created expires sl ip p)
  have ins: "insert_pat (system_pat uid th created expires sl ip) s = Inr (p, t)"
    using Add_system(1) by (auto simp: add_system_token_def)
  show ?thesis
    by (rule added [OF insert_pat_Inr(1) [OF ins]])
      (use insert_pat_Inr(2) [OF ins] Add_system(2) in \<open>simp_all add: system_pat_def pat_ok_def\<close>)
next
  case (Issue env hash_pat uid now jti pt ip j)
  then obtain p where "t = touch now p s" by (auto simp: issue_jwt_def split: option.splits if_splits bool.splits)
  then show ?thesis by (intro used) (simp add: touch_def)
next
  case (Issue_system env hash_pat now jti pt ip j)
  then obtain p where "t = touch now p s" by (auto simp: issue_system_jwt_def split: option.splits if_splits)
  then show ?thesis by (intro used) (simp add: touch_def)
next
  case (Delete uid i)
  show ?thesis
  proof (cases "sel_one (\<lambda>p. pt_id p = i \<and> pt_asfuid p = Some uid \<and> \<not> pt_is_system p) (td_pats s)")
    case None
    then show ?thesis using Delete by (intro removed [of "\<lambda>_. False"]) (simp add: delete_token_def del_def)
  next
    case (Some p)
    then show ?thesis using Delete by (intro removed) (simp add: delete_token_def delete_pats_def)
  qed
next
  case (Revoke_system i)
  show ?thesis
  proof (cases "sel_one (\<lambda>p. pt_id p = i \<and> pt_is_system p) (td_pats s)")
    case None
    then show ?thesis using Revoke_system by (intro removed [of "\<lambda>_. False"]) (simp add: revoke_system_token_def del_def)
  next
    case (Some p)
    then show ?thesis using Revoke_system by (intro removed) (simp add: revoke_system_token_def delete_pats_def)
  qed
next
  case (Revoke_user uid)
  then show ?thesis by (intro removed) (simp add: revoke_all_user_tokens_def delete_pats_def Let_def)
next
  case (Revoke_all uid rid now)
  then show ?thesis by (intro removed) (simp add: revoke_all_users_tokens_def delete_pats_def Let_def)
next
  case (Notify uid rid subject body n)
  then show ?thesis
    by (intro removed [of "\<lambda>_. False"])
      (auto simp: notify_revoked_pat_owners_def Let_def del_def split: option.splits if_splits)
next
  case (Rotate key)
  then show ?thesis by (intro removed [of "\<lambda>_. False"]) (simp add: rotate_jwt_signing_key_def del_def)
qed

lemma step_tokens_ok:
  assumes "token_step h s t" and "tokens_ok s"
  shows "tokens_ok t"
  using assms(1)
proof (cases rule: step_pats)
  case (added p)
  have "pats_keyed (td_pats s @ [p])"
    using assms(2) added(2) by (intro pats.ok_insert) (simp_all add: tokens_ok_def next_id_fresh)
  then show ?thesis using assms(2) added by (auto simp: tokens_ok_def has_hash_def)
next
  case (removed W)
  then show ?thesis
    using assms(2) pats.ok_del [of "td_pats s" W]
    by (auto simp: tokens_ok_def del_def distinct_map_filter_key list_all_iff)
next
  case (used now W)
  have "map pt_token_hash (td_pats t) = map pt_token_hash (td_pats s)" by (simp add: used map_upd)
  moreover have "pats_keyed (td_pats t)"
    unfolding used using assms(2) by (intro pats.ok_upd) (simp_all add: tokens_ok_def)
  moreover have "pat_ok (p \<lparr> pt_last_used := Some now \<rparr>) = pat_ok p" for p
    by (simp add: pat_ok_def)
  then have "list_all pat_ok (td_pats s) \<Longrightarrow> list_all pat_ok (td_pats t)"
    by (auto simp: used upd_def list_all_iff)
  ultimately show ?thesis using assms(2) by (simp add: tokens_ok_def)
qed

text \<open>A hash that is gone stays gone.\<close>

lemma step_no_hash:
  assumes "token_step h s t" and "\<not> has_hash h s"
  shows "\<not> has_hash h t"
  using assms(1)
proof (cases rule: step_pats)
  case (added p)
  then show ?thesis using assms(2) by (auto simp: has_hash_def)
next
  case (removed W)
  then show ?thesis using assms(2) by (auto simp: has_hash_def del_set)
next
  case (used now W)
  have "map pt_token_hash (td_pats t) = map pt_token_hash (td_pats s)" by (simp add: used map_upd)
  then have "pt_token_hash ` set (td_pats t) = pt_token_hash ` set (td_pats s)" by (metis set_map)
  then show ?thesis using assms(2) by (simp add: has_hash_def)
qed

interpretation tokens: step_system no_tokens "token_step h" tokens_ok "\<lambda>s t. \<not> has_hash h s \<longrightarrow> \<not> has_hash h t" for h
proof
  show "tokens_ok s" if "no_tokens s" for s
    using that by (simp add: no_tokens_def tokens_ok_def pats_keyed_def)
  show "tokens_ok s \<Longrightarrow> token_step h s t \<Longrightarrow> tokens_ok t" for s t by (rule step_tokens_ok)
  show "tokens_ok s \<Longrightarrow> token_step h s t \<Longrightarrow> \<not> has_hash h s \<longrightarrow> \<not> has_hash h t" for s t
    using step_no_hash by blast
qed

lemma run_no_hash: "(token_step h)\<^sup>*\<^sup>* s t \<Longrightarrow> \<not> has_hash h s \<Longrightarrow> \<not> has_hash h t"
  by (induction rule: rtranclp_induct) (auto dest: step_no_hash)

definition tokens_reachable :: "string \<Rightarrow> token_db \<Rightarrow> bool" where
  "tokens_reachable h s = (\<exists>s0. no_tokens s0 \<and> (token_step h)\<^sup>*\<^sup>* s0 s)"

lemma tokens_reachable_ok: "tokens_reachable h s \<Longrightarrow> tokens_ok s"
  unfolding tokens_reachable_def using tokens.reached_ok by blast

section \<open>What tokens allow\<close>

lemma personal_access_token_in:
  "personal_access_token h owner system t = Some p \<Longrightarrow>
     p \<in> set t \<and> pt_token_hash p = h \<and> (owner = None \<or> pt_asfuid p = owner) \<and> (system = None \<or> system = Some (pt_is_system p))"
  unfolding personal_access_token_def by (drule sel_one_Some_in) (auto split: option.splits)

lemma hash_claim_in: "hash_claim c t = Some p \<Longrightarrow> p \<in> set t \<and> c = CText (pt_token_hash p)"
  by (cases c) (auto dest: personal_access_token_in)

text \<open>What stands behind a claim that passes.\<close>

definition backed_by :: "int \<Rightarrow> claims \<Rightarrow> pat \<Rightarrow> bool" where
  "backed_by now c p = (cl_atr_th c = CText (pt_token_hash p) \<and> \<not> is_expired now p)"

lemma revalidate_pat_Inr:
  assumes "revalidate_pat c system now ip s = Inr u"
  shows "\<not> system \<and> \<not> truthy (cl_atr_th c) \<or>
    (\<exists>p \<in> set (td_pats s). backed_by now c p \<and> pt_is_system p = system \<and>
       (if system then cl_sub c = CText SYSTEM_SERVICE_UID \<and> allows_ip p ip
        else (\<exists>v. pt_asfuid p = Some v \<and> cl_sub c = CText v)))"
proof (cases "truthy (cl_atr_th c)")
  case False
  then show ?thesis using assms by (auto simp: revalidate_pat_def split: if_splits)
next
  case True
  then obtain p where p: "hash_claim (cl_atr_th c) (td_pats s) = Some p" and sys: "pt_is_system p = system"
    and exp: "\<not> is_expired now p"
    and who: "if system then cl_sub c = CText SYSTEM_SERVICE_UID \<and> (pt_allowed_ip p = None \<or> allows_ip p ip)
              else pt_asfuid p \<noteq> None \<and> cl_sub c = CText (the (pt_asfuid p))"
    using assms by (auto simp: revalidate_pat_def split: option.splits if_splits)
  have "pt_allowed_ip p = None \<Longrightarrow> allows_ip p ip" by (simp add: allows_ip_def)
  then have "if system then cl_sub c = CText SYSTEM_SERVICE_UID \<and> allows_ip p ip
        else (\<exists>v. pt_asfuid p = Some v \<and> cl_sub c = CText v)"
    using who by (auto split: if_splits)
  then show ?thesis using hash_claim_in [OF p] sys exp unfolding backed_by_def by blast
qed

lemma verify_bearer_Inr:
  assumes "verify_bearer env now ip token s = Inr c"
  obtains peeked uid where "je_peek env token = Inr peeked" and "cl_sub peeked = CText uid"
    and "je_decode env token (td_signing_key s) now = Inr c"
    and "truthy (cl_atr_sys c) \<or> je_active env uid = Some True"
    and "revalidate_pat c (truthy (cl_atr_sys c)) now ip s = Inr ()"
proof -
  obtain peeked c' where a: "lift_jwt (je_peek env token) = Inr peeked"
      "lift_jwt (je_decode env token (td_signing_key s) now) = Inr c'"
    using assms by (auto simp: verify_bearer_def)
  have peek: "je_peek env token = Inr peeked" using a(1) by (cases "je_peek env token") auto
  have dec: "je_decode env token (td_signing_key s) now = Inr c'"
    using a(2) by (cases "je_decode env token (td_signing_key s) now") auto
  obtain uid where uid: "cl_sub peeked = CText uid"
    using assms peek dec by (cases "cl_sub peeked") (auto simp: verify_bearer_def)
  show ?thesis
    by (rule that [OF peek uid]) (use assms peek dec uid in \<open>auto simp: verify_bearer_def Let_def split: claim.splits if_splits option.splits\<close>)
qed

text \<open>
  C17: In every state that the token writers can reach, the consistency check of the tokens finds
  nothing, and an accepted bearer token is entitled at that moment: its user is active in LDAP and,
  if it came from a personal access token, that token is in the table, made by and owned by this very
  user and not expired; a bearer token of the system service always comes from a system token in the
  table that has not expired and admits the address of the request.  (PyJWT decodes the same claims
  with and without the check of the signature.)
\<close>

theorem accepted_bearer_tokens_are_backed:
  assumes reach: "tokens_reachable h s"
    and jwt: "\<forall>token key now c. je_decode env token key now = Inr c \<longrightarrow> je_peek env token = Inr c"
    and ok: "verify_bearer env now ip token s = Inr c"
  shows "personal_access_tokens (td_pats s) = [] \<and>
    (if truthy (cl_atr_sys c)
     then cl_sub c = CText SYSTEM_SERVICE_UID \<and>
          (\<exists>p \<in> set (td_pats s). backed_by now c p \<and> pt_is_system p \<and> allows_ip p ip)
     else (\<exists>uid. cl_sub c = CText uid \<and> je_active env uid = Some True \<and>
          (truthy (cl_atr_th c) \<longrightarrow>
             (\<exists>p \<in> set (td_pats s). backed_by now c p \<and> \<not> pt_is_system p \<and>
                pt_asfuid p = Some uid \<and> pt_created_by p = uid))))"
proof -
  have inv: "\<And>p. p \<in> set (td_pats s) \<Longrightarrow> pat_ok p"
    using tokens_reachable_ok [OF reach] by (simp add: tokens_ok_def list_all_iff)
  have "personal_access_tokens (td_pats s) = []"
    using inv by (auto simp: personal_access_tokens_def pat_ok_def)
  obtain peeked uid where v: "je_peek env token = Inr peeked" "cl_sub peeked = CText uid"
      "je_decode env token (td_signing_key s) now = Inr c"
      "truthy (cl_atr_sys c) \<or> je_active env uid = Some True"
      "revalidate_pat c (truthy (cl_atr_sys c)) now ip s = Inr ()"
    using verify_bearer_Inr [OF ok] by metis
  have sub: "cl_sub c = CText uid" using jwt v(1,2,3) by fastforce
  note behind = revalidate_pat_Inr [OF v(5)]
  show ?thesis
  proof (cases "truthy (cl_atr_sys c)")
    case True
    then show ?thesis using behind \<open>personal_access_tokens (td_pats s) = []\<close> by auto
  next
    case False
    have "\<exists>p \<in> set (td_pats s). backed_by now c p \<and> \<not> pt_is_system p \<and> pt_asfuid p = Some uid \<and> pt_created_by p = uid"
      if th: "truthy (cl_atr_th c)"
    proof -
      obtain p where p: "p \<in> set (td_pats s)" "backed_by now c p" "\<not> pt_is_system p" "pt_asfuid p = Some uid"
        using behind th False sub by auto
      then show ?thesis using inv [OF p(1)] by (auto simp: pat_ok_def)
    qed
    then show ?thesis using False sub v(4) \<open>personal_access_tokens (td_pats s) = []\<close> by auto
  qed
qed

text \<open>
  C22: Revocation is immediate and final: once the tokens of a user have been revoked, no bearer token
  made from one of them is accepted and none of them can be exchanged for a new bearer token,
  whatever the writers do afterwards, as long as no new token has the same hash.
\<close>

theorem revoked_tokens_stay_dead:
  assumes p: "p \<in> set (td_pats s)" "belongs_to uid p" and h: "pt_token_hash p \<noteq> []" "tokens_ok s"
    and run: "(token_step (pt_token_hash p))\<^sup>*\<^sup>* (snd (revoke_all_user_tokens uid s)) t"
  shows "\<not> (\<exists>c. verify_bearer env now ip token t = Inr c \<and> cl_atr_th c = CText (pt_token_hash p)) \<and>
    (hash_pat pat_text = pt_token_hash p \<longrightarrow>
       issue_jwt env hash_pat who now jti pat_text ip t = Inl (Http 401 ''Authentication failed'') \<and>
       issue_system_jwt env hash_pat now jti pat_text ip t = Inl (Http 401 ''Authentication failed''))"
proof -
  have "pt_token_hash q \<noteq> pt_token_hash p"
    if "q \<in> set (td_pats (snd (revoke_all_user_tokens uid s)))" for q
  proof
    assume same: "pt_token_hash q = pt_token_hash p"
    have q: "q \<in> set (td_pats s)" "\<not> belongs_to uid q"
      using that by (auto simp: revoke_all_user_tokens_def delete_pats_def Let_def del_set sel_set)
    have "inj_on pt_token_hash (set (td_pats s))" using h(2) by (simp add: tokens_ok_def distinct_map)
    then have "q = p" using same q(1) p(1) by (rule inj_onD)
    then show False using p(2) q(2) by simp
  qed
  then have "\<not> has_hash (pt_token_hash p) (snd (revoke_all_user_tokens uid s))"
    unfolding has_hash_def image_iff by metis
  then have gone: "\<not> has_hash (pt_token_hash p) t" by (rule run_no_hash [OF run])
  have none: "personal_access_token (pt_token_hash p) o' sy (td_pats t) = None" for o' sy
  proof (cases "personal_access_token (pt_token_hash p) o' sy (td_pats t)")
    case (Some q)
    then show ?thesis using gone personal_access_token_in [OF Some] unfolding has_hash_def by (metis imageI)
  qed
  have "cl_atr_th c \<noteq> CText (pt_token_hash p)" if v: "verify_bearer env now ip token t = Inr c" for c
  proof
    assume th: "cl_atr_th c = CText (pt_token_hash p)"
    then have "\<exists>q \<in> set (td_pats t). backed_by now c q"
      using revalidate_pat_Inr verify_bearer_Inr [OF v] h(1) by (metis truthy.simps(1))
    then show False using gone th by (auto simp: backed_by_def has_hash_def)
  qed
  then show ?thesis by (auto simp: issue_jwt_def issue_system_jwt_def none)
qed

text \<open>A library whose bearer tokens all have the claims that were issued to a user.\<close>

definition ann_claims :: claims where
  "ann_claims = issued_claims ''ann'' 10 ''j'' (Some ''hash-of-secret'') False"

definition sample_jwt :: jwt_env where
  "sample_jwt = \<lparr> je_encode = (\<lambda>c key. ''jwt''), je_peek = (\<lambda>token. Inr ann_claims),
     je_decode = (\<lambda>token key now. if now < cl_exp ann_claims then Inr ann_claims else Inl ExpiredSignature),
     je_active = (\<lambda>uid. Some (uid = ''ann'')) \<rparr>"

definition no_token_db :: token_db where
  "no_token_db = \<lparr> td_pats = [], td_revocations = [], td_notices = [], td_signing_key = ''k'' \<rparr>"

definition ann_token_db :: token_db where
  "ann_token_db = snd (projr (add_token ''ann'' ''hash-of-secret'' 5 1000 (Some ''ci'') no_token_db))"

definition sample_hash :: "string \<Rightarrow> string" where
  "sample_hash text = ''hash-of-'' @ text"

lemma ann_token_reachable: "tokens_reachable [] ann_token_db"
proof -
  have "\<not> isl (add_token ''ann'' ''hash-of-secret'' 5 1000 (Some ''ci'') no_token_db)" by code_simp
  then have "add_token ''ann'' ''hash-of-secret'' 5 1000 (Some ''ci'') no_token_db =
      Inr (fst (projr (add_token ''ann'' ''hash-of-secret'' 5 1000 (Some ''ci'') no_token_db)), ann_token_db)"
    unfolding ann_token_db_def by (cases "add_token ''ann'' ''hash-of-secret'' 5 1000 (Some ''ci'') no_token_db") auto
  then have "token_step [] no_token_db ann_token_db" by (rule token_step.Add) simp
  then show ?thesis unfolding tokens_reachable_def no_tokens_def
    by (intro exI [of _ no_token_db]) (simp add: no_token_db_def r_into_rtranclp)
qed

lemma accepted_bearer_tokens_are_backed_witness:
  "verify_bearer sample_jwt 20 None ''jwt'' ann_token_db = Inr ann_claims \<and>
   (\<exists>p \<in> set (td_pats ann_token_db). backed_by 20 ann_claims p \<and> pt_created_by p = ''ann'')"
proof -
  have ok: "verify_bearer sample_jwt 20 None ''jwt'' ann_token_db = Inr ann_claims" by code_simp
  have user: "cl_sub ann_claims = CText ''ann''" "\<not> truthy (cl_atr_sys ann_claims)" "truthy (cl_atr_th ann_claims)"
    by code_simp+
  have jwt: "\<forall>token key now c. je_decode sample_jwt token key now = Inr c \<longrightarrow> je_peek sample_jwt token = Inr c"
    by (simp add: sample_jwt_def)
  show ?thesis
    using accepted_bearer_tokens_are_backed [OF ann_token_reachable jwt ok] user ok by auto
qed

lemma revoked_tokens_stay_dead_witness:
  "\<not> isl (issue_jwt sample_jwt sample_hash ''ann'' 20 ''j'' ''secret'' None ann_token_db) \<and>
   issue_jwt sample_jwt sample_hash ''ann'' 20 ''j'' ''secret'' None (snd (revoke_all_user_tokens ''ann'' ann_token_db)) =
     Inl (Http 401 ''Authentication failed'')"
proof -
  let ?p = "user_pat ''ann'' ''hash-of-secret'' 5 1000 (Some ''ci'') \<lparr> pt_id := 1 \<rparr>"
  have before: "\<not> isl (issue_jwt sample_jwt sample_hash ''ann'' 20 ''j'' ''secret'' None ann_token_db)" by code_simp
  have p: "?p \<in> set (td_pats ann_token_db)" by code_simp
  have h: "belongs_to ''ann'' ?p" "pt_token_hash ?p \<noteq> []" "sample_hash ''secret'' = pt_token_hash ?p" by code_simp+
  show ?thesis
    using revoked_tokens_stay_dead [OF p h(1,2) tokens_reachable_ok [OF ann_token_reachable] rtranclp.rtrancl_refl,
        where env = sample_jwt and now = 20 and ip = None and hash_pat = sample_hash and
        pat_text = "''secret''" and who = "''ann''" and jti = "''j''"] h(3) before by blast
qed

end
