(* ===== verification/Sessions.thy ===== *)
theory Sessions
  imports Tokens
begin

text \<open>
  src/atr/sessions.py: the sessions of users in the browser, their expiry, the periodic check of their
  accounts and the form errors kept with them; the hook of src/atr/server.py that runs the check.

  Times are rational seconds.  A request keeps the session it has read: the argument \<open>g\<close> is this copy,
  \<open>None\<close> before the session was read.  What asfquart finds behind the cookie of a request is the hash of
  a session identifier, an argument.
\<close>

section \<open>Rows\<close>

record user_session =
  us_sid_hash :: string
  us_uid :: string
  us_dn :: "string option"
  us_fullname :: "string option"
  us_email :: "string option"
  us_is_member :: bool
  us_is_chair :: bool
  us_is_root :: bool
  us_member_committees :: "string list"
  us_participant_committees :: "string list"
  us_mfa :: bool
  us_is_role :: bool
  us_ip_address :: "string option"
  us_admin_uid :: "string option"
  us_last_account_check :: "rat option"
  us_downgrade_admin_to_user :: bool
  us_cts :: rat
  us_uts :: rat

record form_error =
  fe_sid_hash :: string
  fe_path :: string
  fe_payload :: string
  fe_cts :: rat

record session_db =
  sd_sessions :: "user_session list"
  sd_form_errors :: "form_error list"

definition sessions_keyed :: "user_session list \<Rightarrow> bool" where
  "sessions_keyed t = distinct (map us_sid_hash t)"

interpretation sessions: keyed_table us_sid_hash sessions_keyed
  by unfold_locales (simp add: sessions_keyed_def)

definition SESSION_IDLE_TIMEOUT :: rat where
  "SESSION_IDLE_TIMEOUT = 86400 * 3"

section \<open>The store\<close>

text \<open>Deleting sessions deletes their form errors: the foreign key cascades.\<close>

definition drop_sessions :: "(user_session \<Rightarrow> bool) \<Rightarrow> session_db \<Rightarrow> session_db" where
  "drop_sessions W s =
     (let gone = map us_sid_hash (sel W (sd_sessions s)) in
      s \<lparr> sd_sessions := del W (sd_sessions s),
          sd_form_errors := del (\<lambda>e. fe_sid_hash e \<in> set gone) (sd_form_errors s) \<rparr>)"

definition insert_session :: "user_session \<Rightarrow> session_db \<Rightarrow> session_db py" where
  "insert_session u s =
     (if us_sid_hash u \<in> us_sid_hash ` set (sd_sessions s) then Inl IntegrityError
      else Inr (s \<lparr> sd_sessions := sd_sessions s @ [u] \<rparr>))"

text \<open>
  The dictionary that asfquart makes of an OAuth login, with the keys that \<open>_prepare_session_data\<close>
  keeps or renames; \<open>pmcs\<close> and \<open>projects\<close> must be there, and \<open>isRoot\<close> is not kept.  An email address is
  made up of the user id when there is none.
\<close>

record oauth_data =
  od_uid :: string
  od_dn :: "string option"
  od_fullname :: "string option"
  od_email :: "string option"
  od_is_member :: "bool option"
  od_is_chair :: "bool option"
  od_pmcs :: "string list option"
  od_projects :: "string list option"
  od_mfa :: "bool option"
  od_roleaccount :: "bool option"

definition flag :: "bool option \<Rightarrow> bool" where
  "flag b = (b = Some True)"

definition default_email :: "string \<Rightarrow> string option \<Rightarrow> string option" where
  "default_email uid email = (if email = None \<and> uid \<noteq> [] then Some (uid @ ''@apache.org'') else email)"

definition prepare_session :: "string \<Rightarrow> string option \<Rightarrow> rat \<Rightarrow> oauth_data \<Rightarrow> user_session py" where
  "prepare_session hsid ip now raw =
     bindE (demandE KeyError (od_pmcs raw)) (\<lambda>pmcs.
     bindE (demandE KeyError (od_projects raw)) (\<lambda>projects.
       Inr \<lparr> us_sid_hash = hsid, us_uid = od_uid raw, us_dn = od_dn raw, us_fullname = od_fullname raw,
             us_email = default_email (od_uid raw) (od_email raw), us_is_member = flag (od_is_member raw),
             us_is_chair = flag (od_is_chair raw), us_is_root = False,
             us_member_committees = pmcs, us_participant_committees = projects, us_mfa = flag (od_mfa raw),
             us_is_role = flag (od_roleaccount raw), us_ip_address = ip, us_admin_uid = None,
             us_last_account_check = None, us_downgrade_admin_to_user = False, us_cts = now, us_uts = now \<rparr>))"

definition create_session :: "string \<Rightarrow> oauth_data \<Rightarrow> string option \<Rightarrow> rat \<Rightarrow> session_db \<Rightarrow> session_db py" where
  "create_session hsid raw ip now s = bindE (prepare_session hsid ip now raw) (\<lambda>u. insert_session u s)"

definition stamped :: "string \<Rightarrow> rat \<Rightarrow> user_session \<Rightarrow> user_session" where
  "stamped hsid now u = u \<lparr> us_sid_hash := hsid, us_cts := now, us_uts := now \<rparr>"

definition register :: "string \<Rightarrow> user_session \<Rightarrow> rat \<Rightarrow> session_db \<Rightarrow> session_db py" where
  "register hsid u now s = insert_session (stamped hsid now u) s"

definition destroy :: "string \<Rightarrow> session_db \<Rightarrow> session_db" where
  "destroy hsid s = drop_sessions (\<lambda>u. us_sid_hash u = hsid) s"

definition replace_session :: "string option \<Rightarrow> string \<Rightarrow> user_session \<Rightarrow> rat \<Rightarrow> session_db \<Rightarrow> session_db py" where
  "replace_session old_hsid new_hsid u now s =
     insert_session (stamped new_hsid now u)
       (case old_hsid of None \<Rightarrow> s | Some h \<Rightarrow> drop_sessions (\<lambda>x. us_sid_hash x = h) s)"

definition session_of :: "string \<Rightarrow> user_session \<Rightarrow> bool" where
  "session_of uid u = (us_uid u = uid \<or> us_admin_uid u = Some uid)"

definition revoke_by_uid :: "string \<Rightarrow> string option \<Rightarrow> session_db \<Rightarrow> nat \<times> session_db" where
  "revoke_by_uid uid hsid s =
     (let W = (\<lambda>u. session_of uid u \<and> (case hsid of None \<Rightarrow> True | Some h \<Rightarrow> us_sid_hash u = h)) in
      (rowcount W (sd_sessions s), drop_sessions W s))"

datatype session_values = Downgrade bool | Last_account_check "rat option"

fun set_value :: "session_values \<Rightarrow> user_session \<Rightarrow> user_session" where
  "set_value (Downgrade b) u = u \<lparr> us_downgrade_admin_to_user := b \<rparr>"
| "set_value (Last_account_check t) u = u \<lparr> us_last_account_check := t \<rparr>"

text \<open>\<open>save\<close> changes the copy of the request and the row, when there still is one.\<close>

definition save_session :: "user_session \<Rightarrow> session_values list \<Rightarrow> session_db \<Rightarrow> user_session \<times> session_db" where
  "save_session u vs s =
     (fold set_value vs u,
      s \<lparr> sd_sessions := upd (\<lambda>x. us_sid_hash x = us_sid_hash u) (fold set_value vs) (sd_sessions s) \<rparr>)"

definition is_idle :: "rat \<Rightarrow> user_session \<Rightarrow> bool" where
  "is_idle now u = (us_uts u < now - SESSION_IDLE_TIMEOUT)"

definition is_old :: "rat \<Rightarrow> rat \<Rightarrow> user_session \<Rightarrow> bool" where
  "is_old max_age now u = (max_age > 0 \<and> us_cts u < now - max_age)"

text \<open>\<open>validate\<close>: the session to serve, the copy kept with the request, and the database.\<close>

definition validate_session ::
    "user_session option \<Rightarrow> string \<Rightarrow> rat \<Rightarrow> rat \<Rightarrow> session_db \<Rightarrow>
       user_session option \<times> user_session option \<times> session_db" where
  "validate_session g hsid max_age now s =
     (if (case g of Some c \<Rightarrow> us_sid_hash c = hsid | None \<Rightarrow> False) then (g, g, s)
      else
        case sel_one (\<lambda>u. us_sid_hash u = hsid) (sd_sessions s) of
          None \<Rightarrow> (None, g, s)
        | Some u \<Rightarrow>
            if is_idle now u \<or> is_old max_age now u
            then (None, g, drop_sessions (\<lambda>x. us_sid_hash x = hsid) s)
            else
              let v = u \<lparr> us_uts := now \<rparr> in
              (Some v, Some v,
               s \<lparr> sd_sessions := upd (\<lambda>x. us_sid_hash x = hsid) (\<lambda>x. x \<lparr> us_uts := now \<rparr>) (sd_sessions s) \<rparr>))"

text \<open>\<open>current\<close>, ordered by the last use, then by the hash.\<close>

definition current :: "rat \<Rightarrow> rat \<Rightarrow> session_db \<Rightarrow> user_session list" where
  "current max_age now s =
     sort_key (\<lambda>u. - us_uts u)
       (sort_key us_sid_hash
         (sel (\<lambda>u. us_uts u \<ge> now - SESSION_IDLE_TIMEOUT \<and> (max_age > 0 \<longrightarrow> us_cts u \<ge> now - max_age))
           (sd_sessions s)))"

section \<open>Requests\<close>

text \<open>\<open>read\<close>: the copy of the request, or the session behind the cookie.\<close>

definition read_session ::
    "user_session option \<Rightarrow> string option \<Rightarrow> rat \<Rightarrow> rat \<Rightarrow> session_db \<Rightarrow>
       user_session option \<times> user_session option \<times> session_db" where
  "read_session g cookie max_age now s =
     (case g of
        Some c \<Rightarrow> (Some c, g, s)
      | None \<Rightarrow> (case cookie of None \<Rightarrow> (None, None, s) | Some h \<Rightarrow> validate_session None h max_age now s))"

text \<open>\<open>deleted_or_banned\<close> also clears the cookie and the copy of the request.\<close>

definition deleted_or_banned :: "string \<Rightarrow> session_db \<Rightarrow> session_db" where
  "deleted_or_banned uid s = snd (revoke_by_uid uid None s)"

definition terminate_current_users_sessions :: "string \<Rightarrow> session_db \<Rightarrow> nat \<times> session_db" where
  "terminate_current_users_sessions uid s = revoke_by_uid uid None s"

text \<open>
  \<open>account_check\<close>: \<open>active\<close> is what LDAP says, \<open>None\<close> when it is unavailable, which lets the account
  pass.  The exception comes after the sessions were revoked, so the database is part of the result.
\<close>

definition disabled :: bearer_error where
  "disabled = Http 401 ''Account is disabled''"

definition account_check ::
    "(string \<Rightarrow> bool option) \<Rightarrow> user_session \<Rightarrow> rat \<Rightarrow> session_db \<Rightarrow> (bearer_error + user_session) \<times> session_db" where
  "account_check active u now s =
     (let admin = (case us_admin_uid u of Some a \<Rightarrow> if a \<noteq> [] then Some a else None | None \<Rightarrow> None) in
      if admin \<noteq> None \<and> active (the admin) = Some False then (Inl disabled, deleted_or_banned (the admin) s)
      else if active (us_uid u) = Some False then (Inl disabled, deleted_or_banned (us_uid u) s)
      else
        let (v, s') = save_session u [Last_account_check (Some now)] s in (Inr v, s'))"

text \<open>The hook before each request.\<close>

definition validate_request ::
    "(string \<Rightarrow> bool option) \<Rightarrow> rat \<Rightarrow> string option \<Rightarrow> rat \<Rightarrow> rat \<Rightarrow> session_db \<Rightarrow>
       (bearer_error + user_session option) \<times> session_db" where
  "validate_request active interval cookie max_age now s =
     (case read_session None cookie max_age now s of
        (None, _, s1) \<Rightarrow> (Inr None, s1)
      | (Some u, _, s1) \<Rightarrow>
          if (case us_last_account_check u of None \<Rightarrow> True | Some t \<Rightarrow> now - t > interval)
          then (case account_check active u now s1 of
                  (Inl e, s2) \<Rightarrow> (Inl e, s2) | (Inr v, s2) \<Rightarrow> (Inr (Some v), s2))
          else (Inr (Some u), s1))"

text \<open>The form errors of the session of a request.\<close>

definition form_error_pop :: "user_session option \<Rightarrow> string \<Rightarrow> session_db \<Rightarrow> string option \<times> session_db" where
  "form_error_pop u path s =
     (case u of
        None \<Rightarrow> (None, s)
      | Some v \<Rightarrow>
          (case sel_one (\<lambda>e. fe_sid_hash e = us_sid_hash v \<and> fe_path e = path) (sd_form_errors s) of
             None \<Rightarrow> (None, s)
           | Some e \<Rightarrow>
               (Some (fe_payload e),
                s \<lparr> sd_form_errors :=
                      del (\<lambda>x. fe_sid_hash x = us_sid_hash v \<and> fe_path x = path) (sd_form_errors s) \<rparr>)))"

definition form_error_put ::
    "user_session option \<Rightarrow> string \<Rightarrow> string \<Rightarrow> rat \<Rightarrow> session_db \<Rightarrow> session_db py" where
  "form_error_put u path payload now s =
     (case u of
        None \<Rightarrow> Inr s
      | Some v \<Rightarrow>
          if us_sid_hash v \<notin> us_sid_hash ` set (sd_sessions s) then Inl IntegrityError
          else
            let W = (\<lambda>x. fe_sid_hash x = us_sid_hash v \<and> fe_path x = path) in
            Inr (s \<lparr> sd_form_errors :=
                if list_ex W (sd_form_errors s)
                then upd W (\<lambda>x. x \<lparr> fe_payload := payload, fe_cts := now \<rparr>) (sd_form_errors s)
                else sd_form_errors s @
                  [\<lparr> fe_sid_hash = us_sid_hash v, fe_path = path, fe_payload = payload, fe_cts = now \<rparr>] \<rparr>))"

section \<open>What ends stays ended\<close>

text \<open>
  The operations of the store, at a time not before \<open>t0\<close>, in any order.  \<open>hsid\<close> is a hash that no new
  session gets: the identifiers are random.
\<close>

inductive session_step :: "string \<Rightarrow> rat \<Rightarrow> rat \<Rightarrow> session_db \<Rightarrow> session_db \<Rightarrow> bool"
  for hsid :: string and max_age :: rat and t0 :: rat where
  Create: "create_session h raw ip now s = Inr s' \<Longrightarrow> h \<noteq> hsid \<Longrightarrow> session_step hsid max_age t0 s s'"
| Register: "register h u now s = Inr s' \<Longrightarrow> h \<noteq> hsid \<Longrightarrow> session_step hsid max_age t0 s s'"
| Replace: "replace_session old h u now s = Inr s' \<Longrightarrow> h \<noteq> hsid \<Longrightarrow> session_step hsid max_age t0 s s'"
| Destroy: "session_step hsid max_age t0 s (destroy h s)"
| Revoke: "session_step hsid max_age t0 s (snd (revoke_by_uid uid h s))"
| Save: "session_step hsid max_age t0 s (snd (save_session u vs s))"
| Validate: "t0 \<le> now \<Longrightarrow> validate_session g h max_age now s = (u, g', s') \<Longrightarrow> session_step hsid max_age t0 s s'"
| Form_pop: "form_error_pop u path s = (r, s') \<Longrightarrow> session_step hsid max_age t0 s s'"
| Form_put: "form_error_put u path payload now s = Inr s' \<Longrightarrow> session_step hsid max_age t0 s s'"

text \<open>A session is over when its row is gone, idle or too old.\<close>

definition ended :: "rat \<Rightarrow> rat \<Rightarrow> user_session \<Rightarrow> bool" where
  "ended max_age t0 u = (is_idle t0 u \<or> is_old max_age t0 u)"

definition over :: "string \<Rightarrow> rat \<Rightarrow> rat \<Rightarrow> session_db \<Rightarrow> bool" where
  "over hsid max_age t0 s = (\<forall>u \<in> set (sd_sessions s). us_sid_hash u = hsid \<longrightarrow> ended max_age t0 u)"

lemma ended_cong: "us_uts u = us_uts v \<Longrightarrow> us_cts u = us_cts v \<Longrightarrow> ended m t u = ended m t v"
  by (simp add: ended_def is_idle_def is_old_def)

lemma ended_later: "ended m t u \<Longrightarrow> t \<le> t' \<Longrightarrow> ended m t' u"
  by (auto simp: ended_def is_idle_def is_old_def)

lemma over_subset: "over hsid m t s \<Longrightarrow> set (sd_sessions s') \<subseteq> set (sd_sessions s) \<Longrightarrow> over hsid m t s'"
  unfolding over_def by blast

lemma drop_sessions_rows [simp]: "sd_sessions (drop_sessions W s) = del W (sd_sessions s)"
  by (simp add: drop_sessions_def Let_def)

lemma insert_session_rows: "insert_session u s = Inr s' \<Longrightarrow> sd_sessions s' = sd_sessions s @ [u]"
  by (auto simp: insert_session_def split: if_splits)

lemma over_insert: "over hsid m t s \<Longrightarrow> insert_session u s = Inr s' \<Longrightarrow> us_sid_hash u \<noteq> hsid \<Longrightarrow> over hsid m t s'"
  by (auto simp: over_def insert_session_rows)

lemma over_later: "over hsid m t s \<Longrightarrow> t \<le> t' \<Longrightarrow> over hsid m t' s"
  unfolding over_def using ended_later by blast

lemma set_value_sels [simp]:
  "us_sid_hash (fold set_value vs u) = us_sid_hash u"
  "us_uts (fold set_value vs u) = us_uts u" "us_cts (fold set_value vs u) = us_cts u"
  "us_uid (fold set_value vs u) = us_uid u" "us_admin_uid (fold set_value vs u) = us_admin_uid u"
proof (induction vs arbitrary: u)
  case (Cons v vs)
  { case 1 show ?case by (cases v) (simp_all add: Cons.IH) }
  { case 2 show ?case by (cases v) (simp_all add: Cons.IH) }
  { case 3 show ?case by (cases v) (simp_all add: Cons.IH) }
  { case 4 show ?case by (cases v) (simp_all add: Cons.IH) }
  { case 5 show ?case by (cases v) (simp_all add: Cons.IH) }
qed simp_all

lemma over_save: "over hsid m t s \<Longrightarrow> over hsid m t (snd (save_session u vs s))"
proof -
  assume ov: "over hsid m t s"
  have "us_sid_hash x = hsid \<longrightarrow> ended m t x" if x: "x \<in> set (sd_sessions (snd (save_session u vs s)))" for x
  proof -
    obtain y where y: "y \<in> set (sd_sessions s)" "x = y \<or> x = fold set_value vs y"
      using x by (auto simp: save_session_def upd_set)
    then have "us_sid_hash x = us_sid_hash y" "ended m t x = ended m t y"
      using ended_cong [of x y] by auto
    then show ?thesis using ov y(1) by (simp add: over_def)
  qed
  then show ?thesis by (simp add: over_def)
qed

lemma validate_session_over:
  assumes ov: "over hsid m t s" and le: "t \<le> now" and val: "validate_session g h m now s = (u, g', s')"
  shows "over hsid m t s'"
proof -
  have "s' = s \<or> s' = drop_sessions (\<lambda>x. us_sid_hash x = h) s \<or>
      (\<exists>v. v \<in> set (sd_sessions s) \<and> us_sid_hash v = h \<and> \<not> ended m now v \<and>
        sd_sessions s' = upd (\<lambda>x. us_sid_hash x = h) (\<lambda>x. x \<lparr> us_uts := now \<rparr>) (sd_sessions s))"
  proof (cases "case g of Some c \<Rightarrow> us_sid_hash c = h | None \<Rightarrow> False")
    case True
    then show ?thesis using val by (simp add: validate_session_def)
  next
    case fresh: False
    show ?thesis
    proof (cases "sel_one (\<lambda>u. us_sid_hash u = h) (sd_sessions s)")
      case None
      then show ?thesis using val fresh by (simp add: validate_session_def)
    next
      case (Some v)
      note v = sel_one_Some_in [OF Some]
      show ?thesis
      proof (cases "ended m now v")
        case True
        then show ?thesis using val fresh Some by (simp add: validate_session_def ended_def)
      next
        case False
        then have "sd_sessions s' = upd (\<lambda>x. us_sid_hash x = h) (\<lambda>x. x \<lparr> us_uts := now \<rparr>) (sd_sessions s)"
          using val fresh Some by (auto simp: validate_session_def ended_def Let_def)
        then show ?thesis using v False by metis
      qed
    qed
  qed
  then consider "s' = s" | "s' = drop_sessions (\<lambda>x. us_sid_hash x = h) s"
    | v where "v \<in> set (sd_sessions s)" "us_sid_hash v = h" "\<not> ended m now v"
        "sd_sessions s' = upd (\<lambda>x. us_sid_hash x = h) (\<lambda>x. x \<lparr> us_uts := now \<rparr>) (sd_sessions s)"
    by metis
  then show ?thesis
  proof cases
    case 1
    then show ?thesis using ov by simp
  next
    case 2
    then show ?thesis using ov by (auto intro: over_subset simp: del_set)
  next
    case 3
    have "h \<noteq> hsid" using over_later [OF ov le] 3(1-3) by (auto simp: over_def)
    have "us_sid_hash x = hsid \<longrightarrow> ended m t x" if "x \<in> set (sd_sessions s')" for x
      using that ov \<open>h \<noteq> hsid\<close> unfolding 3(4) over_def upd_set by auto
    then show ?thesis by (simp add: over_def)
  qed
qed

lemma step_over: "session_step hsid m t s s' \<Longrightarrow> over hsid m t s \<Longrightarrow> over hsid m t s'"
proof (induction rule: session_step.induct)
  case (Create h raw ip now s s')
  then obtain u where "insert_session u s = Inr s'" "us_sid_hash u = h"
    by (auto simp: create_session_def prepare_session_def bindE_Inr_iff)
  then show ?case using over_insert Create by blast
next
  case (Register h u now s s')
  then show ?case using over_insert [of hsid m t s "stamped h now u" s'] by (simp add: register_def stamped_def)
next
  case (Replace old h u now s s')
  let ?s = "case old of None \<Rightarrow> s | Some h \<Rightarrow> drop_sessions (\<lambda>x. us_sid_hash x = h) s"
  have "set (sd_sessions ?s) \<subseteq> set (sd_sessions s)" by (cases old) (auto simp: del_set)
  then have "over hsid m t ?s" by (rule over_subset [OF Replace.prems])
  moreover have "insert_session (stamped h now u) ?s = Inr s'"
    using Replace.hyps(1) by (simp add: replace_session_def)
  moreover have "us_sid_hash (stamped h now u) \<noteq> hsid" using Replace.hyps(2) by (simp add: stamped_def)
  ultimately show ?case by (rule over_insert)
next
  case (Destroy s h)
  then show ?case by (rule over_subset) (auto simp: destroy_def del_set)
next
  case (Revoke s uid h)
  then show ?case by (rule over_subset) (auto simp: revoke_by_uid_def Let_def del_set)
next
  case (Save s u vs)
  then show ?case by (rule over_save)
next
  case (Validate now g h s u g' s')
  show ?case by (rule validate_session_over [OF Validate.prems Validate.hyps])
next
  case (Form_pop u path s r s')
  then have "sd_sessions s' = sd_sessions s" by (auto simp: form_error_pop_def split: option.splits)
  then show ?case using Form_pop.prems by (simp add: over_def)
next
  case (Form_put u path payload now s s')
  then have "sd_sessions s' = sd_sessions s" by (auto simp: form_error_put_def Let_def split: option.splits if_splits)
  then show ?case using Form_put.prems by (simp add: over_def)
qed

lemma run_over: "(session_step hsid m t)\<^sup>*\<^sup>* s s' \<Longrightarrow> over hsid m t s \<Longrightarrow> over hsid m t s'"
  by (induction rule: rtranclp_induct) (auto dest: step_over)

lemma current_set:
  "u \<in> set (current m now s) \<longleftrightarrow> u \<in> set (sd_sessions s) \<and> \<not> ended m now u"
  by (auto simp: current_def sel_set ended_def is_idle_def is_old_def)

section \<open>Properties\<close>

text \<open>
  what a request is served and what the pages for administrators list agree: a session validates
  exactly when it is among the current sessions, which the query selects by other means.
\<close>

theorem served_sessions_are_the_current_ones:
  assumes "sessions_keyed (sd_sessions s)"
  shows "fst (validate_session None hsid m now s) \<noteq> None \<longleftrightarrow> hsid \<in> us_sid_hash ` set (current m now s)"
proof (cases "sel_one (\<lambda>u. us_sid_hash u = hsid) (sd_sessions s)")
  case None
  have "\<not> us_sid_hash x = hsid" if "x \<in> set (sd_sessions s)" for x
    using None that by (auto simp: sel_one_None)
  moreover have "x \<in> set (sd_sessions s)" if "x \<in> set (current m now s)" for x
    using that by (simp add: current_set)
  ultimately have "hsid \<notin> us_sid_hash ` set (current m now s)" by blast
  then show ?thesis by (simp add: validate_session_def None)
next
  case (Some u)
  note u = sel_one_Some_in [OF Some]
  have only: "x = u" if "x \<in> set (sd_sessions s)" "us_sid_hash x = hsid" for x
    using sessions.unique [OF assms that(1), of u] u that(2) by simp
  have "hsid \<in> us_sid_hash ` set (current m now s) \<longleftrightarrow> \<not> ended m now u"
  proof
    assume "hsid \<in> us_sid_hash ` set (current m now s)"
    then obtain x where "us_sid_hash x = hsid" "x \<in> set (current m now s)" by blast
    then show "\<not> ended m now u" unfolding current_set using only by blast
  next
    assume "\<not> ended m now u"
    then have "u \<in> set (current m now s)" unfolding current_set using u by blast
    then show "hsid \<in> us_sid_hash ` set (current m now s)" using u by blast
  qed
  then show ?thesis by (simp add: validate_session_def Some Let_def ended_def)
qed


definition ann_session :: user_session where
  "ann_session = \<lparr> us_sid_hash = ''h1'', us_uid = ''ann'', us_dn = None, us_fullname = None,
     us_email = Some ''ann@apache.org'', us_is_member = False, us_is_chair = False, us_is_root = False,
     us_member_committees = [''tooling''], us_participant_committees = [''tooling''], us_mfa = True,
     us_is_role = False, us_ip_address = None, us_admin_uid = Some ''root'', us_last_account_check = None,
     us_downgrade_admin_to_user = False, us_cts = 0, us_uts = 0 \<rparr>"

definition bob_session :: user_session where
  "bob_session = ann_session \<lparr> us_sid_hash := ''h2'', us_uid := ''bob'', us_admin_uid := None, us_uts := 259000 \<rparr>"

definition two_sessions :: session_db where
  "two_sessions = \<lparr> sd_sessions = [ann_session, bob_session],
     sd_form_errors = [\<lparr> fe_sid_hash = ''h1'', fe_path = ''/vote'', fe_payload = ''{}'', fe_cts = 0 \<rparr>] \<rparr>"

lemma served_sessions_are_the_current_ones_witness:
  "map us_sid_hash (current 0 259100 two_sessions) = [''h2'', ''h1''] \<and>
   fst (validate_session None ''h1'' 0 259100 two_sessions) \<noteq> None \<and>
   map us_sid_hash (current 0 259100 two_sessions) \<noteq> map us_sid_hash (current 0 300000 two_sessions)"
proof -
  have keyed: "sessions_keyed (sd_sessions two_sessions)" by code_simp
  have cur: "map us_sid_hash (current 0 259100 two_sessions) = [''h2'', ''h1''] \<and>
      map us_sid_hash (current 0 300000 two_sessions) = [''h2'']"
    by code_simp
  have "us_sid_hash ` set (current 0 259100 two_sessions) = set [''h2'', ''h1'']"
    using cur by (simp only: set_map [symmetric])
  then have "fst (validate_session None ''h1'' 0 259100 two_sessions) \<noteq> None"
    unfolding served_sessions_are_the_current_ones [OF keyed] by simp
  then show ?thesis using cur by (metis list.inject not_Cons_self2)
qed

text \<open>
  C20: a session that is gone, idle for three days or past its age never serves a request again, whatever
  the store does afterwards: no save, form error, validation or session of another login revives it.
\<close>

theorem ended_sessions_stay_ended:
  assumes run: "(session_step hsid max_age t0)\<^sup>*\<^sup>* s s'" and gone: "over hsid max_age t0 s" and later: "t0 \<le> now"
  shows "fst (validate_session None hsid max_age now s') = None \<and> hsid \<notin> us_sid_hash ` set (current max_age now s')"
proof -
  have ov: "over hsid max_age now s'" by (rule over_later [OF run_over [OF run gone] later])
  have "hsid \<notin> us_sid_hash ` set (current max_age now s')"
  proof
    assume "hsid \<in> us_sid_hash ` set (current max_age now s')"
    then obtain u where "us_sid_hash u = hsid" "u \<in> set (current max_age now s')" by blast
    then have "u \<in> set (sd_sessions s')" "\<not> ended max_age now u" unfolding current_set by blast+
    then show False using ov \<open>us_sid_hash u = hsid\<close> unfolding over_def by blast
  qed
  moreover have "fst (validate_session None hsid max_age now s') = None"
  proof (cases "sel_one (\<lambda>u. us_sid_hash u = hsid) (sd_sessions s')")
    case None
    then show ?thesis by (simp add: validate_session_def)
  next
    case (Some u)
    then have "ended max_age now u" using sel_one_Some_in [OF Some] ov by (simp add: over_def)
    then show ?thesis using Some by (simp add: validate_session_def ended_def)
  qed
  ultimately show ?thesis by blast
qed

text \<open>Ann has been away for three days; a request of hers still in progress saves its copy.\<close>

lemma ended_sessions_stay_ended_witness:
  "fst (validate_session None ''h1'' 0 300001 (snd (save_session ann_session [Downgrade True] two_sessions))) = None"
proof -
  have ov: "over ''h1'' 0 300000 two_sessions" by code_simp
  have "(session_step ''h1'' 0 300000)\<^sup>*\<^sup>* two_sessions (snd (save_session ann_session [Downgrade True] two_sessions))"
    by (rule r_into_rtranclp) (rule session_step.Save)
  from ended_sessions_stay_ended [OF this ov, of 300001] show ?thesis by simp
qed

lemma read_keeps:
  assumes read: "read_session None cookie m now s = (u, g, s1)" and x: "x \<in> set (sd_sessions s)"
  shows "cookie = Some (us_sid_hash x) \<or> x \<in> set (sd_sessions s1)"
proof (cases cookie)
  case None
  then show ?thesis using read x by (simp add: read_session_def)
next
  case (Some h)
  then have val: "validate_session None h m now s = (u, g, s1)" using read by (simp add: read_session_def)
  have "x \<in> set (sd_sessions s1)" if ne: "us_sid_hash x \<noteq> h"
  proof (cases "sel_one (\<lambda>u. us_sid_hash u = h) (sd_sessions s)")
    case None
    then show ?thesis using val x by (simp add: validate_session_def)
  next
    case found: (Some v)
    show ?thesis
    proof (cases "ended m now v")
      case True
      then have "s1 = drop_sessions (\<lambda>x. us_sid_hash x = h) s"
        using val found by (simp add: validate_session_def ended_def)
      then show ?thesis using x ne by (simp add: del_set)
    next
      case False
      then have "sd_sessions s1 = upd (\<lambda>x. us_sid_hash x = h) (\<lambda>x. x \<lparr> us_uts := now \<rparr>) (sd_sessions s)"
        using val found by (auto simp: validate_session_def ended_def Let_def)
      then show ?thesis using x ne by (auto simp: upd_set)
    qed
  qed
  then show ?thesis using Some by auto
qed



end
