(* ===== verification/Credentials.thy ===== *)
theory Credentials
  imports Sessions
begin

text \<open>
  SSH keys (src/atr/storage/writers/ssh.py), the index of email addresses (src/atr/cache.py), the events of
  the LDAP directory (src/atr/ldap.py) and the periodic clearance of credentials
  (src/atr/tasks/maintenance.py), over the sessions and tokens of the theories before.

  The digest of a key, the hash of an address and the parser of distinguished names are parameters.  The
  emails, the log, the times of the last refresh and the file of the index are left out.
\<close>

section \<open>Rows\<close>

record ssh_key =
  sk_fingerprint :: string
  sk_key :: string
  sk_asf_uid :: string

text \<open>The claims of a trusted publisher's token that the code reads.\<close>

record publisher_payload =
  tp_actor :: string
  tp_actor_id :: int
  tp_exp :: "int option"
  tp_nbf :: "int option"
  tp_jti :: string
  tp_repository :: string
  tp_workflow_ref :: string
  tp_run_id :: "string option"

record workflow_key =
  wk_fingerprint :: string
  wk_key :: string
  wk_project_key :: string
  wk_asf_uid :: string
  wk_github_uid :: string
  wk_github_nid :: int
  wk_payload :: publisher_payload
  wk_source_commit :: "string option"
  wk_declare_sources :: bool
  wk_expires :: int
  wk_revoked :: bool

record workflow_jti =
  wj_jti :: string
  wj_expires :: int
  wj_consumed :: int

text \<open>The index of addresses: hash to user, and user to hashes.\<close>

record email_cache =
  ec_hashes :: "string \<rightharpoonup> string"
  ec_reverse :: "string \<rightharpoonup> string list"

record credentials =
  cr_sessions :: session_db
  cr_tokens :: token_db
  cr_ssh_keys :: "ssh_key list"
  cr_workflow_keys :: "workflow_key list"
  cr_jtis :: "workflow_jti list"
  cr_emails :: "email_cache option"

definition ssh_keyed :: "ssh_key list \<Rightarrow> bool" where
  "ssh_keyed t = distinct (map sk_fingerprint t)"

definition workflow_keyed :: "workflow_key list \<Rightarrow> bool" where
  "workflow_keyed t = distinct (map wk_fingerprint t)"

definition jtis_keyed :: "workflow_jti list \<Rightarrow> bool" where
  "jtis_keyed t = distinct (map wj_jti t)"

interpretation ssh_keys: keyed_table sk_fingerprint ssh_keyed
  by unfold_locales (simp add: ssh_keyed_def)

interpretation workflow_keys: keyed_table wk_fingerprint workflow_keyed
  by unfold_locales (simp add: workflow_keyed_def)

interpretation jtis: keyed_table wj_jti jtis_keyed
  by unfold_locales (simp add: jtis_keyed_def)

section \<open>SSH keys\<close>

text \<open>\<open>str.split()\<close> with no argument.\<close>

function split_ws :: "string \<Rightarrow> string list" where
  "split_ws s =
     (let t = dropWhile is_space s in
      if t = [] then [] else takeWhile (\<lambda>c. \<not> is_space c) t # split_ws (dropWhile (\<lambda>c. \<not> is_space c) t))"
  by pat_completeness auto
termination
proof (relation "measure length", simp)
  fix s t assume "t = dropWhile is_space s" "t \<noteq> []"
  then obtain c u where t: "t = c # u" "\<not> is_space c" by (metis hd_dropWhile list.exhaust list.sel(1))
  have "length (dropWhile (\<lambda>c. \<not> is_space c) t) \<le> length u" using t length_dropWhile_le by auto
  also have "\<dots> < length t" using t by simp
  also have "\<dots> \<le> length s" using \<open>t = dropWhile is_space s\<close> length_dropWhile_le by auto
  finally show "(dropWhile (\<lambda>c. \<not> is_space c) t, s) \<in> measure length" by simp
qed

text \<open>\<open>digest\<close> decodes base64, hashes with SHA-256 and encodes again; \<open>None\<close> for what is not base64.\<close>

definition key_ssh_fingerprint :: "(string \<Rightarrow> string option) \<Rightarrow> string \<Rightarrow> string py" where
  "key_ssh_fingerprint digest key =
     (case split_ws (strip key) of
        _ # key_data # _ \<Rightarrow>
          (case digest key_data of
             None \<Rightarrow> Inl (SshFingerprintError ''Invalid base64 encoding in key data'')
           | Some d \<Rightarrow> Inr (''SHA256:'' @ rstrip_chars ''='' d))
      | _ \<Rightarrow> Inl (SshFingerprintError ''Invalid SSH key format''))"

definition add_ssh_key ::
    "(string \<Rightarrow> string option) \<Rightarrow> string \<Rightarrow> string \<Rightarrow> credentials \<Rightarrow> (string \<times> credentials) py" where
  "add_ssh_key digest uid key s =
     bindE (key_ssh_fingerprint digest key) (\<lambda>fp.
     bindE (guardE (fp \<notin> sk_fingerprint ` set (cr_ssh_keys s)) IntegrityError) (\<lambda>_.
       Inr (fp, s \<lparr> cr_ssh_keys :=
         cr_ssh_keys s @ [\<lparr> sk_fingerprint = fp, sk_key = key, sk_asf_uid = uid \<rparr>] \<rparr>)))"

definition delete_ssh_key :: "string \<Rightarrow> string \<Rightarrow> credentials \<Rightarrow> credentials py" where
  "delete_ssh_key uid fp s =
     bindE (demandE (access 404 (''Key not found: '' @ fp))
              (sel_one (\<lambda>k. sk_fingerprint k = fp \<and> sk_asf_uid k = uid) (cr_ssh_keys s))) (\<lambda>k.
       Inr (s \<lparr> cr_ssh_keys := del (\<lambda>x. sk_fingerprint x = sk_fingerprint k) (cr_ssh_keys s) \<rparr>))"

text \<open>The validators of \<open>TrustedPublisherPayload\<close>.\<close>

definition validate_payload :: "int \<Rightarrow> publisher_payload \<Rightarrow> publisher_payload py" where
  "validate_payload now p =
     bindE (guardE (case tp_exp p of None \<Rightarrow> True | Some e \<Rightarrow> \<not> now > e) (ValueError ''Token has expired'')) (\<lambda>_.
     bindE (guardE (case tp_nbf p of None \<Rightarrow> True | Some n \<Rightarrow> \<not> (n \<noteq> 0 \<and> now < n))
              (ValueError ''Token not yet valid'')) (\<lambda>_. Inr p))"

definition WORKFLOW_KEY_TTL :: int where
  "WORKFLOW_KEY_TTL = 20 * 60"

definition consume_jti :: "publisher_payload \<Rightarrow> int \<Rightarrow> int \<Rightarrow> credentials \<Rightarrow> credentials py" where
  "consume_jti p now fallback s =
     (if tp_jti p \<in> wj_jti ` set (cr_jtis s)
      then Inl (access 409 ''Trusted Publisher token has already been used'')
      else
        let expires = (case tp_exp p of None \<Rightarrow> fallback | Some e \<Rightarrow> if e \<noteq> 0 then e else fallback) in
        Inr (s \<lparr> cr_jtis := cr_jtis s @ [\<lparr> wj_jti = tp_jti p, wj_expires = expires, wj_consumed = now \<rparr>] \<rparr>))"

definition add_workflow_key ::
    "(string \<Rightarrow> string option) \<Rightarrow> string \<Rightarrow> int \<Rightarrow> string \<Rightarrow> int \<Rightarrow> string \<Rightarrow> string \<Rightarrow> publisher_payload \<Rightarrow>
       string option \<Rightarrow> bool \<Rightarrow> credentials \<Rightarrow> ((string \<times> int) \<times> credentials) py" where
  "add_workflow_key digest uid now github_uid github_nid project_key key payload source_commit declare_sources s =
     (let expires = now + WORKFLOW_KEY_TTL in
      bindE (consume_jti payload now expires s) (\<lambda>s1.
      bindE (key_ssh_fingerprint digest key) (\<lambda>fp.
      bindE (guardE (fp \<notin> wk_fingerprint ` set (cr_workflow_keys s1)) IntegrityError) (\<lambda>_.
        Inr ((fp, expires),
          s1 \<lparr> cr_workflow_keys := cr_workflow_keys s1 @
            [\<lparr> wk_fingerprint = fp, wk_key = key, wk_project_key = project_key, wk_asf_uid = uid,
               wk_github_uid = github_uid, wk_github_nid = github_nid,
               wk_payload = payload \<lparr> tp_exp := None, tp_nbf := None \<rparr>,
               wk_source_commit = source_commit, wk_declare_sources = declare_sources,
               wk_expires = expires, wk_revoked = False \<rparr>] \<rparr>)))))"

definition revoke_all_user_keys :: "string \<Rightarrow> credentials \<Rightarrow> (nat \<times> nat) \<times> credentials" where
  "revoke_all_user_keys target s =
     (let W = (\<lambda>k. wk_asf_uid k = target \<and> \<not> wk_revoked k) in
      ((rowcount (\<lambda>k. sk_asf_uid k = target) (cr_ssh_keys s), rowcount W (cr_workflow_keys s)),
       s \<lparr> cr_ssh_keys := del (\<lambda>k. sk_asf_uid k = target) (cr_ssh_keys s),
           cr_workflow_keys := upd W (\<lambda>k. k \<lparr> wk_revoked := True \<rparr>) (cr_workflow_keys s) \<rparr>))"

section \<open>The index of email addresses\<close>

text \<open>\<open>sha\<close> is SHA-256 of a text.  The results say whether the index changed.\<close>

definition email_uid_hash :: "(string \<Rightarrow> string) \<Rightarrow> string \<Rightarrow> string" where
  "email_uid_hash sha email = sha (lower email)"

definition email_uid_lookup :: "(string \<Rightarrow> string) \<Rightarrow> email_cache \<Rightarrow> string \<Rightarrow> string option" where
  "email_uid_lookup sha c email = (if email = [] then None else ec_hashes c (email_uid_hash sha email))"

definition lowered :: "string list \<Rightarrow> string list" where
  "lowered emails = remdups (map lower (filter (\<lambda>e. e \<noteq> []) emails))"

definition forget_email ::
    "string \<Rightarrow> string \<Rightarrow> (string \<rightharpoonup> string) \<times> string list \<Rightarrow> (string \<rightharpoonup> string) \<times> string list" where
  "forget_email uid h st =
     ((if fst st h = Some uid then (fst st)(h := None) else fst st), removeAll h (snd st))"

definition learn_email ::
    "string \<Rightarrow> string \<Rightarrow> (string \<rightharpoonup> string) \<times> string list \<Rightarrow> (string \<rightharpoonup> string) \<times> string list" where
  "learn_email uid h st = ((fst st)(h \<mapsto> uid), List.insert h (snd st))"

definition email_uid_apply_delta ::
    "(string \<Rightarrow> string) \<Rightarrow> string \<Rightarrow> string list \<Rightarrow> string list \<Rightarrow> email_cache \<Rightarrow> bool \<times> email_cache" where
  "email_uid_apply_delta sha uid old_emails new_emails c =
     (let uid_lower = lower uid;
          old_set = lowered old_emails;
          new_set = lowered new_emails;
          removed = filter (\<lambda>e. e \<notin> set new_set) old_set;
          added = filter (\<lambda>e. e \<notin> set old_set) new_set in
      if removed = [] \<and> added = [] then (False, c)
      else
        let existing = (case ec_reverse c uid_lower of None \<Rightarrow> [] | Some hs \<Rightarrow> remdups hs);
            st = fold (forget_email uid_lower) (map (email_uid_hash sha) removed) (ec_hashes c, existing);
            (hashes, ex) = fold (learn_email uid_lower) (map (email_uid_hash sha) added) st
        in (True, c \<lparr> ec_hashes := hashes,
                      ec_reverse := (ec_reverse c)(uid_lower := (if ex \<noteq> [] then Some (sort ex) else None)) \<rparr>))"

definition email_uid_purge_uid :: "string \<Rightarrow> email_cache \<Rightarrow> bool \<times> email_cache" where
  "email_uid_purge_uid uid c =
     (let uid_lower = lower uid;
          c1 = c \<lparr> ec_reverse := (ec_reverse c)(uid_lower := None) \<rparr> in
      case ec_reverse c uid_lower of
        None \<Rightarrow> (False, c1)
      | Some hs \<Rightarrow>
          if hs = [] then (False, c1)
          else (True, c1 \<lparr> ec_hashes :=
                  fold (\<lambda>h m. if m h = Some uid_lower then m(h := None) else m) hs (ec_hashes c) \<rparr>))"

text \<open>\<open>email_uid_refresh\<close> builds both from the directory, a list of addresses and users.\<close>

definition index_email ::
    "(string \<Rightarrow> string) \<Rightarrow> string \<times> string \<Rightarrow> email_cache \<Rightarrow> email_cache" where
  "index_email sha eu c =
     (let (email, uid) = eu; h = email_uid_hash sha email in
      if email = [] \<or> uid = [] then c
      else c \<lparr> ec_hashes := (ec_hashes c)(h \<mapsto> uid),
               ec_reverse := (ec_reverse c)(uid \<mapsto>
                 (case ec_reverse c uid of None \<Rightarrow> [] | Some hs \<Rightarrow> hs) @ [h]) \<rparr>)"

definition email_uid_refresh :: "(string \<Rightarrow> string) \<Rightarrow> (string \<times> string) list \<Rightarrow> email_cache py" where
  "email_uid_refresh sha email_to_uid =
     (if filter (\<lambda>(email, uid). email \<noteq> [] \<and> uid \<noteq> []) email_to_uid = []
      then Inl (RuntimeError ''Email-to-UID cache refresh produced no usable LDAP email mappings'')
      else Inr (fold (index_email sha) email_to_uid \<lparr> ec_hashes = Map.empty, ec_reverse = Map.empty \<rparr>))"

section \<open>Events of the directory\<close>

record pubsub_attributes =
  pa_asf_alt_email :: "string list"
  pa_asf_banned :: "string list"
  pa_asf_committer_email :: "string list"
  pa_mail :: "string list"
  pa_uid :: "string list"

record pubsub_payload =
  pp_dn :: string
  pp_change_type :: string
  pp_old :: pubsub_attributes
  pp_new :: pubsub_attributes

definition emails_from_pubsub :: "pubsub_attributes \<Rightarrow> string list" where
  "emails_from_pubsub a =
     filter (\<lambda>e. e \<noteq> []) (pa_mail a @ pa_asf_alt_email a @ pa_asf_committer_email a)"

definition extract_uid_from_pubsub ::
    "(string \<Rightarrow> (string \<times> string) list py) \<Rightarrow> pubsub_payload \<Rightarrow> string option py" where
  "extract_uid_from_pubsub parse_dn p =
     (case pa_uid (pp_new p) of
        u # _ \<Rightarrow> Inr (Some u)
      | [] \<Rightarrow> bindE (parse_dn (pp_dn p)) (\<lambda>parts.
          Inr (case filter (\<lambda>(a, _). a = ''uid'') parts of [] \<Rightarrow> None | (_, v) # _ \<Rightarrow> Some v)))"

definition revoke_all_credentials :: "string \<Rightarrow> credentials \<Rightarrow> credentials" where
  "revoke_all_credentials uid s =
     s \<lparr> cr_sessions := snd (revoke_by_uid uid None (cr_sessions s)),
         cr_tokens := delete_pats (belongs_to uid) (cr_tokens s),
         cr_ssh_keys := del (\<lambda>k. sk_asf_uid k = uid) (cr_ssh_keys s) \<rparr>"

definition with_emails :: "(email_cache \<Rightarrow> bool \<times> email_cache) \<Rightarrow> credentials \<Rightarrow> credentials" where
  "with_emails f s = s \<lparr> cr_emails := map_option (\<lambda>c. snd (f c)) (cr_emails s) \<rparr>"

text \<open>
  \<open>handle_update\<close>: an event that does not parse is \<open>Inl\<close> of its name, and its result is the message for
  the log.
\<close>

definition handle_update ::
    "(string \<Rightarrow> string) \<Rightarrow> (string \<Rightarrow> (string \<times> string) list py) \<Rightarrow> string + pubsub_payload \<Rightarrow> credentials \<Rightarrow>
       (string option \<times> credentials) py" where
  "handle_update sha parse_dn payload s =
     (case payload of
        Inl dn \<Rightarrow> Inr (Some (''Failed to parse LDAP pubsub payload with DN: '' @ dn), s)
      | Inr p \<Rightarrow>
          bindE (extract_uid_from_pubsub parse_dn p) (\<lambda>u.
            case u of
              None \<Rightarrow> Inr (None, s)
            | Some uid \<Rightarrow>
                if lower (pp_change_type p) = ''delete''
                then Inr (None, with_emails (email_uid_purge_uid uid) (revoke_all_credentials uid s))
                else
                  let was_banned = (pa_asf_banned (pp_old p) \<noteq> []);
                      now_banned = (pa_asf_banned (pp_new p) \<noteq> []);
                      s1 = (if now_banned \<and> \<not> was_banned then revoke_all_credentials uid s else s)
                  in Inr (None, with_emails (email_uid_apply_delta sha uid (emails_from_pubsub (pp_old p))
                                               (emails_from_pubsub (pp_new p))) s1)))"

section \<open>Maintenance\<close>

definition EXPIRED_TOKEN_RETENTION :: int where
  "EXPIRED_TOKEN_RETENTION = 30 * 86400"

definition FORM_ERROR_TTL_SECONDS :: rat where
  "FORM_ERROR_TTL_SECONDS = 24 * 60 * 60"

definition expired_pats_maintenance :: "int \<Rightarrow> credentials \<Rightarrow> credentials" where
  "expired_pats_maintenance now s =
     s \<lparr> cr_tokens := delete_pats (\<lambda>p. pt_expires p < now - EXPIRED_TOKEN_RETENTION) (cr_tokens s) \<rparr>"

definition session_data_maintenance :: "rat \<Rightarrow> credentials \<Rightarrow> credentials" where
  "session_data_maintenance now s =
     s \<lparr> cr_sessions := (cr_sessions s)
           \<lparr> sd_form_errors := del (\<lambda>e. fe_cts e < now - FORM_ERROR_TTL_SECONDS) (sd_form_errors (cr_sessions s)) \<rparr> \<rparr>"

definition workflow_auth_maintenance :: "int \<Rightarrow> credentials \<Rightarrow> credentials" where
  "workflow_auth_maintenance now s =
     s \<lparr> cr_workflow_keys := del (\<lambda>k. wk_expires k < now) (cr_workflow_keys s),
         cr_jtis := del (\<lambda>j. wj_expires j < now) (cr_jtis s) \<rparr>"

section \<open>The index is consistent\<close>

definition index_ok :: "email_cache \<Rightarrow> bool" where
  "index_ok c = (\<forall>h u. ec_hashes c h = Some u \<longrightarrow> (\<exists>hs. ec_reverse c u = Some hs \<and> h \<in> set hs))"

inductive cache_reachable :: "(string \<Rightarrow> string) \<Rightarrow> email_cache \<Rightarrow> bool" for sha :: "string \<Rightarrow> string" where
  Refresh: "email_uid_refresh sha m = Inr c \<Longrightarrow> cache_reachable sha c"
| Delta: "cache_reachable sha c \<Longrightarrow> cache_reachable sha (snd (email_uid_apply_delta sha uid olds news c))"
| Purge: "cache_reachable sha c \<Longrightarrow> cache_reachable sha (snd (email_uid_purge_uid uid c))"

lemma fold_forget:
  "fold (forget_email u) hs (m, ex) =
     ((\<lambda>h. if h \<in> set hs \<and> m h = Some u then None else m h), filter (\<lambda>h. h \<notin> set hs) ex)"
proof (induction hs arbitrary: m ex)
  case (Cons x hs)
  have "(\<lambda>h. if h \<in> set hs \<and> (if m x = Some u then m(x := None) else m) h = Some u then None
             else (if m x = Some u then m(x := None) else m) h) =
      (\<lambda>h. if h \<in> set (x # hs) \<and> m h = Some u then None else m h)"
    by (rule ext) auto
  moreover have "filter (\<lambda>h. h \<notin> set hs) (removeAll x ex) = filter (\<lambda>h. h \<notin> set (x # hs)) ex"
    by (induction ex) auto
  moreover have "forget_email u x (m, ex) = ((if m x = Some u then m(x := None) else m), removeAll x ex)"
    by (simp add: forget_email_def)
  ultimately show ?case by (simp only: fold.simps comp_apply Cons.IH)
qed simp

lemma fold_learn:
  "fst (fold (learn_email u) hs st) = (\<lambda>h. if h \<in> set hs then Some u else fst st h) \<and>
   set (snd (fold (learn_email u) hs st)) = set (snd st) \<union> set hs"
proof (induction hs arbitrary: st)
  case (Cons x hs)
  have "fst (fold (learn_email u) (x # hs) st) = (\<lambda>h. if h \<in> set (x # hs) then Some u else fst st h)"
    by (rule ext) (simp add: Cons.IH learn_email_def)
  moreover have "set (snd (fold (learn_email u) (x # hs) st)) = set (snd st) \<union> set (x # hs)"
    by (auto simp: Cons.IH learn_email_def)
  ultimately show ?case by blast
qed simp

lemma fold_purge:
  "fold (\<lambda>h m. if m h = Some u then m(h := None) else m) hs m =
     (\<lambda>h. if h \<in> set hs \<and> m h = Some u then None else m h)"
proof (induction hs arbitrary: m)
  case (Cons x hs)
  show ?case by (rule ext) (auto simp: Cons.IH)
qed simp

lemma index_email_ok:
  assumes "index_ok c"
  shows "index_ok (index_email sha eu c)"
proof (cases "fst eu = [] \<or> snd eu = []")
  case True
  then show ?thesis using assms by (auto simp: index_email_def split: prod.splits)
next
  case False
  obtain e u where eu: "eu = (e, u)" by (cases eu)
  let ?h = "email_uid_hash sha e"
  let ?hs = "(case ec_reverse c u of None \<Rightarrow> [] | Some hs \<Rightarrow> hs) @ [?h]"
  have c': "index_email sha eu c = c \<lparr> ec_hashes := (ec_hashes c)(?h \<mapsto> u), ec_reverse := (ec_reverse c)(u \<mapsto> ?hs) \<rparr>"
    using False eu by (simp add: index_email_def Let_def)
  have "\<exists>hs. ((ec_reverse c)(u \<mapsto> ?hs)) v = Some hs \<and> h \<in> set hs" if "((ec_hashes c)(?h \<mapsto> u)) h = Some v" for h v
  proof (cases "h = ?h")
    case True
    then show ?thesis using that by simp
  next
    case False
    then have "ec_hashes c h = Some v" using that by simp
    then obtain hs where "ec_reverse c v = Some hs" "h \<in> set hs"
      using assms unfolding index_ok_def by blast
    then show ?thesis by auto
  qed
  then show ?thesis unfolding c' index_ok_def by simp
qed

lemma refresh_ok: "email_uid_refresh sha m = Inr c \<Longrightarrow> index_ok c"
proof -
  assume ref: "email_uid_refresh sha m = Inr c"
  have "index_ok (fold (index_email sha) m c0)" if "index_ok c0" for c0
    using that by (induction m arbitrary: c0) (simp_all add: index_email_ok)
  moreover have "index_ok \<lparr> ec_hashes = Map.empty, ec_reverse = Map.empty \<rparr>" by (simp add: index_ok_def)
  ultimately show "index_ok c" using ref by (auto simp: email_uid_refresh_def split: if_splits)
qed

lemma delta_ok:
  assumes ok: "index_ok c"
  shows "index_ok (snd (email_uid_apply_delta sha uid olds news c))"
proof -
  define u where "u = lower uid"
  define gone where "gone = map (email_uid_hash sha) (filter (\<lambda>e. e \<notin> set (lowered news)) (lowered olds))"
  define fresh where "fresh = map (email_uid_hash sha) (filter (\<lambda>e. e \<notin> set (lowered olds)) (lowered news))"
  define st where "st = fold (forget_email u) gone (ec_hashes c, case ec_reverse c u of None \<Rightarrow> [] | Some hs \<Rightarrow> remdups hs)"
  define st' where "st' = fold (learn_email u) fresh st"
  show ?thesis
  proof (cases "gone = [] \<and> fresh = []")
    case True
    then show ?thesis using ok by (simp add: email_uid_apply_delta_def Let_def gone_def fresh_def)
  next
    case False
    have changed: "\<not> (filter (\<lambda>e. e \<notin> set (lowered news)) (lowered olds) = [] \<and>
        filter (\<lambda>e. e \<notin> set (lowered olds)) (lowered news) = [])"
      using False by (simp add: gone_def fresh_def)
    have c': "snd (email_uid_apply_delta sha uid olds news c) =
        c \<lparr> ec_hashes := fst st',
            ec_reverse := (ec_reverse c)(u := (if snd st' \<noteq> [] then Some (sort (snd st')) else None)) \<rparr>"
      unfolding email_uid_apply_delta_def Let_def if_not_P [OF changed]
      by (simp add: gone_def fresh_def u_def st_def st'_def split: prod.splits)
    have hashes: "fst st' h = (if h \<in> set fresh then Some u
        else if h \<in> set gone \<and> ec_hashes c h = Some u then None else ec_hashes c h)" for h
      by (simp add: st'_def fold_learn st_def fold_forget)
    have kept: "set (snd st') = {h \<in> set (case ec_reverse c u of None \<Rightarrow> [] | Some hs \<Rightarrow> hs). h \<notin> set gone} \<union> set fresh"
      by (auto simp: st'_def fold_learn st_def fold_forget split: option.splits)
    have "\<exists>hs. (if v = u then (if snd st' \<noteq> [] then Some (sort (snd st')) else None) else ec_reverse c v) = Some hs
        \<and> h \<in> set hs" if h: "fst st' h = Some v" for h v
    proof (cases "v = u")
      case True
      have "h \<in> set (snd st')"
      proof (cases "h \<in> set fresh")
        case True
        then show ?thesis by (simp add: kept)
      next
        case False
        then have "h \<notin> set gone" "ec_hashes c h = Some u" using h \<open>v = u\<close> by (auto simp: hashes split: if_splits)
        then obtain hs where "ec_reverse c u = Some hs" "h \<in> set hs" using ok by (auto simp: index_ok_def)
        then show ?thesis using \<open>h \<notin> set gone\<close> by (simp add: kept)
      qed
      then have "snd st' \<noteq> []" "h \<in> set (sort (snd st'))" by (auto simp only: set_sort list.set empty_iff)
      then show ?thesis using True by simp
    next
      case False
      then have "ec_hashes c h = Some v" using h by (auto simp: hashes split: if_splits)
      then show ?thesis using ok False by (simp add: index_ok_def)
    qed
    then show ?thesis unfolding c' index_ok_def by (simp add: fun_upd_def)
  qed
qed

lemma purge_hashes:
  assumes ok: "index_ok c"
  shows "ec_hashes (snd (email_uid_purge_uid uid c)) h =
    (if ec_hashes c h = Some (lower uid) then None else ec_hashes c h)"
proof -
  have "\<exists>hs. ec_reverse c (lower uid) = Some hs \<and> h \<in> set hs" if "ec_hashes c h = Some (lower uid)"
    using ok that by (simp add: index_ok_def)
  then show ?thesis
    by (auto simp: email_uid_purge_uid_def Let_def fold_purge split: option.splits)
qed

lemma purge_ok:
  assumes ok: "index_ok c"
  shows "index_ok (snd (email_uid_purge_uid uid c))"
proof -
  have reverse: "ec_reverse (snd (email_uid_purge_uid uid c)) = (ec_reverse c)(lower uid := None)"
    by (simp add: email_uid_purge_uid_def Let_def split: option.splits)
  show ?thesis
    using ok by (auto simp: index_ok_def purge_hashes [OF ok] reverse split: if_splits)
qed

lemma cache_reachable_ok: "cache_reachable sha c \<Longrightarrow> index_ok c"
  by (induction rule: cache_reachable.induct) (auto intro: refresh_ok delta_ok purge_ok)

lemma purged_nobody: "index_ok c \<Longrightarrow> email_uid_lookup sha (snd (email_uid_purge_uid uid c)) e \<noteq> Some (lower uid)"
  by (simp add: email_uid_lookup_def purge_hashes)

section \<open>Properties\<close>

definition closes_account :: "pubsub_payload \<Rightarrow> bool" where
  "closes_account p = (lower (pp_change_type p) = ''delete'' \<or> (pa_asf_banned (pp_new p) \<noteq> [] \<and> pa_asf_banned (pp_old p) = []))"

lemma with_emails_sels [simp]:
  "cr_sessions (with_emails f s) = cr_sessions s" "cr_tokens (with_emails f s) = cr_tokens s"
  "cr_ssh_keys (with_emails f s) = cr_ssh_keys s" "cr_workflow_keys (with_emails f s) = cr_workflow_keys s"
  "cr_jtis (with_emails f s) = cr_jtis s" "cr_emails (with_emails f s) = map_option (\<lambda>c. snd (f c)) (cr_emails s)"
  by (simp_all add: with_emails_def)

lemma revoke_all_credentials_sels [simp]:
  "sd_sessions (cr_sessions (revoke_all_credentials uid s)) = del (session_of uid) (sd_sessions (cr_sessions s))"
  "td_pats (cr_tokens (revoke_all_credentials uid s)) = del (belongs_to uid) (td_pats (cr_tokens s))"
  "cr_ssh_keys (revoke_all_credentials uid s) = del (\<lambda>k. sk_asf_uid k = uid) (cr_ssh_keys s)"
  "cr_workflow_keys (revoke_all_credentials uid s) = cr_workflow_keys s"
  "cr_jtis (revoke_all_credentials uid s) = cr_jtis s" "cr_emails (revoke_all_credentials uid s) = cr_emails s"
  by (simp_all add: revoke_all_credentials_def revoke_by_uid_def delete_pats_def Let_def)

lemma handle_update_closes:
  assumes "handle_update sha parse_dn (Inr p) s = Inr (msg, s')"
    and "extract_uid_from_pubsub parse_dn p = Inr (Some uid)" and "closes_account p"
  shows "s' = with_emails (if lower (pp_change_type p) = ''delete'' then email_uid_purge_uid uid
    else email_uid_apply_delta sha uid (emails_from_pubsub (pp_old p)) (emails_from_pubsub (pp_new p)))
    (revoke_all_credentials uid s)"
  using assms by (auto simp: handle_update_def closes_account_def Let_def split: if_splits)


text \<open>A small state: Ann and her administrator.\<close>

definition no_attributes :: pubsub_attributes where
  "no_attributes = \<lparr> pa_asf_alt_email = [], pa_asf_banned = [], pa_asf_committer_email = [], pa_mail = [], pa_uid = [] \<rparr>"

definition root_deleted :: pubsub_payload where
  "root_deleted = \<lparr> pp_dn = ''uid=root'', pp_change_type = ''Delete'', pp_old = no_attributes,
     pp_new = no_attributes \<lparr> pa_uid := [''root''] \<rparr> \<rparr>"

definition no_dn :: "string \<Rightarrow> (string \<times> string) list py" where
  "no_dn dn = Inr []"

definition small_cache :: email_cache where
  "small_cache = \<lparr> ec_hashes = [''root@apache.org'' \<mapsto> ''root'', ''ann@apache.org'' \<mapsto> ''ann''],
     ec_reverse = [''root'' \<mapsto> [''root@apache.org''], ''ann'' \<mapsto> [''ann@apache.org'']] \<rparr>"

definition small_credentials :: credentials where
  "small_credentials = \<lparr> cr_sessions = two_sessions,
     cr_tokens = \<lparr> td_pats = [(user_pat ''ann'' ''t1'' 0 100 (Some ''ci'')) \<lparr> pt_id := 1 \<rparr>,
       (system_pat ''root'' ''t2'' 0 100 ''backup'' None) \<lparr> pt_id := 2 \<rparr>],
       td_revocations = [], td_notices = [], td_signing_key = ''k'' \<rparr>,
     cr_ssh_keys = [\<lparr> sk_fingerprint = ''f1'', sk_key = ''ssh-ed25519 AAAA'', sk_asf_uid = ''root'' \<rparr>],
     cr_workflow_keys = [], cr_jtis = [], cr_emails = Some small_cache \<rparr>"

lemma small_cache_reachable: "cache_reachable (\<lambda>x. x) small_cache"
proof -
  have "email_uid_refresh (\<lambda>x. x) [(''root@apache.org'', ''root''), (''ann@apache.org'', ''ann'')] = Inr small_cache"
    by (simp add: email_uid_refresh_def index_email_def small_cache_def email_uid_hash_def lower_def lower_char_def
        is_upper_def Let_def fun_eq_iff)
  then show ?thesis by (rule cache_reachable.Refresh)
qed


text \<open>The keys of workflows stay; \<open>revoke_all_user_keys\<close> is what revokes them.\<close>

lemma workflow_keys_outlive_a_ban:
  "handle_update sha parse_dn payload s = Inr (msg, s') \<Longrightarrow> cr_workflow_keys s' = cr_workflow_keys s"
  by (auto simp: handle_update_def Let_def split: sum.splits option.splits if_splits)

text \<open>The operations on credentials by the clock \<open>now\<close>.\<close>

inductive credential_step :: "int \<Rightarrow> credentials \<Rightarrow> credentials \<Rightarrow> bool" for now :: int where
  Add_ssh: "add_ssh_key digest uid key s = Inr (fp, s') \<Longrightarrow> credential_step now s s'"
| Delete_ssh: "delete_ssh_key uid fp s = Inr s' \<Longrightarrow> credential_step now s s'"
| Add_workflow: "add_workflow_key digest uid now gu gn pk key p sc ds s = Inr (r, s') \<Longrightarrow> credential_step now s s'"
| Revoke_keys: "credential_step now s (snd (revoke_all_user_keys uid s))"
| Directory: "handle_update sha parse_dn payload s = Inr (msg, s') \<Longrightarrow> credential_step now s s'"
| Clear_pats: "credential_step now s (expired_pats_maintenance now s)"
| Clear_forms: "credential_step now s (session_data_maintenance t s)"
| Clear_workflows: "credential_step now s (workflow_auth_maintenance now s)"
| Token: "token_step h (cr_tokens s) t \<Longrightarrow> credential_step now s (s \<lparr> cr_tokens := t \<rparr>)"
| Session: "session_step h m t0 (cr_sessions s) t \<Longrightarrow> credential_step now s (s \<lparr> cr_sessions := t \<rparr>)"

inductive_cases credential_stepE: "credential_step now s t"

definition up_to :: "int \<Rightarrow> credentials \<Rightarrow> credentials \<Rightarrow> bool" where
  "up_to T s t = (\<exists>now. now \<le> T \<and> credential_step now s t)"

definition consumed :: "string \<Rightarrow> int \<Rightarrow> credentials \<Rightarrow> bool" where
  "consumed jti e s = (\<exists>j \<in> set (cr_jtis s). wj_jti j = jti \<and> wj_expires j = e)"

lemma add_workflow_jtis:
  assumes "add_workflow_key digest uid now gu gn pk key p sc ds s = Inr (r, s')"
  shows "tp_jti p \<notin> wj_jti ` set (cr_jtis s)"
    and "\<exists>j. cr_jtis s' = cr_jtis s @ [j] \<and> wj_jti j = tp_jti p \<and>
      (\<forall>e. tp_exp p = Some e \<longrightarrow> e \<noteq> 0 \<longrightarrow> wj_expires j = e)"
  using assms by (auto simp: add_workflow_key_def consume_jti_def Let_def bindE_Inr_iff split: if_splits)

lemma step_consumed:
  assumes "credential_step now s t" and "consumed jti e s" and "now \<le> e"
  shows "consumed jti e t"
  using assms
proof (induction rule: credential_step.induct)
  case (Add_workflow digest uid gu gn pk key p sc ds s r s')
  then show ?case using add_workflow_jtis(2) [OF Add_workflow.hyps] by (auto simp: consumed_def)
next
  case (Clear_workflows s)
  then show ?case by (auto simp: consumed_def workflow_auth_maintenance_def del_set)
next
  case (Directory sha parse_dn payload s msg s')
  then have "cr_jtis s' = cr_jtis s"
    by (auto simp: handle_update_def Let_def split: sum.splits option.splits if_splits)
  then show ?case using Directory by (simp add: consumed_def)
qed (auto simp: consumed_def add_ssh_key_def delete_ssh_key_def revoke_all_user_keys_def
      expired_pats_maintenance_def session_data_maintenance_def Let_def bindE_Inr_iff)

lemma run_consumed:
  "(up_to T)\<^sup>*\<^sup>* s t \<Longrightarrow> consumed jti e s \<Longrightarrow> T \<le> e \<Longrightarrow> consumed jti e t"
  by (induction rule: rtranclp_induct) (auto simp: up_to_def dest: step_consumed)

text \<open>
  C18: a trusted publisher's token registers one SSH key: for as long as the token is valid, whatever else
  happens, the clearance of expired rows included, a second registration with it is refused.
\<close>

theorem trusted_tokens_mint_one_key:
  assumes minted: "add_workflow_key digest uid t1 gu gn pk key p sc ds s = Inr (r, s1)"
    and run: "(up_to now)\<^sup>*\<^sup>* s1 s2" and again: "validate_payload now p = Inr p" and exp: "tp_exp p = Some e" "e \<noteq> 0"
  shows "add_workflow_key digest' uid' now gu' gn' pk' key' p sc' ds' s2 =
    Inl (access 409 ''Trusted Publisher token has already been used'')"
proof -
  have "consumed (tp_jti p) e s1"
    using add_workflow_jtis(2) [OF minted] exp by (auto simp: consumed_def)
  moreover have "now \<le> e" using again exp by (simp add: validate_payload_def)
  ultimately have "consumed (tp_jti p) e s2" by (intro run_consumed [OF run])
  then have "tp_jti p \<in> wj_jti ` set (cr_jtis s2)" by (force simp: consumed_def)
  then show ?thesis by (simp add: add_workflow_key_def consume_jti_def Let_def)
qed

definition build_payload :: publisher_payload where
  "build_payload = \<lparr> tp_actor = ''ann'', tp_actor_id = 7, tp_exp = Some 1300, tp_nbf = None, tp_jti = ''j1'',
     tp_repository = ''apache/tooling'', tp_workflow_ref = ''apache/tooling/.github/workflows/b.yml@refs/heads/main'',
     tp_run_id = None \<rparr>"

lemma trusted_tokens_mint_one_key_witness:
  "\<exists>s1. add_workflow_key Some ''ann'' 1000 ''ann'' 7 ''tooling'' ''ssh-ed25519 AAAA'' build_payload None True
       small_credentials = Inr ((''SHA256:AAAA'', 2200), s1) \<and>
     add_workflow_key Some ''ann'' 1300 ''ann'' 7 ''tooling'' ''ssh-ed25519 BBBB'' build_payload None True
       (workflow_auth_maintenance 1300 s1) = Inl (access 409 ''Trusted Publisher token has already been used'')"
proof -
  let ?r = "add_workflow_key Some ''ann'' 1000 ''ann'' 7 ''tooling'' ''ssh-ed25519 AAAA'' build_payload None True
       small_credentials"
  have "map_sum id fst ?r = Inr (''SHA256:AAAA'', 2200)" by code_simp
  then obtain s1 where minted: "?r = Inr ((''SHA256:AAAA'', 2200), s1)" by (cases ?r) auto
  have run: "(up_to 1300)\<^sup>*\<^sup>* s1 (workflow_auth_maintenance 1300 s1)"
    unfolding up_to_def by (intro r_into_rtranclp exI [of _ 1300]) (simp add: Clear_workflows)
  have valid: "validate_payload 1300 build_payload = Inr build_payload" by code_simp
  have exp: "tp_exp build_payload = Some 1300" "(1300::int) \<noteq> 0" by (simp_all add: build_payload_def)
  from trusted_tokens_mint_one_key [OF minted run valid exp] minted show ?thesis by blast
qed

end
