(* ===== verification/Ssh.thy ===== *)
theory Ssh
  imports Credentials
begin

text \<open>
  The SSH server through which files are uploaded and downloaded with rsync: src/atr/ssh.py, and the
  sandbox it runs rsync in, src/atr/sandbox.py.

  asyncssh checks signatures and asks \<open>begin_auth\<close> and \<open>validate_public_key\<close> for keys.  Left out are the
  choice of its algorithms, the log, the streams to and from rsync, and the paths in messages.
\<close>

section \<open>Rate limits\<close>

text \<open>
  A bucket has the times of the connections accepted of late for each key, oldest first.  The clock is
  monotonic.
\<close>

type_synonym buckets = "string \<rightharpoonup> rat list"

definition RATE_LIMIT_IP :: nat where
  "RATE_LIMIT_IP = 100"

definition RATE_LIMIT_USER :: nat where
  "RATE_LIMIT_USER = 10"

definition RATE_WINDOW :: rat where
  "RATE_WINDOW = 60"

definition rate_limit_check :: "nat \<Rightarrow> rat \<Rightarrow> string \<Rightarrow> buckets \<Rightarrow> bool \<times> buckets" where
  "rate_limit_check limit now key b =
     (case b key of
        None \<Rightarrow> (True, b(key \<mapsto> [now]))
      | Some w \<Rightarrow>
          let w' = dropWhile (\<lambda>t. now - t > RATE_WINDOW) w in
          if w' \<noteq> [] \<and> length w' \<ge> limit then (False, b(key \<mapsto> w')) else (True, b(key \<mapsto> w' @ [now])))"

definition rate_limit_cleanup :: "rat \<Rightarrow> buckets \<Rightarrow> buckets" where
  "rate_limit_cleanup now b =
     (\<lambda>k. case b k of None \<Rightarrow> None | Some w \<Rightarrow> if w = [] \<or> now - last w > RATE_WINDOW then None else Some w)"

text \<open>The checks and clearances of a bucket in the order of their times, and the connections they accept.\<close>

datatype rate_event = Connect string rat | Cleanup rat

fun event_time :: "rate_event \<Rightarrow> rat" where
  "event_time (Connect k t) = t"
| "event_time (Cleanup t) = t"

fun rate_step :: "nat \<Rightarrow> rate_event \<Rightarrow> buckets \<times> (string \<times> rat) list \<Rightarrow> buckets \<times> (string \<times> rat) list" where
  "rate_step limit (Connect k t) (b, acc) =
     (let (yes, b') = rate_limit_check limit t k b in (b', if yes then acc @ [(k, t)] else acc))"
| "rate_step limit (Cleanup t) (b, acc) = (rate_limit_cleanup t b, acc)"

definition accepted :: "nat \<Rightarrow> rate_event list \<Rightarrow> (string \<times> rat) list" where
  "accepted limit es = snd (fold (rate_step limit) es (Map.empty, []))"

definition times_of :: "string \<Rightarrow> (string \<times> rat) list \<Rightarrow> rat list" where
  "times_of k acc = map snd (filter (\<lambda>(k', _). k' = k) acc)"

definition in_window :: "rat \<Rightarrow> rat list \<Rightarrow> nat" where
  "in_window x ts = length (filter (\<lambda>t. x \<le> t \<and> t \<le> x + RATE_WINDOW) ts)"

text \<open>
  What a bucket knows: all accepted times of a key but those that are out of the window by the time
  \<open>now\<close> of the last event.
\<close>

definition knows :: "nat \<Rightarrow> rat \<Rightarrow> rat list \<Rightarrow> rat list \<Rightarrow> rat list \<Rightarrow> bool" where
  "knows limit now w ts old =
     (ts = old @ w \<and> (\<forall>t \<in> set old. now - t > RATE_WINDOW) \<and> sorted ts \<and> (\<forall>t \<in> set ts. t \<le> now) \<and>
      (\<forall>x. in_window x ts \<le> limit))"

definition entry :: "buckets \<Rightarrow> string \<Rightarrow> rat list" where
  "entry b k = (case b k of None \<Rightarrow> [] | Some w \<Rightarrow> w)"

definition bucket_ok :: "nat \<Rightarrow> rat \<Rightarrow> buckets \<Rightarrow> (string \<times> rat) list \<Rightarrow> bool" where
  "bucket_ok limit now b acc = (\<forall>k. \<exists>old. knows limit now (entry b k) (times_of k acc) old)"

lemma knows_later: "knows limit now w ts old \<Longrightarrow> now \<le> now' \<Longrightarrow> knows limit now' w ts old"
  unfolding knows_def by fastforce

lemma times_of_snoc: "times_of k (acc @ [(k', t)]) = times_of k acc @ (if k' = k then [t] else [])"
  by (simp add: times_of_def)

lemma bucket_ok_later: "bucket_ok limit now b acc \<Longrightarrow> now \<le> now' \<Longrightarrow> bucket_ok limit now' b acc"
  unfolding bucket_ok_def using knows_later by blast

lemma in_window_append: "in_window x (xs @ ys) = in_window x xs + in_window x ys"
  by (simp add: in_window_def)

lemma in_window_le: "in_window x xs \<le> length xs"
  by (simp add: in_window_def)

lemma in_window_snoc:
  assumes old: "\<And>t. t \<in> set old \<Longrightarrow> now - t > RATE_WINDOW" and small: "length w < limit"
    and before: "in_window x (old @ w) \<le> limit"
  shows "in_window x (old @ w @ [now]) \<le> limit"
proof (cases "x \<le> now \<and> now \<le> x + RATE_WINDOW")
  case True
  have "\<not> (x \<le> t \<and> t \<le> x + RATE_WINDOW)" if "t \<in> set old" for t
    using old [OF that] True by (auto simp: not_le)
  then have "in_window x old = 0" by (simp add: in_window_def filter_empty_conv)
  moreover have "in_window x [now] \<le> 1" by (simp add: in_window_def)
  moreover have "in_window x w \<le> length w" by (rule in_window_le)
  ultimately show ?thesis using small by (simp add: in_window_append)
next
  case False
  then have "in_window x [now] = 0" by (simp add: in_window_def)
  then show ?thesis using before by (simp add: in_window_append)
qed

lemma check_ok:
  assumes ok: "bucket_ok limit now b acc" and pos: "0 < limit"
    and check: "rate_limit_check limit now k b = (yes, b')"
  shows "bucket_ok limit now b' (if yes then acc @ [(k, now)] else acc)"
  unfolding bucket_ok_def
proof
  fix j
  let ?acc = "if yes then acc @ [(k, now)] else acc"
  obtain old where old: "knows limit now (entry b j) (times_of j acc) old"
    using ok unfolding bucket_ok_def by blast
  show "\<exists>old. knows limit now (entry b' j) (times_of j ?acc) old"
  proof (cases "j = k")
    case False
    then have "entry b' j = entry b j" and "times_of j ?acc = times_of j acc"
      using check by (auto simp: rate_limit_check_def Let_def times_of_snoc entry_def split: option.splits if_splits)
    then show ?thesis using old by auto
  next
    case True
    define w where "w = entry b k"
    define gone where "gone = takeWhile (\<lambda>t. now - t > RATE_WINDOW) w"
    define w' where "w' = dropWhile (\<lambda>t. now - t > RATE_WINDOW) w"
    have w: "w = gone @ w'" by (simp add: gone_def w'_def)
    have "t \<in> set gone \<Longrightarrow> now - t > RATE_WINDOW" for t by (auto simp: gone_def dest: set_takeWhileD)
    then have kept: "knows limit now w' (times_of k acc) (old @ gone)"
      using old True w unfolding knows_def w_def [symmetric] by (auto simp: w_def [symmetric])
    have b': "entry b' k = (if yes then w' @ [now] else w')" and yes: "yes \<longrightarrow> w' = [] \<or> length w' < limit"
      using check by (auto simp: rate_limit_check_def Let_def w_def w'_def entry_def split: option.splits if_splits)
    show ?thesis
    proof (cases yes)
      case False
      then show ?thesis using True b' kept by auto
    next
      case accept: True
      have small: "length w' < limit" using yes accept pos by auto
      have "in_window x ((old @ gone) @ w' @ [now]) \<le> limit" for x
        by (rule in_window_snoc [OF _ small]) (use kept in \<open>auto simp: knows_def\<close>)
      moreover have "sorted ((old @ gone) @ w' @ [now])" "\<forall>t \<in> set ((old @ gone) @ w' @ [now]). t \<le> now"
        using kept by (auto simp: knows_def sorted_append)
      moreover have "\<forall>t \<in> set (old @ gone). now - t > RATE_WINDOW" using kept by (simp add: knows_def)
      ultimately have "knows limit now (w' @ [now]) ((old @ gone) @ w' @ [now]) (old @ gone)"
        unfolding knows_def by blast
      moreover have "times_of j ?acc = (old @ gone) @ w' @ [now]"
        using accept True kept by (simp add: times_of_snoc knows_def)
      ultimately show ?thesis using b' accept True by auto
    qed
  qed
qed

lemma cleanup_ok:
  assumes ok: "bucket_ok limit now b acc"
  shows "bucket_ok limit now (rate_limit_cleanup now b) acc"
  unfolding bucket_ok_def
proof
  fix j
  obtain old where old: "knows limit now (entry b j) (times_of j acc) old"
    using ok unfolding bucket_ok_def by blast
  show "\<exists>old. knows limit now (entry (rate_limit_cleanup now b) j) (times_of j acc) old"
  proof (cases "\<exists>w. b j = Some w \<and> w \<noteq> [] \<and> now - last w > RATE_WINDOW")
    case False
    then have "entry (rate_limit_cleanup now b) j = entry b j"
      by (auto simp: rate_limit_cleanup_def entry_def split: option.splits)
    then show ?thesis using old by auto
  next
    case True
    then obtain w where w: "b j = Some w" "w \<noteq> []" "now - last w > RATE_WINDOW" by blast
    have times: "times_of j acc = old @ w" using old w(1) by (simp add: knows_def entry_def)
    have "sorted (old @ w)" using old unfolding times [symmetric] knows_def by blast
    then have "sorted (butlast w @ [last w])" using w(2) by (simp add: sorted_append)
    then have "t \<le> last w" if "t \<in> set (butlast w @ [last w])" for t
      using that by (auto simp: sorted_append)
    then have "now - t > RATE_WINDOW" if "t \<in> set w" for t
      using that w(2,3) append_butlast_last_id [OF w(2)] by fastforce
    then have "knows limit now [] (times_of j acc) (times_of j acc)"
      using old times by (auto simp: knows_def)
    moreover have "entry (rate_limit_cleanup now b) j = []" using w by (simp add: rate_limit_cleanup_def entry_def)
    ultimately show ?thesis by auto
  qed
qed

lemma events_ok:
  assumes "bucket_ok limit now b acc" and "0 < limit" and "sorted (now # map event_time es)"
  shows "\<exists>now' b'. fold (rate_step limit) es (b, acc) = (b', snd (fold (rate_step limit) es (b, acc))) \<and>
    bucket_ok limit now' b' (snd (fold (rate_step limit) es (b, acc)))"
  using assms
proof (induction es arbitrary: now b acc)
  case Nil
  then show ?case by auto
next
  case (Cons e es)
  have ok: "bucket_ok limit (event_time e) b acc"
    by (rule bucket_ok_later [OF Cons.prems(1)]) (use Cons.prems(3) in simp)
  obtain b1 acc1 where e: "rate_step limit e (b, acc) = (b1, acc1)" by fastforce
  have ok1: "bucket_ok limit (event_time e) b1 acc1"
  proof (cases e)
    case (Connect k t)
    obtain yes b' where "rate_limit_check limit t k b = (yes, b')" by fastforce
    then show ?thesis using check_ok [of limit t b acc k yes b'] ok e Cons.prems(2) Connect by auto
  next
    case (Cleanup t)
    then show ?thesis using e cleanup_ok [of limit t b acc] ok by auto
  qed
  have "sorted (event_time e # map event_time es)" using Cons.prems(3) by simp
  from Cons.IH [OF ok1 Cons.prems(2) this] show ?case by (simp add: e)
qed

text \<open>
  C14: however connections come and whenever the stale entries are cleared, no more connections of one
  address or user than the limit are accepted within any sixty seconds, both ends included.
\<close>

theorem no_window_exceeds_the_limit:
  assumes times: "sorted (map event_time es)" and limit: "0 < limit"
  shows "in_window x (times_of k (accepted limit es)) \<le> limit"
proof (cases es)
  case Nil
  then show ?thesis by (simp add: accepted_def times_of_def in_window_def)
next
  case (Cons e es')
  have "bucket_ok limit (event_time e) Map.empty []" by (simp add: bucket_ok_def knows_def entry_def times_of_def in_window_def)
  moreover have "sorted (event_time e # map event_time es)" using times Cons by simp
  ultimately obtain now' b' where "bucket_ok limit now' b' (accepted limit es)"
    using events_ok [OF _ limit] unfolding accepted_def by blast
  then show ?thesis unfolding bucket_ok_def knows_def by blast
qed

definition burst :: "rate_event list" where
  "burst = [Connect ''ann'' 0, Connect ''ann'' 10, Connect ''bob'' 20, Connect ''ann'' 59, Cleanup 60, Connect ''ann'' 61]"

lemma no_window_exceeds_the_limit_witness:
  "times_of ''ann'' (accepted 2 burst) = [0, 10, 61] \<and> in_window 0 (times_of ''ann'' (accepted 2 burst)) \<le> 2"
proof -
  have "sorted (map event_time burst)" by code_simp
  moreover have "times_of ''ann'' (accepted 2 burst) = [0, 10, 61]" by code_simp
  ultimately show ?thesis using no_window_exceeds_the_limit [of burst 2 0 "''ann''"] by simp
qed

section \<open>The command\<close>

text \<open>Messages that list arguments are kept to their first words.\<close>

fun take_flags :: "string list \<Rightarrow> char list \<times> string list" where
  "take_flags [] = ([], [])"
| "take_flags (a # as) =
     (if startswith a ''-'' \<and> \<not> startswith a ''--''
      then
        let aflags = before_sep ''e.'' (drop 1 a); (fs, rest) = take_flags as in (aflags @ fs, rest)
      else ([], a # as))"

definition RSYNC_FLAGS :: "char list" where
  "RSYNC_FLAGS = ''Dgloprtv''"

definition skip_word :: "string \<Rightarrow> string list \<Rightarrow> string list" where
  "skip_word w argv = (if take 1 argv = [w] then drop 1 argv else argv)"

definition command_simple_validate :: "string list \<Rightarrow> bool py" where
  "command_simple_validate argv =
     bindE (guardE (take 2 argv = [''rsync'', ''--server''])
              (RsyncArgsError ''The first two arguments must be rsync and --server'')) (\<lambda>_.
       let argv1 = drop 2 argv;
           is_read_request = (take 1 argv1 = [''--sender'']);
           (flags, argv3) = take_flags (skip_word ''--sender'' argv1);
           argv4 = skip_word ''--dirs'' argv3;
           argv5 = (if is_read_request then argv4 else skip_word ''--delete'' argv4)
       in
       bindE (guardE (set flags - {CHR ''d''} = set RSYNC_FLAGS) (RsyncArgsError ''The flags must be -Dgloprtv'')) (\<lambda>_.
       bindE (guardE (length argv5 = 2) (RsyncArgsError ''Expected two path arguments'')) (\<lambda>_.
       bindE (guardE (hd argv5 = ''.'') (RsyncArgsError ''The first path argument must be .'')) (\<lambda>_.
         Inr is_read_request))))"

definition RSYNC_MAX_UPLOAD_SIZE :: nat where
  "RSYNC_MAX_UPLOAD_SIZE = 2000000000"

definition build_rsync_write_argv :: "string list \<Rightarrow> string list py" where
  "build_rsync_write_argv argv =
     (if length argv < 2 \<or> argv ! (length argv - 2) \<noteq> ''.''
      then Inl (RuntimeError ''Validated rsync write argv must end with '.' and the destination path'')
      else Inr (take (length argv - 2) argv @
             [''--max-size='' @ str_nat RSYNC_MAX_UPLOAD_SIZE, ''--info=skip2'', ''.'', ''.'']))"

text \<open>The words of flags that rsync may get: the eight flags and \<open>d\<close>, then what the client's rsync says of itself.\<close>

definition word_of :: "char list \<Rightarrow> string \<Rightarrow> bool" where
  "word_of fs a = (\<exists>cs tail. a = ''-'' @ cs @ tail \<and> set cs \<subseteq> set fs \<and> (tail = [] \<or> startswith tail ''e.''))"

definition flag_word :: "string \<Rightarrow> bool" where
  "flag_word a = word_of (CHR ''d'' # RSYNC_FLAGS) a"

lemma word_of_mono: "list_all (word_of fs) ws \<Longrightarrow> set fs \<subseteq> set gs \<Longrightarrow> list_all (word_of gs) ws"
  unfolding list_all_iff word_of_def by (meson order_trans)

lemma before_sep_split: "\<exists>tail. s = before_sep sep s @ tail \<and> (tail = [] \<or> startswith tail sep)"
proof (cases "find_sub sep s")
  case None
  then show ?thesis by (simp add: before_sep_def)
next
  case (Some i)
  have "startswith (drop i s) sep"
    using Some by (induction sep s arbitrary: i rule: find_sub.induct) (auto split: if_splits option.splits)
  then show ?thesis using Some by (intro exI [of _ "drop i s"]) (simp add: before_sep_def)
qed

lemma take_flags_words:
  assumes "take_flags as = (fs, rest)"
  obtains ws where "as = ws @ rest" "list_all (word_of fs) ws" "ws = [] \<longrightarrow> fs = []"
  using assms
proof (induction as arbitrary: fs rest thesis)
  case Nil
  then show ?case by simp
next
  case (Cons a as)
  show ?case
  proof (cases "startswith a ''-'' \<and> \<not> startswith a ''--''")
    case False
    then show ?thesis using Cons.prems by (intro Cons.prems(1) [of "[]"]) auto
  next
    case True
    obtain gs where gs: "take_flags as = (gs, rest)" "fs = before_sep ''e.'' (drop 1 a) @ gs"
      using Cons.prems(2) True by (auto simp: Let_def split: prod.splits)
    obtain ws where ws: "as = ws @ rest"
      "list_all (word_of gs) ws"
      using Cons.IH [OF _ gs(1)] by blast
    obtain s where s: "a = ''-'' @ s" using True by (auto simp: startswith_iff)
    obtain tail where tail: "s = before_sep ''e.'' s @ tail" "tail = [] \<or> startswith tail ''e.''"
      using before_sep_split by blast
    have "word_of fs a"
      unfolding word_of_def
    proof (intro exI conjI)
      show "a = ''-'' @ before_sep ''e.'' s @ tail" using s tail(1) by simp
      show "set (before_sep ''e.'' s) \<subseteq> set fs" using s gs(2) by simp
    qed (rule tail(2))
    moreover have "list_all (word_of fs) ws"
      by (rule word_of_mono [OF ws(2)]) (simp add: gs(2))
    ultimately show ?thesis using ws(1) by (intro Cons.prems(1) [of "a # ws"]) auto
  qed
qed


definition upload_argv :: "string list" where
  "upload_argv = split_ws ''rsync --server -vlogDtpre.iLsfxCIvu --delete . /tooling/1.0/''"


text \<open>A lone hyphen is a word of no flags, though it is no option of rsync's but a path.\<close>

definition hyphen_argv :: "string list" where
  "hyphen_argv = [''rsync'', ''--server'', ''-'', ''-vlogDtpre.iLs'', ''.'', ''/tooling/1.0/'']"

lemma lone_hyphen_is_passed_on:
  "command_simple_validate hyphen_argv = Inr False \<and> ''-'' \<in> set (projr (build_rsync_write_argv hyphen_argv))"
proof
  show "command_simple_validate hyphen_argv = Inr False" by code_simp
  show "''-'' \<in> set (projr (build_rsync_write_argv hyphen_argv))"
    by (simp add: build_rsync_write_argv_def hyphen_argv_def)
qed

section \<open>The path\<close>

definition validate_path_common :: "string \<Rightarrow> unit py" where
  "validate_path_common path =
     bindE (guardE (startswith path ''/'') (RsyncArgsError ''The path argument should be an absolute path'')) (\<lambda>_.
     bindE (guardE (endswith path ''/'')
              (RsyncArgsError ''The path argument should be a directory path, ending with a /'')) (\<lambda>_.
       guardE (\<not> occurs ''//'' path) (RsyncArgsError ''The path argument should not contain //'')))"

definition slashes :: "string \<Rightarrow> nat" where
  "slashes path = length (filter (\<lambda>c. c = CHR ''/'') path)"

text \<open>\<open>s.split(c, n)\<close>.\<close>

fun split_limit :: "nat \<Rightarrow> char \<Rightarrow> string \<Rightarrow> string list" where
  "split_limit 0 c s = [s]"
| "split_limit (Suc n) c s =
     (if c \<in> set s then takeWhile (\<lambda>x. x \<noteq> c) s # split_limit n c (tl (dropWhile (\<lambda>x. x \<noteq> c) s)) else [s])"

definition keyed :: "safe_class \<Rightarrow> string \<Rightarrow> string \<Rightarrow> safe py" where
  "keyed cls msg s = (case mk_safe cls s of Inl _ \<Rightarrow> Inl (RsyncArgsError msg) | Inr x \<Rightarrow> Inr x)"

definition PATH_ALPHANUM :: string where
  "PATH_ALPHANUM = ascii_letters @ digits @ ''-''"

definition validate_tag_segment :: "string \<Rightarrow> unit py" where
  "validate_tag_segment segment =
     guardE (list_all (\<lambda>c. c \<in> set PATH_ALPHANUM) segment)
       (RsyncArgsError ''The tag should contain only alphanumeric characters or hyphens'')"

text \<open>The parts of a path are unpacked into two names; another number of parts is a ValueError.\<close>

definition path_validate_read :: "string \<Rightarrow> (safe \<times> safe \<times> string option) py" where
  "path_validate_read path =
     bindE (validate_path_common path) (\<lambda>_.
     bindE (guardE (\<not> (slashes path < 3 \<or> slashes path > 4))
              (RsyncArgsError ''The path argument should be a /PROJECT/VERSION/(tag)/ directory path'')) (\<lambda>_.
       case split_limit 2 (CHR ''/'') (strip_chars ''/'' path) of
         pp # pv # rest \<Rightarrow>
           bindE (keyed ProjectKey ''Project is invalid'' pp) (\<lambda>pk.
           bindE (keyed VersionKey ''Version is invalid'' pv) (\<lambda>v.
             let tag = (case rest of [] \<Rightarrow> None | t # _ \<Rightarrow> Some t) in
             bindE (case tag of None \<Rightarrow> Inr () | Some t \<Rightarrow> if t = [] then Inr () else validate_tag_segment t) (\<lambda>_.
               Inr (pk, v, tag))))
       | _ \<Rightarrow> Inl (ValueError ''not enough values to unpack'')))"

definition path_validate_write :: "string \<Rightarrow> (safe \<times> safe) py" where
  "path_validate_write path =
     bindE (validate_path_common path) (\<lambda>_.
     bindE (guardE (slashes path = 3)
              (RsyncArgsError ''The path argument should be a /PROJECT/VERSION/ directory path'')) (\<lambda>_.
       case split_limit 1 (CHR ''/'') (strip_chars ''/'' path) of
         [pp, pv] \<Rightarrow>
           bindE (keyed ProjectKey ''Project is invalid'' pp) (\<lambda>pk.
           bindE (keyed VersionKey ''Version is invalid'' pv) (\<lambda>v. Inr (pk, v)))
       | _ \<Rightarrow> Inl (ValueError ''not enough values to unpack'')))"

text \<open>The absolute path of a directory, its parts between single slashes.\<close>

definition directory_path :: "string list \<Rightarrow> string" where
  "directory_path ws = ''/'' @ concat (map (\<lambda>w. w @ ''/'') ws)"

lemma directory_path_simps [simp]:
  "directory_path [a, b] = ''/'' @ a @ ''/'' @ b @ ''/''"
  "directory_path [a, b, c] = ''/'' @ a @ ''/'' @ b @ ''/'' @ c @ ''/''"
  by (simp_all add: directory_path_def)

lemma slashes_simps [simp]:
  "slashes [] = 0" "slashes (c # s) = (if c = CHR ''/'' then Suc (slashes s) else slashes s)"
  "slashes (s @ t) = slashes s + slashes t" "CHR ''/'' \<notin> set s \<Longrightarrow> slashes s = 0"
  by (auto simp: slashes_def filter_empty_conv)

lemma slashes_split: "length (split_on (CHR ''/'') s) = Suc (slashes s)"
  by (induction s) (auto split: list.split)

lemma strip_slashes:
  assumes "s \<noteq> []" and "hd s \<noteq> CHR ''/''" and "last s \<noteq> CHR ''/''"
  shows "strip_chars ''/'' (''/'' @ s @ ''/'') = s"
proof -
  have "dropWhile (\<lambda>c. c \<in> set ''/'') (''/'' @ s @ ''/'') = s @ ''/''" using assms(1,2) by (cases s) auto
  moreover have "dropWhile (\<lambda>c. c \<in> set ''/'') (rev (s @ ''/'')) = rev s"
    using assms(1,3) by (cases s rule: rev_cases) auto
  ultimately show ?thesis by (simp add: strip_chars_def)
qed

lemma split_limit_first:
  assumes "CHR ''/'' \<notin> set a"
  shows "split_limit (Suc n) (CHR ''/'') (a @ ''/'' @ s) = a # split_limit n (CHR ''/'') s"
proof -
  have ne: "\<And>x. x \<in> set a \<Longrightarrow> x \<noteq> CHR ''/''" using assms by metis
  show ?thesis using dropWhile_append2 [of a "\<lambda>x. x \<noteq> CHR ''/''"] takeWhile_append2 [of a "\<lambda>x. x \<noteq> CHR ''/''"] ne
    by simp
qed

lemma split_limit_last: "CHR ''/'' \<notin> set a \<Longrightarrow> split_limit n (CHR ''/'') a = [a]"
  by (cases n) simp_all

lemma split_limit_two:
  assumes "CHR ''/'' \<notin> set a"
  shows "split_limit 1 (CHR ''/'') (a @ ''/'' @ b) = [a, b]"
  unfolding One_nat_def split_limit_first [OF assms] by simp

definition plain_part :: "string \<Rightarrow> bool" where
  "plain_part w = (w \<noteq> [] \<and> CHR ''/'' \<notin> set w)"

lemma plain_part_ends: "plain_part w \<Longrightarrow> hd w \<noteq> CHR ''/'' \<and> last w \<noteq> CHR ''/''"
  unfolding plain_part_def by (metis list.set_sel(1) last_in_set)

lemma path_edges:
  assumes "validate_path_common path = Inr ()"
  shows "hd (split_on (CHR ''/'') path) = []" and "last (split_on (CHR ''/'') path) = []"
proof -
  obtain s where s: "path = ''/'' @ s" using assms by (auto simp: validate_path_common_def startswith_iff)
  then show "hd (split_on (CHR ''/'') path) = []" by simp
  obtain t where t: "path = t @ ''/''" using assms by (auto simp: validate_path_common_def endswith_iff)
  have "split_on (CHR ''/'') (t @ ''/'' @ []) = split_on (CHR ''/'') t @ split_on (CHR ''/'') []"
    by (induction t) (auto split: list.split)
  then show "last (split_on (CHR ''/'') path) = []" using t by simp
qed

lemma common_path_parts:
  assumes common: "validate_path_common path = Inr ()" and three: "slashes path = 3"
  obtains a b where "path = directory_path [a, b]" "plain_part a" "plain_part b"
proof -
  obtain w0 a b w3 where ws: "split_on (CHR ''/'') path = [w0, a, b, w3]"
    using slashes_split [of path] three by (auto simp: length_Suc_conv numeral_3_eq_3)
  have "w0 = []" "w3 = []" using path_edges [OF common] ws by simp_all
  then have path: "path = directory_path [a, b]"
    using join_split_on [of "CHR ''/''" path] unfolding ws by simp
  have "CHR ''/'' \<notin> set a" "CHR ''/'' \<notin> set b"
    using split_on_parts [of _ "CHR ''/''" path] unfolding ws by simp_all
  moreover have no_double: "\<not> occurs ''//'' path" using common by (simp add: validate_path_common_def)
  then have "a \<noteq> []" "b \<noteq> []"
    unfolding path occurs_iff by (auto simp del: append.simps) (metis append_Nil append_Cons append_assoc)+
  ultimately show ?thesis using that path by (simp add: plain_part_def)
qed

lemma directory_path_common:
  assumes "list_all plain_part [a, b]"
  shows "validate_path_common (directory_path [a, b]) = Inr ()" and "slashes (directory_path [a, b]) = 3"
    and "strip_chars ''/'' (directory_path [a, b]) = a @ ''/'' @ b"
proof -
  have ab: "plain_part a" "plain_part b" using assms by simp_all
  have "\<not> occurs ''//'' (directory_path [a, b])"
  proof
    assume "occurs ''//'' (directory_path [a, b])"
    then obtain u v where uv: "directory_path [a, b] = u @ ''//'' @ v" by (auto simp: occurs_iff)
    have "split_on (CHR ''/'') (u @ ''//'' @ v) = split_on (CHR ''/'') u @ [] # split_on (CHR ''/'') v"
      by (induction u) (auto split: list.split)
    then have "split_on (CHR ''/'') (directory_path [a, b]) = split_on (CHR ''/'') u @ [] # split_on (CHR ''/'') v"
      by (simp only: uv)
    moreover have "split_on (CHR ''/'') (directory_path [a, b]) = [[], a, b, []]"
      using split_on_append [of "CHR ''/''" a] split_on_append [of "CHR ''/''" b] ab by (simp add: plain_part_def)
    ultimately have eq: "[[], a, b, []] = split_on (CHR ''/'') u @ [] # split_on (CHR ''/'') v"
      by (simp only:)
    show False
      using eq ab split_on_not_Nil [of "CHR ''/''" u] split_on_not_Nil [of "CHR ''/''" v]
      by (auto simp: plain_part_def append_eq_Cons_conv Cons_eq_append_conv)
  qed
  then show "validate_path_common (directory_path [a, b]) = Inr ()"
    by (simp add: validate_path_common_def endswith_iff)
  show "slashes (directory_path [a, b]) = 3" using ab by (simp add: plain_part_def)
  have "hd (a @ ''/'' @ b) \<noteq> CHR ''/''" "last (a @ ''/'' @ b) \<noteq> CHR ''/''"
    using plain_part_ends [OF ab(1)] plain_part_ends [OF ab(2)] ab by (auto simp: plain_part_def)
  then have "strip_chars ''/'' (''/'' @ (a @ ''/'' @ b) @ ''/'') = a @ ''/'' @ b"
    by (intro strip_slashes) simp_all
  then show "strip_chars ''/'' (directory_path [a, b]) = a @ ''/'' @ b" by simp
qed

lemma keyed_Inr: "keyed cls msg s = Inr x \<longleftrightarrow> mk_safe cls s = Inr x"
  by (simp add: keyed_def split: sum.split)

lemma key_plain_part: "mk_safe cls s = Inr x \<Longrightarrow> cls \<notin> {RelPath, RelDirPath} \<Longrightarrow> plain_part s"
  using no_separator by (auto simp: mk_safe_Inr plain_part_def)

lemma write_path_iff:
  "path_validate_write path = Inr (pk, v) \<longleftrightarrow>
     path = directory_path [s_value pk, s_value v] \<and> mk_safe ProjectKey (s_value pk) = Inr pk \<and>
     mk_safe VersionKey (s_value v) = Inr v"
proof
  assume valid: "path_validate_write path = Inr (pk, v)"
  then have "validate_path_common path = Inr ()" "slashes path = 3"
    by (auto simp: path_validate_write_def bindE_Inr_iff)
  then obtain a b where path: "path = directory_path [a, b]" and ab: "plain_part a" "plain_part b"
    by (rule common_path_parts)
  have parts: "list_all plain_part [a, b]" using ab by simp
  have "split_limit 1 (CHR ''/'') (strip_chars ''/'' path) = [a, b]"
    unfolding path directory_path_common(3) [OF parts]
    by (rule split_limit_two) (use ab in \<open>simp add: plain_part_def\<close>)
  then have "mk_safe ProjectKey a = Inr pk" "mk_safe VersionKey b = Inr v"
    using valid by (auto simp: path_validate_write_def bindE_Inr_iff keyed_Inr)
  moreover from this have "s_value pk = a" "s_value v = b" by (auto simp: mk_safe_Inr)
  ultimately show "path = directory_path [s_value pk, s_value v] \<and> mk_safe ProjectKey (s_value pk) = Inr pk \<and>
      mk_safe VersionKey (s_value v) = Inr v"
    using path by simp
next
  assume rhs: "path = directory_path [s_value pk, s_value v] \<and> mk_safe ProjectKey (s_value pk) = Inr pk \<and>
      mk_safe VersionKey (s_value v) = Inr v"
  have ab: "plain_part (s_value pk)" "plain_part (s_value v)"
    using rhs key_plain_part [of ProjectKey] key_plain_part [of VersionKey] by auto
  have parts: "list_all plain_part [s_value pk, s_value v]" using ab by simp
  have "split_limit 1 (CHR ''/'') (strip_chars ''/'' path) = [s_value pk, s_value v]"
    unfolding conjunct1 [OF rhs] directory_path_common(3) [OF parts]
    by (rule split_limit_two) (use ab in \<open>simp add: plain_part_def\<close>)
  moreover have "validate_path_common path = Inr ()" "slashes path = 3"
    unfolding conjunct1 [OF rhs] by (rule directory_path_common(1,2) [OF parts])+
  moreover have "keyed ProjectKey m (s_value pk) = Inr pk" "keyed VersionKey m (s_value v) = Inr v" for m
    using rhs keyed_Inr by blast+
  ultimately show "path_validate_write path = Inr (pk, v)"
    by (simp only: path_validate_write_def bindE_simps simp_thms guardE_True list.case)
qed

text \<open>
  C38: an upload is accepted for exactly the paths that are a valid project key and a valid version between
  single slashes, and stands for that project and version.
\<close>

theorem upload_paths_are_a_project_and_a_version:
  "path_validate_write path = Inr (pk, v) \<longleftrightarrow>
     path = directory_path [s_value pk, s_value v] \<and> mk_safe ProjectKey (s_value pk) = Inr pk \<and>
     mk_safe VersionKey (s_value v) = Inr v"
  by (rule write_path_iff)

end
