(* ===== verification/Upkeep.thy ===== *)
theory Upkeep
  imports Validate
begin

text \<open>
  The rest of src/atr/validate.py: projects, artifacts, the publications
  behind finalisations, and the comparison of the release directories with the database.

  The columns of a project that only these checks read are the record \<open>project_row\<close>; \<open>re_groups\<close> is
  the compilation of a pattern by re2 with the number of its groups.
\<close>

section \<open>Projects\<close>

record project_row = project +
  pj_calver_format :: "string option"
  pj_version_method :: VersionMethod
  pj_cycle_match :: "string option"
  pj_categories :: "string option"
  pj_created :: int
  pj_created_by :: "string option"
  pj_programming_languages :: "string option"
  pj_security_contact :: "string option"
  pj_version_pattern :: "string option"

text \<open>\<open>not x\<close> of an optional text.\<close>

definition unset :: "string option \<Rightarrow> bool" where
  "unset s = (s = None \<or> s = Some [])"

definition is_error :: "'a py \<Rightarrow> bool" where
  "is_error m = (case m of Inl _ \<Rightarrow> True | Inr _ \<Rightarrow> False)"

text \<open>\<open>calver.cycle_regex\<close> raises only on a format that \<open>calver.validate\<close> has refused.\<close>

definition project_calver_format :: "project_row \<Rightarrow> divergence list" where
  "project_calver_format p =
     (case pj_calver_format p of
        None \<Rightarrow> []
      | Some f \<Rightarrow>
          if pj_version_method p \<noteq> CALVER
          then differs (Written ''calver_format to be unset when version_method is not calver'') (Repr (PyText f))
          else if is_error (validate f) then differs (Written ''a valid calver format'') (Repr (PyText f))
          else (case cycle_regex f of
                  Inl _ \<Rightarrow> []
                | Inr x \<Rightarrow> divergences (optional (\<lambda>r. PyText (render r)) x) (optional PyText (pj_cycle_match p))))"

definition labels_okay :: "string option \<Rightarrow> bool" where
  "labels_okay s =
     (case s of
        None \<Rightarrow> True
      | Some t \<Rightarrow> t = [] \<or>
          list_all (\<lambda>w. strip w \<noteq> [] \<and> CHR '':'' \<notin> set (strip w)) (split_on (CHR '','') t))"

definition project_categories :: "project_row \<Rightarrow> divergence list" where
  "project_categories p =
     divergences_predicate labels_okay ''comma separated labels without colon'' (optional PyText) (pj_categories p)"

definition project_committee_check :: "project_row \<Rightarrow> divergence list" where
  "project_committee_check p =
     divergences_predicate (\<lambda>c. c \<noteq> None) ''committee_key to be set'' (optional PyText) (p_committee_key p)"

definition project_created :: "int \<Rightarrow> project_row \<Rightarrow> divergence list" where
  "project_created now p = divergences_predicate (\<lambda>t. t < now) ''value to be in the past'' PyTime (pj_created p)"

definition project_created_by :: "project_row \<Rightarrow> divergence list" where
  "project_created_by p =
     divergences_predicate (\<lambda>u. unset u \<or> ASF_UID_PATTERN (the u)) ''value to be an ASF UID or unset''
       (optional PyText) (pj_created_by p)"

definition pattern_groups :: "(string \<Rightarrow> nat option) \<Rightarrow> string \<Rightarrow> nat py" where
  "pattern_groups re_groups pattern =
     bindE (guardE (length pattern \<le> MAX_PROJECT_PATTERN_LENGTH) (ValueError ''Pattern exceeds 128 characters'')) (\<lambda>_.
       demandE (ValueError ''invalid pattern'') (re_groups pattern))"

definition project_cycle_match :: "(string \<Rightarrow> nat option) \<Rightarrow> project_row \<Rightarrow> divergence list" where
  "project_cycle_match re_groups p =
     divergences_predicate
       (\<lambda>m. unset m \<or> (case pattern_groups re_groups (the m) of Inl _ \<Rightarrow> False | Inr n \<Rightarrow> 1 \<le> n))
       ''value to be a regex with a capture group, or unset'' (optional PyText) (pj_cycle_match p)"

definition project_download_path_suffix :: "project_row \<Rightarrow> divergence list" where
  "project_download_path_suffix p =
     (case p_release_policy p of
        None \<Rightarrow> [] | Some rp \<Rightarrow> download_path_suffix (Some (rp_download_path_suffix rp)))"

definition project_full_name :: "project_row \<Rightarrow> divergence list" where
  "project_full_name p =
     divergences_predicate (\<lambda>n. case n of None \<Rightarrow> False | Some s \<Rightarrow> startswith s ''Apache '')
       (''full_name to be set and start with 'Apache '' @ [CHR 0x27]) (optional PyText) (p_name p)"

definition project_key_check :: "project_row \<Rightarrow> divergence list" where
  "project_key_check p =
     divergences_predicate (well_formed ProjectKey) ''value to be a valid project key'' PyText (p_key p)"

definition validate_policy_min_hours :: "int \<Rightarrow> unit py" where
  "validate_policy_min_hours h =
     guardE (\<not> (h \<noteq> 0 \<and> (h < 72 \<or> 168 < h)))
       (ValueError ''Minimum voting period must be 0 or between 72 and 168 hours inclusive.'')"

definition project_min_hours :: "project_row \<Rightarrow> divergence list" where
  "project_min_hours p =
     (let h = policy_min_hours (project.truncate p) in
      if is_error (validate_policy_min_hours h)
      then differs (Written ''0 or 72 to 168 hours'') (Repr (PyInt h)) else [])"

definition project_programming_languages :: "project_row \<Rightarrow> divergence list" where
  "project_programming_languages p =
     divergences_predicate labels_okay ''comma separated labels without colon'' (optional PyText)
       (pj_programming_languages p)"

definition validate_security_contact :: "string \<Rightarrow> string option \<Rightarrow> unit py" where
  "validate_security_contact committee_key contact =
     (case contact of
        None \<Rightarrow> Inr ()
      | Some s \<Rightarrow>
          guardE (s = [] \<or> s = ''security@apache.org'' \<or> s = ''security@'' @ committee_key @ ''.apache.org'')
            (ValueError (''Security contact '' @ s)))"

definition project_security_contact :: "project_row \<Rightarrow> divergence list" where
  "project_security_contact p =
     (if is_error (validate_security_contact (case p_committee_key p of None \<Rightarrow> [] | Some k \<Rightarrow> k)
            (pj_security_contact p))
      then differs (Written ''security@apache.org or the committee security address'')
             (Repr (optional PyText (pj_security_contact p)))
      else [])"

definition project_version_pattern :: "(string \<Rightarrow> nat option) \<Rightarrow> project_row \<Rightarrow> divergence list" where
  "project_version_pattern re_groups p =
     divergences_predicate (\<lambda>m. unset m \<or> \<not> is_error (pattern_groups re_groups (the m)))
       ''value to be a valid regex or unset'' (optional PyText) (pj_version_pattern p)"

section \<open>Artifacts\<close>

record artifact_row = artifact +
  ar_key_fingerprint :: "string option"
  ar_signature_sha3_256 :: "string option"

definition SHA3_256_PATTERN :: "string \<Rightarrow> bool" where
  "SHA3_256_PATTERN s = (length s = 64 \<and> list_all (\<lambda>c. is_digit c \<or> c \<in> set ''abcdef'') s)"

definition artifact_divergences :: "artifact_row \<Rightarrow> annotated list" where
  "artifact_divergences a =
     (let source = a_project_key a @ '' '' @ a_version a @ '' '' @ a_artifact_path a;
          expected_key = release_key (a_project_key a) (a_version a) in
      (if a_release_key a \<noteq> None \<and> a_release_key a \<noteq> Some expected_key
       then divergences_with_annotations [''Artifact.release_key''] ''artifact_release_key'' source
              (differs (Repr (PyText expected_key)) (Repr (optional PyText (a_release_key a)))) else []) @
      (if (ar_key_fingerprint a \<noteq> None \<or> ar_signature_sha3_256 a \<noteq> None) \<and> a_signature_path a = None
       then divergences_with_annotations [''Artifact.signature_path''] ''artifact_signature'' source
              (differs (Written ''signature_path to be set with a signer or digest'') (Written ''None'')) else []) @
      (case ar_signature_sha3_256 a of
         None \<Rightarrow> []
       | Some digest \<Rightarrow>
           if SHA3_256_PATTERN digest then []
           else divergences_with_annotations [''Artifact.signature_sha3_256''] ''artifact_signature'' source
                  (differs (Written ''64 lowercase hexadecimal digits'') (Repr (PyText digest)))))"

definition artifacts :: "artifact_row list \<Rightarrow> annotated list" where
  "artifacts rows = concat (map artifact_divergences rows)"

section \<open>Finalisations\<close>

text \<open>
  The publication behind a finalisation: a completed publish task of the same project, version and
  revision, where a column without a value equals nothing.
\<close>

definition same_subject :: "task \<Rightarrow> task \<Rightarrow> bool" where
  "same_subject t p =
     (t_project_key t \<noteq> None \<and> t_project_key p = t_project_key t \<and>
      t_version_key t \<noteq> None \<and> t_version_key p = t_version_key t \<and>
      t_revision_number t \<noteq> None \<and> t_revision_number p = t_revision_number t)"

definition is_svn_publish :: "task_result option \<Rightarrow> bool" where
  "is_svn_publish r = (case r of Some (RS_SVN_PUBLISH n) \<Rightarrow> True | _ \<Rightarrow> False)"

definition printed :: "string option \<Rightarrow> string" where
  "printed s = (case s of None \<Rightarrow> ''None'' | Some t \<Rightarrow> t)"

definition release_finalise_publication :: "db \<Rightarrow> annotated list" where
  "release_finalise_publication d =
     concat (map (\<lambda>t.
       if list_ex (\<lambda>p. t_task_type p = SVN_PUBLISH \<and> t_status p = COMPLETED \<and> same_subject t p \<and>
                        is_svn_publish (t_result p)) (db_tasks d)
       then []
       else divergences_with_annotations [''Task.task_type''] ''release_finalise_publication''
              (printed (t_project_key t) @ '' '' @ printed (t_version_key t) @ '' task '' @ str_nat (t_id t))
              (differs (Written (''a usable completed SVN publication of revision '' @ printed (t_revision_number t)))
                 (Written ''none recorded'')))
       (sort_key t_id (sel (\<lambda>t. t_task_type t = RELEASE_FINALISE) (db_tasks d))))"

section \<open>Directories\<close>

text \<open>The names in a directory are the argument \<open>listdir\<close>; an entry of an entry that is a directory.\<close>

definition entry :: "pure_path \<Rightarrow> string \<Rightarrow> pure_path" where
  "entry p name = path_join p (path_parse name)"

definition filesystem_dirs_in :: "'v validate_env \<Rightarrow> (pure_path \<Rightarrow> string list) \<Rightarrow> pure_path \<Rightarrow> pure_path list" where
  "filesystem_dirs_in env listdir base =
     concat (map (\<lambda>project.
       let p = entry base project in
       if ve_is_dir env p
       then filter (ve_is_dir env) (map (entry p) (listdir p)) else []) (listdir base))"

definition get_filesystem_dirs :: "'v validate_env \<Rightarrow> (pure_path \<Rightarrow> string list) \<Rightarrow> string list py" where
  "get_filesystem_dirs env listdir =
     (let rs = ve_resolve env; st = ve_state_dir env;
          dirs = (\<lambda>p. map path_str (filesystem_dirs_in env listdir (sp_path p))) in
      bindE (get_finished_dir rs st) (\<lambda>f.
      bindE (get_embargoed_dir rs st) (\<lambda>e.
      bindE (get_unfinished_dir rs st) (\<lambda>u. Inr (dirs f @ dirs e @ dirs u)))))"

fun consistency_database_dirs :: "'v validate_env \<Rightarrow> release list \<Rightarrow> string list py" where
  "consistency_database_dirs env [] = Inr []"
| "consistency_database_dirs env (r # rs) =
     bindE (release_directory_version (ve_resolve env) (ve_state_dir env) r) (\<lambda>path.
     bindE (consistency_database_dirs env rs) (\<lambda>ds.
       Inr (if r_phase r = RELEASE \<and> \<not> ve_is_dir env (sp_path path) then ds else path_str (sp_path path) # ds)))"

text \<open>The directories that the finalisation of a release still has to remove.\<close>

fun finalised_later :: "'v validate_env \<Rightarrow> (string \<times> string) list \<Rightarrow> release list \<Rightarrow> string list py" where
  "finalised_later env finalising [] = Inr []"
| "finalised_later env finalising (r # rs) =
     (if r_phase r \<noteq> RELEASE \<or> (r_project_key r, r_version r) \<notin> set finalising
      then finalised_later env finalising rs
      else
        bindE (get_unfinished_dir (ve_resolve env) (ve_state_dir env)) (\<lambda>u.
        bindE (divs (ve_resolve env) u [Text (r_project_key r), Text (r_version r)]) (\<lambda>dir.
        bindE (mk_safe ProjectKey (r_project_key r)) (\<lambda>pk.
        bindE (mk_safe VersionKey (r_version r)) (\<lambda>v.
        bindE (get_unfinished_tombstone_for (ve_resolve env) (ve_state_dir env) pk v) (\<lambda>tombstone.
        bindE (finalised_later env finalising rs) (\<lambda>ds.
          Inr (path_str (sp_path dir) # path_str (sp_path tombstone) # ds))))))))"

record consistency_report =
  co_db_only :: "string list"
  co_fs_only :: "string list"
  co_paired :: "string list"

definition consistency :: "'v validate_env \<Rightarrow> (pure_path \<Rightarrow> string list) \<Rightarrow> db \<Rightarrow> consistency_report py" where
  "consistency env listdir d =
     bindE (consistency_database_dirs env (db_releases d)) (\<lambda>db_dirs.
     bindE (guardE (distinct db_dirs) (ValueError ''Duplicate release directories in database'')) (\<lambda>_.
     bindE (get_filesystem_dirs env listdir) (\<lambda>found.
     bindE (finalised_later env (finalising_releases d) (db_releases d)) (\<lambda>later.
       let fs = filter (\<lambda>x. x \<notin> set later) found in
       Inr \<lparr> co_db_only = sort (filter (\<lambda>x. x \<notin> set fs) db_dirs),
             co_fs_only = sort (remdups (filter (\<lambda>x. x \<notin> set db_dirs) fs)),
             co_paired = sort (filter (\<lambda>x. x \<in> set fs) db_dirs) \<rparr>))))"

text \<open>No two releases share a directory, so the comparison never stops at a duplicate.\<close>

lemma segment_normal: "one_segment w \<Longrightarrow> w \<noteq> [] \<and> w \<noteq> ''.'' \<and> CHR ''/'' \<notin> set w"
  unfolding one_segment_def by (metis list.set_intros(1) path_parse_tail pure_path.select_convs(2))

lemma version_directory:
  assumes "release_directory_version rs st r = Inr p" and "release_keys_valid r" and "startswith st ''/''"
  shows "normal_path (sp_path p)"
    and "pp_tail (sp_path p) = pp_tail (path_parse st) @ [release_tree r, r_project_key r, r_version r]"
proof -
  have base: "release_directory_base rs st r = Inr p"
    using assms(1) by (simp add: release_directory_base_def release_directory_version_def)
  show tail: "pp_tail (sp_path p) = pp_tail (path_parse st) @ [release_tree r, r_project_key r, r_version r]"
    by (rule release_directory_base_path [OF base assms(2,3)])
  obtain base where base': "release_root rs st r = Inr base"
    and d: "divs rs base [Text (r_project_key r), Text (r_version r)] = Inr p"
    using assms(1) by (auto simp: release_directory_version_def)
  obtain name where "sp_path base = path_parse name"
    using base' by (cases "r_phase r")
      (auto simp: release_root_def unfinished_root_def get_embargoed_dir_def get_unfinished_dir_def
        get_finished_dir_def storage_dir_def mk_state_Inr split: if_splits)
  then have n: "normal_path (sp_path base)" using normal_parse by simp
  have "sp_path p = sp_path base \<lparr> pp_tail := pp_tail (sp_path base) @
      map operand_text [Text (r_project_key r), Text (r_version r)] \<rparr>"
    by (rule divs_segments [OF d]) (use release_keys_segments [OF assms(2)] in auto)
  then show "normal_path (sp_path p)"
    using n segment_normal release_keys_segments [OF assms(2)] by (auto simp: normal_path_def)
qed

lemma consistency_dirs_in:
  assumes "consistency_database_dirs env rs = Inr ds" and "x \<in> set ds"
  shows "\<exists>r \<in> set rs. \<exists>p. release_directory_version (ve_resolve env) (ve_state_dir env) r = Inr p \<and> x = path_str (sp_path p)"
  using assms
proof (induction rs arbitrary: ds)
  case (Cons r rs)
  then obtain p ds' where "release_directory_version (ve_resolve env) (ve_state_dir env) r = Inr p"
      "consistency_database_dirs env rs = Inr ds'" "x = path_str (sp_path p) \<or> x \<in> set ds'"
    by (auto split: if_splits)
  then show ?case using Cons.IH by auto
qed simp

lemma release_directories_are_distinct:
  assumes "consistency_database_dirs env rs = Inr ds" and "startswith (ve_state_dir env) ''/''"
    and "distinct (map project_version rs)" and "\<And>r. r \<in> set rs \<Longrightarrow> release_keys_valid r"
  shows "distinct ds"
  using assms
proof (induction rs arbitrary: ds)
  case (Cons r rs)
  obtain p ds' where p: "release_directory_version (ve_resolve env) (ve_state_dir env) r = Inr p"
    and ds': "consistency_database_dirs env rs = Inr ds'" and ds: "ds = ds' \<or> ds = path_str (sp_path p) # ds'"
    using Cons.prems(1) by (auto split: if_splits)
  have "path_str (sp_path p) \<notin> set ds'"
  proof
    assume "path_str (sp_path p) \<in> set ds'"
    then obtain r' p' where r': "r' \<in> set rs"
      and p': "release_directory_version (ve_resolve env) (ve_state_dir env) r' = Inr p'"
      and same: "path_str (sp_path p) = path_str (sp_path p')"
      using consistency_dirs_in [OF ds'] by blast
    note v = version_directory [OF p _ Cons.prems(2)] and v' = version_directory [OF p' _ Cons.prems(2)]
    have "sp_path p = sp_path p'" using same path_parse_str v(1) v'(1) Cons.prems(4) r' by (metis list.set_intros(1,2))
    then have "project_version r = project_version r'"
      using v(2) v'(2) Cons.prems(4) r' by (simp add: project_version_def)
    then show False using Cons.prems(3) r' by (metis distinct.simps(2) image_eqI list.map(2) list.set_map)
  qed
  moreover have "distinct ds'" by (rule Cons.IH [OF ds']) (use Cons.prems in auto)
  ultimately show ?case using ds by auto
qed simp

lemma consistency_finds_no_duplicates:
  assumes "reachable test d" and "startswith (ve_state_dir env) ''/''"
    and "\<And>r. r \<in> set (db_releases d) \<Longrightarrow> release_keys_valid r"
    and "consistency_database_dirs env (db_releases d) = Inr ds"
  shows "distinct ds"
  using release_directories_are_distinct [OF assms(4,2) invD(2) [OF reachable_inv [OF assms(1)]] assms(3)] .

end
