(* ===== verification/SshRequests.thy ===== *)
theory SshRequests
  imports Ssh Upkeep
begin

text \<open>
  Who is let in over SSH, what a request may do, and what it does: the rest of src/atr/ssh.py, with the
  sandbox of src/atr/sandbox.py.

  LDAP, the import of keys by asyncssh, the tags of a policy, the file system and the run of rsync are
  parameters; the exit of rsync is part of the outcome \<open>up_files\<close> of an upload.
\<close>

section \<open>Authentication\<close>

text \<open>What the server remembers of a connection; \<open>xe_active\<close> is \<open>ldap.is_active\<close>, which may raise.\<close>

record ssh_conn =
  sc_asf_uid :: "string option"
  sc_payload :: "publisher_payload option"
  sc_project_key :: "safe option"
  sc_read_only :: bool
  sc_source_commit :: "safe option"
  sc_declare_sources :: bool

record ssh_env =
  xe_active :: "string \<Rightarrow> bool py"
  xe_admin_only :: bool
  xe_admin :: admin_env
  xe_importable :: "string list \<Rightarrow> bool"
  xe_tags :: "project \<Rightarrow> (string \<times> string list) list option"

definition new_conn :: ssh_conn where
  "new_conn = \<lparr> sc_asf_uid = None, sc_payload = None, sc_project_key = None, sc_read_only = False,
     sc_source_commit = None, sc_declare_sources = True \<rparr>"

definition connection_made :: "rat \<Rightarrow> string \<Rightarrow> buckets \<Rightarrow> bool \<times> buckets" where
  "connection_made now peer b = rate_limit_check RATE_LIMIT_IP now peer b"

definition github_user :: string where
  "github_user = ''github''"

definition admins_only :: "ssh_env \<Rightarrow> string \<Rightarrow> bool" where
  "admins_only env uid = (xe_admin_only env \<and> \<not> is_admin (xe_admin env) (Some uid))"

text \<open>The keys that asyncssh will accept for the user, \<open>None\<close> when none were set.\<close>

definition begin_auth :: "ssh_env \<Rightarrow> string \<Rightarrow> ssh_key list \<Rightarrow> string list option py" where
  "begin_auth env username keys =
     (if username = github_user then Inr None
      else
        bindE (xe_active env username) (\<lambda>active.
        bindE (guardE active (PermissionDenied ''Account disabled'')) (\<lambda>_.
        bindE (guardE (\<not> admins_only env username)
                 (PermissionDenied ''ATR is currently available to administrators only'')) (\<lambda>_.
          let ks = map sk_key (sel (\<lambda>k. sk_asf_uid k = username) keys) in
          Inr (if ks \<noteq> [] \<and> xe_importable env ks then Some ks else None)))))"

definition auth_completed :: "rat \<Rightarrow> string \<Rightarrow> ssh_conn \<Rightarrow> buckets \<Rightarrow> bool \<times> buckets" where
  "auth_completed now username conn b =
     (case (if username = github_user then sc_asf_uid conn else Some username) of
        None \<Rightarrow> (True, b)
      | Some u \<Rightarrow> if u = [] then (True, b) else rate_limit_check RATE_LIMIT_USER now u b)"

definition GITHUB_TRUSTED_ROLE_NID :: int where
  "GITHUB_TRUSTED_ROLE_NID = 254436773"

definition validate_public_key ::
    "ssh_env \<Rightarrow> int \<Rightarrow> string \<Rightarrow> string \<Rightarrow> workflow_key list \<Rightarrow> ssh_conn \<Rightarrow> (bool \<times> ssh_conn) py" where
  "validate_public_key env now username fingerprint keys conn =
     (if username \<noteq> github_user then Inr (False, conn)
      else
        case sel_one (\<lambda>k. wk_fingerprint k = fingerprint) keys of
          None \<Rightarrow> Inr (False, conn)
        | Some k \<Rightarrow>
            if wk_revoked k then Inr (False, conn)
            else
              let c1 = conn \<lparr> sc_asf_uid := Some (wk_asf_uid k) \<rparr> in
              bindE (xe_active env (wk_asf_uid k)) (\<lambda>active.
                if \<not> active \<or> admins_only env (wk_asf_uid k) \<or> wk_expires k < now then Inr (False, c1)
                else
                  bindE (validate_payload now (wk_payload k)) (\<lambda>p.
                  bindE (mk_safe ProjectKey (wk_project_key k)) (\<lambda>pk.
                  bindE (case wk_source_commit k of
                           None \<Rightarrow> Inr (sc_source_commit c1)
                         | Some h \<Rightarrow> bindE (mk_safe CommitHash h) (\<lambda>x. Inr (Some x))) (\<lambda>commit.
                    Inr (True, c1 \<lparr> sc_payload := Some p, sc_project_key := Some pk,
                                   sc_read_only := (wk_github_nid k = GITHUB_TRUSTED_ROLE_NID),
                                   sc_source_commit := commit, sc_declare_sources := wk_declare_sources k \<rparr>))))))"

definition get_asf_uid :: "string \<Rightarrow> ssh_conn \<Rightarrow> string py" where
  "get_asf_uid username conn =
     (if username = github_user
      then demandE (RsyncArgsError ''GitHub authentication did not resolve ASF UID'') (sc_asf_uid conn)
      else Inr username)"

definition get_github_project_key :: "string \<Rightarrow> ssh_conn \<Rightarrow> safe option py" where
  "get_github_project_key username conn =
     (if username = github_user
      then bindE (demandE (RsyncArgsError ''GitHub authentication did not resolve a project'') (sc_project_key conn))
             (\<lambda>pk. Inr (Some pk))
      else Inr None)"

section \<open>Permissions\<close>

definition read_permissions ::
    "ssh_env \<Rightarrow> db \<Rightarrow> string \<Rightarrow> project \<Rightarrow> release option \<Rightarrow> string option \<Rightarrow> bool \<Rightarrow> (release \<times> string list option) py" where
  "read_permissions env d ssh_uid p found tag github_read_only =
     bindE (demandE (RsyncArgsError ''Release does not exist'') found) (\<lambda>r.
     bindE (guardE (r_phase r \<in> {RELEASE_CANDIDATE_DRAFT, RELEASE_CANDIDATE, RELEASE_PREVIEW})
              (RsyncArgsError ''Release is not in a readable phase'')) (\<lambda>_.
     bindE (guardE (\<not> (github_read_only \<and> is_embargoed r \<and> r_phase r \<noteq> RELEASE_PREVIEW))
              (RsyncArgsError ''Release is embargoed, so this workflow key cannot download it'')) (\<lambda>_.
     bindE (guardE (if is_embargoed r
                    then \<not> embargo_hides_release (xe_admin env) (is_embargoed r) (release_committee d r) (Some ssh_uid) False
                    else is_committer (project_committee d p) ssh_uid)
              (RsyncArgsError ''You must be a committer or committee member to read this release'')) (\<lambda>_.
       case tag of
         None \<Rightarrow> Inr (r, None)
       | Some t \<Rightarrow>
           if t = [] then Inr (r, None)
           else
             let mappings = (case release_project d r of None \<Rightarrow> None | Some q \<Rightarrow> xe_tags env q) in
             bindE (guardE (mappings \<noteq> None \<and> mappings \<noteq> Some []) (RsyncArgsError ''Release does not support tags'')) (\<lambda>_.
             bindE (demandE (RsyncArgsError ''Tag is not allowed'') (map_of (the mappings) t)) (\<lambda>patterns.
             bindE (guardE (\<not> occurs ''..'' (concat patterns)) (RsyncArgsError ''Tag is misconfigured'')) (\<lambda>_.
               Inr (r, Some patterns))))))))"

definition write_permissions :: "db \<Rightarrow> string \<Rightarrow> project \<Rightarrow> release option \<Rightarrow> unit py" where
  "write_permissions d ssh_uid p found =
     (case found of
        None \<Rightarrow> guardE (is_committee_member (project_committee d p) ssh_uid)
                  (RsyncArgsError ''You must be a member of the committee to create a release'')
      | Some r \<Rightarrow>
          bindE (guardE (r_phase r = RELEASE_CANDIDATE_DRAFT)
                   (RsyncArgsError ''Cannot upload: the release is no longer in draft phase'')) (\<lambda>_.
            guardE (is_committer (project_committee d p) ssh_uid)
              (RsyncArgsError ''You must be a committer or committee member to upload to this release'')))"

section \<open>Requests\<close>

text \<open>What is left to do: send the files of a release, those of a tag, or receive files for a version.\<close>

datatype ssh_plan = Send release "string list option" | Receive safe safe

definition active_project :: "db \<Rightarrow> safe \<Rightarrow> project option" where
  "active_project d pk = sel_one (\<lambda>p. p_key p = s_value pk \<and> p_status p = PS_ACTIVE) (db_projects d)"

text \<open>\<open>_step_04_command_validate\<close>, its part after the path.\<close>

definition request_validate ::
    "ssh_env \<Rightarrow> string \<Rightarrow> ssh_conn \<Rightarrow> db \<Rightarrow> bool \<Rightarrow> safe \<Rightarrow> safe \<Rightarrow> string option \<Rightarrow> ssh_plan py" where
  "request_validate env username conn d is_read pk v tag =
     bindE (get_github_project_key username conn) (\<lambda>workflow.
     bindE (guardE (case workflow of None \<Rightarrow> True | Some w \<Rightarrow> safe_eq pk w)
              (RsyncArgsError ''This workflow key can only be used for its project'')) (\<lambda>_.
     bindE (guardE (\<not> (\<not> is_read \<and> sc_read_only conn))
              (RsyncArgsError ''This workflow key can only be used to download files'')) (\<lambda>_.
     bindE (get_asf_uid username conn) (\<lambda>ssh_uid.
     bindE (demandE (RsyncArgsError ''Project does not exist'') (active_project d pk)) (\<lambda>p.
       let found = release_get d (s_value pk) (s_value v) in
       if is_read
       then bindE (read_permissions env d ssh_uid p found tag (sc_read_only conn)) (\<lambda>(r, patterns).
              Inr (Send r patterns))
       else bindE (write_permissions d ssh_uid p found) (\<lambda>_. Inr (Receive pk v)))))))"

definition command_validate :: "ssh_env \<Rightarrow> string \<Rightarrow> ssh_conn \<Rightarrow> db \<Rightarrow> string list \<Rightarrow> bool \<Rightarrow> ssh_plan py" where
  "command_validate env username conn d argv is_read =
     (if is_read
      then bindE (path_validate_read (last argv)) (\<lambda>(pk, v, tag). request_validate env username conn d True pk v tag)
      else bindE (path_validate_write (last argv)) (\<lambda>(pk, v). request_validate env username conn d False pk v None))"

definition handle_safely :: "ssh_env \<Rightarrow> string \<Rightarrow> ssh_conn \<Rightarrow> db \<Rightarrow> string \<Rightarrow> (string list \<times> ssh_plan) py" where
  "handle_safely env username conn d command =
     bindE (get_asf_uid username conn) (\<lambda>asf_uid.
     bindE (xe_active env asf_uid) (\<lambda>active.
     bindE (guardE active (RsyncArgsError ''Account disabled'')) (\<lambda>_.
     bindE (guardE (command \<noteq> []) (RsyncArgsError ''No command specified'')) (\<lambda>_.
       let argv = split_ws command in
       bindE (command_simple_validate argv) (\<lambda>is_read.
       bindE (command_validate env username conn d argv is_read) (\<lambda>plan. Inr (argv, plan)))))))"

section \<open>The sandbox\<close>

definition LIST_ACCESSES :: string where
  "LIST_ACCESSES = ''read-dir''"

definition RO_ACCESSES :: string where
  "RO_ACCESSES = ''read-file,read-dir''"

definition RW_ACCESSES :: string where
  "RW_ACCESSES = ''read-file,read-dir,write-file,truncate,refer,'' @
     ''make-reg,make-dir,make-sym,make-fifo,make-sock,make-char,make-block,'' @ ''remove-file,remove-dir''"

definition SYSTEM_ACCESSES :: string where
  "SYSTEM_ACCESSES = ''execute,read-file,read-dir''"

definition SYSTEM_PATHS :: "string list" where
  "SYSTEM_PATHS = [''/bin'', ''/etc'', ''/lib'', ''/lib64'', ''/sbin'', ''/usr'']"

definition landlock_rule :: "string \<Rightarrow> string \<Rightarrow> string list" where
  "landlock_rule accesses path = [''--landlock-rule'', ''path-beneath:'' @ accesses @ '':'' @ path]"

text \<open>\<open>setpriv\<close> is what \<open>landlock_setpriv\<close> finds; without it the command runs as it is.\<close>

definition sandbox_command ::
    "string option \<Rightarrow> (string \<Rightarrow> bool) \<Rightarrow> string list \<Rightarrow> string list \<Rightarrow> string list \<Rightarrow> string list \<Rightarrow> string list" where
  "sandbox_command setpriv exists argv list_paths ro_paths rw_paths =
     (case setpriv of
        None \<Rightarrow> argv
      | Some sp \<Rightarrow>
          [sp, ''--landlock-access'', ''fs''] @
          concat (map (landlock_rule SYSTEM_ACCESSES) (filter exists SYSTEM_PATHS)) @
          concat (map (landlock_rule LIST_ACCESSES) list_paths) @
          concat (map (landlock_rule RO_ACCESSES) ro_paths) @
          concat (map (landlock_rule RW_ACCESSES) rw_paths) @ [''--''] @ argv)"

definition rsync_command ::
    "string option \<Rightarrow> (string \<Rightarrow> bool) \<Rightarrow> string list \<Rightarrow> string list \<Rightarrow> string list \<Rightarrow> string list" where
  "rsync_command setpriv exists argv ro_paths rw_paths = sandbox_command setpriv exists argv [''/''] ro_paths rw_paths"

section \<open>What is run\<close>

text \<open>
  \<open>_step_07a_process_validated_rsync_read\<close> up to the run: \<open>glob\<close> gives the files that match a pattern.
  Any exception there is raised again as one of the arguments.
\<close>

record file_env =
  fe_resolve :: "pure_path \<Rightarrow> pure_path"
  fe_state_dir :: string
  fe_is_dir :: "string \<Rightarrow> bool"
  fe_exists :: "string \<Rightarrow> bool"
  fe_glob :: "string \<Rightarrow> string list"
  fe_setpriv :: "string option"

definition with_slash :: "string \<Rightarrow> string" where
  "with_slash s = (if endswith s ''/'' then s else s @ ''/'')"

definition internal_error :: "'a py \<Rightarrow> 'a py" where
  "internal_error m =
     (case m of Inl e \<Rightarrow> Inl (RsyncArgsError ''Internal error processing read request'') | Inr x \<Rightarrow> Inr x)"

definition read_argv :: "file_env \<Rightarrow> db \<Rightarrow> string list \<Rightarrow> release \<Rightarrow> string list option \<Rightarrow> string list py" where
  "read_argv fs d argv r patterns =
     internal_error
       (bindE (release_directory (fe_resolve fs) (fe_state_dir fs) d r) (\<lambda>dir.
          let source_dir = path_str (sp_path dir) in
          bindE (guardE (fe_is_dir fs source_dir) (RsyncArgsError ''Source directory not found'')) (\<lambda>_.
          bindE (case patterns of
                   None \<Rightarrow> Inr (butlast argv @ [with_slash source_dir])
                 | Some ps \<Rightarrow>
                     let files = concat (map (\<lambda>p. fe_glob fs (source_dir @ ''/'' @ p)) ps) in
                     bindE (guardE (files \<noteq> []) (RsyncArgsError ''No files match the tag'')) (\<lambda>_.
                       Inr (butlast argv @ files))) (\<lambda>argv1.
            Inr (rsync_command (fe_setpriv fs) (fe_exists fs) argv1 [source_dir] [])))))"

definition write_argv :: "file_env \<Rightarrow> string list \<Rightarrow> string \<Rightarrow> string list py" where
  "write_argv fs argv path =
     bindE (build_rsync_write_argv argv) (\<lambda>rsync_argv.
       Inr (rsync_command (fe_setpriv fs) (fe_exists fs) rsync_argv [] [path]))"

text \<open>
  \<open>_step_07b_process_validated_rsync_write\<close>: the release, then the role of a participant (\<open>role\<close>, the
  committee), then the revision.  A failed rsync is a FailedError, which is caught.  The release stays
  when a later step fails.
\<close>

definition process_write ::
    "request \<Rightarrow> upload \<Rightarrow> string py \<Rightarrow> db \<Rightarrow> string \<Rightarrow> string \<Rightarrow> created option py \<times> db" where
  "process_write rq u role d pk v =
     (case ensure_release_object_for_write (rq_now rq) d pk v of
        Inl e \<Rightarrow> (Inl e, d)
      | Inr d1 \<Rightarrow>
          (case bindE role (\<lambda>ck. create_revision rq u d1 ck pk v (rq_asf_uid rq)) of
             Inl (FailedError m) \<Rightarrow> (Inr None, d1)
           | Inl e \<Rightarrow> (Inl e, d1)
           | Inr (c, d2) \<Rightarrow> (Inr (Some c), d2)))"

section \<open>Properties\<close>


text \<open>Ann is a committer of tooling, whose version 1.0 is a draft; bob is not.\<close>

definition open_env :: ssh_env where
  "open_env = \<lparr> xe_active = (\<lambda>uid. Inr (uid \<noteq> ''eve'')), xe_admin_only = False,
     xe_admin = \<lparr> is_test_mode = False, session_downgraded = False, admin_users_additional = None, admins_cached = [] \<rparr>,
     xe_importable = (\<lambda>_. True), xe_tags = (\<lambda>_. None) \<rparr>"

definition upload_command :: string where
  "upload_command = ''rsync --server -vlogDtpre.iLsfxCIvu --delete . /tooling/1.0/''"

definition tooling_db :: db where
  "tooling_db = no_rows
     \<lparr> db_committees := [\<lparr> c_key = ''tooling'', c_name = None, c_is_podling = False, c_is_archived = False,
         c_committee_members = [''ann''], c_committers = [''ann'', ''cleo''], c_release_managers = [] \<rparr>],
       db_projects := [\<lparr> p_key = ''tooling'', p_name = None, p_status = PS_ACTIVE, p_committee_key = Some ''tooling'',
         p_release_policy = None \<rparr>] \<rparr>"


text \<open>The revision that follows an upload takes one step of the lifecycle, or two with a quarantine.\<close>

lemma quarantine_stage_get:
  assumes "quarantine_stage rq u d uid rk prior = Inr (qid, d')"
  shows "\<exists>q. quarantined_get d' qid = Some q \<and> q_status q = Q_STAGING"
proof -
  let ?i = "next_id q_id (db_quarantined d)"
  have fresh: "\<not> q_id x = ?i" if "x \<in> set (db_quarantined d)" for x
    using next_id_fresh [of q_id "db_quarantined d"] that by (metis imageI)
  then have none: "filter (\<lambda>x. q_id x = ?i) (db_quarantined d) = []" by (simp add: filter_empty_conv)
  show ?thesis
    using assms none by (auto simp: quarantine_stage_def Let_def bindE_Inr_iff quarantined_get_def sel_one_def sel_def)
qed

lemma locked_in_quarantine:
  assumes "create_revision_locked rq u d uid rk old = Inr (IN_QUARANTINE qid, d')"
  shows "\<exists>q. quarantined_get d' qid = Some q \<and> q_status q = Q_STAGING"
proof -
  obtain d1 rk' prior where "quarantine_stage rq u d1 uid rk' prior = Inr (qid, d')"
    using assms unfolding create_revision_locked_def Let_def
    by (auto simp: bindE_Inr_iff split: prod.splits if_splits)
  then show ?thesis by (rule quarantine_stage_get)
qed

lemma create_revision_steps:
  assumes create: "create_revision rq u d ck pk v uid = Inr (c, d')"
    and phases: "up_allowed_phases u = [RELEASE_CANDIDATE_DRAFT]"
  shows "(step test)\<^sup>*\<^sup>* d d'"
proof -
  obtain y where y: "create_revision_prepare rq u d ck pk v = Inr y"
    using create by (cases "create_revision_prepare rq u d ck pk v") (simp_all add: create_revision_def)
  obtain rk old where y': "y = (rk, old)" by (cases y)
  obtain z where z: "create_revision_locked rq u d uid rk old = Inr z"
    using create y y' by (cases "create_revision_locked rq u d uid rk old") (simp_all add: create_revision_def)
  obtain c0 d1 where c0: "z = (c0, d1)" by (cases z)
  have rest: "(case c0 of CREATED _ \<Rightarrow> Inr (c0, d1)
      | IN_QUARANTINE qid \<Rightarrow> Inr (c0, quarantine_queue rq d1 uid pk v qid)) = (Inr (c, d') :: (created \<times> db) py)"
    using create y y' z c0 by (simp add: create_revision_def)
  have locked: "create_revision_locked rq u d uid rk old = Inr (c, d1)"
    and d': "d' = (case c of CREATED _ \<Rightarrow> d1 | IN_QUARANTINE qid \<Rightarrow> quarantine_queue rq d1 uid pk v qid)"
    using z c0 rest by (auto split: created.splits)
  have one: "step test d d1" by (rule step.Create_revision [OF locked phases])
  show ?thesis
  proof (cases c)
    case (CREATED new)
    then show ?thesis using one d' by simp
  next
    case (IN_QUARANTINE qid)
    obtain q where "quarantined_get d1 qid = Some q" "q_status q = Q_STAGING"
      using locked_in_quarantine locked unfolding IN_QUARANTINE by blast
    then have "step test d1 (quarantine_queue rq d1 uid pk v qid)" by (rule step.Quarantine_queue)
    then show ?thesis using one d' IN_QUARANTINE by simp
  qed
qed

lemma process_write_steps:
  assumes sent: "process_write rq u role d pk v = (res, d')" and phases: "up_allowed_phases u = [RELEASE_CANDIDATE_DRAFT]"
  shows "(step test)\<^sup>*\<^sup>* d d'"
proof (cases "ensure_release_object_for_write (rq_now rq) d pk v")
  case (Inl e)
  then show ?thesis using sent by (simp add: process_write_def)
next
  case (Inr d1)
  have made: "step test d d1" by (rule step.Ssh_start [OF Inr])
  show ?thesis
  proof (cases "bindE role (\<lambda>ck. create_revision rq u d1 ck pk v (rq_asf_uid rq))")
    case (Inl e)
    then have "d' = d1" using sent Inr by (cases e) (simp_all add: process_write_def)
    then show ?thesis using made by simp
  next
    case created: (Inr y)
    obtain c d2 where y: "y = (c, d2)" by (cases y)
    then obtain ck where "create_revision rq u d1 ck pk v (rq_asf_uid rq) = Inr (c, d2)"
      using created by (auto simp: bindE_Inr_iff)
    then have "(step test)\<^sup>*\<^sup>* d1 d2" by (rule create_revision_steps [OF _ phases])
    moreover have "d' = d2" using sent Inr created y by (simp add: process_write_def)
    ultimately show ?thesis using made by (simp add: converse_rtranclp_into_rtranclp)
  qed
qed


text \<open>The upload of Ann, once when all goes well and once when rsync fails: the new release stays.\<close>

definition ann_request :: request where
  "ann_request = \<lparr> rq_asf_uid = ''ann'', rq_now = 100, rq_member_of = [''tooling''], rq_admin = xe_admin open_env,
     rq_production = True, rq_app_host = ''host'', rq_presentations_bypass = False, rq_svn_publish_url = None \<rparr>"

definition broken_upload :: upload where
  "broken_upload = plain_upload \<lparr> up_files := Inl (FailedError ''rsync upload failed'') \<rparr>"


text \<open>
  An upload files every release under the default cycle, also where the project's scheme puts its version
  elsewhere; the consistency check of the cycles then objects.
\<close>

definition yearly_env :: "nat validate_env" where
  "yearly_env = tidy_env
     \<lparr> ve_cycles := plain_cycle_env \<lparr> ce_compile := (\<lambda>_. Some (\<lambda>version. Some [Some (take 4 version)])) \<rparr>,
       ve_columns := (\<lambda>_. calendar_project \<lparr> cp_cycle_match := Some ''([0-9]{4})'' \<rparr>) \<rparr>"

lemma uploads_ignore_the_cycle:
  "(let d = snd (process_write ann_request plain_upload (Inr ''tooling'') tooling_db ''tooling'' ''2024.05'') in
    map r_cycle_key (db_releases d) = [''tooling-default''] \<and> [] \<notin> set (map (release_cycle yearly_env d) (db_releases d)))"
  by code_simp

end
