(* ===== verification/Spec2Isabelle.thy ===== *)
theory Spec2Isabelle
  imports Noisy Tabulate Progress Merge Cycles Workers SortKey Access SshRequests
begin

text \<open>
  Apache Trusted Releases (src/atr): the platform on which the projects of the Apache Software
  Foundation compose, vote on and announce releases.

  \<^bold>\<open>The program.\<close>  A project's members upload files, which become numbered revisions of a draft
  (storage/writers/revision.py); a vote is started on the latest revision (release.py, vote.py), by
  email or with trusted ballots, in two rounds for a podling; a resolution turns the candidate into
  a preview or back into a draft; a preview is published to SVN and announced (announce.py), which
  makes it a release and archives the one it supersedes in its cycle (cycles.py).  The tables are in
  models/sql.py.  The requests reach the writers through roles (storage/__init__.py, principal.py),
  slow work is queued in the task table and done by worker processes under a manager (worker.py,
  manager.py), files live under one state directory (paths.py, models/safe.py), and concurrent
  uploads are merged (merge.py).

  \<^bold>\<open>The model.\<close>  A table is a list of records in insertion order and the database (\<open>db\<close>) a record of
  tables; a relationship of the ORM is its foreign key and a query a filter with the order and limit
  the code writes.  An operation is a function to \<open>'a py\<close>: \<open>Inl e\<close> is the exception \<open>e\<close>, after which the
  transaction is rolled back and the old database stands, and \<open>Inr (x, d)\<close> returns \<open>x\<close> and commits \<open>d\<close>.
  One definition is one transaction; where the code reads, waits and writes in another transaction
  there are two definitions, and other steps may come between them.  What the program learns from
  outside (clock, file system, LDAP, mail archive, SVN, random bytes, the re2 and semver packages)
  is an argument, and each theory says what it asks of it.

  \<^bold>\<open>Theories.\<close>

  \<^item> \<open>Prelude\<close>, \<open>PyStr\<close>: errors as values, the queries and updates of a table (locale \<open>keyed_table\<close>), and
    Python's methods on strings.
  \<^item> \<open>Sql\<close>, \<open>Store\<close>: the enumerations, rows and computed attributes of models/sql.py, the keys of
    releases and revisions, counters, and the deletions that the schema cascades.
  \<^item> \<open>User\<close>, \<open>Writers\<close>: who votes with a binding vote and who sees an embargoed release (user.py); the
    guards, task queries and task queueing that the writers share (storage/__init__.py,
    db/interaction.py, catalog_site.py).
  \<^item> \<open>ReleaseOps\<close>, \<open>RevisionOps\<close>, \<open>VoteOps\<close>, \<open>AnnounceOps\<close>: the writers of release.py, revision.py with
    tasks/quarantine.py, vote.py, and announce.py with the archived flag of catalogue.py.
  \<^item> \<open>Invariant\<close>, \<open>PreserveReleases\<close>, \<open>PreserveVotes\<close>: the consistency of the tables (\<open>db_ok\<close>) and that
    each operation keeps it.  \<open>Moves\<close>, \<open>Evolve\<close>: how each operation may change a row.  \<open>Lifecycle\<close>: the
    whole as a transition system with one step per transaction, an instance of the locale
    \<open>step_system\<close>; \<open>Run\<close>: one concrete life of a release, on which the theorems are applied.
  \<^item> \<open>Safety\<close>, \<open>Outcomes\<close>, \<open>Resolution\<close>, \<open>Voting\<close>, \<open>Progress\<close>: what holds in every reachable state and of
    every operation there: the phases, the numbers of revisions and votes, what a vote is about and
    when it passes, what is announced, and that a decided vote can be resolved.
  \<^item> \<open>Tabulate\<close>, \<open>Ballots\<close>: votes read from an email thread (tabulate.py) and from ballot papers
    (db/interaction.py).
  \<^item> \<open>Calver\<close>, \<open>Cycles\<close>, \<open>SortKey\<close>: date formats of versions (models/calver.py), the cycle of a version
    and what it supersedes (cycles.py), the sort keys of versions (util.py).
  \<^item> \<open>Merge\<close>: the three-way merge of merge.py and its refinement of a merge of contents.
  \<^item> \<open>TaskQueue\<close>, \<open>Workers\<close>: claims on tasks, their recovery, and the pool, as a second transition system
    in which the steps of any number of processes interleave.
  \<^item> \<open>Safe\<close>, \<open>Paths\<close>: validated strings and paths that cannot leave the state directory (models/safe.py),
    and the directories of releases (paths.py).
  \<^item> \<open>Principal\<close>, \<open>Access\<close>: memberships from LDAP and their cache (principal.py), and the roles that the
    storage hands out (storage/__init__.py).
  \<^item> \<open>Validate\<close>, \<open>Upkeep\<close>: the program's own consistency checks (validate.py), and that they find nothing
    on the reachable states but what the writers do not decide.
  \<^item> \<open>IpNet\<close>, \<open>Tokens\<close>: networks of addresses, personal access tokens and the bearer tokens made from them
    (storage/writers/tokens.py, jwtoken.py), with their revocation.
  \<^item> \<open>Sessions\<close>, \<open>Credentials\<close>: the sessions of the browser and the check of accounts before each request
    (sessions.py, server.py); SSH keys, trusted publishers' tokens, the index of addresses, the events of
    the LDAP directory and the clearance of what expired (storage/writers/ssh.py, cache.py, ldap.py,
    tasks/maintenance.py), with what is left of an account that was closed.
  \<^item> \<open>Ssh\<close>, \<open>SshRequests\<close>: uploads and downloads over SSH (ssh.py, sandbox.py): the rate limits, the
    command and its path, who is let in and to what, what rsync is run with, and that an upload is a run
    of the lifecycle.
  \<^item> \<open>Noisy\<close>: check-summed API secrets (noisy.py), with the arithmetic of its checksum over the field of
    37 elements.

  \<^bold>\<open>Bounds.\<close>  Python's integers are unbounded and are \<open>int\<close> or \<open>nat\<close> here; the columns of the database
  hold no value that wraps.  \<open>SortKey\<close> writes out the two bytes of a digit count.  No definition runs on
  fuel: every loop of the modelled code is a recursion with a termination proof, the loop over the
  pool of the manager included.

  \<^bold>\<open>Not modelled.\<close>  Pages and their forms, the HTTP API and the admin pages call the writers and show
  what they return; the checks of archives, the SBOM tools and the signatures work on bytes through
  external packages, as do the transport of SSH and rsync; the writers of OpenPGP keys, policies,
  distributions and notifications change tables that the life of a release does not read.  Migrations,
  scripts and tests are outside.  Permissions of directories, logging and the audit log are left out of
  the modelled components.
\<close>

end
